(* ===== verification/Mosn_Prelude.thy ===== *)
theory Mosn_Prelude
  imports Main "HOL-Library.Word"
begin

text \<open>
  Shared vocabulary of the development: Go run-time panics as values, Go slice
  expressions and \<open>copy\<close> on lists, big-endian integers, and the lemma collections
  that the component theories feed.
\<close>

named_theorems go_defs \<open>unfolding of the Go primitives\<close>
named_theorems go_outcome \<open>inversion of chained outcomes\<close>

section \<open>Panics and outcomes\<close>

text \<open>
  A Go function that may panic returns an \<open>outcome\<close>: \<open>Inl\<close> carries the panic,
  \<open>Inr\<close> the value. Ordinary Go errors (\<open>error\<close> results) are part of the value.
\<close>

datatype go_panic =
    IndexOutOfRange
  | SliceBoundsOutOfRange
  | NilDereference
  | IntegerDivideByZero
  | FailedTypeAssertion
  | MakeSliceLen
  | ExplicitPanic string

type_synonym 'a outcome = "go_panic + 'a"

definition obind :: "'a outcome \<Rightarrow> ('a \<Rightarrow> 'b outcome) \<Rightarrow> 'b outcome" where
  "obind m f = (case m of Inl p \<Rightarrow> Inl p | Inr x \<Rightarrow> f x)"

lemma obind_Inr [simp]: "obind (Inr x) f = f x"
  by (simp add: obind_def)

lemma obind_Inl [simp]: "obind (Inl p) f = Inl p"
  by (simp add: obind_def)

lemma obind_eq_Inr [go_outcome]:
  "obind m f = Inr y \<longleftrightarrow> (\<exists>x. m = Inr x \<and> f x = Inr y)"
  by (cases m) auto

lemma obind_eq_Inl [go_outcome]:
  "obind m f = Inl p \<longleftrightarrow> m = Inl p \<or> (\<exists>x. m = Inr x \<and> f x = Inl p)"
  by (cases m) auto

lemma case_err_Inr [go_outcome]:
  "(case r of Inl e \<Rightarrow> Inr (Inl e) | Inr x \<Rightarrow> f x) = (Inr (Inr y) :: ('e + 'a) outcome) \<longleftrightarrow>
     (\<exists>x. r = Inr x \<and> f x = Inr (Inr y))"
  by (cases r) auto

lemma obind_assoc: "obind (obind m f) g = obind m (\<lambda>x. obind (f x) g)"
  by (cases m) auto

lemma obind_cong [fundef_cong]:
  "m = m' \<Longrightarrow> (\<And>x. m' = Inr x \<Longrightarrow> f x = f' x) \<Longrightarrow> obind m f = obind m' f'"
  by (cases m') auto

section \<open>Slices as lists\<close>

text \<open>
  \<open>go_slice xs i j\<close> is the slice expression \<open>xs[i:j]\<close>, where \<open>xs\<close> lists the
  elements up to the capacity of the operand. \<open>go_index\<close> is \<open>xs[i]\<close>, and
  \<open>go_copy dst src\<close> is what \<open>dst\<close> holds after \<open>copy(dst, src)\<close>.
\<close>

definition go_slice :: "'a list \<Rightarrow> int \<Rightarrow> int \<Rightarrow> 'a list outcome" where
  "go_slice xs i j =
     (if 0 \<le> i \<and> i \<le> j \<and> j \<le> int (length xs)
      then Inr (take (nat (j - i)) (drop (nat i) xs))
      else Inl SliceBoundsOutOfRange)"

definition go_index :: "'a list \<Rightarrow> int \<Rightarrow> 'a outcome" where
  "go_index xs i =
     (if 0 \<le> i \<and> i < int (length xs) then Inr (xs ! nat i) else Inl IndexOutOfRange)"

definition go_copy :: "'a list \<Rightarrow> 'a list \<Rightarrow> 'a list" where
  "go_copy dst src = take (length dst) src @ drop (length src) dst"

lemma length_go_copy [simp]: "length (go_copy dst src) = length dst"
  by (simp add: go_copy_def)

lemma take_go_copy_le: "n \<le> length src \<Longrightarrow> n \<le> length dst \<Longrightarrow> take n (go_copy dst src) = take n src"
  by (simp add: go_copy_def min_def)

lemma go_copy_fits: "length src \<le> length dst \<Longrightarrow> go_copy dst src = src @ drop (length src) dst"
  by (simp add: go_copy_def)

lemma go_slice_ok [simp]:
  "0 \<le> i \<Longrightarrow> i \<le> j \<Longrightarrow> j \<le> int (length xs) \<Longrightarrow>
     go_slice xs i j = Inr (take (nat (j - i)) (drop (nat i) xs))"
  by (simp add: go_slice_def)

lemma go_slice_InrD [go_outcome]:
  "go_slice xs i j = Inr ys \<longleftrightarrow>
     0 \<le> i \<and> i \<le> j \<and> j \<le> int (length xs) \<and> ys = take (nat (j - i)) (drop (nat i) xs)"
  by (auto simp: go_slice_def)

lemma length_go_slice: "go_slice xs i j = Inr ys \<Longrightarrow> int (length ys) = j - i"
  by (auto simp: go_outcome)

lemma go_index_ok [simp]: "0 \<le> i \<Longrightarrow> i < int (length xs) \<Longrightarrow> go_index xs i = Inr (xs ! nat i)"
  by (simp add: go_index_def)

section \<open>Bytes, strings and slices with capacity\<close>

text \<open>
  Go strings are byte sequences; the models use HOL strings, whose characters are bytes.
\<close>

type_synonym byte = "8 word"

definition byte_of_char :: "char \<Rightarrow> byte" where
  "byte_of_char c = word_of_nat (of_char c)"

definition char_of_byte :: "byte \<Rightarrow> char" where
  "char_of_byte b = char_of (unat b)"

definition bytes_of_string :: "string \<Rightarrow> byte list" where
  "bytes_of_string s = map byte_of_char s"

definition string_of_bytes :: "byte list \<Rightarrow> string" where
  "string_of_bytes bs = map char_of_byte bs"

lemma char_of_byte_of_char [simp]: "char_of_byte (byte_of_char c) = c"
proof -
  have "of_char c < (256 :: nat)" by (cases c) (simp add: of_char_def horner_sum_bound nat_of_char_less_256)
  then show ?thesis by (simp add: char_of_byte_def byte_of_char_def unat_of_nat)
qed

lemma byte_of_char_of_byte [simp]: "byte_of_char (char_of_byte b) = b"
proof -
  have "unat b < 256" using unsigned_less [of b] by simp
  then show ?thesis by (simp add: char_of_byte_def byte_of_char_def)
qed

lemma string_bytes_inverse [simp]: "string_of_bytes (bytes_of_string s) = s"
  by (simp add: string_of_bytes_def bytes_of_string_def comp_def)

lemma bytes_string_inverse [simp]: "bytes_of_string (string_of_bytes bs) = bs"
  by (simp add: string_of_bytes_def bytes_of_string_def comp_def)

lemma length_bytes_of_string [simp]: "length (bytes_of_string s) = length s"
  by (simp add: bytes_of_string_def)

text \<open>
  A byte slice with its capacity: the elements up to its length, and those of the array
  behind it up to its capacity. A slice expression may reach into the latter.
\<close>

datatype bslice = NilB | B "byte list" "byte list"

fun bs_vis :: "bslice \<Rightarrow> byte list" where
  "bs_vis NilB = []"
| "bs_vis (B v x) = v"

fun bs_extra :: "bslice \<Rightarrow> byte list" where
  "bs_extra NilB = []"
| "bs_extra (B v x) = x"

abbreviation bs_len :: "bslice \<Rightarrow> nat" where "bs_len s \<equiv> length (bs_vis s)"

definition bs_slice :: "bslice \<Rightarrow> nat \<Rightarrow> nat \<Rightarrow> bslice outcome" where
  "bs_slice s i j =
     (let al = bs_vis s @ bs_extra s in
      if i \<le> j \<and> j \<le> length al
      then Inr (B (take (j - i) (drop i al)) (drop j al)) else Inl SliceBoundsOutOfRange)"

definition bs_from :: "bslice \<Rightarrow> nat \<Rightarrow> bslice outcome" where
  "bs_from s i =
     (if i \<le> bs_len s then Inr (B (drop i (bs_vis s)) (bs_extra s)) else Inl SliceBoundsOutOfRange)"

section \<open>Big-endian integers\<close>

text \<open>\<open>binary.BigEndian\<close>: the most significant byte first.\<close>

definition PutUint16 :: "16 word \<Rightarrow> byte list" where
  "PutUint16 v = [ucast (drop_bit 8 v), ucast v]"

definition PutUint32 :: "32 word \<Rightarrow> byte list" where
  "PutUint32 v = [ucast (drop_bit 24 v), ucast (drop_bit 16 v), ucast (drop_bit 8 v), ucast v]"

fun Uint16 :: "byte list \<Rightarrow> 16 word" where
  "Uint16 (a # b # _) = or (ucast b) (push_bit 8 (ucast a))"
| "Uint16 _ = 0"

fun Uint32 :: "byte list \<Rightarrow> 32 word" where
  "Uint32 (a # b # c # d # _) =
     or (or (or (ucast d) (push_bit 8 (ucast c))) (push_bit 16 (ucast b))) (push_bit 24 (ucast a))"
| "Uint32 _ = 0"

lemma length_PutUint [simp]: "length (PutUint16 v) = 2" "length (PutUint32 w) = 4"
  by (simp_all add: PutUint16_def PutUint32_def)

lemma Uint16_PutUint16 [simp]: "Uint16 (PutUint16 v @ r) = v"
  by (rule bit_word_eqI) (auto simp: PutUint16_def bit_simps)

lemma Uint32_PutUint32 [simp]: "Uint32 (PutUint32 v @ r) = v"
proof (rule bit_word_eqI)
  fix n
  assume "n < LENGTH(32)"
  then consider "n < 8" | "8 \<le> n" "n < 16" | "16 \<le> n" "n < 24" | "24 \<le> n" "n < 32"
    by (simp, linarith)
  then show "bit (Uint32 (PutUint32 v @ r)) n = bit v n"
    by cases (auto simp: PutUint32_def bit_simps)
qed

lemma Uint_PutUint [simp]: "Uint16 (PutUint16 v) = v" "Uint32 (PutUint32 w) = w"
  using Uint16_PutUint16 [of v "[]"] Uint32_PutUint32 [of w "[]"] by simp_all

text \<open>\<open>strings.ToLower\<close>, on ASCII text.\<close>

definition lower_char :: "char \<Rightarrow> char" where
  "lower_char c = (let k = of_char c :: nat in if 65 \<le> k \<and> k \<le> 90 then char_of (k + 32) else c)"

definition ToLower :: "string \<Rightarrow> string" where
  "ToLower s = map lower_char s"

text \<open>\<open>strings.Split\<close> with a separator of one character.\<close>

fun Split :: "char \<Rightarrow> string \<Rightarrow> string list" where
  "Split sep [] = [[]]"
| "Split sep (c # cs) =
     (if c = sep then [] # Split sep cs
      else (case Split sep cs of w # ws \<Rightarrow> (c # w) # ws | [] \<Rightarrow> [[c]]))"

text \<open>The response flags that several components set (\<open>pkg/types/request.go\<close>).\<close>

definition NoHealthyUpstream :: "64 word" where "NoHealthyUpstream = 0x2"
definition UpstreamRequestTimeout :: "64 word" where "UpstreamRequestTimeout = 0x4"
definition UpstreamConnectionFailure :: "64 word" where "UpstreamConnectionFailure = 0x20"
definition UpstreamOverflow :: "64 word" where "UpstreamOverflow = 0x80"
definition NoRouteFound :: "64 word" where "NoRouteFound = 0x100"

end
