(* ===== verification/IoBuffer.thy ===== *)
theory IoBuffer
  imports Mosn_Prelude
begin

text \<open>
  The growable byte buffer of \<open>pkg/network/buffer/iobuffer.go\<close>. Connections read into it,
  decoders drain it, encoders write to it.

  \<open>barr\<close> is the array behind the Go slice \<open>buf\<close>, from the slice's first element to its
  capacity, so \<open>cap(b.buf)\<close> is \<open>length barr\<close>; \<open>blen\<close> is \<open>len(b.buf)\<close>; \<open>bnil\<close> says that
  \<open>b.buf\<close> is the nil slice. The bootstrap array backs \<open>buf\<close> only from the moment a nil
  buffer first grows, when it still holds zeros, so it needs no field of its own.
\<close>

section \<open>State\<close>

record iobuffer =
  barr :: "byte list"
  blen :: nat
  boff :: int
  boffMark :: int
  bnil :: bool

datatype io_err = EOF | Timeout | IOErr string

definition MinRead :: nat where "MinRead = 2 ^ 10"
definition MaxRead :: nat where "MaxRead = 2 ^ 17"
definition ResetOffMark :: int where "ResetOffMark = -1"
definition bootstrap_len :: nat where "bootstrap_len = 2 ^ 6"

abbreviation bcap :: "iobuffer \<Rightarrow> nat" where "bcap b \<equiv> length (barr b)"

definition bbuf :: "iobuffer \<Rightarrow> byte list" where
  "bbuf b = take (blen b) (barr b)"

section \<open>Operations\<close>

definition makeSlice :: "nat \<Rightarrow> byte list" where
  "makeSlice n = replicate n 0"

definition NewIoBuffer :: "nat \<Rightarrow> iobuffer" where
  "NewIoBuffer capacity =
     \<lparr>barr = replicate capacity 0, blen = 0, boff = 0, boffMark = ResetOffMark, bnil = False\<rparr>"

definition NewIoBufferBytes :: "byte list \<Rightarrow> iobuffer" where
  "NewIoBufferBytes bytes =
     \<lparr>barr = bytes, blen = length bytes, boff = 0, boffMark = ResetOffMark, bnil = False\<rparr>"

definition NewIoBufferString :: "byte list \<Rightarrow> iobuffer" where
  "NewIoBufferString s =
     \<lparr>barr = s, blen = length s, boff = 0, boffMark = ResetOffMark, bnil = False\<rparr>"

definition Reset :: "iobuffer \<Rightarrow> iobuffer" where
  "Reset b = b\<lparr>blen := 0, boff := 0, boffMark := ResetOffMark\<rparr>"

definition Len :: "iobuffer \<Rightarrow> int" where
  "Len b = int (blen b) - boff b"

definition Cap :: "iobuffer \<Rightarrow> nat" where
  "Cap b = bcap b"

definition available :: "iobuffer \<Rightarrow> int" where
  "available b = int (blen b) - boff b"

text \<open>\<open>b.buf[b.off:]\<close>, the unread bytes; it panics when the offset is out of range.\<close>

definition buf_from :: "iobuffer \<Rightarrow> byte list outcome" where
  "buf_from b = go_slice (bbuf b) (boff b) (int (blen b))"

definition Bytes :: "iobuffer \<Rightarrow> byte list outcome" where
  "Bytes b = buf_from b"

definition String :: "iobuffer \<Rightarrow> byte list outcome" where
  "String b = buf_from b"

text \<open>
  \<open>Read\<close> fills \<open>p\<close>, of length \<open>plen\<close>; it returns the bytes copied into \<open>p\<close> and
  the error, if any.
\<close>

definition Read :: "iobuffer \<Rightarrow> nat \<Rightarrow> (iobuffer \<times> byte list \<times> io_err option) outcome" where
  "Read b plen =
     (if boff b \<ge> int (blen b) then
        (if plen = 0 then Inr (Reset b, [], None) else Inr (Reset b, [], Some EOF))
      else
        obind (buf_from b) (\<lambda>src.
          let n = min plen (length src)
          in Inr (b\<lparr>boff := boff b + int n\<rparr>, take n src, None)))"

definition tryGrowByReslice :: "iobuffer \<Rightarrow> nat \<Rightarrow> iobuffer \<times> nat \<times> bool" where
  "tryGrowByReslice b n =
     (if blen b + n \<le> bcap b then (b\<lparr>blen := blen b + n\<rparr>, blen b, True) else (b, 0, False))"

definition grow :: "iobuffer \<Rightarrow> nat \<Rightarrow> (iobuffer \<times> int) outcome" where
  "grow b0 n =
     (let m = Len b0;
          b = (if m = 0 \<and> boff b0 \<noteq> 0 then Reset b0 else b0)
      in case tryGrowByReslice b n of
           (b1, i, True) \<Rightarrow> Inr (b1, int i)
         | (_, _, False) \<Rightarrow>
             (if bnil b \<and> n \<le> bootstrap_len then
                Inr (b\<lparr>barr := replicate bootstrap_len 0, blen := n, bnil := False\<rparr>, 0)
              else
                obind (buf_from b) (\<lambda>src.
                  let arr = (if m + int n \<le> int (bcap b div 2)
                             then go_copy (bbuf b) src @ drop (blen b) (barr b)
                             else go_copy (makeSlice (2 * bcap b + n)) src)
                  in obind (go_slice arr 0 (m + int n)) (\<lambda>_.
                       Inr (b\<lparr>barr := arr, blen := nat (m + int n), boff := 0, bnil := False\<rparr>, m)))))"

text \<open>\<open>copy(b.buf[m:], p)\<close>: the bytes that fit, at index \<open>m\<close> of the slice.\<close>

definition copy_at :: "iobuffer \<Rightarrow> int \<Rightarrow> byte list \<Rightarrow> (iobuffer \<times> nat) outcome" where
  "copy_at b m p =
     obind (go_slice (bbuf b) m (int (blen b))) (\<lambda>dst.
       Inr (b\<lparr>barr := take (nat m) (barr b) @ go_copy dst p @ drop (blen b) (barr b)\<rparr>,
            min (length dst) (length p)))"

definition Write :: "iobuffer \<Rightarrow> byte list \<Rightarrow> (iobuffer \<times> nat) outcome" where
  "Write b p =
     (case tryGrowByReslice b (length p) of
        (b1, m, True) \<Rightarrow> copy_at b1 (int m) p
      | (b1, _, False) \<Rightarrow> obind (grow b1 (length p)) (\<lambda>(b2, m). copy_at b2 m p))"

text \<open>
  Making room for \<open>need\<close> bytes behind the contents, the block that \<open>Append\<close>,
  \<open>ReadFrom\<close> and \<open>ReadOnce\<close> share: slide the contents down in place, or move them to an
  array of twice the capacity.
\<close>

definition make_room :: "iobuffer \<Rightarrow> nat \<Rightarrow> iobuffer outcome" where
  "make_room b need =
     (let free = bcap b - blen b in
      if free < need then
        obind (buf_from b) (\<lambda>src.
          let moved = boff b + int free < int need;
              arr = (if moved
                     then go_copy (makeSlice (2 * bcap b + need)) src
                     else go_copy (bbuf b) src @ drop (blen b) (barr b))
          in Inr (b\<lparr>barr := arr, blen := nat (int (blen b) - boff b), boff := 0,
                    bnil := bnil b \<and> \<not> moved\<rparr>))
      else Inr b)"

text \<open>Appending \<open>data\<close> in the free capacity behind the slice.\<close>

definition put_tail :: "iobuffer \<Rightarrow> byte list \<Rightarrow> iobuffer outcome" where
  "put_tail b data =
     obind (go_slice (barr b) (int (blen b)) (int (blen b + length data))) (\<lambda>dst.
       Inr (b\<lparr>barr := take (blen b) (barr b) @ go_copy dst data
                        @ drop (blen b + length data) (barr b),
              blen := blen b + length data\<rparr>))"

definition Append :: "iobuffer \<Rightarrow> byte list \<Rightarrow> iobuffer outcome" where
  "Append b0 data =
     (let b = (if boff b0 \<ge> int (blen b0) then Reset b0 else b0)
      in obind (make_room b (length data)) (\<lambda>b1. put_tail b1 data))"

definition AppendByte :: "iobuffer \<Rightarrow> byte \<Rightarrow> iobuffer outcome" where
  "AppendByte b data = (let datas = makeSlice 1 in Append b datas)"

definition Peek :: "iobuffer \<Rightarrow> int \<Rightarrow> byte list option outcome" where
  "Peek b n =
     (if int (blen b) - boff b < n then Inr None
      else obind (go_slice (barr b) (boff b) (boff b + n)) (\<lambda>s. Inr (Some s)))"

definition Mark :: "iobuffer \<Rightarrow> iobuffer" where
  "Mark b = b\<lparr>boffMark := boff b\<rparr>"

definition Restore :: "iobuffer \<Rightarrow> iobuffer" where
  "Restore b =
     (if boffMark b \<noteq> ResetOffMark then b\<lparr>boff := boffMark b, boffMark := ResetOffMark\<rparr> else b)"

definition Cut :: "iobuffer \<Rightarrow> int \<Rightarrow> (iobuffer \<times> iobuffer option) outcome" where
  "Cut b offset =
     (if boff b + offset > int (blen b) then Inr (b, None)
      else if offset < 0 then Inl MakeSliceLen
      else
        obind (go_slice (barr b) (boff b) (boff b + offset)) (\<lambda>src.
          Inr (b\<lparr>boff := boff b + offset, boffMark := ResetOffMark\<rparr>,
               Some \<lparr>barr = go_copy (replicate (nat offset) 0) src, blen = nat offset,
                     boff = 0, boffMark = 0, bnil = False\<rparr>)))"

definition Drain :: "iobuffer \<Rightarrow> int \<Rightarrow> iobuffer" where
  "Drain b offset =
     (if boff b + offset > int (blen b) then b
      else b\<lparr>boff := boff b + offset, boffMark := ResetOffMark\<rparr>)"

definition Clone :: "iobuffer \<Rightarrow> iobuffer outcome" where
  "Clone b =
     (if Len b < 0 then Inl MakeSliceLen
      else obind (Bytes b) (\<lambda>src.
        let copied = go_copy (replicate (nat (Len b)) (0 :: byte)) src
        in Inr (NewIoBuffer (nat (Len b)))))"

text \<open>
  \<open>WriteTo\<close> hands the unread bytes to an \<open>io.Writer\<close>: \<open>wr\<close> maps the writer's state and
  the bytes offered to its next state, the count it accepted and its error.
\<close>

function WriteTo ::
  "('w \<Rightarrow> byte list \<Rightarrow> 'w \<times> nat \<times> io_err option) \<Rightarrow> iobuffer \<Rightarrow> 'w \<Rightarrow> nat
     \<Rightarrow> (iobuffer \<times> 'w \<times> nat \<times> io_err option) outcome" where
  "WriteTo wr b w n =
     (if boff b < int (blen b) then
        let nBytes = Len b in
        obind (buf_from b) (\<lambda>src.
          case wr w src of (w', m, e) \<Rightarrow>
            if int m > nBytes then Inl (ExplicitPanic ''io buffer: invalid write count'')
            else
              let b' = b\<lparr>boff := boff b + int m\<rparr> in
              if e \<noteq> None then Inr (b', w', n + m, e)
              else if m = 0 \<or> int m = nBytes then Inr (b', w', n + m, None)
              else WriteTo wr b' w' (n + m))
      else Inr (b, w, n, None))"
  by pat_completeness auto
termination
  by (relation "measure (\<lambda>(wr, b, w, n). nat (int (blen b) - boff b))") auto

declare WriteTo.simps [simp del]

text \<open>
  \<open>ReadFrom\<close> fills the buffer from an \<open>io.Reader\<close>: \<open>rd\<close> maps the reader's state and the
  space offered to its next state, the bytes it delivered and its error. The loop ends
  only when the reader reports an error, its end, or an empty read: \<open>None\<close> is a loop that
  never ends.
\<close>

partial_function (option) ReadFrom ::
  "('r \<Rightarrow> nat \<Rightarrow> ('r \<times> byte list \<times> io_err option) outcome) \<Rightarrow> iobuffer \<Rightarrow> 'r \<Rightarrow> nat
     \<Rightarrow> (iobuffer \<times> 'r \<times> nat \<times> io_err option) outcome option" where
  "ReadFrom rd b r n =
     (case make_room b MinRead of
        Inl p \<Rightarrow> Some (Inl p)
      | Inr b1 \<Rightarrow>
          (case rd r (bcap b1 - blen b1) of
             Inl p \<Rightarrow> Some (Inl p)
           | Inr (r', got, e) \<Rightarrow>
               (case put_tail b1 got of
                  Inl p \<Rightarrow> Some (Inl p)
                | Inr b2 \<Rightarrow>
                    (let n' = n + length got in
                     if e = Some EOF then Some (Inr (b2, r', n', None))
                     else if length got = 0 then Some (Inr (b2, r', n', None))
                     else if e \<noteq> None then Some (Inr (b2, r', n', e))
                     else ReadFrom rd b2 r' n'))))"

definition ReadFromReader ::
  "('r \<Rightarrow> nat \<Rightarrow> ('r \<times> byte list \<times> io_err option) outcome) \<Rightarrow> iobuffer \<Rightarrow> 'r
     \<Rightarrow> (iobuffer \<times> 'r \<times> nat \<times> io_err option) outcome option" where
  "ReadFromReader rd b r =
     ReadFrom rd (if boff b \<ge> int (blen b) then Reset b else b) r 0"

text \<open>
  \<open>ReadOnce\<close> reads from a network connection until a read comes back short, fails, or
  more than \<open>MaxRead\<close> bytes have arrived. Read deadlines belong to the connection and
  show up here as the error \<open>Timeout\<close>. A reader that is not a \<open>net.Conn\<close> leaves
  \<open>conn\<close> nil, and setting its deadline panics.
\<close>

partial_function (option) ReadOnceLoop ::
  "('r \<Rightarrow> nat \<Rightarrow> ('r \<times> byte list \<times> io_err option) outcome) \<Rightarrow> iobuffer \<Rightarrow> 'r \<Rightarrow> nat
     \<Rightarrow> (iobuffer \<times> 'r \<times> nat \<times> io_err option) outcome option" where
  "ReadOnceLoop rd b r n =
     (case make_room b MinRead of
        Inl p \<Rightarrow> Some (Inl p)
      | Inr b1 \<Rightarrow>
          (let l = bcap b1 - blen b1 in
           case rd r l of
             Inl p \<Rightarrow> Some (Inl p)
           | Inr (r', got, e) \<Rightarrow>
               (case e of
                  Some Timeout \<Rightarrow> Some (Inr (b1, r', n, None))
                | Some err \<Rightarrow> Some (Inr (b1, r', n, Some err))
                | None \<Rightarrow>
                    (case put_tail b1 got of
                       Inl p \<Rightarrow> Some (Inl p)
                     | Inr b2 \<Rightarrow>
                         (let n' = n + length got in
                          if l \<noteq> length got \<or> n' > MaxRead then Some (Inr (b2, r', n', None))
                          else ReadOnceLoop rd b2 r' n')))))"

definition compact :: "iobuffer \<Rightarrow> iobuffer outcome" where
  "compact b =
     (if boff b > 0 \<and> int (blen b) - boff b < int (4 * MinRead) then
        obind (buf_from b) (\<lambda>src.
          Inr (b\<lparr>barr := go_copy (bbuf b) src @ drop (blen b) (barr b),
                 blen := nat (int (blen b) - boff b), boff := 0\<rparr>))
      else Inr b)"

definition ReadOnce ::
  "bool \<Rightarrow> ('r \<Rightarrow> nat \<Rightarrow> ('r \<times> byte list \<times> io_err option) outcome) \<Rightarrow> iobuffer \<Rightarrow> 'r
     \<Rightarrow> (iobuffer \<times> 'r \<times> nat \<times> io_err option) outcome option" where
  "ReadOnce isConn rd b0 r =
     (let b = (if boff b0 \<ge> int (blen b0) then Reset b0 else b0)
      in case compact b of
           Inl p \<Rightarrow> Some (Inl p)
         | Inr b1 \<Rightarrow>
             (if \<not> isConn then
                (case make_room b1 MinRead of
                   Inl p \<Rightarrow> Some (Inl p)
                 | Inr _ \<Rightarrow> Some (Inl NilDereference))
              else ReadOnceLoop rd b1 r 0))"

section \<open>The buffer as a queue of bytes\<close>

text \<open>
  The invariant of a buffer in use: the read offset lies inside the slice and the slice
  inside its array. Its abstract value is the list of unread bytes.
\<close>

definition iob_wf :: "iobuffer \<Rightarrow> bool" where
  "iob_wf b \<longleftrightarrow> 0 \<le> boff b \<and> boff b \<le> int (blen b) \<and> blen b \<le> bcap b \<and> (bnil b \<longrightarrow> bcap b = 0)"

definition contents :: "iobuffer \<Rightarrow> byte list" where
  "contents b = drop (nat (boff b)) (take (blen b) (barr b))"

lemma length_contents: "iob_wf b \<Longrightarrow> int (length (contents b)) = Len b"
  by (auto simp: contents_def iob_wf_def Len_def)

lemma contents_Nil_iff: "iob_wf b \<Longrightarrow> contents b = [] \<longleftrightarrow> boff b = int (blen b)"
  by (auto simp: contents_def iob_wf_def)

lemma buf_from_wf [simp]: "iob_wf b \<Longrightarrow> buf_from b = Inr (contents b)"
  by (auto simp: buf_from_def go_slice_def iob_wf_def bbuf_def contents_def)

lemma Bytes_wf [simp]: "iob_wf b \<Longrightarrow> Bytes b = Inr (contents b)"
  by (simp add: Bytes_def)

lemma Reset_wf [simp]: "iob_wf b \<Longrightarrow> iob_wf (Reset b)"
  by (simp add: iob_wf_def Reset_def)

lemma contents_Reset [simp]: "contents (Reset b) = []"
  by (simp add: Reset_def contents_def)

lemma NewIoBuffer_wf [simp]: "iob_wf (NewIoBuffer n)" "contents (NewIoBuffer n) = []"
  by (simp_all add: NewIoBuffer_def iob_wf_def contents_def)

lemma NewIoBufferBytes_wf [simp]: "iob_wf (NewIoBufferBytes bs)" "contents (NewIoBufferBytes bs) = bs"
  by (simp_all add: NewIoBufferBytes_def iob_wf_def contents_def)

lemma Read_wf:
  assumes "iob_wf b"
  shows "\<exists>b'. Read b n = Inr (b', take n (contents b),
             if contents b = [] \<and> n \<noteq> 0 then Some EOF else None) \<and>
           iob_wf b' \<and> contents b' = drop n (contents b)"
proof (cases "contents b = []")
  case True
  with assms have "boff b = int (blen b)" by (simp add: contents_Nil_iff)
  with True assms show ?thesis by (simp add: Read_def)
next
  case False
  with assms have "boff b < int (blen b)" by (force simp: contents_Nil_iff iob_wf_def)
  moreover have "iob_wf (b\<lparr>boff := boff b + int (min n (length (contents b)))\<rparr>)"
    using assms by (auto simp: iob_wf_def contents_def)
  moreover have "contents (b\<lparr>boff := boff b + int (min n (length (contents b)))\<rparr>) = drop n (contents b)"
    using assms by (auto simp: contents_def iob_wf_def nat_add_distrib min_def ac_simps)
  ultimately show ?thesis using assms False by (auto simp: Read_def Let_def min_def)
qed

text \<open>Both ways of making room keep the unread bytes at the front of the array.\<close>

lemma slid_contents:
  assumes "iob_wf b" and "arr = go_copy (bbuf b) (contents b) @ drop (blen b) (barr b)"
  shows "length arr = bcap b" and "take (nat (Len b)) arr = contents b"
proof -
  have lb: "length (bbuf b) = blen b" using assms by (auto simp: bbuf_def iob_wf_def)
  then show "length arr = bcap b" using assms by (auto simp: iob_wf_def)
  have "length (contents b) \<le> blen b" by (simp add: contents_def)
  then show "take (nat (Len b)) arr = contents b"
    using assms lb length_contents [OF assms(1)] by (auto simp: go_copy_def)
qed

lemma moved_contents:
  assumes "iob_wf b" and "arr = go_copy (makeSlice n) (contents b)" and "Len b \<le> int n"
  shows "length arr = n" and "take (nat (Len b)) arr = contents b"
  using assms length_contents [OF assms(1)] by (auto simp: go_copy_def makeSlice_def)

lemma contents_front: "boff b = 0 \<Longrightarrow> contents b = take (blen b) (barr b)"
  by (simp add: contents_def)

lemma make_room_wf:
  assumes "iob_wf b"
  shows "\<exists>b'. make_room b need = Inr b' \<and> iob_wf b' \<and> contents b' = contents b \<and>
           need \<le> bcap b' - blen b'"
proof -
  have L: "Len b \<le> int (bcap b)" "0 \<le> Len b" using assms by (auto simp: iob_wf_def Len_def)
  consider (enough) "\<not> bcap b - blen b < need"
    | (slide) "bcap b - blen b < need" "\<not> boff b + int (bcap b - blen b) < int need"
    | (move) "bcap b - blen b < need" "boff b + int (bcap b - blen b) < int need" by blast
  then show ?thesis
  proof cases
    case enough
    with assms show ?thesis by (simp add: make_room_def)
  next
    case slide
    define arr where arr: "arr = go_copy (bbuf b) (contents b) @ drop (blen b) (barr b)"
    from slide assms have "make_room b need =
        Inr (b\<lparr>barr := arr, blen := nat (Len b), boff := 0, bnil := bnil b\<rparr>)"
      by (simp add: make_room_def arr Len_def)
    with slid_contents [OF assms arr] slide L assms show ?thesis
      by (auto simp: iob_wf_def Len_def contents_front)
  next
    case move
    define arr where arr: "arr = go_copy (makeSlice (2 * bcap b + need)) (contents b)"
    from move assms have "make_room b need =
        Inr (b\<lparr>barr := arr, blen := nat (Len b), boff := 0, bnil := False\<rparr>)"
      by (simp add: make_room_def arr Len_def)
    with moved_contents [OF assms arr] L assms show ?thesis
      by (auto simp: iob_wf_def Len_def contents_front)
  qed
qed

lemma put_tail_wf:
  assumes "iob_wf b" and "length data \<le> bcap b - blen b"
  shows "\<exists>b'. put_tail b data = Inr b' \<and> iob_wf b' \<and> contents b' = contents b @ data"
  using assms by (auto simp: put_tail_def iob_wf_def contents_def go_copy_def)

lemma reset_if_drained:
  assumes "iob_wf b"
  shows "iob_wf (if boff b \<ge> int (blen b) then Reset b else b)"
    and "contents (if boff b \<ge> int (blen b) then Reset b else b) = contents b"
proof -
  show "iob_wf (if boff b \<ge> int (blen b) then Reset b else b)"
    using assms by simp
  show "contents (if boff b \<ge> int (blen b) then Reset b else b) = contents b"
  proof (cases "boff b \<ge> int (blen b)")
    case True
    with assms have "contents b = []" by (simp add: contents_Nil_iff iob_wf_def)
    with True show ?thesis by simp
  next
    case False
    then show ?thesis by simp
  qed
qed

lemma Append_wf:
  assumes "iob_wf b"
  shows "\<exists>b'. Append b data = Inr b' \<and> iob_wf b' \<and> contents b' = contents b @ data"
proof -
  define b0 where "b0 = (if boff b \<ge> int (blen b) then Reset b else b)"
  have b0: "iob_wf b0" "contents b0 = contents b"
    using reset_if_drained [OF assms] by (simp_all add: b0_def)
  from make_room_wf [OF b0(1), of "length data"] obtain b1 where b1:
    "make_room b0 (length data) = Inr b1" "iob_wf b1" "contents b1 = contents b0"
    "length data \<le> bcap b1 - blen b1" by blast
  from put_tail_wf [OF b1(2,4)] obtain b2 where
    "put_tail b1 data = Inr b2" "iob_wf b2" "contents b2 = contents b1 @ data" by blast
  with b0 b1 show ?thesis by (simp add: Append_def Let_def b0_def [symmetric])
qed

lemma grow_wf:
  assumes "iob_wf b" and "\<not> blen b + n \<le> bcap b"
  shows "\<exists>b'. grow b n = Inr (b', Len b) \<and> iob_wf b' \<and> boff b' = 0 \<and>
           blen b' = nat (Len b) + n \<and> take (nat (Len b)) (barr b') = contents b"
proof -
  define b0 where "b0 = (if Len b = 0 \<and> boff b \<noteq> 0 then Reset b else b)"
  have b0: "iob_wf b0" "contents b0 = contents b" "Len b0 = Len b" "bcap b0 = bcap b"
    using assms by (auto simp: b0_def Reset_def iob_wf_def Len_def contents_def)
  have L: "0 \<le> Len b" "Len b \<le> int (bcap b)" using assms by (auto simp: iob_wf_def Len_def)
  have z: "Len b = 0 \<Longrightarrow> boff b0 = 0 \<and> contents b = []"
    using assms by (auto simp: b0_def Reset_def Len_def contents_def)
  consider (reslice) "blen b0 + n \<le> bcap b0"
    | (bootstrap) "\<not> blen b0 + n \<le> bcap b0" "bnil b0 \<and> n \<le> bootstrap_len"
    | (slide) "\<not> blen b0 + n \<le> bcap b0" "\<not> (bnil b0 \<and> n \<le> bootstrap_len)"
        "Len b + int n \<le> int (bcap b0 div 2)"
    | (move) "\<not> blen b0 + n \<le> bcap b0" "\<not> (bnil b0 \<and> n \<le> bootstrap_len)"
        "\<not> Len b + int n \<le> int (bcap b0 div 2)" by blast
  then show ?thesis
  proof cases
    case reslice
    then have "Len b = 0 \<and> boff b \<noteq> 0" using assms by (auto simp: b0_def split: if_splits)
    moreover have "grow b n = Inr (b0\<lparr>blen := blen b0 + n\<rparr>, int (blen b0))"
      using reslice by (simp add: grow_def Let_def b0_def [symmetric] tryGrowByReslice_def)
    ultimately show ?thesis using b0 reslice z
      by (auto simp: b0_def Reset_def iob_wf_def)
  next
    case bootstrap
    then have "Len b = 0" using b0 L by (auto simp: iob_wf_def)
    moreover from bootstrap have "grow b n =
        Inr (b0\<lparr>barr := replicate bootstrap_len 0, blen := n, bnil := False\<rparr>, 0)"
      by (simp add: grow_def Let_def b0_def [symmetric] tryGrowByReslice_def)
    ultimately show ?thesis using bootstrap z by (simp add: iob_wf_def)
  next
    case slide
    define arr where arr: "arr = go_copy (bbuf b0) (contents b) @ drop (blen b0) (barr b0)"
    with slid_contents [OF b0(1), of arr] b0 have a: "length arr = bcap b0"
      "take (nat (Len b)) arr = contents b" by simp_all
    from slide b0 have "grow b n = obind (go_slice arr 0 (Len b + int n)) (\<lambda>_.
        Inr (b0\<lparr>barr := arr, blen := nat (Len b + int n), boff := 0, bnil := False\<rparr>, Len b))"
      by (auto simp: grow_def Let_def b0_def [symmetric] tryGrowByReslice_def arr)
    with a L slide show ?thesis by (auto simp: iob_wf_def nat_add_distrib)
  next
    case move
    define arr where arr: "arr = go_copy (makeSlice (2 * bcap b0 + n)) (contents b)"
    with moved_contents [OF b0(1), of arr] b0 L have a: "length arr = 2 * bcap b0 + n"
      "take (nat (Len b)) arr = contents b" by simp_all
    from move b0 have "grow b n = obind (go_slice arr 0 (Len b + int n)) (\<lambda>_.
        Inr (b0\<lparr>barr := arr, blen := nat (Len b + int n), boff := 0, bnil := False\<rparr>, Len b))"
      by (auto simp: grow_def Let_def b0_def [symmetric] tryGrowByReslice_def arr)
    with a L b0 show ?thesis by (auto simp: iob_wf_def nat_add_distrib)
  qed
qed

lemma copy_at_wf:
  assumes "iob_wf b" and "int m + int (length p) = int (blen b)" and "boff b \<le> int m"
  shows "\<exists>b'. copy_at b (int m) p = Inr (b', length p) \<and> iob_wf b' \<and>
           contents b' = drop (nat (boff b)) (take m (barr b)) @ p"
proof -
  from assms(2) have "blen b = m + length p" by linarith
  with assms(1,3) show ?thesis by (auto simp: copy_at_def iob_wf_def contents_def bbuf_def go_copy_def)
qed

lemma Write_wf:
  assumes "iob_wf b"
  shows "\<exists>b'. Write b p = Inr (b', length p) \<and> iob_wf b' \<and> contents b' = contents b @ p"
proof (cases "blen b + length p \<le> bcap b")
  case True
  define b1 where "b1 = b\<lparr>blen := blen b + length p\<rparr>"
  have "iob_wf b1" using assms True by (auto simp: b1_def iob_wf_def)
  moreover have "boff b1 \<le> int (blen b)" using assms by (simp add: b1_def iob_wf_def)
  ultimately obtain b2 where "copy_at b1 (int (blen b)) p = Inr (b2, length p)" "iob_wf b2"
    "contents b2 = drop (nat (boff b1)) (take (blen b) (barr b1)) @ p"
    using copy_at_wf [of b1 "blen b" p] by (auto simp: b1_def)
  with True show ?thesis
    by (simp add: Write_def tryGrowByReslice_def b1_def [symmetric]) (simp add: b1_def contents_def)
next
  case False
  from grow_wf [OF assms False] obtain b1 where b1: "grow b (length p) = Inr (b1, Len b)"
    "iob_wf b1" "boff b1 = 0" "blen b1 = nat (Len b) + length p"
    "take (nat (Len b)) (barr b1) = contents b" by blast
  have "0 \<le> Len b" using assms by (simp add: iob_wf_def Len_def)
  then have L: "Len b = int (nat (Len b))" by simp
  have "int (nat (Len b)) + int (length p) = int (blen b1)" "boff b1 \<le> int (nat (Len b))"
    using b1 by simp_all
  from copy_at_wf [OF b1(2) this] b1 obtain b2 where
    "copy_at b1 (int (nat (Len b))) p = Inr (b2, length p)" "iob_wf b2" "contents b2 = contents b @ p"
    by (simp del: int_nat_eq) blast
  with False b1 L show ?thesis by (simp add: Write_def tryGrowByReslice_def)
qed
lemma Drain_wf:
  assumes "iob_wf b"
  shows "iob_wf (Drain b (int k)) \<and>
         contents (Drain b (int k)) = (if k \<le> length (contents b) then drop k (contents b) else contents b)"
  using assms length_contents [OF assms]
  by (auto simp: Drain_def iob_wf_def contents_def Len_def nat_add_distrib add.commute)

lemma Peek_wf:
  assumes "iob_wf b"
  shows "Peek b (int k) = Inr (if k \<le> length (contents b) then Some (take k (contents b)) else None)"
proof (cases "k \<le> length (contents b)")
  case True
  with length_contents [OF assms] have "boff b + int k \<le> int (blen b)" by (simp add: Len_def)
  with True assms show ?thesis
    by (auto simp: Peek_def iob_wf_def contents_def drop_take min_def nat_add_distrib)
next
  case False
  with length_contents [OF assms] show ?thesis by (simp add: Peek_def Len_def)
qed

lemma Cut_wf:
  assumes "iob_wf b"
  shows "\<exists>b' c. Cut b (int k) = Inr (b', c) \<and> iob_wf b' \<and>
     (if k \<le> length (contents b)
      then contents b' = drop k (contents b) \<and> map_option contents c = Some (take k (contents b))
      else b' = b \<and> c = None)"
proof (cases "k \<le> length (contents b)")
  case True
  with length_contents [OF assms] have "boff b + int k \<le> int (blen b)" by (simp add: Len_def)
  with True assms show ?thesis
    by (auto simp: Cut_def iob_wf_def contents_def drop_take min_def nat_add_distrib
        go_copy_def add.commute)
next
  case False
  with assms length_contents [OF assms] show ?thesis by (simp add: Cut_def Len_def)
qed

text \<open>
  The contract of \<open>io.Writer\<close>: at most the bytes offered are taken, and taking fewer comes
  with an error.
\<close>

definition writer_contract :: "('w \<Rightarrow> byte list \<Rightarrow> 'w \<times> nat \<times> io_err option) \<Rightarrow> bool" where
  "writer_contract wr \<longleftrightarrow> (\<forall>w src.
     case wr w src of (_, m, e) \<Rightarrow> m \<le> length src \<and> (m < length src \<longrightarrow> e \<noteq> None))"

lemma writer_contractD:
  "writer_contract wr \<Longrightarrow> wr w src = (w', m, e) \<Longrightarrow> m \<le> length src \<and> (m < length src \<longrightarrow> e \<noteq> None)"
  by (force simp: writer_contract_def split: prod.splits)

lemma WriteTo_wf:
  assumes "iob_wf b" and contract: "writer_contract wr"
  shows "\<exists>b' w' m e. WriteTo wr b w n = Inr (b', w', n + m, e) \<and> iob_wf b' \<and>
           m \<le> length (contents b) \<and> contents b' = drop m (contents b) \<and>
           (e = None \<longrightarrow> m = length (contents b))"
proof (cases "boff b < int (blen b)")
  case True
  obtain w' m e where w: "wr w (contents b) = (w', m, e)" by (cases "wr w (contents b)") auto
  note c = writer_contractD [OF contract w]
  let ?b = "b\<lparr>boff := boff b + int m\<rparr>"
  have L: "int (length (contents b)) = Len b" by (rule length_contents [OF assms(1)])
  have b': "iob_wf ?b" "contents ?b = drop m (contents b)"
    using assms(1) c L by (auto simp: iob_wf_def contents_def Len_def nat_add_distrib add.commute)
  have "WriteTo wr b w n = Inr (?b, w', n + m, e)"
  proof (cases e)
    case None
    with c have "m = length (contents b)" by auto
    with None w True assms(1) L show ?thesis by (simp add: WriteTo.simps [of wr b] Let_def)
  next
    case (Some x)
    from c have "\<not> int m > Len b" by (simp add: L [symmetric])
    with Some w True assms(1) show ?thesis by (simp add: WriteTo.simps [of wr b] Let_def)
  qed
  with b' c show ?thesis by force
next
  case False
  with assms(1) have "contents b = []" by (auto simp: contents_Nil_iff iob_wf_def)
  with False assms(1) show ?thesis by (simp add: WriteTo.simps [of wr b])
qed

section \<open>Filling a buffer from a reader\<close>

text \<open>
  What \<open>ReadFrom\<close> relies on: a reader with pending bytes delivers a non-empty prefix
  of them that fits the space offered, and a drained reader reports its end.
\<close>

locale io_reader =
  fixes rd :: "'r \<Rightarrow> nat \<Rightarrow> ('r \<times> byte list \<times> io_err option) outcome"
    and pending :: "'r \<Rightarrow> byte list"
    and rinv :: "'r \<Rightarrow> bool"
  assumes rd_data: "rinv r \<Longrightarrow> pending r \<noteq> [] \<Longrightarrow> 0 < n \<Longrightarrow>
      \<exists>r' got. rd r n = Inr (r', got, None) \<and> got \<noteq> [] \<and> length got \<le> n \<and>
               pending r = got @ pending r' \<and> rinv r'"
    and rd_end: "rinv r \<Longrightarrow> pending r = [] \<Longrightarrow> 0 < n \<Longrightarrow>
      \<exists>r'. rd r n = Inr (r', [], Some EOF) \<and> pending r' = [] \<and> rinv r'"
begin

lemma ReadFrom_all:
  "iob_wf b \<Longrightarrow> rinv r \<Longrightarrow>
     \<exists>b' r'. ReadFrom rd b r n = Some (Inr (b', r', n + length (pending r), None)) \<and>
       iob_wf b' \<and> contents b' = contents b @ pending r \<and> pending r' = [] \<and> rinv r'"
proof (induction "length (pending r)" arbitrary: b r n rule: less_induct)
  case less
  from make_room_wf [OF less.prems(1), of MinRead] obtain b1 where b1:
    "make_room b MinRead = Inr b1" "iob_wf b1" "contents b1 = contents b"
    "MinRead \<le> bcap b1 - blen b1" by blast
  then have pos: "0 < bcap b1 - blen b1" by (simp add: MinRead_def)
  show ?case
  proof (cases "pending r = []")
    case True
    from rd_end [OF less.prems(2) True pos] obtain r' where r':
      "rd r (bcap b1 - blen b1) = Inr (r', [], Some EOF)" "pending r' = []" "rinv r'" by blast
    moreover from put_tail_wf [OF b1(2), of "[]"] obtain b2 where
      "put_tail b1 [] = Inr b2" "iob_wf b2" "contents b2 = contents b1" by auto
    ultimately show ?thesis using b1 True by (simp add: ReadFrom.simps [of rd b])
  next
    case False
    from rd_data [OF less.prems(2) False pos] obtain r' got where r':
      "rd r (bcap b1 - blen b1) = Inr (r', got, None)" "got \<noteq> []" "length got \<le> bcap b1 - blen b1"
      "pending r = got @ pending r'" "rinv r'" by blast
    from put_tail_wf [OF b1(2) r'(3)] obtain b2 where b2:
      "put_tail b1 got = Inr b2" "iob_wf b2" "contents b2 = contents b1 @ got" by blast
    have "length (pending r') < length (pending r)" using r' by simp
    from less.hyps [OF this b2(2) r'(5), of "n + length got"] b1 b2 r' show ?thesis
      by (auto simp: ReadFrom.simps [of rd b] Let_def add.assoc)
  qed
qed

lemma ReadFromReader_all:
  "iob_wf b \<Longrightarrow> rinv r \<Longrightarrow>
     \<exists>b' r'. ReadFromReader rd b r = Some (Inr (b', r', length (pending r), None)) \<and>
       iob_wf b' \<and> contents b' = contents b @ pending r \<and> pending r' = [] \<and> rinv r'"
  using ReadFrom_all [OF reset_if_drained(1), of b r 0] reset_if_drained(2) [of b]
  by (simp add: ReadFromReader_def)

end

text \<open>A buffer is itself such a reader, through \<open>Read\<close>.\<close>

interpretation buffer_reader: io_reader Read contents iob_wf
proof unfold_locales
  fix b n
  assume b: "iob_wf b" and n: "0 < (n :: nat)"
  from Read_wf [OF b, of n] obtain b' where r: "Read b n = Inr (b', take n (contents b),
      if contents b = [] \<and> n \<noteq> 0 then Some EOF else None)" "iob_wf b'"
    "contents b' = drop n (contents b)" by blast
  {
    assume "contents b \<noteq> []"
    with r n show "\<exists>r' got. Read b n = Inr (r', got, None) \<and> got \<noteq> [] \<and> length got \<le> n \<and>
        contents b = got @ contents r' \<and> iob_wf r'"
      by (intro exI [of _ b'] exI [of _ "take n (contents b)"]) simp
  next
    assume "contents b = []"
    with r n show "\<exists>r'. Read b n = Inr (r', [], Some EOF) \<and> contents r' = [] \<and> iob_wf r'"
      by (intro exI [of _ b']) simp
  }
qed

lemma ReadOnceLoop_returns:
  assumes "iob_wf b"
    and contract: "\<And>r n. \<exists>r' got e. rd r n = Inr (r', got, e) \<and> length got \<le> n"
  shows "\<exists>b' r' got e. ReadOnceLoop rd b r n = Some (Inr (b', r', n + length got, e)) \<and>
           iob_wf b' \<and> contents b' = contents b @ got"
  using assms(1)
proof (induction "Suc MaxRead - n" arbitrary: b r n rule: less_induct)
  case less
  from make_room_wf [OF less.prems(1), of MinRead] obtain b1 where b1:
    "make_room b MinRead = Inr b1" "iob_wf b1" "contents b1 = contents b"
    "MinRead \<le> bcap b1 - blen b1" by blast
  then have pos: "0 < bcap b1 - blen b1" by (simp add: MinRead_def)
  from contract [of r "bcap b1 - blen b1"] obtain r' got e where r':
    "rd r (bcap b1 - blen b1) = Inr (r', got, e)" "length got \<le> bcap b1 - blen b1" by blast
  show ?case
  proof (cases e)
    case (Some err)
    have "\<exists>e'. ReadOnceLoop rd b r n = Some (Inr (b1, r', n, e'))"
      using b1 r' Some by (cases err) (simp_all add: ReadOnceLoop.simps [of rd b])
    with b1 show ?thesis by (metis add.right_neutral append.right_neutral list.size(3))
  next
    case None
    from put_tail_wf [OF b1(2) r'(2)] obtain b2 where b2:
      "put_tail b1 got = Inr b2" "iob_wf b2" "contents b2 = contents b1 @ got" by blast
    show ?thesis
    proof (cases "bcap b1 - blen b1 \<noteq> length got \<or> n + length got > MaxRead")
      case True
      with b1 b2 r' None show ?thesis by (auto simp: ReadOnceLoop.simps [of rd b] Let_def)
    next
      case False
      with pos have "Suc MaxRead - (n + length got) < Suc MaxRead - n" by auto
      from less.hyps [OF this b2(2), of r'] obtain b' r'' got' e' where ih:
        "ReadOnceLoop rd b2 r' (n + length got) = Some (Inr (b', r'', n + length got + length got', e'))"
        "iob_wf b'" "contents b' = contents b2 @ got'" by blast
      have "ReadOnceLoop rd b r n = ReadOnceLoop rd b2 r' (n + length got)"
        using False b1 b2 r' None by (simp add: ReadOnceLoop.simps [of rd b] Let_def)
      with ih b1 b2 show ?thesis
        by (intro exI [of _ b'] exI [of _ r''] exI [of _ "got @ got'"] exI [of _ e']) simp
    qed
  qed
qed

lemma compact_wf:
  assumes "iob_wf b"
  shows "\<exists>b'. compact b = Inr b' \<and> iob_wf b' \<and> contents b' = contents b"
proof (cases "boff b > 0 \<and> int (blen b) - boff b < int (4 * MinRead)")
  case True
  define arr where arr: "arr = go_copy (bbuf b) (contents b) @ drop (blen b) (barr b)"
  from True assms have "compact b = Inr (b\<lparr>barr := arr, blen := nat (Len b), boff := 0\<rparr>)"
    by (simp add: compact_def arr Len_def)
  with slid_contents [OF assms arr] assms show ?thesis
    by (auto simp: iob_wf_def Len_def contents_front)
next
  case False
  with assms show ?thesis by (auto simp: compact_def)
qed

section \<open>Writing a sequence of chunks\<close>

text \<open>
  Encoders write a frame field by field, each field through the writer's \<open>Write\<close>. The
  contract of such a sink is that it takes every chunk whole, in order.
\<close>

fun write_seq :: "('q \<Rightarrow> byte list \<Rightarrow> ('q \<times> nat) outcome) \<Rightarrow> 'q \<Rightarrow> byte list list \<Rightarrow> 'q outcome" where
  "write_seq wr q [] = Inr q"
| "write_seq wr q (c # cs) = obind (wr q c) (\<lambda>(q', _). write_seq wr q' cs)"

locale byte_sink =
  fixes wr :: "'q \<Rightarrow> byte list \<Rightarrow> ('q \<times> nat) outcome"
    and held :: "'q \<Rightarrow> byte list"
    and qinv :: "'q \<Rightarrow> bool"
  assumes wr_held: "qinv q \<Longrightarrow>
      \<exists>q'. wr q c = Inr (q', length c) \<and> qinv q' \<and> held q' = held q @ c"
begin

lemma write_seq_held:
  "qinv q \<Longrightarrow> \<exists>q'. write_seq wr q cs = Inr q' \<and> qinv q' \<and> held q' = held q @ concat cs"
proof (induction cs arbitrary: q)
  case Nil
  then show ?case by simp
next
  case (Cons c cs)
  from wr_held [OF Cons.prems, of c] obtain q1 where q1:
    "wr q c = Inr (q1, length c)" "qinv q1" "held q1 = held q @ c" by blast
  from Cons.IH [OF q1(2)] q1 show ?case by auto
qed

end

interpretation buffer_sink: byte_sink Write contents iob_wf
  by unfold_locales (rule Write_wf)

section \<open>Properties\<close>

text \<open>
  A client of a buffer drives it with these calls; what each one returns is its
  observation. \<open>fifo_step\<close> is the specification: a plain list of bytes.
\<close>

datatype buf_op =
    OAppend "byte list" | OWrite "byte list" | ORead nat | ODrain nat | OCut nat | OPeek nat
  | OBytes | OReset

datatype buf_obs =
    BNone | BBytes "byte list" | BErr io_err

definition obs_of :: "byte list option \<Rightarrow> buf_obs" where
  "obs_of x = (case x of None \<Rightarrow> BNone | Some bs \<Rightarrow> BBytes bs)"

fun iob_step :: "buf_op \<Rightarrow> iobuffer \<Rightarrow> (iobuffer \<times> buf_obs) outcome" where
  "iob_step (OAppend d) b = obind (Append b d) (\<lambda>b'. Inr (b', BNone))"
| "iob_step (OWrite d) b = obind (Write b d) (\<lambda>(b', _). Inr (b', BNone))"
| "iob_step (ORead n) b = obind (Read b n) (\<lambda>(b', got, e).
     Inr (b', case e of Some err \<Rightarrow> BErr err | None \<Rightarrow> BBytes got))"
| "iob_step (ODrain n) b = Inr (Drain b (int n), BNone)"
| "iob_step (OCut n) b = obind (Cut b (int n)) (\<lambda>(b', c).
     case c of None \<Rightarrow> Inr (b', BNone) | Some c' \<Rightarrow> obind (Bytes c') (\<lambda>bs. Inr (b', BBytes bs)))"
| "iob_step (OPeek n) b = obind (Peek b (int n)) (\<lambda>x. Inr (b, obs_of x))"
| "iob_step OBytes b = obind (Bytes b) (\<lambda>bs. Inr (b, BBytes bs))"
| "iob_step OReset b = Inr (Reset b, BNone)"

fun fifo_step :: "buf_op \<Rightarrow> byte list \<Rightarrow> byte list \<times> buf_obs" where
  "fifo_step (OAppend d) q = (q @ d, BNone)"
| "fifo_step (OWrite d) q = (q @ d, BNone)"
| "fifo_step (ORead n) q = (if q = [] \<and> n \<noteq> 0 then (q, BErr EOF) else (drop n q, BBytes (take n q)))"
| "fifo_step (ODrain n) q = ((if n \<le> length q then drop n q else q), BNone)"
| "fifo_step (OCut n) q = (if n \<le> length q then (drop n q, BBytes (take n q)) else (q, BNone))"
| "fifo_step (OPeek n) q = (q, if n \<le> length q then BBytes (take n q) else BNone)"
| "fifo_step OBytes q = (q, BBytes q)"
| "fifo_step OReset q = ([], BNone)"

fun iob_run :: "buf_op list \<Rightarrow> iobuffer \<Rightarrow> (iobuffer \<times> buf_obs list) outcome" where
  "iob_run [] b = Inr (b, [])"
| "iob_run (x # xs) b = obind (iob_step x b) (\<lambda>(b', o1).
     obind (iob_run xs b') (\<lambda>(b'', os). Inr (b'', o1 # os)))"

fun fifo_run :: "buf_op list \<Rightarrow> byte list \<Rightarrow> byte list \<times> buf_obs list" where
  "fifo_run [] q = (q, [])"
| "fifo_run (x # xs) q =
     (let (q', o1) = fifo_step x q; (q'', os) = fifo_run xs q' in (q'', o1 # os))"

lemma iob_step_refines:
  assumes "iob_wf b"
  shows "\<exists>b'. iob_step x b = Inr (b', snd (fifo_step x (contents b))) \<and> iob_wf b' \<and>
           contents b' = fst (fifo_step x (contents b))"
proof (cases x)
  case (OAppend d)
  with Append_wf [OF assms, of d] show ?thesis by auto
next
  case (OWrite d)
  with Write_wf [OF assms, of d] show ?thesis by auto
next
  case (ORead n)
  with Read_wf [OF assms, of n] show ?thesis by auto
next
  case (ODrain n)
  with Drain_wf [OF assms, of n] show ?thesis by auto
next
  case (OCut n)
  show ?thesis
  proof (cases "n \<le> length (contents b)")
    case True
    with Cut_wf [OF assms, of n] obtain b' c where
      "Cut b (int n) = Inr (b', Some c)" "iob_wf b'" "contents b' = drop n (contents b)"
      "contents c = take n (contents b)" by auto
    moreover then have "Bytes c = Inr (take n (contents b))"
      by (auto simp: Cut_def contents_def Bytes_def buf_from_def bbuf_def go_outcome split: if_splits)
    ultimately show ?thesis using True OCut by simp
  next
    case False
    with Cut_wf [OF assms, of n] OCut assms show ?thesis by auto
  qed
next
  case (OPeek n)
  with assms Peek_wf [OF assms, of n] show ?thesis by (simp add: obs_of_def)
qed (use assms in simp_all)

text \<open>
  C2 (refinement). Any sequence of calls on a well-formed buffer runs without a panic, and
  every result it returns, as well as the unread bytes at the end, is the one that a plain
  queue of bytes gives: growing, sliding and moving the array never lose, repeat or reorder
  a byte.
\<close>

theorem iob_run_refines:
  assumes "iob_wf b"
  shows "\<exists>b'. iob_run ops b = Inr (b', snd (fifo_run ops (contents b))) \<and> iob_wf b' \<and>
           contents b' = fst (fifo_run ops (contents b))"
  using assms
proof (induction ops arbitrary: b)
  case Nil
  then show ?case by simp
next
  case (Cons x xs)
  from iob_step_refines [OF Cons.prems, of x] obtain b1 where b1:
    "iob_step x b = Inr (b1, snd (fifo_step x (contents b)))" "iob_wf b1"
    "contents b1 = fst (fifo_step x (contents b))" by blast
  from Cons.IH [OF b1(2)] b1 show ?case by (auto simp: split_beta Let_def)
qed

theorem iob_run_refines_witness:
  "iob_wf (NewIoBuffer 2) \<and>
   (\<exists>b'. iob_run [OWrite [1, 2], ODrain 1, OAppend [3, 4], ORead 2] (NewIoBuffer 2) =
           Inr (b', [BNone, BNone, BNone, BBytes [2, 3]]) \<and> contents b' = [4])"
  using iob_run_refines [of "NewIoBuffer 2" "[OWrite [1, 2], ODrain 1, OAppend [3, 4], ORead 2]"]
  by auto

text \<open>
  C33 (termination). \<open>ReadOnce\<close> on a connection always returns: a read that fills the space
  offered makes progress towards \<open>MaxRead\<close>, every other read ends the loop. It reports the
  number of bytes it appended, and it appends them behind the unread bytes. The hypothesis
  is the contract of \<open>io.Reader\<close>: no more bytes than asked for.
\<close>

theorem ReadOnce_returns:
  assumes "iob_wf b"
    and "\<And>r n. \<exists>r' got e. rd r n = Inr (r', got, e) \<and> length got \<le> n"
  shows "\<exists>b' r' got e. ReadOnce True rd b r = Some (Inr (b', r', length got, e)) \<and>
           iob_wf b' \<and> contents b' = contents b @ got"
proof -
  let ?b = "if boff b \<ge> int (blen b) then Reset b else b"
  from compact_wf [OF reset_if_drained(1) [OF assms(1)]] reset_if_drained(2) [OF assms(1)]
  obtain b1 where b1: "compact ?b = Inr b1" "iob_wf b1" "contents b1 = contents b" by auto
  from ReadOnceLoop_returns [OF b1(2), of rd r 0] assms(2) obtain b' r' got e where
    "ReadOnceLoop rd b1 r 0 = Some (Inr (b', r', length got, e))" "iob_wf b'"
    "contents b' = contents b1 @ got" by auto
  with b1 show ?thesis by (auto simp: ReadOnce_def Let_def)
qed

definition script_reader :: "byte list list \<Rightarrow> nat \<Rightarrow> (byte list list \<times> byte list \<times> io_err option) outcome" where
  "script_reader r n = Inr (case r of [] \<Rightarrow> ([], [], Some Timeout) | c # cs \<Rightarrow> (cs, take n c, None))"

theorem ReadOnce_returns_witness:
  "iob_wf (NewIoBuffer 4) \<and>
   (\<forall>r n. \<exists>r' got e. script_reader r n = Inr (r', got, e) \<and> length got \<le> n) \<and>
   (\<exists>b' r' got e. ReadOnce True script_reader (NewIoBuffer 4) [[7, 8]] = Some (Inr (b', r', length got, e)) \<and>
           iob_wf b' \<and> contents b' = got)"
proof -
  have c: "\<exists>r' got e. script_reader r n = Inr (r', got, e) \<and> length got \<le> n" for r n
    by (cases r) (simp_all add: script_reader_def)
  show ?thesis
    using ReadOnce_returns [of "NewIoBuffer 4" script_reader "[[7, 8]]"] c by simp
qed

text \<open>
  \<open>ReadFrom\<close> with another buffer as its reader, which is how stream filters
  bank up a body, ends, moves every unread byte of the source behind the bytes already held,
  reports their number and leaves the source drained.
\<close>

lemma ReadFrom_buffer_moves_all:
  assumes "iob_wf b" and "iob_wf src"
  shows "\<exists>b' src'. ReadFromReader Read b src = Some (Inr (b', src', length (contents src), None)) \<and>
           iob_wf b' \<and> contents b' = contents b @ contents src \<and> contents src' = []"
  using buffer_reader.ReadFromReader_all [OF assms] by blast

text \<open>
  \<open>WriteTo\<close> with a writer that keeps the contract of \<open>io.Writer\<close> (it takes
  at most what it is offered, and reports an error when it takes less) does not panic,
  consumes exactly the bytes the writer took, and leaves the buffer empty unless it returns
  an error.
\<close>

lemma WriteTo_consumes:
  assumes "iob_wf b" and "writer_contract wr"
  shows "\<exists>b' w' m e. WriteTo wr b w 0 = Inr (b', w', m, e) \<and> iob_wf b' \<and>
           contents b' = drop m (contents b) \<and> (e = None \<longrightarrow> contents b' = [])"
proof -
  from WriteTo_wf [OF assms, of w 0] obtain b' w' m e where
    "WriteTo wr b w 0 = Inr (b', w', m, e)" "iob_wf b'" "contents b' = drop m (contents b)"
    "e = None \<longrightarrow> m = length (contents b)" by auto
  then show ?thesis by auto
qed

definition half_writer :: "byte list \<Rightarrow> byte list \<Rightarrow> byte list \<times> nat \<times> io_err option" where
  "half_writer w src =
     (if length src \<le> 1 then (w @ src, length src, None)
      else (w @ take 1 src, 1, Some (IOErr ''short write'')))"

text \<open>
  \<open>AppendByte\<close> does not append its argument: whatever the byte is, a zero byte
  is appended.
\<close>

lemma AppendByte_appends_zero:
  assumes "iob_wf b"
  shows "\<exists>b'. AppendByte b data = Inr b' \<and> contents b' = contents b @ [0]"
  using Append_wf [OF assms, of "[0]"] by (auto simp: AppendByte_def makeSlice_def)

text \<open>
  \<open>Clone\<close> returns a buffer without the bytes it copied: the clone of a buffer
  with unread bytes is empty.
\<close>

lemma Clone_is_empty:
  assumes "iob_wf b"
  shows "\<exists>c. Clone b = Inr c \<and> iob_wf c \<and> contents c = []"
  using assms by (auto simp: Clone_def Len_def iob_wf_def [of b])

text \<open>
  \<open>Mark\<close> records an absolute offset that \<open>Append\<close> does not adjust when it
  slides the contents down: after \<open>Mark\<close>, \<open>Append\<close> and \<open>Restore\<close> the offset can lie
  beyond the slice, and \<open>Bytes\<close> panics.
\<close>

lemma Restore_after_slide_panics:
  "\<exists>b b'. iob_wf b \<and> Append (Mark b) [9] = Inr b' \<and> Bytes (Restore b') = Inl SliceBoundsOutOfRange"
proof -
  let ?b = "\<lparr>barr = [1, 2, 3, 4], blen = 4, boff = 3, boffMark = ResetOffMark, bnil = False\<rparr>"
  let ?b' = "\<lparr>barr = [4, 9, 3, 4], blen = 2, boff = 0, boffMark = 3, bnil = False\<rparr>"
  have "iob_wf ?b" by (simp add: iob_wf_def)
  moreover have "Append (Mark ?b) [9] = Inr ?b'"
    by (simp add: Append_def Mark_def make_room_def buf_from_def bbuf_def go_copy_def put_tail_def
        Let_def)
  moreover have "Bytes (Restore ?b') = Inl SliceBoundsOutOfRange"
    by (simp add: Bytes_def Restore_def ResetOffMark_def buf_from_def bbuf_def go_slice_def)
  ultimately show ?thesis by blast
qed

end
