(* ===== verification/Serialize.thy ===== *)
theory Serialize
  imports IoBuffer
begin

text \<open>
  The simple serialization of \<open>pkg/protocol/serialize/simple.go\<close>: strings as their bytes,
  string maps as length-prefixed keys and values. It writes to a \<open>bytes.Buffer\<close> and reads
  from byte slices. A Go map is iterated in an order the language leaves open: the encoder
  takes the list of entries in that order, and the results hold for every order.
\<close>

section \<open>Values\<close>

type_synonym smap = "string \<rightharpoonup> string"

datatype gvalue =
    VNil
  | VString string
  | VMap "(string \<times> string) list"
  | VBytes "byte list"
  | VOther

datatype target =
    TNil
  | TString string
  | TMap smap
  | TOther

datatype ser_err = NoEnoughBytes | MultiValue

section \<open>Encoding\<close>

definition BufferWrite :: "byte list \<Rightarrow> byte list \<Rightarrow> (byte list \<times> nat) outcome" where
  "BufferWrite buf p = Inr (buf @ p, length p)"

interpretation bytes_sink: byte_sink BufferWrite id "\<lambda>_. True"
  by unfold_locales (simp add: BufferWrite_def)

definition unsafeStrToByte :: "string \<Rightarrow> byte list" where
  "unsafeStrToByte s = bytes_of_string s"

definition encodeString :: "string \<Rightarrow> byte list \<Rightarrow> (byte list \<times> nat) outcome" where
  "encodeString v buf = BufferWrite buf (unsafeStrToByte v)"

fun encodeMap :: "(string \<times> string) list \<Rightarrow> byte list \<Rightarrow> byte list outcome" where
  "encodeMap [] buf = Inr buf"
| "encodeMap ((key, value) # rest) buf =
     (let keyBytes = unsafeStrToByte key;
          valueBytes = unsafeStrToByte value
      in obind (write_seq BufferWrite buf
           [PutUint32 (word_of_nat (length keyBytes)), keyBytes,
            PutUint32 (word_of_nat (length valueBytes)), valueBytes])
           (encodeMap rest))"

definition encodeBytes :: "byte list \<Rightarrow> byte list \<Rightarrow> byte list outcome" where
  "encodeBytes v buf = write_seq BufferWrite buf [PutUint32 (word_of_nat (length v)), v]"

definition ser_Serialize :: "gvalue \<Rightarrow> byte list outcome" where
  "ser_Serialize v =
     (case v of
        VNil \<Rightarrow> Inr [0]
      | VString s \<Rightarrow> obind (encodeString s []) (\<lambda>(b, _). Inr b)
      | VMap kvs \<Rightarrow> encodeMap kvs []
      | VBytes bs \<Rightarrow> obind (BufferWrite [] [3]) (\<lambda>(b, _). encodeBytes bs b)
      | VOther \<Rightarrow> Inr [])"

definition SerializeMulti :: "gvalue list \<Rightarrow> (ser_err + byte list) outcome" where
  "SerializeMulti vs =
     (case vs of
        [] \<Rightarrow> Inr (Inr [])
      | [v] \<Rightarrow> obind (ser_Serialize v) (\<lambda>b. Inr (Inr b))
      | _ \<Rightarrow> Inr (Inl MultiValue))"

section \<open>Decoding\<close>

definition readInt32 :: "byte list \<Rightarrow> ser_err + nat" where
  "readInt32 b = (if length b < 4 then Inl NoEnoughBytes else Inr (unat (Uint32 (take 4 b))))"

definition decodeString :: "bslice \<Rightarrow> string \<times> nat" where
  "decodeString b = (string_of_bytes (bs_vis b), bs_len b)"

text \<open>
  The loop over the entries, from \<open>index\<close>; it returns the map as far as it is filled and
  the error, if any. A length beyond the capacity of the slice panics.
\<close>

function decodeMapLoop :: "bslice \<Rightarrow> nat \<Rightarrow> smap \<Rightarrow> (smap \<times> ser_err option) outcome" where
  "decodeMapLoop b index result =
     (if index < bs_len b then
        obind (bs_from b index) (\<lambda>s1.
          case readInt32 (bs_vis s1) of
            Inl e \<Rightarrow> Inr (result, Some e)
          | Inr len1 \<Rightarrow>
              obind (bs_slice b (index + 4) (index + 4 + len1)) (\<lambda>key.
              obind (bs_from b (index + 4 + len1)) (\<lambda>s2.
                case readInt32 (bs_vis s2) of
                  Inl e \<Rightarrow> Inr (result, Some e)
                | Inr len2 \<Rightarrow>
                    obind (bs_slice b (index + 4 + len1 + 4) (index + 4 + len1 + 4 + len2)) (\<lambda>value.
                      decodeMapLoop b (index + 4 + len1 + 4 + len2)
                        (result(string_of_bytes (bs_vis key) \<mapsto> string_of_bytes (bs_vis value)))))))
      else Inr (result, None))"
  by pat_completeness auto
termination
  by (relation "measure (\<lambda>(b, index, _). bs_len b - index)") auto

declare decodeMapLoop.simps [simp del]

definition decodeMap :: "bslice \<Rightarrow> smap \<Rightarrow> (smap \<times> ser_err option) outcome" where
  "decodeMap b result = decodeMapLoop b 0 result"

text \<open>
  \<open>DeSerialize\<close> fills the value its second argument points to; it returns that value
  afterwards, the result (\<open>TNil\<close> is Go's nil), and the error.
\<close>

definition ser_DeSerialize :: "bslice \<Rightarrow> target \<Rightarrow> (target \<times> target \<times> ser_err option) outcome" where
  "ser_DeSerialize b v =
     (if bs_len b = 0 then Inr (v, TNil, None)
      else case v of
        TString _ \<Rightarrow> (let s = TString (fst (decodeString b)) in Inr (s, s, None))
      | TMap m \<Rightarrow> obind (decodeMap b m) (\<lambda>(m', e).
          case e of Some err \<Rightarrow> Inr (TMap m', TNil, Some err) | None \<Rightarrow> Inr (TMap m', TMap m', None))
      | _ \<Rightarrow> Inr (v, TNil, None))"

definition DeSerializeMulti :: "bslice \<Rightarrow> target list option \<Rightarrow> (target list \<times> ser_err option) outcome" where
  "DeSerializeMulti b v =
     (case v of
        Some [] \<Rightarrow> Inr ([], None)
      | Some (x # y # zs) \<Rightarrow> Inr ([], Some MultiValue)
      | Some [x] \<Rightarrow> obind (ser_DeSerialize b x) (\<lambda>(_, rv, e). Inr ([rv], e))
      | None \<Rightarrow> obind (ser_DeSerialize b TNil) (\<lambda>(_, rv, e). Inr ([rv], e)))"

section \<open>What the encoder writes\<close>

definition entry_bytes :: "string \<times> string \<Rightarrow> byte list" where
  "entry_bytes kv = PutUint32 (word_of_nat (length (fst kv))) @ bytes_of_string (fst kv) @
     PutUint32 (word_of_nat (length (snd kv))) @ bytes_of_string (snd kv)"

definition put_entry :: "smap \<Rightarrow> string \<times> string \<Rightarrow> smap" where
  "put_entry m kv = m(fst kv \<mapsto> snd kv)"

definition small_entry :: "string \<times> string \<Rightarrow> bool" where
  "small_entry kv \<longleftrightarrow> length (fst kv) < 2 ^ 32 \<and> length (snd kv) < 2 ^ 32"

lemma length_entry_bytes: "length (entry_bytes (k, v)) = 4 + length k + 4 + length v"
  by (simp add: entry_bytes_def)

lemma BufferWrite_seq: "write_seq BufferWrite buf cs = Inr (buf @ concat cs)"
  using bytes_sink.write_seq_held [of buf cs] by auto

lemma encodeMap_eq: "encodeMap kvs buf = Inr (buf @ concat (map entry_bytes kvs))"
proof (induction kvs arbitrary: buf)
  case Nil
  then show ?case by simp
next
  case (Cons kv kvs)
  then show ?case
    by (cases kv) (simp add: Let_def BufferWrite_seq unsafeStrToByte_def entry_bytes_def del: write_seq.simps)
qed

lemma readInt32_PutUint32: "n < 2 ^ 32 \<Longrightarrow> readInt32 (PutUint32 (word_of_nat n) @ r) = Inr n"
  by (simp add: readInt32_def unat_of_nat)

lemma bs_from_append [simp]: "bs_from (B (p @ r) x) (length p) = Inr (B r x)"
  by (simp add: bs_from_def)

lemma bs_slice_append: "n = length p \<Longrightarrow> m = n + length k \<Longrightarrow> bs_slice (B (p @ k @ r) x) n m = Inr (B k (r @ x))"
  by (simp add: bs_slice_def)

lemma decodeMapLoop_entry:
  assumes "small_entry (k, v)"
  shows "decodeMapLoop (B (p @ entry_bytes (k, v) @ r) x) (length p) res =
         decodeMapLoop (B ((p @ entry_bytes (k, v)) @ r) x) (length (p @ entry_bytes (k, v))) (res(k \<mapsto> v))"
proof -
  define L1 where "L1 = PutUint32 (word_of_nat (length k))"
  define L2 where "L2 = PutUint32 (word_of_nat (length v))"
  define K where "K = bytes_of_string k"
  define V where "V = bytes_of_string v"
  define b where "b = B (p @ L1 @ K @ L2 @ V @ r) x"
  have lens: "length L1 = 4" "length L2 = 4" "length K = length k" "length V = length v"
    by (simp_all add: L1_def L2_def K_def V_def)
  have strs: "string_of_bytes K = k" "string_of_bytes V = v" by (simp_all add: K_def V_def)
  have b: "B (p @ entry_bytes (k, v) @ r) x = b" "B ((p @ entry_bytes (k, v)) @ r) x = b"
    by (simp_all add: b_def entry_bytes_def L1_def L2_def K_def V_def)
  have less: "length p < bs_len b" by (simp add: b_def lens)
  have f1: "bs_from b (length p) = Inr (B (L1 @ K @ L2 @ V @ r) x)"
    unfolding b_def by (rule bs_from_append)
  have r1: "readInt32 (L1 @ K @ L2 @ V @ r) = Inr (length k)"
    using assms by (simp add: L1_def readInt32_PutUint32 small_entry_def)
  have k1: "bs_slice b (length p + 4) (length p + 4 + length k) = Inr (B K (L2 @ V @ r @ x))"
    using bs_slice_append [of _ "p @ L1" _ K "L2 @ V @ r" x] by (simp add: b_def lens)
  have f2: "bs_from b (length p + 4 + length k) = Inr (B (L2 @ V @ r) x)"
    using bs_from_append [of "p @ L1 @ K" "L2 @ V @ r" x] by (simp add: b_def lens ac_simps)
  have r2: "readInt32 (L2 @ V @ r) = Inr (length v)"
    using assms by (simp add: L2_def readInt32_PutUint32 small_entry_def)
  have v1: "bs_slice b (length p + 4 + length k + 4) (length p + 4 + length k + 4 + length v) =
      Inr (B V (r @ x))"
    using bs_slice_append [of _ "p @ L1 @ K @ L2" _ V r x] by (simp add: b_def lens ac_simps)
  have "decodeMapLoop b (length p) res =
     decodeMapLoop b (length p + 4 + length k + 4 + length v) (res(k \<mapsto> v))"
    by (subst decodeMapLoop.simps)
       (simp only: less f1 r1 k1 f2 r2 v1 strs obind_Inr bs_vis.simps sum.case if_True)
  then show ?thesis unfolding b by (simp add: length_entry_bytes ac_simps)
qed

lemma decodeMapLoop_entries:
  "list_all small_entry kvs \<Longrightarrow>
   decodeMapLoop (B (p @ concat (map entry_bytes kvs)) x) (length p) res =
     Inr (foldl put_entry res kvs, None)"
proof (induction kvs arbitrary: p res)
  case Nil
  then show ?case by (subst decodeMapLoop.simps) simp
next
  case (Cons kv kvs)
  obtain k v where kv: "kv = (k, v)" by (cases kv)
  with Cons.prems have "small_entry (k, v)" "list_all small_entry kvs" by simp_all
  from decodeMapLoop_entry [OF this(1), of p "concat (map entry_bytes kvs)" x res]
    Cons.IH [OF this(2), of "p @ entry_bytes (k, v)" "put_entry res (k, v)"] kv
  show ?case by (simp add: put_entry_def del: fun_upd_apply)
qed

lemma foldl_upd_map_of:
  "distinct (map fst kvs) \<Longrightarrow> foldl put_entry res kvs = res ++ map_of kvs"
proof (induction kvs arbitrary: res)
  case Nil
  then show ?case by simp
next
  case (Cons kv kvs)
  then have "fst kv \<notin> dom (map_of kvs)" by (auto simp: dom_map_of_conv_image_fst)
  with Cons show ?case by (cases kv) (simp add: put_entry_def map_add_upd_left del: fun_upd_apply)
qed

section \<open>Properties\<close>

text \<open>
  C14 (roundtrip). Serializing a string map, in whatever order its entries are visited, and
  decoding the bytes into an empty map gives the map back, with no error, as long as every
  key and value is shorter than \<open>2 ^ 32\<close> bytes.
\<close>

theorem map_roundtrip:
  assumes "distinct (map fst kvs)" and "list_all small_entry kvs"
  shows "\<exists>bs. ser_Serialize (VMap kvs) = Inr bs \<and>
           decodeMap (B bs extra) Map.empty = Inr (map_of kvs, None)"
  using decodeMapLoop_entries [OF assms(2), of "[]" extra Map.empty] assms(1)
  by (simp add: ser_Serialize_def encodeMap_eq decodeMap_def foldl_upd_map_of)

theorem map_roundtrip_witness:
  "\<exists>bs. ser_Serialize (VMap [(''service'', ''a''), (''k'', '''')]) = Inr bs \<and>
     decodeMap (B bs [1]) Map.empty = Inr (map_of [(''service'', ''a''), (''k'', '''')], None)"
  using map_roundtrip [of "[(''service'', ''a''), (''k'', '''')]" "[1]"]
  by (simp add: small_entry_def)

text \<open>
  A key length that runs past the capacity of the slice is not reported as an
  error: the slice expression panics. The length is read from the wire.
\<close>

lemma decodeMap_overlong_panics:
  assumes "length rest + length extra < unat n"
  shows "decodeMap (B (PutUint32 n @ rest) extra) res = Inl SliceBoundsOutOfRange"
  using assms
  by (simp add: decodeMap_def decodeMapLoop.simps [of _ 0] bs_from_def readInt32_def bs_slice_def)

text \<open>
  A value length that runs past the slice but not past its capacity is accepted:
  the value then includes bytes that follow the slice in its array (for a Bolt frame, bytes
  of the message content).
\<close>

lemma decodeMap_reads_beyond:
  assumes "length k < 2 ^ 32" and "length v1 + length v2 < 2 ^ 32"
  shows "decodeMap (B (PutUint32 (word_of_nat (length k)) @ bytes_of_string k @
           PutUint32 (word_of_nat (length v1 + length v2)) @ v1) (v2 @ z)) res =
         Inr (res(k \<mapsto> string_of_bytes (v1 @ v2)), None)"
proof -
  let ?L1 = "PutUint32 (word_of_nat (length k))"
  let ?L2 = "PutUint32 (word_of_nat (length v1 + length v2))"
  let ?K = "bytes_of_string k"
  let ?b = "B (?L1 @ ?K @ ?L2 @ v1) (v2 @ z)"
  have r1: "readInt32 (?L1 @ ?K @ ?L2 @ v1) = Inr (length k)"
    and r2: "readInt32 (?L2 @ v1) = Inr (length v1 + length v2)"
    using assms readInt32_PutUint32 [of "length v1 + length v2"]
    by (simp_all add: readInt32_PutUint32 del: of_nat_add)
  have k1: "bs_slice ?b (0 + 4) (0 + 4 + length k) = Inr (B ?K ((?L2 @ v1) @ v2 @ z))"
    using bs_slice_append [of 4 "?L1" "4 + length k" ?K "?L2 @ v1" "v2 @ z"] by simp
  have f1: "bs_from ?b 0 = Inr ?b" by (simp add: bs_from_def)
  have f2: "bs_from ?b (0 + 4 + length k) = Inr (B (?L2 @ v1) (v2 @ z))"
    using bs_from_append [of "?L1 @ ?K" "?L2 @ v1" "v2 @ z"] by simp
  have v: "bs_slice ?b (0 + 4 + length k + 4) (0 + 4 + length k + 4 + (length v1 + length v2)) =
      Inr (B (v1 @ v2) z)"
    by (simp add: bs_slice_def)
  have e: "decodeMapLoop ?b (0 + 4 + length k + 4 + (length v1 + length v2)) m = Inr (m, None)" for m
    by (subst decodeMapLoop.simps) simp
  have less: "0 < length (?L1 @ ?K @ ?L2 @ v1)" by simp
  show ?thesis unfolding decodeMap_def
    by (subst decodeMapLoop.simps)
       (simp only: less f1 r1 k1 f2 r2 v e string_bytes_inverse obind_Inr bs_vis.simps sum.case if_True)
qed

end
