(* ===== verification/Bolt_Codec.thy ===== *)
theory Bolt_Codec
  imports Serialize
begin

text \<open>
  The Bolt wire format: \<open>pkg/protocol/sofarpc/types.go\<close> (commands and constants) and
  \<open>pkg/protocol/sofarpc/codec\<close> (\<open>boltv1codec.go\<close>, \<open>boltv2codec.go\<close>, \<open>boltprotocol.go\<close>).
  Go's \<open>int16\<close> and \<open>uint16\<close> are 16-bit words, \<open>uint32\<close> 32-bit words, \<open>int\<close> and
  \<open>int64\<close> 64-bit words; conversions between them truncate or extend as in the source.
  The clock is a parameter. Log calls have no effect on the result and are left out.
\<close>

section \<open>Constants and commands\<close>

definition PROTOCOL_CODE_V1 :: byte where "PROTOCOL_CODE_V1 = 1"
definition PROTOCOL_CODE_V2 :: byte where "PROTOCOL_CODE_V2 = 2"
definition REQUEST_HEADER_LEN_V1 :: nat where "REQUEST_HEADER_LEN_V1 = 22"
definition REQUEST_HEADER_LEN_V2 :: nat where "REQUEST_HEADER_LEN_V2 = 24"
definition RESPONSE_HEADER_LEN_V1 :: nat where "RESPONSE_HEADER_LEN_V1 = 20"
definition RESPONSE_HEADER_LEN_V2 :: nat where "RESPONSE_HEADER_LEN_V2 = 22"
definition LESS_LEN_V1 :: nat where "LESS_LEN_V1 = RESPONSE_HEADER_LEN_V1"
definition LESS_LEN_V2 :: nat where "LESS_LEN_V2 = RESPONSE_HEADER_LEN_V2"
definition RESPONSE :: byte where "RESPONSE = 0"
definition REQUEST :: byte where "REQUEST = 1"
definition REQUEST_ONEWAY :: byte where "REQUEST_ONEWAY = 2"
definition HEARTBEAT :: "16 word" where "HEARTBEAT = 0"
definition RPC_REQUEST :: "16 word" where "RPC_REQUEST = 1"
definition RPC_RESPONSE :: "16 word" where "RPC_RESPONSE = 2"
definition RESPONSE_STATUS_SUCCESS :: "16 word" where "RESPONSE_STATUS_SUCCESS = 0"
definition HESSIAN_SERIALIZE :: byte where "HESSIAN_SERIALIZE = 1"

lemmas bolt_consts =
  PROTOCOL_CODE_V1_def PROTOCOL_CODE_V2_def REQUEST_HEADER_LEN_V1_def REQUEST_HEADER_LEN_V2_def
  RESPONSE_HEADER_LEN_V1_def RESPONSE_HEADER_LEN_V2_def LESS_LEN_V1_def LESS_LEN_V2_def
  RESPONSE_def REQUEST_def REQUEST_ONEWAY_def HEARTBEAT_def RPC_REQUEST_def RPC_RESPONSE_def
  RESPONSE_STATUS_SUCCESS_def HESSIAN_SERIALIZE_def

record BoltRequestCommand =
  rq_Protocol :: byte
  rq_CmdType :: byte
  rq_CmdCode :: "16 word"
  rq_Version :: byte
  rq_ReqID :: "32 word"
  rq_CodecPro :: byte
  rq_Timeout :: "64 word"
  rq_ClassLen :: "16 word"
  rq_HeaderLen :: "16 word"
  rq_ContentLen :: "64 word"
  rq_ClassName :: bslice
  rq_HeaderMap :: bslice
  rq_Content :: bslice
  rq_RequestHeader :: "smap option"

record BoltResponseCommand =
  rs_Protocol :: byte
  rs_CmdType :: byte
  rs_CmdCode :: "16 word"
  rs_Version :: byte
  rs_ReqID :: "32 word"
  rs_CodecPro :: byte
  rs_ResponseStatus :: "16 word"
  rs_ClassLen :: "16 word"
  rs_HeaderLen :: "16 word"
  rs_ContentLen :: "64 word"
  rs_ClassName :: bslice
  rs_HeaderMap :: bslice
  rs_Content :: bslice
  rs_ResponseTimeMillis :: "64 word"
  rs_ResponseHeader :: "smap option"

record BoltV2RequestCommand = BoltRequestCommand +
  rq_Version1 :: byte
  rq_SwitchCode :: byte

record BoltV2ResponseCommand = BoltResponseCommand +
  rs_Version1 :: byte
  rs_SwitchCode :: byte

datatype bolt_cmd =
    ReqV1 BoltRequestCommand
  | RespV1 BoltResponseCommand
  | ReqV2 BoltV2RequestCommand
  | RespV2 BoltV2ResponseCommand

datatype decode_err = UnKnownReqtype byte

section \<open>Encoding\<close>

text \<open>
  \<open>GetBuffer\<close> takes a buffer from the connection's pool when the context has one, else it
  allocates one; \<open>pooled\<close> is what the pool gives. Allocating with a negative capacity
  panics.
\<close>

definition GetBuffer :: "iobuffer option \<Rightarrow> int \<Rightarrow> iobuffer outcome" where
  "GetBuffer pooled sz =
     (case pooled of
        Some b \<Rightarrow> Inr b
      | None \<Rightarrow> if sz < 0 then Inl MakeSliceLen else Inr (NewIoBuffer (nat sz)))"

definition v1_req_chunks :: "BoltRequestCommand \<Rightarrow> byte list list" where
  "v1_req_chunks cmd =
     [[rq_Protocol cmd], [rq_CmdType cmd], PutUint16 (rq_CmdCode cmd), [rq_Version cmd],
      PutUint32 (rq_ReqID cmd), [rq_CodecPro cmd], PutUint32 (ucast (rq_Timeout cmd)),
      PutUint16 (rq_ClassLen cmd), PutUint16 (word_of_nat (bs_len (rq_HeaderMap cmd))),
      PutUint32 (ucast (rq_ContentLen cmd))]
     @ (if 0 <s rq_ClassLen cmd then [bs_vis (rq_ClassName cmd)] else [])
     @ (if bs_len (rq_HeaderMap cmd) > 0 then [bs_vis (rq_HeaderMap cmd)] else [])"

definition v1_doEncodeRequestCommand :: "iobuffer option \<Rightarrow> BoltRequestCommand \<Rightarrow> iobuffer outcome" where
  "v1_doEncodeRequestCommand pooled cmd =
     obind (GetBuffer pooled (22 + sint (rq_ClassLen cmd) + int (bs_len (rq_HeaderMap cmd)))) (\<lambda>buf.
       write_seq Write buf (v1_req_chunks cmd))"

definition v1_resp_chunks :: "BoltResponseCommand \<Rightarrow> byte list list" where
  "v1_resp_chunks cmd =
     [[rs_Protocol cmd], [rs_CmdType cmd], PutUint16 (rs_CmdCode cmd), [rs_Version cmd],
      PutUint32 (rs_ReqID cmd), [rs_CodecPro cmd], PutUint16 (rs_ResponseStatus cmd),
      PutUint16 (rs_ClassLen cmd), PutUint16 (word_of_nat (bs_len (rs_HeaderMap cmd))),
      PutUint32 (ucast (rs_ContentLen cmd))]
     @ (if 0 <s rs_ClassLen cmd then [bs_vis (rs_ClassName cmd)] else [])
     @ (if bs_len (rs_HeaderMap cmd) > 0 then [bs_vis (rs_HeaderMap cmd)] else [])"

definition v1_doEncodeResponseCommand :: "iobuffer option \<Rightarrow> BoltResponseCommand \<Rightarrow> iobuffer outcome" where
  "v1_doEncodeResponseCommand pooled cmd =
     obind (GetBuffer pooled (20 + sint (rs_ClassLen cmd) + int (bs_len (rs_HeaderMap cmd)))) (\<lambda>buf.
       write_seq Write buf (v1_resp_chunks cmd))"

definition v2_req_chunks :: "BoltV2RequestCommand \<Rightarrow> byte list list" where
  "v2_req_chunks cmd =
     [[rq_Protocol cmd], [rq_Version1 cmd], [rq_CmdType cmd], PutUint16 (rq_CmdCode cmd),
      [rq_Version cmd], PutUint32 (rq_ReqID cmd), [rq_CodecPro cmd], [rq_SwitchCode cmd],
      PutUint32 (ucast (rq_Timeout cmd)),
      PutUint16 (rq_ClassLen cmd), PutUint16 (word_of_nat (bs_len (rq_HeaderMap cmd))),
      PutUint32 (ucast (rq_ContentLen cmd))]
     @ (if 0 <s rq_ClassLen cmd then [bs_vis (rq_ClassName cmd)] else [])
     @ (if bs_len (rq_HeaderMap cmd) > 0 then [bs_vis (rq_HeaderMap cmd)] else [])"

definition v2_doEncodeRequestCommand :: "iobuffer option \<Rightarrow> BoltV2RequestCommand \<Rightarrow> iobuffer outcome" where
  "v2_doEncodeRequestCommand pooled cmd =
     obind (GetBuffer pooled (22 + sint (rq_ClassLen cmd) + int (bs_len (rq_HeaderMap cmd)))) (\<lambda>buf.
       write_seq Write buf (v2_req_chunks cmd))"

definition v2_resp_chunks :: "BoltV2ResponseCommand \<Rightarrow> byte list list" where
  "v2_resp_chunks cmd =
     [[rs_Protocol cmd], [rs_Version1 cmd], [rs_CmdType cmd], PutUint16 (rs_CmdCode cmd),
      [rs_Version cmd], PutUint32 (rs_ReqID cmd), [rs_CodecPro cmd], [rs_SwitchCode cmd],
      PutUint16 (rs_ResponseStatus cmd),
      PutUint16 (rs_ClassLen cmd), PutUint16 (word_of_nat (bs_len (rs_HeaderMap cmd))),
      PutUint32 (ucast (rs_ContentLen cmd))]
     @ (if 0 <s rs_ClassLen cmd then [bs_vis (rs_ClassName cmd)] else [])
     @ (if bs_len (rs_HeaderMap cmd) > 0 then [bs_vis (rs_HeaderMap cmd)] else [])"

definition v2_doEncodeResponseCommand :: "iobuffer option \<Rightarrow> BoltV2ResponseCommand \<Rightarrow> iobuffer outcome" where
  "v2_doEncodeResponseCommand pooled cmd =
     obind (GetBuffer pooled (20 + sint (rs_ClassLen cmd) + int (bs_len (rs_HeaderMap cmd)))) (\<lambda>buf.
       write_seq Write buf (v2_resp_chunks cmd))"

section \<open>encodeHeaders\<close>

datatype enc_err = InvalidCommandType | NoProCodeInHeader | InvalidHeaderType | NoReqIDFound | UnSupportedProCode

definition v1_encodeHeaders :: "iobuffer option \<Rightarrow> bolt_cmd option \<Rightarrow> (enc_err + iobuffer) outcome" where
  "v1_encodeHeaders pooled headers =
     (case headers of
        Some (ReqV1 c) \<Rightarrow> obind (v1_doEncodeRequestCommand pooled c) (\<lambda>b. Inr (Inr b))
      | Some (RespV1 c) \<Rightarrow> obind (v1_doEncodeResponseCommand pooled c) (\<lambda>b. Inr (Inr b))
      | _ \<Rightarrow> Inr (Inl InvalidCommandType))"

definition v2_encodeHeaders :: "iobuffer option \<Rightarrow> bolt_cmd option \<Rightarrow> (enc_err + iobuffer) outcome" where
  "v2_encodeHeaders pooled headers =
     (case headers of
        Some (ReqV2 c) \<Rightarrow> obind (v2_doEncodeRequestCommand pooled c) (\<lambda>b. Inr (Inr b))
      | Some (RespV2 c) \<Rightarrow> obind (v2_doEncodeResponseCommand pooled c) (\<lambda>b. Inr (Inr b))
      | _ \<Rightarrow> Inr (Inl InvalidCommandType))"

section \<open>Decoding\<close>

text \<open>\<open>data.Bytes()\<close> with the capacity it carries, and reads at fixed offsets of it.\<close>

definition BytesSlice :: "iobuffer \<Rightarrow> bslice outcome" where
  "BytesSlice b = obind (Bytes b) (\<lambda>v. Inr (B v (drop (blen b) (barr b))))"

definition byte_at :: "bslice \<Rightarrow> nat \<Rightarrow> byte outcome" where
  "byte_at s i = go_index (bs_vis s) (int i)"

definition u16_at :: "bslice \<Rightarrow> nat \<Rightarrow> 16 word outcome" where
  "u16_at s i = obind (bs_slice s i (i + 2)) (\<lambda>x. Inr (Uint16 (bs_vis x)))"

definition u32_at :: "bslice \<Rightarrow> nat \<Rightarrow> 32 word outcome" where
  "u32_at s i = obind (bs_slice s i (i + 4)) (\<lambda>x. Inr (Uint32 (bs_vis x)))"

text \<open>
  The variable part of a frame: class, header and content, each left nil when its length is
  zero, and the number of bytes read so far.
\<close>

definition opt_slice :: "bslice \<Rightarrow> nat \<Rightarrow> nat \<Rightarrow> (bslice \<times> nat) outcome" where
  "opt_slice bytes read len =
     (if len > 0 then obind (bs_slice bytes read (read + len)) (\<lambda>s. Inr (s, read + len))
      else Inr (NilB, read))"

definition decode_body :: "bslice \<Rightarrow> nat \<Rightarrow> nat \<Rightarrow> nat \<Rightarrow> nat \<Rightarrow> (bslice \<times> bslice \<times> bslice \<times> nat) outcome" where
  "decode_body bytes read classLen headerLen contentLen =
     obind (opt_slice bytes read classLen) (\<lambda>(class, read).
     obind (opt_slice bytes read headerLen) (\<lambda>(header, read).
     obind (opt_slice bytes read contentLen) (\<lambda>(content, read).
       Inr (class, header, content, read))))"

definition v1_decode_request ::
  "iobuffer \<Rightarrow> bslice \<Rightarrow> byte \<Rightarrow> (iobuffer \<times> bolt_cmd option) outcome" where
  "v1_decode_request data bytes dataType =
     obind (u16_at bytes 2) (\<lambda>cmdCode.
     obind (byte_at bytes 4) (\<lambda>ver2.
     obind (u32_at bytes 5) (\<lambda>requestID.
     obind (byte_at bytes 9) (\<lambda>codec.
     obind (u32_at bytes 10) (\<lambda>timeout.
     obind (u16_at bytes 14) (\<lambda>classLen.
     obind (u16_at bytes 16) (\<lambda>headerLen.
     obind (u32_at bytes 18) (\<lambda>contentLen.
       if Len data \<ge> int (REQUEST_HEADER_LEN_V1 + unat classLen + unat headerLen + unat contentLen) then
         obind (decode_body bytes REQUEST_HEADER_LEN_V1 (unat classLen) (unat headerLen) (unat contentLen))
           (\<lambda>(class, header, content, read).
             Inr (Drain data (int read),
               Some (ReqV1 \<lparr>rq_Protocol = PROTOCOL_CODE_V1, rq_CmdType = dataType,
                 rq_CmdCode = cmdCode, rq_Version = ver2, rq_ReqID = requestID,
                 rq_CodecPro = codec, rq_Timeout = ucast timeout, rq_ClassLen = classLen,
                 rq_HeaderLen = headerLen, rq_ContentLen = ucast contentLen,
                 rq_ClassName = class, rq_HeaderMap = header, rq_Content = content,
                 rq_RequestHeader = None\<rparr>)))
       else Inr (data, None)))))))))"

definition v1_decode_response ::
  "64 word \<Rightarrow> iobuffer \<Rightarrow> bslice \<Rightarrow> byte \<Rightarrow> (iobuffer \<times> bolt_cmd option) outcome" where
  "v1_decode_response now data bytes dataType =
     obind (u16_at bytes 2) (\<lambda>cmdCode.
     obind (byte_at bytes 4) (\<lambda>ver2.
     obind (u32_at bytes 5) (\<lambda>requestID.
     obind (byte_at bytes 9) (\<lambda>codec.
     obind (u16_at bytes 10) (\<lambda>status.
     obind (u16_at bytes 12) (\<lambda>classLen.
     obind (u16_at bytes 14) (\<lambda>headerLen.
     obind (u32_at bytes 16) (\<lambda>contentLen.
       if Len data \<ge> int (RESPONSE_HEADER_LEN_V1 + unat classLen + unat headerLen + unat contentLen) then
         obind (decode_body bytes RESPONSE_HEADER_LEN_V1 (unat classLen) (unat headerLen) (unat contentLen))
           (\<lambda>(class, header, content, read).
             Inr (Drain data (int read),
               Some (RespV1 \<lparr>rs_Protocol = PROTOCOL_CODE_V1, rs_CmdType = dataType,
                 rs_CmdCode = cmdCode, rs_Version = ver2, rs_ReqID = requestID,
                 rs_CodecPro = codec, rs_ResponseStatus = status, rs_ClassLen = classLen,
                 rs_HeaderLen = headerLen, rs_ContentLen = ucast contentLen,
                 rs_ClassName = class, rs_HeaderMap = header, rs_Content = content,
                 rs_ResponseTimeMillis = now, rs_ResponseHeader = None\<rparr>)))
       else Inr (data, None)))))))))"

definition v1_Decode ::
  "64 word \<Rightarrow> iobuffer \<Rightarrow> (iobuffer \<times> (decode_err + bolt_cmd option)) outcome" where
  "v1_Decode now data =
     (if Len data \<ge> int LESS_LEN_V1 then
        obind (BytesSlice data) (\<lambda>bytes.
        obind (byte_at bytes 1) (\<lambda>dataType.
          if dataType = REQUEST \<or> dataType = REQUEST_ONEWAY then
            (if Len data \<ge> int REQUEST_HEADER_LEN_V1
             then obind (v1_decode_request data bytes dataType) (\<lambda>(d, c). Inr (d, Inr c))
             else Inr (data, Inr None))
          else if dataType = RESPONSE then
            (if Len data \<ge> int RESPONSE_HEADER_LEN_V1
             then obind (v1_decode_response now data bytes dataType) (\<lambda>(d, c). Inr (d, Inr c))
             else Inr (data, Inr None))
          else Inr (data, Inl (UnKnownReqtype dataType))))
      else Inr (data, Inr None))"

definition v2_decode_request ::
  "iobuffer \<Rightarrow> bslice \<Rightarrow> byte \<Rightarrow> byte \<Rightarrow> (iobuffer \<times> bolt_cmd option) outcome" where
  "v2_decode_request data bytes ver1 dataType =
     obind (u16_at bytes 3) (\<lambda>cmdCode.
     obind (byte_at bytes 5) (\<lambda>ver2.
     obind (u32_at bytes 6) (\<lambda>requestID.
     obind (byte_at bytes 10) (\<lambda>codec.
     obind (byte_at bytes 11) (\<lambda>switchCode.
     obind (u32_at bytes 12) (\<lambda>timeout.
     obind (u16_at bytes 16) (\<lambda>classLen.
     obind (u16_at bytes 18) (\<lambda>headerLen.
     obind (u32_at bytes 20) (\<lambda>contentLen.
       if Len data \<ge> int (REQUEST_HEADER_LEN_V2 + unat classLen + unat headerLen + unat contentLen) then
         obind (decode_body bytes REQUEST_HEADER_LEN_V2 (unat classLen) (unat headerLen) (unat contentLen))
           (\<lambda>(class, header, content, read).
             Inr (Drain data (int read),
               Some (ReqV2 \<lparr>rq_Protocol = PROTOCOL_CODE_V1, rq_CmdType = dataType,
                 rq_CmdCode = cmdCode, rq_Version = ver2, rq_ReqID = requestID,
                 rq_CodecPro = codec, rq_Timeout = ucast timeout, rq_ClassLen = classLen,
                 rq_HeaderLen = headerLen, rq_ContentLen = ucast contentLen,
                 rq_ClassName = class, rq_HeaderMap = header, rq_Content = content,
                 rq_RequestHeader = None, rq_Version1 = ver1, rq_SwitchCode = switchCode\<rparr>)))
       else Inr (data, None))))))))))"

text \<open>The response branch of version 2 does not drain the bytes it decodes.\<close>

definition v2_decode_response ::
  "64 word \<Rightarrow> iobuffer \<Rightarrow> bslice \<Rightarrow> byte \<Rightarrow> byte \<Rightarrow> (iobuffer \<times> bolt_cmd option) outcome" where
  "v2_decode_response now data bytes ver1 dataType =
     obind (u16_at bytes 3) (\<lambda>cmdCode.
     obind (byte_at bytes 5) (\<lambda>ver2.
     obind (u32_at bytes 6) (\<lambda>requestID.
     obind (byte_at bytes 10) (\<lambda>codec.
     obind (byte_at bytes 11) (\<lambda>switchCode.
     obind (u16_at bytes 12) (\<lambda>status.
     obind (u16_at bytes 14) (\<lambda>classLen.
     obind (u16_at bytes 16) (\<lambda>headerLen.
     obind (u32_at bytes 18) (\<lambda>contentLen.
       if Len data \<ge> int (RESPONSE_HEADER_LEN_V2 + unat classLen + unat headerLen + unat contentLen) then
         obind (decode_body bytes RESPONSE_HEADER_LEN_V2 (unat classLen) (unat headerLen) (unat contentLen))
           (\<lambda>(class, header, content, read).
             Inr (data,
               Some (RespV2 \<lparr>rs_Protocol = PROTOCOL_CODE_V1, rs_CmdType = dataType,
                 rs_CmdCode = cmdCode, rs_Version = ver2, rs_ReqID = requestID,
                 rs_CodecPro = codec, rs_ResponseStatus = status, rs_ClassLen = classLen,
                 rs_HeaderLen = headerLen, rs_ContentLen = ucast contentLen,
                 rs_ClassName = class, rs_HeaderMap = header, rs_Content = content,
                 rs_ResponseTimeMillis = now, rs_ResponseHeader = None,
                 rs_Version1 = ver1, rs_SwitchCode = switchCode\<rparr>)))
       else Inr (data, None))))))))))"

definition v2_Decode ::
  "64 word \<Rightarrow> iobuffer \<Rightarrow> (iobuffer \<times> (decode_err + bolt_cmd option)) outcome" where
  "v2_Decode now data =
     (if Len data \<ge> int LESS_LEN_V2 then
        obind (BytesSlice data) (\<lambda>bytes.
        obind (byte_at bytes 1) (\<lambda>ver1.
        obind (byte_at bytes 2) (\<lambda>dataType.
          if dataType = REQUEST \<or> dataType = REQUEST_ONEWAY then
            (if Len data \<ge> int REQUEST_HEADER_LEN_V2
             then obind (v2_decode_request data bytes ver1 dataType) (\<lambda>(d, c). Inr (d, Inr c))
             else Inr (data, Inr None))
          else if dataType = RESPONSE then
            (if Len data \<ge> int RESPONSE_HEADER_LEN_V2
             then obind (v2_decode_response now data bytes ver1 dataType) (\<lambda>(d, c). Inr (d, Inr c))
             else Inr (data, Inr None))
          else Inr (data, Inl (UnKnownReqtype dataType)))))
      else Inr (data, Inr None))"

section \<open>Heartbeats\<close>

definition NewBoltHeartbeat :: "32 word \<Rightarrow> BoltRequestCommand" where
  "NewBoltHeartbeat requestID =
     \<lparr>rq_Protocol = PROTOCOL_CODE_V1, rq_CmdType = REQUEST, rq_CmdCode = HEARTBEAT,
      rq_Version = 1, rq_ReqID = requestID, rq_CodecPro = HESSIAN_SERIALIZE,
      rq_Timeout = -1, rq_ClassLen = 0, rq_HeaderLen = 0, rq_ContentLen = 0,
      rq_ClassName = NilB, rq_HeaderMap = NilB, rq_Content = NilB, rq_RequestHeader = None\<rparr>"

definition NewBoltHeartbeatAck :: "32 word \<Rightarrow> BoltResponseCommand" where
  "NewBoltHeartbeatAck requestID =
     \<lparr>rs_Protocol = PROTOCOL_CODE_V1, rs_CmdType = RESPONSE, rs_CmdCode = HEARTBEAT,
      rs_Version = 1, rs_ReqID = requestID, rs_CodecPro = HESSIAN_SERIALIZE,
      rs_ResponseStatus = RESPONSE_STATUS_SUCCESS, rs_ClassLen = 0, rs_HeaderLen = 0,
      rs_ContentLen = 0, rs_ClassName = NilB, rs_HeaderMap = NilB, rs_Content = NilB,
      rs_ResponseTimeMillis = 0, rs_ResponseHeader = None\<rparr>"

section \<open>Reading a frame back\<close>

lemma PutUint16_bytes: "\<exists>a b. PutUint16 w = [a, b] \<and> Uint16 [a, b] = w"
  by (metis PutUint16_def Uint_PutUint(1))

lemma PutUint32_bytes: "\<exists>a b c d. PutUint32 w = [a, b, c, d] \<and> Uint32 [a, b, c, d] = w"
  by (metis PutUint32_def Uint_PutUint(2))

lemma opt_slice_append:
  "n = length p \<Longrightarrow> opt_slice (B (p @ k @ r) x) n (length k) =
     Inr (if k = [] then NilB else B k (r @ x), n + length k)"
  by (cases k) (simp_all add: opt_slice_def bs_slice_def)

lemma decode_body_append:
  assumes "n = length p"
  shows "decode_body (B (p @ c @ h @ t @ r) x) n (length c) (length h) (length t) =
    Inr (if c = [] then NilB else B c (h @ t @ r @ x),
         if h = [] then NilB else B h (t @ r @ x),
         if t = [] then NilB else B t (r @ x), n + length c + length h + length t)"
proof -
  have 1: "opt_slice (B (p @ c @ h @ t @ r) x) n (length c) = Inr (if c = [] then NilB else B c (h @ t @ r @ x), n + length c)"
    using opt_slice_append [OF assms, of c "h @ t @ r" x] by simp
  have 2: "opt_slice (B (p @ c @ h @ t @ r) x) (n + length c) (length h) = Inr (if h = [] then NilB else B h (t @ r @ x), n + length c + length h)"
    using opt_slice_append [of "n + length c" "p @ c" h "t @ r" x] assms by simp
  have 3: "opt_slice (B (p @ c @ h @ t @ r) x) (n + length c + length h) (length t) = Inr (if t = [] then NilB else B t (r @ x), n + length c + length h + length t)"
    using opt_slice_append [of "n + length c + length h" "p @ c @ h" t r x] assms by simp
  show ?thesis unfolding decode_body_def 1 by (simp add: 2 3)
qed

lemma byte_at_B: "i < length v \<Longrightarrow> byte_at (B v x) i = Inr (v ! i)"
  by (simp add: byte_at_def)

lemma u16_at_append: "i = length p \<Longrightarrow> u16_at (B (p @ PutUint16 w @ r) x) i = Inr w"
  by (simp add: u16_at_def bs_slice_def)

lemma u32_at_append: "i = length p \<Longrightarrow> u32_at (B (p @ PutUint32 w @ r) x) i = Inr w"
  by (simp add: u32_at_def bs_slice_def)

lemma byte_at_append: "i = length p \<Longrightarrow> byte_at (B (p @ [b] @ r) x) i = Inr b"
  by (simp add: byte_at_def nth_append)



lemmas at_defs = byte_at_def u16_at_def u32_at_def bs_slice_def

lemma v1_req_reads:
  assumes "s = B (concat [[pr], [ty], PutUint16 cc, [ve], PutUint32 rid, [co], PutUint32 tm,
     PutUint16 cl, PutUint16 hl, PutUint32 n] @ r) x"
  shows "byte_at s 1 = Inr ty" "u16_at s 2 = Inr cc" "byte_at s 4 = Inr ve" "u32_at s 5 = Inr rid"
    "byte_at s 9 = Inr co" "u32_at s 10 = Inr tm" "u16_at s 14 = Inr cl" "u16_at s 16 = Inr hl" "u32_at s 18 = Inr n"
  using PutUint16_bytes [of cc] PutUint32_bytes [of rid] PutUint32_bytes [of tm] PutUint16_bytes [of cl]
    PutUint16_bytes [of hl] PutUint32_bytes [of n] unfolding assms
  by (elim exE conjE, simp add: at_defs del: Uint16.simps Uint32.simps)+

lemma v1_resp_reads:
  assumes "s = B (concat [[pr], [ty], PutUint16 cc, [ve], PutUint32 rid, [co], PutUint16 st,
     PutUint16 cl, PutUint16 hl, PutUint32 n] @ r) x"
  shows "byte_at s 1 = Inr ty" "u16_at s 2 = Inr cc" "byte_at s 4 = Inr ve" "u32_at s 5 = Inr rid"
    "byte_at s 9 = Inr co" "u16_at s 10 = Inr st" "u16_at s 12 = Inr cl" "u16_at s 14 = Inr hl" "u32_at s 16 = Inr n"
  using PutUint16_bytes [of cc] PutUint32_bytes [of rid] PutUint16_bytes [of st] PutUint16_bytes [of cl]
    PutUint16_bytes [of hl] PutUint32_bytes [of n] unfolding assms
  by (elim exE conjE, simp add: at_defs del: Uint16.simps Uint32.simps)+

lemma v2_req_reads:
  assumes "s = B (concat [[pr], [v1], [ty], PutUint16 cc, [ve], PutUint32 rid, [co], [sw], PutUint32 tm,
     PutUint16 cl, PutUint16 hl, PutUint32 n] @ r) x"
  shows "byte_at s 1 = Inr v1" "byte_at s 2 = Inr ty" "u16_at s 3 = Inr cc" "byte_at s 5 = Inr ve"
    "u32_at s 6 = Inr rid" "byte_at s 10 = Inr co" "byte_at s 11 = Inr sw" "u32_at s 12 = Inr tm"
    "u16_at s 16 = Inr cl" "u16_at s 18 = Inr hl" "u32_at s 20 = Inr n"
  using PutUint16_bytes [of cc] PutUint32_bytes [of rid] PutUint32_bytes [of tm] PutUint16_bytes [of cl]
    PutUint16_bytes [of hl] PutUint32_bytes [of n] unfolding assms
  by (elim exE conjE, simp add: at_defs del: Uint16.simps Uint32.simps)+

lemma v2_resp_reads:
  assumes "s = B (concat [[pr], [v1], [ty], PutUint16 cc, [ve], PutUint32 rid, [co], [sw], PutUint16 st,
     PutUint16 cl, PutUint16 hl, PutUint32 n] @ r) x"
  shows "byte_at s 1 = Inr v1" "byte_at s 2 = Inr ty" "u16_at s 3 = Inr cc" "byte_at s 5 = Inr ve"
    "u32_at s 6 = Inr rid" "byte_at s 10 = Inr co" "byte_at s 11 = Inr sw" "u16_at s 12 = Inr st"
    "u16_at s 14 = Inr cl" "u16_at s 16 = Inr hl" "u32_at s 18 = Inr n"
  using PutUint16_bytes [of cc] PutUint32_bytes [of rid] PutUint16_bytes [of st] PutUint16_bytes [of cl]
    PutUint16_bytes [of hl] PutUint32_bytes [of n] unfolding assms
  by (elim exE conjE, simp add: at_defs del: Uint16.simps Uint32.simps)+

lemma BytesSlice_wf: "iob_wf b \<Longrightarrow> BytesSlice b = Inr (B (contents b) (drop (blen b) (barr b)))"
  by (simp add: BytesSlice_def)

text \<open>
  What two commands have in common that carry the same bytes: an absent slice and an empty one
  are the same, and so are slices with different capacities. \<open>received now c\<close> is \<open>c\<close> as a peer
  sees it that decodes it at time \<open>now\<close>.
\<close>

definition plain :: "bslice \<Rightarrow> bslice" where
  "plain s = (if bs_vis s = [] then NilB else B (bs_vis s) [])"

definition plain_req :: "'a BoltRequestCommand_scheme \<Rightarrow> 'a BoltRequestCommand_scheme" where
  "plain_req c = c\<lparr>rq_ClassName := plain (rq_ClassName c), rq_HeaderMap := plain (rq_HeaderMap c),
     rq_Content := plain (rq_Content c), rq_RequestHeader := None\<rparr>"

definition plain_resp :: "'a BoltResponseCommand_scheme \<Rightarrow> 'a BoltResponseCommand_scheme" where
  "plain_resp c = c\<lparr>rs_ClassName := plain (rs_ClassName c), rs_HeaderMap := plain (rs_HeaderMap c),
     rs_Content := plain (rs_Content c), rs_ResponseHeader := None\<rparr>"

fun plain_cmd :: "bolt_cmd \<Rightarrow> bolt_cmd" where
  "plain_cmd (ReqV1 c) = ReqV1 (plain_req c)"
| "plain_cmd (RespV1 c) = RespV1 (plain_resp c)"
| "plain_cmd (ReqV2 c) = ReqV2 (plain_req c)"
| "plain_cmd (RespV2 c) = RespV2 (plain_resp c)"

fun received :: "64 word \<Rightarrow> bolt_cmd \<Rightarrow> bolt_cmd" where
  "received now (ReqV1 c) = plain_cmd (ReqV1 (c\<lparr>rq_Protocol := PROTOCOL_CODE_V1\<rparr>))"
| "received now (RespV1 c) = plain_cmd (RespV1 (c\<lparr>rs_Protocol := PROTOCOL_CODE_V1, rs_ResponseTimeMillis := now\<rparr>))"
| "received now (ReqV2 c) = plain_cmd (ReqV2 (c\<lparr>rq_Protocol := PROTOCOL_CODE_V1\<rparr>))"
| "received now (RespV2 c) = plain_cmd (RespV2 (c\<lparr>rs_Protocol := PROTOCOL_CODE_V1, rs_ResponseTimeMillis := now\<rparr>))"

definition lens_ok where
  "lens_ok cl hl n c h t \<longleftrightarrow> unat (cl :: 16 word) = bs_len c \<and> bs_len c < 2 ^ 15 \<and>
     unat (hl :: 16 word) = bs_len h \<and> unat (n :: 64 word) = bs_len t \<and> bs_len t < 2 ^ 32"

definition req_ok :: "'a BoltRequestCommand_scheme \<Rightarrow> bool" where
  "req_ok c \<longleftrightarrow> (rq_CmdType c = REQUEST \<or> rq_CmdType c = REQUEST_ONEWAY) \<and>
     unat (rq_Timeout c) < 2 ^ 32 \<and>
     lens_ok (rq_ClassLen c) (rq_HeaderLen c) (rq_ContentLen c) (rq_ClassName c) (rq_HeaderMap c) (rq_Content c)"

lemma ucast_32_id:
  fixes n :: "64 word"
  assumes "unat n < 2 ^ 32"
  shows "unat (ucast n :: 32 word) = unat n" "ucast (ucast n :: 32 word) = n"
proof -
  show u: "unat (ucast n :: 32 word) = unat n"
    using assms by (simp add: unsigned_ucast_eq take_bit_nat_eq_self_iff)
  have "unat (ucast (ucast n :: 32 word) :: 64 word) = take_bit 64 (unat (ucast n :: 32 word))"
    by (subst unsigned_ucast_eq) simp
  also have "\<dots> = unat n" unfolding u using assms by (simp add: take_bit_nat_eq_self_iff)
  finally show "ucast (ucast n :: 32 word) = n" by (simp add: word_unat_eq_iff)
qed

lemma lens_ok_sint:
  assumes "lens_ok cl hl n c h t"
  shows "sint cl = int (bs_len c)"
proof -
  have "sint cl = int (unat cl)" using assms
    by (simp add: lens_ok_def sint_uint signed_take_bit_eq_take_bit_shift take_bit_eq_mod uint_nat)
  then show ?thesis using assms by (simp only: lens_ok_def)
qed

lemma lens_okD:
  assumes "lens_ok cl hl n c h t"
  shows "0 <s cl \<longleftrightarrow> bs_vis c \<noteq> []" "word_of_nat (bs_len h) = hl"
    "unat (ucast n :: 32 word) = bs_len t" "ucast (ucast n :: 32 word) = n" "unat cl = bs_len c" "unat hl = bs_len h"
proof -
  show "0 <s cl \<longleftrightarrow> bs_vis c \<noteq> []"
    by (simp only: word_sless_alt sint_0 lens_ok_sint [OF assms]) simp
  show "unat cl = bs_len c" and h: "unat hl = bs_len h" using assms by (simp_all add: lens_ok_def)
  show "word_of_nat (bs_len h) = hl" by (simp flip: h)
  have "unat n = bs_len t" "unat n < 2 ^ 32" using assms by (simp_all add: lens_ok_def)
  then show "unat (ucast n :: 32 word) = bs_len t" "ucast (ucast n :: 32 word) = n" by (simp_all add: ucast_32_id)
qed

definition v1_req_head :: "'a BoltRequestCommand_scheme \<Rightarrow> byte list" where
  "v1_req_head c = concat [[rq_Protocol c], [rq_CmdType c], PutUint16 (rq_CmdCode c), [rq_Version c],
      PutUint32 (rq_ReqID c), [rq_CodecPro c], PutUint32 (ucast (rq_Timeout c)),
      PutUint16 (rq_ClassLen c), PutUint16 (rq_HeaderLen c), PutUint32 (ucast (rq_ContentLen c))]"

lemma v1_req_chunks_frame:
  "req_ok c \<Longrightarrow> concat (v1_req_chunks c) = v1_req_head c @ bs_vis (rq_ClassName c) @ bs_vis (rq_HeaderMap c)"
  using lens_okD (1, 2) [of "rq_ClassLen c" "rq_HeaderLen c" "rq_ContentLen c" "rq_ClassName c" "rq_HeaderMap c" "rq_Content c"]
  by (simp add: req_ok_def v1_req_chunks_def v1_req_head_def)


lemma v1_decode_request_head:
  assumes "req_ok c" and "iob_wf b" and "contents b = v1_req_head c @ body"
    and "s = B (contents b) x"
  shows "v1_decode_request b s (rq_CmdType c) =
    (if length body \<ge> bs_len (rq_ClassName c) + bs_len (rq_HeaderMap c) + bs_len (rq_Content c) then
       obind (decode_body s 22 (bs_len (rq_ClassName c)) (bs_len (rq_HeaderMap c)) (bs_len (rq_Content c)))
         (\<lambda>(class, header, content, read). Inr (Drain b (int read),
            Some (ReqV1 (BoltRequestCommand.truncate c\<lparr>rq_Protocol := PROTOCOL_CODE_V1, rq_ClassName := class, rq_HeaderMap := header, rq_Content := content, rq_RequestHeader := None\<rparr>))))
     else Inr (b, None))"
proof -
  note reads = v1_req_reads [OF assms(4) [unfolded assms(3) v1_req_head_def]]
  have "int (length (contents b)) = Len b" using assms(2) by (rule length_contents)
  then have len: "Len b = int (22 + length body)" by (simp add: assms(3) v1_req_head_def)
  have lens: "lens_ok (rq_ClassLen c) (rq_HeaderLen c) (rq_ContentLen c) (rq_ClassName c) (rq_HeaderMap c) (rq_Content c)"
    using assms(1) by (simp add: req_ok_def)
  have tm: "ucast (ucast (rq_Timeout c) :: 32 word) = rq_Timeout c"
    using assms(1) by (simp add: req_ok_def ucast_32_id)
  show ?thesis unfolding v1_decode_request_def reads obind_Inr lens_okD [OF lens] tm len
    using assms(1) by (cases c) (auto simp: req_ok_def REQUEST_HEADER_LEN_V1_def BoltRequestCommand.truncate_def)
qed


definition v1_resp_head :: "'a BoltResponseCommand_scheme \<Rightarrow> byte list" where
  "v1_resp_head c = concat [[rs_Protocol c], [rs_CmdType c], PutUint16 (rs_CmdCode c), [rs_Version c],
      PutUint32 (rs_ReqID c), [rs_CodecPro c], PutUint16 (rs_ResponseStatus c),
      PutUint16 (rs_ClassLen c), PutUint16 (rs_HeaderLen c), PutUint32 (ucast (rs_ContentLen c))]"

definition v2_req_head :: "BoltV2RequestCommand \<Rightarrow> byte list" where
  "v2_req_head c = concat [[rq_Protocol c], [rq_Version1 c], [rq_CmdType c], PutUint16 (rq_CmdCode c), [rq_Version c],
      PutUint32 (rq_ReqID c), [rq_CodecPro c], [rq_SwitchCode c], PutUint32 (ucast (rq_Timeout c)),
      PutUint16 (rq_ClassLen c), PutUint16 (rq_HeaderLen c), PutUint32 (ucast (rq_ContentLen c))]"

definition v2_resp_head :: "BoltV2ResponseCommand \<Rightarrow> byte list" where
  "v2_resp_head c = concat [[rs_Protocol c], [rs_Version1 c], [rs_CmdType c], PutUint16 (rs_CmdCode c), [rs_Version c],
      PutUint32 (rs_ReqID c), [rs_CodecPro c], [rs_SwitchCode c], PutUint16 (rs_ResponseStatus c),
      PutUint16 (rs_ClassLen c), PutUint16 (rs_HeaderLen c), PutUint32 (ucast (rs_ContentLen c))]"

definition resp_ok :: "'a BoltResponseCommand_scheme \<Rightarrow> bool" where
  "resp_ok c \<longleftrightarrow> rs_CmdType c = RESPONSE \<and>
     lens_ok (rs_ClassLen c) (rs_HeaderLen c) (rs_ContentLen c) (rs_ClassName c) (rs_HeaderMap c) (rs_Content c)"

lemma v2_req_chunks_frame:
  "req_ok c \<Longrightarrow> concat (v2_req_chunks c) = v2_req_head c @ bs_vis (rq_ClassName c) @ bs_vis (rq_HeaderMap c)"
  using lens_okD (1, 2) [of "rq_ClassLen c" "rq_HeaderLen c" "rq_ContentLen c" "rq_ClassName c" "rq_HeaderMap c" "rq_Content c"]
  by (simp add: req_ok_def v2_req_chunks_def v2_req_head_def)

lemma v1_resp_chunks_frame:
  "resp_ok c \<Longrightarrow> concat (v1_resp_chunks c) = v1_resp_head c @ bs_vis (rs_ClassName c) @ bs_vis (rs_HeaderMap c)"
  using lens_okD (1, 2) [of "rs_ClassLen c" "rs_HeaderLen c" "rs_ContentLen c" "rs_ClassName c" "rs_HeaderMap c" "rs_Content c"]
  by (simp add: resp_ok_def v1_resp_chunks_def v1_resp_head_def)

lemma v2_resp_chunks_frame:
  "resp_ok c \<Longrightarrow> concat (v2_resp_chunks c) = v2_resp_head c @ bs_vis (rs_ClassName c) @ bs_vis (rs_HeaderMap c)"
  using lens_okD (1, 2) [of "rs_ClassLen c" "rs_HeaderLen c" "rs_ContentLen c" "rs_ClassName c" "rs_HeaderMap c" "rs_Content c"]
  by (simp add: resp_ok_def v2_resp_chunks_def v2_resp_head_def)

lemma length_heads [simp]:
  "length (v1_req_head c1) = 22" "length (v2_req_head c2) = 24" "length (v1_resp_head d) = 20" "length (v2_resp_head d2) = 22"
  by (simp_all add: v1_req_head_def v2_req_head_def v1_resp_head_def v2_resp_head_def)

lemma v2_decode_request_head:
  assumes "req_ok c" and "iob_wf b" and "contents b = v2_req_head c @ body"
    and "s = B (contents b) x"
  shows "v2_decode_request b s (rq_Version1 c) (rq_CmdType c) =
    (if length body \<ge> bs_len (rq_ClassName c) + bs_len (rq_HeaderMap c) + bs_len (rq_Content c) then
       obind (decode_body s 24 (bs_len (rq_ClassName c)) (bs_len (rq_HeaderMap c)) (bs_len (rq_Content c)))
         (\<lambda>(class, header, content, read). Inr (Drain b (int read),
            Some (ReqV2 (c\<lparr>rq_Protocol := PROTOCOL_CODE_V1, rq_ClassName := class, rq_HeaderMap := header, rq_Content := content, rq_RequestHeader := None\<rparr>))))
     else Inr (b, None))"
proof -
  note reads = v2_req_reads [OF assms(4) [unfolded assms(3) v2_req_head_def]]
  have "int (length (contents b)) = Len b" using assms(2) by (rule length_contents)
  then have len: "Len b = int (24 + length body)" by (simp add: assms(3))
  have lens: "lens_ok (rq_ClassLen c) (rq_HeaderLen c) (rq_ContentLen c) (rq_ClassName c) (rq_HeaderMap c) (rq_Content c)"
    using assms(1) by (simp add: req_ok_def)
  have tm: "ucast (ucast (rq_Timeout c) :: 32 word) = rq_Timeout c"
    using assms(1) by (simp add: req_ok_def ucast_32_id)
  show ?thesis unfolding v2_decode_request_def reads obind_Inr lens_okD [OF lens] tm len
    using assms(1) by (cases c) (auto simp: req_ok_def REQUEST_HEADER_LEN_V2_def)
qed

lemma v1_decode_response_head:
  assumes "resp_ok c" and "iob_wf b" and "contents b = v1_resp_head c @ body"
    and "s = B (contents b) x"
  shows "v1_decode_response now b s (rs_CmdType c) =
    (if length body \<ge> bs_len (rs_ClassName c) + bs_len (rs_HeaderMap c) + bs_len (rs_Content c) then
       obind (decode_body s 20 (bs_len (rs_ClassName c)) (bs_len (rs_HeaderMap c)) (bs_len (rs_Content c)))
         (\<lambda>(class, header, content, read). Inr (Drain b (int read),
            Some (RespV1 (BoltResponseCommand.truncate c\<lparr>rs_Protocol := PROTOCOL_CODE_V1, rs_ClassName := class, rs_HeaderMap := header, rs_Content := content,
               rs_ResponseTimeMillis := now, rs_ResponseHeader := None\<rparr>))))
     else Inr (b, None))"
proof -
  note reads = v1_resp_reads [OF assms(4) [unfolded assms(3) v1_resp_head_def]]
  have "int (length (contents b)) = Len b" using assms(2) by (rule length_contents)
  then have len: "Len b = int (20 + length body)" by (simp add: assms(3))
  have lens: "lens_ok (rs_ClassLen c) (rs_HeaderLen c) (rs_ContentLen c) (rs_ClassName c) (rs_HeaderMap c) (rs_Content c)"
    using assms(1) by (simp add: resp_ok_def)
  show ?thesis unfolding v1_decode_response_def reads obind_Inr lens_okD [OF lens] len
    using assms(1) by (cases c) (auto simp: resp_ok_def RESPONSE_HEADER_LEN_V1_def BoltResponseCommand.truncate_def)
qed

lemma v2_decode_response_head:
  assumes "resp_ok c" and "iob_wf b" and "contents b = v2_resp_head c @ body"
    and "s = B (contents b) x"
  shows "v2_decode_response now b s (rs_Version1 c) (rs_CmdType c) =
    (if length body \<ge> bs_len (rs_ClassName c) + bs_len (rs_HeaderMap c) + bs_len (rs_Content c) then
       obind (decode_body s 22 (bs_len (rs_ClassName c)) (bs_len (rs_HeaderMap c)) (bs_len (rs_Content c)))
         (\<lambda>(class, header, content, read). Inr (b,
            Some (RespV2 (c\<lparr>rs_Protocol := PROTOCOL_CODE_V1, rs_ClassName := class, rs_HeaderMap := header, rs_Content := content,
               rs_ResponseTimeMillis := now, rs_ResponseHeader := None\<rparr>))))
     else Inr (b, None))"
proof -
  note reads = v2_resp_reads [OF assms(4) [unfolded assms(3) v2_resp_head_def]]
  have "int (length (contents b)) = Len b" using assms(2) by (rule length_contents)
  then have len: "Len b = int (22 + length body)" by (simp add: assms(3))
  have lens: "lens_ok (rs_ClassLen c) (rs_HeaderLen c) (rs_ContentLen c) (rs_ClassName c) (rs_HeaderMap c) (rs_Content c)"
    using assms(1) by (simp add: resp_ok_def)
  show ?thesis unfolding v2_decode_response_def reads obind_Inr lens_okD [OF lens] len
    using assms(1) by (cases c) (auto simp: resp_ok_def RESPONSE_HEADER_LEN_V2_def)
qed


fun bolt_frame :: "bolt_cmd \<Rightarrow> byte list" where
  "bolt_frame (ReqV1 c) = concat (v1_req_chunks c) @ bs_vis (rq_Content c)"
| "bolt_frame (RespV1 c) = concat (v1_resp_chunks c) @ bs_vis (rs_Content c)"
| "bolt_frame (ReqV2 c) = concat (v2_req_chunks c) @ bs_vis (rq_Content c)"
| "bolt_frame (RespV2 c) = concat (v2_resp_chunks c) @ bs_vis (rs_Content c)"

fun v1_cmd :: "bolt_cmd \<Rightarrow> bool" where
  "v1_cmd (ReqV1 c) = (rq_Protocol c = PROTOCOL_CODE_V1 \<and> req_ok c)"
| "v1_cmd (RespV1 c) = (rs_Protocol c = PROTOCOL_CODE_V1 \<and> resp_ok c)"
| "v1_cmd _ = False"

fun v2_req_cmd :: "bolt_cmd \<Rightarrow> bool" where
  "v2_req_cmd (ReqV2 c) = (rq_Protocol c = PROTOCOL_CODE_V2 \<and> req_ok c)"
| "v2_req_cmd _ = False"

fun cmd_content :: "bolt_cmd \<Rightarrow> byte list" where
  "cmd_content (ReqV1 c) = bs_vis (rq_Content c)"
| "cmd_content (RespV1 c) = bs_vis (rs_Content c)"
| "cmd_content (ReqV2 c) = bs_vis (rq_Content c)"
| "cmd_content (RespV2 c) = bs_vis (rs_Content c)"

fun content_slice :: "bolt_cmd \<Rightarrow> bslice" where
  "content_slice (ReqV1 c) = rq_Content c"
| "content_slice (RespV1 c) = rs_Content c"
| "content_slice (ReqV2 c) = rq_Content c"
| "content_slice (RespV2 c) = rs_Content c"

text \<open>A decoder leaves the content nil rather than empty.\<close>

definition tidy :: "bolt_cmd \<Rightarrow> bool" where
  "tidy c \<longleftrightarrow> (bs_vis (content_slice c) = [] \<longleftrightarrow> content_slice c = NilB)"

definition delivers :: "64 word \<Rightarrow> byte list \<Rightarrow> bolt_cmd \<Rightarrow> (iobuffer \<times> (decode_err + bolt_cmd option)) outcome \<Rightarrow> bool" where
  "delivers now r c res \<longleftrightarrow> (\<exists>b' c'. res = Inr (b', Inr (Some c')) \<and> iob_wf b' \<and> contents b' = r \<and> plain_cmd c' = received now c \<and> tidy c')"

lemma plain_if [simp]: "plain (if k = [] then NilB else B k e) = (if k = [] then NilB else B k [])"
  by (simp add: plain_def)

lemma Drain_prefix:
  assumes "iob_wf b" "contents b = p @ r" "n = length p"
  shows "iob_wf (Drain b (int n))" "contents (Drain b (int n)) = r"
  using Drain_wf [OF assms(1), of n] assms(2,3) by simp_all



definition finish :: "iobuffer \<Rightarrow> nat \<Rightarrow> nat \<times> nat \<times> nat \<Rightarrow> (bslice \<Rightarrow> bslice \<Rightarrow> bslice \<Rightarrow> bolt_cmd) \<Rightarrow>
    (iobuffer \<times> (decode_err + bolt_cmd option)) outcome" where
  "finish b k = (\<lambda>(lc, lh, lt) mk.
     if k + lc + lh + lt \<le> length (contents b) then
       obind (decode_body (B (contents b) (drop (blen b) (barr b))) k lc lh lt)
         (\<lambda>(class, header, content, read). Inr (Drain b (int read), Inr (Some (mk class header content))))
     else Inr (b, Inr None))"

lemma finish_whole:
  assumes "iob_wf b" "contents b = head @ c @ h @ t @ r" "length head = k"
    and "\<And>c' h' t'. plain c' = plain (B c []) \<Longrightarrow> plain h' = plain (B h []) \<Longrightarrow> plain t' = plain (B t []) \<Longrightarrow>
       plain_cmd (mk c' h' t') = received now cmd"
    and "\<And>c' h' t'. content_slice (mk c' h' t') = t'"
  shows "delivers now r cmd (finish b k (length c, length h, length t) mk)"
proof -
  let ?x = "drop (blen b) (barr b)" and ?n = "k + length c + length h + length t"
  let ?s = "\<lambda>k e. if k = [] then NilB else B k e"
  have "finish b k (length c, length h, length t) mk = Inr (Drain b (int ?n),
      Inr (Some (mk (?s c (h @ t @ r @ ?x)) (?s h (t @ r @ ?x)) (?s t (r @ ?x)))))"
    using assms(3) by (simp add: finish_def assms(2) decode_body_append)
  moreover have "iob_wf (Drain b (int ?n))" "contents (Drain b (int ?n)) = r"
    using Drain_prefix [OF assms(1), of "head @ c @ h @ t" r ?n] assms(2,3) by simp_all
  moreover have "plain_cmd (mk (?s c (h @ t @ r @ ?x)) (?s h (t @ r @ ?x)) (?s t (r @ ?x))) = received now cmd"
    by (rule assms(4)) (simp_all add: plain_def)
  moreover have "tidy (mk (?s c (h @ t @ r @ ?x)) (?s h (t @ r @ ?x)) (?s t (r @ ?x)))"
    by (simp add: tidy_def assms(5))
  ultimately show ?thesis unfolding delivers_def by blast
qed

lemma finish_partial:
  "length (contents b) < k + lc + lh + lt \<Longrightarrow> finish b k (lc, lh, lt) mk = Inr (b, Inr None)"
  by (simp add: finish_def)

lemma v1_Decode_req:
  assumes "req_ok c" and "iob_wf b" and "contents b = v1_req_head c @ body"
  shows "v1_Decode now b = finish b 22 (bs_len (rq_ClassName c), bs_len (rq_HeaderMap c), bs_len (rq_Content c))
     (\<lambda>class header content. ReqV1 (BoltRequestCommand.truncate c\<lparr>rq_Protocol := PROTOCOL_CODE_V1, rq_ClassName := class,
        rq_HeaderMap := header, rq_Content := content, rq_RequestHeader := None\<rparr>))"
proof -
  have len: "Len b = int (22 + length body)"
    using length_contents [OF assms(2)] by (simp add: assms(3))
  have ty: "byte_at (B (contents b) (drop (blen b) (barr b))) 1 = Inr (rq_CmdType c)"
    unfolding assms(3) v1_req_head_def by (rule v1_req_reads [OF refl])
  show ?thesis
    using assms(1) unfolding v1_Decode_def BytesSlice_wf [OF assms(2)] obind_Inr ty v1_decode_request_head [OF assms refl]
      finish_def
    by (auto simp: len bolt_consts req_ok_def obind_assoc case_prod_unfold assms(3))
qed

lemma v1_req_whole:
  assumes "req_ok c" and "iob_wf b" and "contents b = bolt_frame (ReqV1 c) @ r"
  shows "delivers now r (ReqV1 c) (v1_Decode now b)"
proof -
  have cb: "contents b = v1_req_head c @ bs_vis (rq_ClassName c) @ bs_vis (rq_HeaderMap c) @ bs_vis (rq_Content c) @ r"
    using assms(3) by (simp add: v1_req_chunks_frame [OF assms(1)])
  show ?thesis unfolding v1_Decode_req [OF assms(1,2) cb]
    by (rule finish_whole [OF assms(2) cb length_heads(1)])
       (cases c; simp add: plain_req_def BoltRequestCommand.truncate_def plain_def)+
qed

lemma v1_req_partial:
  assumes "req_ok c" and "iob_wf b" and "n < length (bolt_frame (ReqV1 c))" and "contents b = take n (bolt_frame (ReqV1 c))"
  shows "v1_Decode now b = Inr (b, Inr None)"
proof (cases "n < 22")
  case True
  have "Len b = int n" using length_contents [OF assms(2)] assms(3,4) by simp
  moreover have "contents b ! 1 = rq_CmdType c" if "n > 1"
    using that by (simp add: assms(4) v1_req_chunks_def)
  ultimately show ?thesis using assms True
    by (auto simp: v1_Decode_def bolt_consts BytesSlice_wf byte_at_def req_ok_def)
next
  case False
  have n: "length (contents b) = n" using assms(3,4) by simp
  from False have "contents b = v1_req_head c @ take (n - 22)
      (bs_vis (rq_ClassName c) @ bs_vis (rq_HeaderMap c) @ bs_vis (rq_Content c))"
    by (simp add: assms(4) v1_req_chunks_frame [OF assms(1)])
  from v1_Decode_req [OF assms(1,2) this] assms(3) n show ?thesis
    by (simp add: finish_partial v1_req_chunks_frame [OF assms(1)])
qed

lemma v1_Decode_resp:
  assumes "resp_ok c" and "iob_wf b" and "contents b = v1_resp_head c @ body"
  shows "v1_Decode now b = finish b 20 (bs_len (rs_ClassName c), bs_len (rs_HeaderMap c), bs_len (rs_Content c))
     (\<lambda>class header content. RespV1 (BoltResponseCommand.truncate c\<lparr>rs_Protocol := PROTOCOL_CODE_V1, rs_ClassName := class,
        rs_HeaderMap := header, rs_Content := content, rs_ResponseTimeMillis := now, rs_ResponseHeader := None\<rparr>))"
proof -
  have len: "Len b = int (20 + length body)"
    using length_contents [OF assms(2)] by (simp add: assms(3))
  have ty: "byte_at (B (contents b) (drop (blen b) (barr b))) 1 = Inr (rs_CmdType c)"
    unfolding assms(3) v1_resp_head_def by (rule v1_resp_reads [OF refl])
  show ?thesis
    using assms(1) unfolding v1_Decode_def BytesSlice_wf [OF assms(2)] obind_Inr ty v1_decode_response_head [OF assms refl]
      finish_def
    by (auto simp: len bolt_consts resp_ok_def obind_assoc case_prod_unfold assms(3))
qed

lemma v1_resp_whole:
  assumes "resp_ok c" and "iob_wf b" and "contents b = bolt_frame (RespV1 c) @ r"
  shows "delivers now r (RespV1 c) (v1_Decode now b)"
proof -
  have cb: "contents b = v1_resp_head c @ bs_vis (rs_ClassName c) @ bs_vis (rs_HeaderMap c) @ bs_vis (rs_Content c) @ r"
    using assms(3) by (simp add: v1_resp_chunks_frame [OF assms(1)])
  show ?thesis unfolding v1_Decode_resp [OF assms(1,2) cb]
    by (rule finish_whole [OF assms(2) cb length_heads(3)])
       (cases c; simp add: plain_resp_def BoltResponseCommand.truncate_def plain_def)+
qed

lemma v1_resp_partial:
  assumes "resp_ok c" and "iob_wf b" and "n < length (bolt_frame (RespV1 c))" and "contents b = take n (bolt_frame (RespV1 c))"
  shows "v1_Decode now b = Inr (b, Inr None)"
proof (cases "n < 20")
  case True
  have "Len b = int n" using length_contents [OF assms(2)] assms(3,4) by simp
  moreover have "contents b ! 1 = rs_CmdType c" if "n > 1"
    using that by (simp add: assms(4) v1_resp_chunks_def)
  ultimately show ?thesis using assms True
    by (auto simp: v1_Decode_def bolt_consts BytesSlice_wf byte_at_def resp_ok_def)
next
  case False
  have n: "length (contents b) = n" using assms(3,4) by simp
  from False have "contents b = v1_resp_head c @ take (n - 20)
      (bs_vis (rs_ClassName c) @ bs_vis (rs_HeaderMap c) @ bs_vis (rs_Content c))"
    by (simp add: assms(4) v1_resp_chunks_frame [OF assms(1)])
  from v1_Decode_resp [OF assms(1,2) this] assms(3) n show ?thesis
    by (simp add: finish_partial v1_resp_chunks_frame [OF assms(1)])
qed

lemma v2_Decode_req:
  assumes "req_ok c" and "iob_wf b" and "contents b = v2_req_head c @ body"
  shows "v2_Decode now b = finish b 24 (bs_len (rq_ClassName c), bs_len (rq_HeaderMap c), bs_len (rq_Content c))
     (\<lambda>class header content. ReqV2 (c\<lparr>rq_Protocol := PROTOCOL_CODE_V1, rq_ClassName := class,
        rq_HeaderMap := header, rq_Content := content, rq_RequestHeader := None\<rparr>))"
proof -
  have len: "Len b = int (24 + length body)"
    using length_contents [OF assms(2)] by (simp add: assms(3))
  have ty: "byte_at (B (contents b) (drop (blen b) (barr b))) 2 = Inr (rq_CmdType c)"
    unfolding assms(3) v2_req_head_def by (rule v2_req_reads [OF refl])
  have v: "byte_at (B (contents b) (drop (blen b) (barr b))) 1 = Inr (rq_Version1 c)"
    unfolding assms(3) v2_req_head_def by (rule v2_req_reads [OF refl])
  show ?thesis
    using assms(1) unfolding v2_Decode_def BytesSlice_wf [OF assms(2)] obind_Inr ty v v2_decode_request_head [OF assms refl]
      finish_def
    by (auto simp: len bolt_consts req_ok_def obind_assoc case_prod_unfold assms(3))
qed

lemma v2_req_whole:
  assumes "req_ok c" and "iob_wf b" and "contents b = bolt_frame (ReqV2 c) @ r"
  shows "delivers now r (ReqV2 c) (v2_Decode now b)"
proof -
  have cb: "contents b = v2_req_head c @ bs_vis (rq_ClassName c) @ bs_vis (rq_HeaderMap c) @ bs_vis (rq_Content c) @ r"
    using assms(3) by (simp add: v2_req_chunks_frame [OF assms(1)])
  show ?thesis unfolding v2_Decode_req [OF assms(1,2) cb]
    by (rule finish_whole [OF assms(2) cb length_heads(2)])
       (cases c; simp add: plain_req_def plain_def)+
qed

lemma v2_req_partial:
  assumes "req_ok c" and "iob_wf b" and "n < length (bolt_frame (ReqV2 c))" and "contents b = take n (bolt_frame (ReqV2 c))"
  shows "v2_Decode now b = Inr (b, Inr None)"
proof (cases "n < 24")
  case True
  have "Len b = int n" using length_contents [OF assms(2)] assms(3,4) by simp
  moreover have "contents b ! 2 = rq_CmdType c" if "n > 2"
    using that by (simp add: assms(4) v2_req_chunks_def)
  ultimately show ?thesis using assms True
    by (auto simp: v2_Decode_def bolt_consts BytesSlice_wf byte_at_def req_ok_def)
next
  case False
  have n: "length (contents b) = n" using assms(3,4) by simp
  from False have "contents b = v2_req_head c @ take (n - 24)
      (bs_vis (rq_ClassName c) @ bs_vis (rq_HeaderMap c) @ bs_vis (rq_Content c))"
    by (simp add: assms(4) v2_req_chunks_frame [OF assms(1)])
  from v2_Decode_req [OF assms(1,2) this] assms(3) n show ?thesis
    by (simp add: finish_partial v2_req_chunks_frame [OF assms(1)])
qed

text \<open>A whole v2 response is decoded, but the buffer is left as it was.\<close>

lemma v2_resp_whole:
  assumes "resp_ok c" and "iob_wf b" and "contents b = bolt_frame (RespV2 c) @ r"
  shows "\<exists>c'. v2_Decode now b = Inr (b, Inr (Some (RespV2 c'))) \<and>
    plain_cmd (RespV2 c') = received now (RespV2 c)"
proof -
  let ?x = "drop (blen b) (barr b)"
  have cb: "contents b = v2_resp_head c @ bs_vis (rs_ClassName c) @ bs_vis (rs_HeaderMap c) @ bs_vis (rs_Content c) @ r"
    using assms(3) by (simp add: v2_resp_chunks_frame [OF assms(1)])
  have len: "Len b = int (length (contents b))" using length_contents [OF assms(2)] by simp
  have ty: "byte_at (B (contents b) ?x) 2 = Inr (rs_CmdType c)" "byte_at (B (contents b) ?x) 1 = Inr (rs_Version1 c)"
    unfolding cb v2_resp_head_def by (rule v2_resp_reads [OF refl])+
  note body = decode_body_append [of 22 "v2_resp_head c" "bs_vis (rs_ClassName c)" "bs_vis (rs_HeaderMap c)"
      "bs_vis (rs_Content c)" r ?x, folded cb]
  show ?thesis
    using assms(1) unfolding v2_Decode_def BytesSlice_wf [OF assms(2)] obind_Inr ty
      v2_decode_response_head [OF assms(1,2) cb refl]
    by (simp add: len cb body [unfolded cb] bolt_consts resp_ok_def) (cases c; simp add: plain_resp_def plain_def)
qed

section \<open>What the encoders write\<close>

definition pool_clean :: "iobuffer option \<Rightarrow> bool" where
  "pool_clean pooled \<longleftrightarrow> (case pooled of None \<Rightarrow> True | Some p \<Rightarrow> iob_wf p \<and> contents p = [])"

lemma encode_chunks:
  assumes "pool_clean pooled" and "0 \<le> sz"
  shows "\<exists>e. obind (GetBuffer pooled sz) (\<lambda>buf. write_seq Write buf cs) = Inr e \<and> contents e = concat cs"
proof -
  from assms obtain q where q: "GetBuffer pooled sz = Inr q" "iob_wf q" "contents q = []"
    by (auto simp: pool_clean_def GetBuffer_def split: option.splits)
  with buffer_sink.write_seq_held [OF q(2), of cs] show ?thesis by auto
qed

lemma v1_encodeHeaders_frame:
  assumes "v1_cmd c" and "pool_clean pooled"
  shows "\<exists>e. v1_encodeHeaders pooled (Some c) = Inr (Inr e) \<and> contents e @ cmd_content c = bolt_frame c"
proof (cases c)
  case (ReqV1 c')
  with assms(1) have "0 \<le> 22 + sint (rq_ClassLen c') + int (bs_len (rq_HeaderMap c'))"
    by (auto simp: req_ok_def lens_ok_sint)
  from encode_chunks [OF assms(2) this, of "v1_req_chunks c'"] ReqV1 show ?thesis
    by (auto simp: v1_encodeHeaders_def v1_doEncodeRequestCommand_def)
next
  case (RespV1 c')
  with assms(1) have "0 \<le> 20 + sint (rs_ClassLen c') + int (bs_len (rs_HeaderMap c'))"
    by (auto simp: resp_ok_def lens_ok_sint)
  from encode_chunks [OF assms(2) this, of "v1_resp_chunks c'"] RespV1 show ?thesis
    by (auto simp: v1_encodeHeaders_def v1_doEncodeResponseCommand_def)
qed (use assms in simp_all)

lemma v2_encodeHeaders_frame:
  assumes "v2_req_cmd c" and "pool_clean pooled"
  shows "\<exists>e. v2_encodeHeaders pooled (Some c) = Inr (Inr e) \<and> contents e @ cmd_content c = bolt_frame c"
proof (cases c)
  case (ReqV2 c')
  with assms(1) have "0 \<le> 22 + sint (rq_ClassLen c') + int (bs_len (rq_HeaderMap c'))"
    by (auto simp: req_ok_def lens_ok_sint)
  from encode_chunks [OF assms(2) this, of "v2_req_chunks c'"] ReqV2 show ?thesis
    by (auto simp: v2_encodeHeaders_def v2_doEncodeRequestCommand_def)
qed (use assms in simp_all)

section \<open>Framed decoders\<close>

text \<open>
  What the dispatch loop needs of a decoder: a whole frame at the front of the buffer is
  delivered and drained, leaving the bytes behind it; of a frame that has not fully arrived
  nothing is delivered and nothing is drained.
\<close>

locale frame_decoder =
  fixes dec :: "iobuffer \<Rightarrow> (iobuffer \<times> (decode_err + bolt_cmd option)) outcome"
    and cmd_ok :: "bolt_cmd \<Rightarrow> bool"
    and code :: byte
    and now :: "64 word"
  assumes whole: "cmd_ok c \<Longrightarrow> iob_wf b \<Longrightarrow> contents b = bolt_frame c @ r \<Longrightarrow> delivers now r c (dec b)"
    and partial: "cmd_ok c \<Longrightarrow> iob_wf b \<Longrightarrow> n < length (bolt_frame c) \<Longrightarrow>
       contents b = take n (bolt_frame c) \<Longrightarrow> dec b = Inr (b, Inr None)"
    and first: "cmd_ok c \<Longrightarrow> \<exists>x xs. bolt_frame c = code # x # xs"

interpretation v1_frames: frame_decoder "v1_Decode now" v1_cmd PROTOCOL_CODE_V1 now for now
proof
  fix c b r
  assume "v1_cmd c" "iob_wf b" "contents b = bolt_frame c @ r"
  then show "delivers now r c (v1_Decode now b)"
    by (cases c) (auto intro: v1_req_whole v1_resp_whole simp del: bolt_frame.simps)
next
  fix c b n
  assume "v1_cmd c" "iob_wf b" "n < length (bolt_frame c)" "contents b = take n (bolt_frame c)"
  then show "v1_Decode now b = Inr (b, Inr None)"
    by (cases c) (auto intro: v1_req_partial v1_resp_partial simp del: bolt_frame.simps)
next
  fix c
  assume "v1_cmd c"
  then show "\<exists>x xs. bolt_frame c = PROTOCOL_CODE_V1 # x # xs"
    by (cases c) (auto simp: v1_req_chunks_def v1_resp_chunks_def)
qed

interpretation v2_frames: frame_decoder "v2_Decode now" v2_req_cmd PROTOCOL_CODE_V2 now for now
proof
  fix c b r
  assume "v2_req_cmd c" "iob_wf b" "contents b = bolt_frame c @ r"
  then show "delivers now r c (v2_Decode now b)"
    by (cases c) (auto intro: v2_req_whole simp del: bolt_frame.simps)
next
  fix c b n
  assume "v2_req_cmd c" "iob_wf b" "n < length (bolt_frame c)" "contents b = take n (bolt_frame c)"
  then show "v2_Decode now b = Inr (b, Inr None)"
    by (cases c) (auto intro: v2_req_partial simp del: bolt_frame.simps)
next
  fix c
  assume "v2_req_cmd c"
  then show "\<exists>x xs. bolt_frame c = PROTOCOL_CODE_V2 # x # xs"
    by (cases c) (auto simp: v2_req_chunks_def)
qed

section \<open>Properties\<close>

text \<open>
  C6 (roundtrip). Bolt v1: the header bytes written for a request or response whose length
  fields agree with its slices, followed by its content and any further bytes, decode to the
  same command (\<open>received\<close>: a response gets the time of arrival, which is not on the wire).
  Exactly its frame is drained, and no step panics.
\<close>

theorem v1_roundtrip:
  assumes "v1_cmd c" and "pool_clean pooled"
  shows "\<exists>e. v1_encodeHeaders pooled (Some c) = Inr (Inr e) \<and>
           (\<forall>b r. iob_wf b \<and> contents b = contents e @ cmd_content c @ r \<longrightarrow>
              (\<exists>b' c'. v1_Decode now b = Inr (b', Inr (Some c')) \<and>
                 iob_wf b' \<and> contents b' = r \<and> plain_cmd c' = received now c))"
proof -
  from v1_encodeHeaders_frame [OF assms] obtain e where
    e: "v1_encodeHeaders pooled (Some c) = Inr (Inr e)" "contents e @ cmd_content c = bolt_frame c" by blast
  have "delivers now r c (v1_Decode now b)" if "iob_wf b" "contents b = contents e @ cmd_content c @ r" for b r
    by (rule v1_frames.whole [OF assms(1) that(1)]) (simp add: that(2) flip: e(2))
  then show ?thesis using e(1) unfolding delivers_def by blast
qed

definition sample_req :: BoltRequestCommand where
  "sample_req = \<lparr>rq_Protocol = 1, rq_CmdType = 1, rq_CmdCode = 1, rq_Version = 1, rq_ReqID = 7,
     rq_CodecPro = 1, rq_Timeout = 3000, rq_ClassLen = 2, rq_HeaderLen = 1, rq_ContentLen = 3,
     rq_ClassName = B [65, 66] [], rq_HeaderMap = B [0] [], rq_Content = B [7, 8, 9] [],
     rq_RequestHeader = None\<rparr>"

lemma sample_req_ok: "v1_cmd (ReqV1 sample_req)"
  by (simp add: sample_req_def req_ok_def lens_ok_def bolt_consts)

lemma sample_req_content: "cmd_content (ReqV1 sample_req) = [7, 8, 9]"
  by (simp add: sample_req_def)

theorem v1_roundtrip_witness:
  "\<exists>e b' c'. v1_encodeHeaders None (Some (ReqV1 sample_req)) = Inr (Inr e) \<and>
     v1_Decode 5 (NewIoBufferBytes (contents e @ [7, 8, 9] @ [1])) = Inr (b', Inr (Some c')) \<and>
     contents b' = [1] \<and> plain_cmd c' = received 5 (ReqV1 sample_req)"
proof -
  from v1_roundtrip [OF sample_req_ok, of None 5] obtain e where
    e: "v1_encodeHeaders None (Some (ReqV1 sample_req)) = Inr (Inr e)"
    "\<forall>b r. iob_wf b \<and> contents b = contents e @ cmd_content (ReqV1 sample_req) @ r \<longrightarrow>
      (\<exists>b' c'. v1_Decode 5 b = Inr (b', Inr (Some c')) \<and>
         iob_wf b' \<and> contents b' = r \<and> plain_cmd c' = received 5 (ReqV1 sample_req))"
    by (auto simp: pool_clean_def)
  from e(2) [rule_format, of "NewIoBufferBytes (contents e @ [7, 8, 9] @ [1])" "[1]"] e(1)
  show ?thesis unfolding sample_req_content by fastforce
qed

text \<open>
  C12 (safety). Bolt v1: of a frame of which only a proper prefix has arrived nothing is
  delivered, nothing is drained, and no error is raised; the next call, on more bytes,
  decides again from the start.
\<close>

theorem v1_waits_for_whole_frame:
  assumes "v1_cmd c" and "iob_wf b" and "n < length (bolt_frame c)"
    and "contents b = take n (bolt_frame c)"
  shows "v1_Decode now b = Inr (b, Inr None)"
  using assms by (rule v1_frames.partial)

theorem v1_waits_for_whole_frame_witness:
  "v1_Decode 0 (NewIoBufferBytes (take 21 (bolt_frame (ReqV1 sample_req)))) =
     Inr (NewIoBufferBytes (take 21 (bolt_frame (ReqV1 sample_req))), Inr None)"
  by (rule v1_waits_for_whole_frame [OF sample_req_ok, of _ 21])
     (simp_all add: sample_req_def v1_req_chunks_def)

text \<open>
  C23 (roundtrip). Bolt v2 requests: the same, except that the decoded command names protocol
  version 1 instead of version 2.
\<close>

theorem v2_request_roundtrip:
  assumes "v2_req_cmd (ReqV2 c)" and "pool_clean pooled"
  shows "\<exists>e. v2_encodeHeaders pooled (Some (ReqV2 c)) = Inr (Inr e) \<and>
           (\<forall>b r. iob_wf b \<and> contents b = contents e @ bs_vis (rq_Content c) @ r \<longrightarrow>
              (\<exists>b' c'. v2_Decode now b = Inr (b', Inr (Some (ReqV2 c'))) \<and>
                 iob_wf b' \<and> contents b' = r \<and>
                 plain_req c' = plain_req (c\<lparr>rq_Protocol := PROTOCOL_CODE_V1\<rparr>)))"
proof -
  from v2_encodeHeaders_frame [OF assms] obtain e where
    e: "v2_encodeHeaders pooled (Some (ReqV2 c)) = Inr (Inr e)" "contents e @ bs_vis (rq_Content c) = bolt_frame (ReqV2 c)"
    by auto
  have "delivers now r (ReqV2 c) (v2_Decode now b)"
    if "iob_wf b" "contents b = contents e @ bs_vis (rq_Content c) @ r" for b r
    by (rule v2_frames.whole [OF assms(1) that(1)]) (simp only: that(2) append_assoc flip: e(2))
  moreover have "\<exists>c''. c' = ReqV2 c'' \<and> plain_req c'' = p" if "plain_cmd c' = ReqV2 p" for c' p
    using that by (cases c') simp_all
  ultimately show ?thesis using e(1) unfolding delivers_def received.simps plain_cmd.simps by (metis (no_types, lifting))
qed

definition sample_req2 :: BoltV2RequestCommand where
  "sample_req2 = \<lparr>rq_Protocol = 2, rq_CmdType = 1, rq_CmdCode = 1, rq_Version = 1, rq_ReqID = 7,
     rq_CodecPro = 1, rq_Timeout = 3000, rq_ClassLen = 2, rq_HeaderLen = 1, rq_ContentLen = 0,
     rq_ClassName = B [65, 66] [], rq_HeaderMap = B [0] [], rq_Content = NilB,
     rq_RequestHeader = None, rq_Version1 = 1, rq_SwitchCode = 0\<rparr>"

theorem v2_request_roundtrip_witness:
  "\<exists>e b' c'. v2_encodeHeaders None (Some (ReqV2 sample_req2)) = Inr (Inr e) \<and>
     v2_Decode 0 (NewIoBufferBytes (contents e @ bs_vis (rq_Content sample_req2) @ [9])) = Inr (b', Inr (Some (ReqV2 c'))) \<and>
     contents b' = [9] \<and> plain_req c' = plain_req (sample_req2\<lparr>rq_Protocol := PROTOCOL_CODE_V1\<rparr>)"
proof -
  have "v2_req_cmd (ReqV2 sample_req2)"
    by (simp add: sample_req2_def req_ok_def lens_ok_def bolt_consts)
  from v2_request_roundtrip [OF this, of None 0] obtain e where
    e: "v2_encodeHeaders None (Some (ReqV2 sample_req2)) = Inr (Inr e)"
    "\<forall>b r. iob_wf b \<and> contents b = contents e @ bs_vis (rq_Content sample_req2) @ r \<longrightarrow>
      (\<exists>b' c'. v2_Decode 0 b = Inr (b', Inr (Some (ReqV2 c'))) \<and> iob_wf b' \<and> contents b' = r \<and>
         plain_req c' = plain_req (sample_req2\<lparr>rq_Protocol := PROTOCOL_CODE_V1\<rparr>))"
    by (auto simp: pool_clean_def)
  from e(2) [rule_format, of "NewIoBufferBytes (contents e @ bs_vis (rq_Content sample_req2) @ [9])" "[9]"] e(1)
  show ?thesis by fastforce
qed

end
