(* ===== verification/Strconv.thy ===== *)
theory Strconv
  imports Mosn_Prelude
begin

text \<open>
  The parts of Go's \<open>strconv\<close> package the sources use, in base ten. The parsing functions
  return only the value, because most callers drop the error: a value out of range is the
  nearest bound, and malformed text is 0. \<open>ParseInt_ok\<close> says when there is no error.
\<close>

section \<open>Formatting\<close>

definition digit_char :: "nat \<Rightarrow> char" where
  "digit_char d = char_of (48 + d)"

fun FormatUint :: "nat \<Rightarrow> string" where
  "FormatUint n = (if n < 10 then [digit_char n] else FormatUint (n div 10) @ [digit_char (n mod 10)])"

declare FormatUint.simps [simp del]

section \<open>Parsing\<close>

definition digit_val :: "char \<Rightarrow> nat option" where
  "digit_val c = (let k = of_char c :: nat in if 48 \<le> k \<and> k \<le> 57 then Some (k - 48) else None)"

fun parse_digits :: "nat \<Rightarrow> nat \<Rightarrow> string \<Rightarrow> nat" where
  "parse_digits mx acc [] = acc"
| "parse_digits mx acc (c # cs) =
     (case digit_val c of
        None \<Rightarrow> 0
      | Some d \<Rightarrow> if mx < acc * 10 + d then mx else parse_digits mx (acc * 10 + d) cs)"

definition ParseUint :: "nat \<Rightarrow> string \<Rightarrow> nat" where
  "ParseUint bits s = parse_digits (2 ^ bits - 1) 0 s"

definition ParseInt :: "nat \<Rightarrow> string \<Rightarrow> int" where
  "ParseInt bits s =
     (let neg = (case s of c # _ \<Rightarrow> c = CHR ''-'' | [] \<Rightarrow> False);
          t = (case s of c # cs \<Rightarrow> if c = CHR ''-'' \<or> c = CHR ''+'' then cs else s | [] \<Rightarrow> []);
          un = ParseUint bits t;
          cutoff = 2 ^ (bits - 1)
      in if \<not> neg \<and> un \<ge> cutoff then int cutoff - 1
         else if neg \<and> un > cutoff then - int cutoff
         else if neg then - int un else int un)"

definition Atoi :: "string \<Rightarrow> int" where
  "Atoi s = ParseInt 64 s"

fun parse_nat :: "nat \<Rightarrow> string \<Rightarrow> nat option" where
  "parse_nat acc [] = Some acc"
| "parse_nat acc (c # cs) = (case digit_val c of None \<Rightarrow> None | Some d \<Rightarrow> parse_nat (acc * 10 + d) cs)"

definition ParseInt_ok :: "nat \<Rightarrow> string \<Rightarrow> bool" where
  "ParseInt_ok bits s =
     (let neg = (case s of c # _ \<Rightarrow> c = CHR ''-'' | [] \<Rightarrow> False);
          t = (case s of c # cs \<Rightarrow> if c = CHR ''-'' \<or> c = CHR ''+'' then cs else s | [] \<Rightarrow> [])
      in t \<noteq> [] \<and> (case parse_nat 0 t of
           None \<Rightarrow> False
         | Some n \<Rightarrow> if neg then n \<le> 2 ^ (bits - 1) else n < 2 ^ (bits - 1)))"

section \<open>Round trips\<close>

lemma digit_val_char: "d < 10 \<Longrightarrow> digit_val (digit_char d) = Some d"
  by (simp add: digit_val_def digit_char_def Let_def)

lemma digit_char_not_sign: "d < 10 \<Longrightarrow> digit_char d \<noteq> CHR ''-'' \<and> digit_char d \<noteq> CHR ''+''"
  by (auto dest: arg_cong [where f = "of_char :: char \<Rightarrow> nat"] simp: digit_char_def)

lemma FormatUint_Cons: "\<exists>d cs. d < 10 \<and> FormatUint n = digit_char d # cs"
proof (induction n rule: FormatUint.induct)
  case (1 n)
  show ?case
  proof (cases "n < 10")
    case True
    then show ?thesis by (subst FormatUint.simps) auto
  next
    case False
    with 1 obtain d cs where "d < 10" "FormatUint (n div 10) = digit_char d # cs" by auto
    with False show ?thesis by (subst FormatUint.simps) auto
  qed
qed

lemma parse_digits_FormatUint:
  "n \<le> mx \<Longrightarrow> parse_digits mx 0 (FormatUint n @ cs) = parse_digits mx n cs"
proof (induction n arbitrary: cs rule: FormatUint.induct)
  case (1 n)
  show ?case
  proof (cases "n < 10")
    case True
    with 1 show ?thesis by (subst FormatUint.simps) (simp add: digit_val_char)
  next
    case False
    from 1(2) have "n div 10 \<le> mx" by (meson div_le_dividend le_trans)
    with 1 False show ?thesis
      by (subst FormatUint.simps) (simp add: digit_val_char)
  qed
qed

lemma ParseUint_FormatUint [simp]: "n < 2 ^ bits \<Longrightarrow> ParseUint bits (FormatUint n) = n"
  using parse_digits_FormatUint [of n "2 ^ bits - 1" "[]"] by (simp add: ParseUint_def)

lemma parse_digits_saturates:
  "mx < n \<Longrightarrow> 9 \<le> mx \<Longrightarrow> parse_digits mx 0 (FormatUint n @ cs) = mx"
proof (induction n arbitrary: cs rule: FormatUint.induct)
  case (1 n)
  then have "\<not> n < 10" by simp
  show ?case
  proof (cases "mx < n div 10")
    case True
    with 1 \<open>\<not> n < 10\<close> show ?thesis by (subst FormatUint.simps) simp
  next
    case False
    with 1 \<open>\<not> n < 10\<close> show ?thesis
      by (subst FormatUint.simps) (simp add: parse_digits_FormatUint digit_val_char)
  qed
qed

lemma ParseInt_FormatUint_eq:
  "ParseInt bits (FormatUint n) =
     (let un = ParseUint bits (FormatUint n) in if un \<ge> 2 ^ (bits - 1) then 2 ^ (bits - 1) - 1 else int un)"
proof -
  obtain d cs where "d < 10" "FormatUint n = digit_char d # cs" using FormatUint_Cons by blast
  then show ?thesis using digit_char_not_sign [of d] by (simp add: ParseInt_def Let_def)
qed

lemma ParseInt_FormatUint [simp]:
  assumes "n < 2 ^ (bits - 1)" and "bits > 0"
  shows "ParseInt bits (FormatUint n) = int n"
proof -
  have "(2::nat) ^ (bits - 1) \<le> 2 ^ bits" by simp
  with assms(1) have "n < 2 ^ bits" by linarith
  with assms(1) show ?thesis by (simp add: ParseInt_FormatUint_eq Let_def)
qed

lemma ParseInt_saturates:
  assumes "2 ^ (bits - 1) \<le> n" and "4 \<le> bits"
  shows "ParseInt bits (FormatUint n) = 2 ^ (bits - 1) - 1"
proof (cases "n < 2 ^ bits")
  case True
  with assms show ?thesis by (simp add: ParseInt_FormatUint_eq Let_def)
next
  case False
  have "(2::nat) ^ 4 \<le> 2 ^ bits" using assms(2) by (intro power_increasing) simp_all
  with False have "ParseUint bits (FormatUint n) = 2 ^ bits - 1"
    using parse_digits_saturates [of "2 ^ bits - 1" n "[]"] by (simp add: ParseUint_def)
  moreover have "(2::nat) ^ bits = 2 * 2 ^ (bits - 1)" using assms(2) by (cases bits) simp_all
  ultimately show ?thesis by (simp add: ParseInt_FormatUint_eq Let_def)
qed

end
