(* ===== verification/Sofa_Headers.thy ===== *)
theory Sofa_Headers
  imports Bolt_Codec Strconv "HOL-Library.Char_ord" "HOL-Library.List_Lexorder"
begin

text \<open>
  Bolt commands as string maps: \<open>pkg/protocol/sofarpc/adapter.go\<close>, \<open>BuildSofaRespMsg\<close> of
  \<open>types.go\<close>, the \<open>mapToCmd\<close> and \<open>EncodeHeaders\<close> of both codecs, and the conversions of
  \<open>handler/boltrequestprocessor.go\<close> and \<open>handler/boltresponseprocessor.go\<close>. The proxy sees a
  command only as such a map, so what it forwards is what these functions keep. The order in
  which Go visits a map is the parameter \<open>ord\<close>; the maps the pool hands out are arguments.
\<close>

section \<open>Names\<close>

definition HeaderProtocolCode :: string where "HeaderProtocolCode = ''protocol''"
definition HeaderCmdType :: string where "HeaderCmdType = ''cmdtype''"
definition HeaderCmdCode :: string where "HeaderCmdCode = ''cmdcode''"
definition HeaderVersion :: string where "HeaderVersion = ''version''"
definition HeaderReqID :: string where "HeaderReqID = ''requestid''"
definition HeaderCodec :: string where "HeaderCodec = ''codec''"
definition HeaderTimeout :: string where "HeaderTimeout = ''timeout''"
definition HeaderClassLen :: string where "HeaderClassLen = ''classlen''"
definition HeaderHeaderLen :: string where "HeaderHeaderLen = ''headerlen''"
definition HeaderContentLen :: string where "HeaderContentLen = ''contentlen''"
definition HeaderClassName :: string where "HeaderClassName = ''classname''"
definition HeaderVersion1 :: string where "HeaderVersion1 = ''ver1''"
definition HeaderSwitchCode :: string where "HeaderSwitchCode = ''switchcode''"
definition HeaderRespStatus :: string where "HeaderRespStatus = ''respstatus''"
definition HeaderRespTimeMills :: string where "HeaderRespTimeMills = ''resptimemills''"

lemmas header_names =
  HeaderProtocolCode_def HeaderCmdType_def HeaderCmdCode_def HeaderVersion_def HeaderReqID_def
  HeaderCodec_def HeaderTimeout_def HeaderClassLen_def HeaderHeaderLen_def HeaderContentLen_def
  HeaderClassName_def HeaderVersion1_def HeaderSwitchCode_def HeaderRespStatus_def
  HeaderRespTimeMills_def

abbreviation property_names :: "string list" where
  "property_names \<equiv> [HeaderProtocolCode, HeaderCmdType, HeaderCmdCode, HeaderVersion, HeaderReqID,
     HeaderCodec, HeaderTimeout, HeaderClassLen, HeaderHeaderLen, HeaderContentLen, HeaderClassName,
     HeaderVersion1, HeaderSwitchCode, HeaderRespStatus, HeaderRespTimeMills]"

section \<open>Property values\<close>

datatype kind = KInvalid | KUint8 | KUint16 | KUint32 | KUint64 | KInt8 | KInt16 | KInt | KInt64

datatype pval =
    PNil
  | PUint8 byte
  | PUint16 "16 word"
  | PUint32 "32 word"
  | PUint64 "64 word"
  | PInt8 "8 word"
  | PInt16 "16 word"
  | PInt "64 word"
  | PInt64 "64 word"
  | PString string

definition SofaPropertyHeader :: "string \<Rightarrow> string" where
  "SofaPropertyHeader name = name"

fun ConvertPropertyValue :: "string \<Rightarrow> kind \<Rightarrow> pval" where
  "ConvertPropertyValue s KUint8 = PUint8 (word_of_nat (ParseUint 8 s))"
| "ConvertPropertyValue s KUint16 = PUint16 (word_of_nat (ParseUint 16 s))"
| "ConvertPropertyValue s KUint32 = PUint32 (word_of_nat (ParseUint 32 s))"
| "ConvertPropertyValue s KUint64 = PUint64 (word_of_nat (ParseUint 64 s))"
| "ConvertPropertyValue s KInt8 = PInt8 (word_of_int (ParseInt 8 s))"
| "ConvertPropertyValue s KInt16 = PInt16 (word_of_int (ParseInt 16 s))"
| "ConvertPropertyValue s KInt = PInt (word_of_int (ParseInt 32 s))"
| "ConvertPropertyValue s KInt64 = PInt64 (word_of_int (ParseInt 64 s))"
| "ConvertPropertyValue s KInvalid = PString s"

definition kind_at :: "(string \<rightharpoonup> kind) \<Rightarrow> string \<Rightarrow> kind" where
  "kind_at ph name = (case ph name of Some k \<Rightarrow> k | None \<Rightarrow> KInvalid)"

definition GetPropertyValue :: "(string \<rightharpoonup> kind) \<Rightarrow> smap \<Rightarrow> string \<Rightarrow> smap \<times> pval" where
  "GetPropertyValue properHeaders headers name =
     (let propertyHeaderName = SofaPropertyHeader name in
      case headers propertyHeaderName of
        Some value \<Rightarrow> (headers(propertyHeaderName := None), ConvertPropertyValue value (kind_at properHeaders name))
      | None \<Rightarrow>
          (case headers name of
             Some value \<Rightarrow> (headers, ConvertPropertyValue value (kind_at properHeaders name))
           | None \<Rightarrow> (headers, PNil)))"

text \<open>A missing header reads as the empty string.\<close>

definition header_at :: "smap \<Rightarrow> string \<Rightarrow> string" where
  "header_at headers name = (case headers name of Some v \<Rightarrow> v | None \<Rightarrow> '''')"

definition IsSofaRequest :: "smap \<Rightarrow> bool" where
  "IsSofaRequest headers =
     (let procode = ConvertPropertyValue (header_at headers (SofaPropertyHeader HeaderProtocolCode)) KUint8 in
      (procode = PUint8 PROTOCOL_CODE_V1 \<or> procode = PUint8 PROTOCOL_CODE_V2) \<and>
      ConvertPropertyValue (header_at headers (SofaPropertyHeader HeaderCmdType)) KUint8 = PUint8 REQUEST)"

definition GetMap :: "smap option \<Rightarrow> smap" where
  "GetMap pooled = (case pooled of Some m \<Rightarrow> m | None \<Rightarrow> Map.empty)"

definition BoltV1PropertyHeaders :: "string \<rightharpoonup> kind" where
  "BoltV1PropertyHeaders = map_of
     [(HeaderProtocolCode, KUint8), (HeaderCmdType, KUint8), (HeaderCmdCode, KInt16),
      (HeaderVersion, KUint8), (HeaderReqID, KUint32), (HeaderCodec, KUint8),
      (HeaderClassLen, KInt16), (HeaderHeaderLen, KInt16), (HeaderContentLen, KInt),
      (HeaderTimeout, KInt), (HeaderRespStatus, KInt16), (HeaderRespTimeMills, KInt64)]"

definition BoltV2PropertyHeaders :: "string \<rightharpoonup> kind" where
  "BoltV2PropertyHeaders = map_of
     [(HeaderProtocolCode, KUint8), (HeaderCmdType, KUint8), (HeaderCmdCode, KInt16),
      (HeaderVersion, KUint8), (HeaderReqID, KUint32), (HeaderCodec, KUint8),
      (HeaderClassLen, KInt16), (HeaderHeaderLen, KInt16), (HeaderContentLen, KInt),
      (HeaderTimeout, KInt), (HeaderRespStatus, KInt16), (HeaderRespTimeMills, KInt64),
      (HeaderVersion1, KUint8), (HeaderSwitchCode, KUint8)]"

section \<open>From a map to a command\<close>

text \<open>Type assertions on an \<open>interface{}\<close> value panic when the dynamic type differs.\<close>

fun as_byte :: "pval \<Rightarrow> byte outcome" where
  "as_byte (PUint8 b) = Inr b" | "as_byte _ = Inl FailedTypeAssertion"

fun as_int16 :: "pval \<Rightarrow> 16 word outcome" where
  "as_int16 (PInt16 w) = Inr w" | "as_int16 _ = Inl FailedTypeAssertion"

fun as_uint32 :: "pval \<Rightarrow> 32 word outcome" where
  "as_uint32 (PUint32 w) = Inr w" | "as_uint32 _ = Inl FailedTypeAssertion"

fun as_int :: "pval \<Rightarrow> 64 word outcome" where
  "as_int (PInt w) = Inr w" | "as_int _ = Inl FailedTypeAssertion"

fun as_int64 :: "pval \<Rightarrow> 64 word outcome" where
  "as_int64 (PInt64 w) = Inr w" | "as_int64 _ = Inl FailedTypeAssertion"

fun pval_gvalue :: "pval \<Rightarrow> gvalue" where
  "pval_gvalue PNil = VNil" | "pval_gvalue (PString s) = VString s" | "pval_gvalue _ = VOther"

definition v1_mapToCmd ::
  "(smap \<Rightarrow> (string \<times> string) list) \<Rightarrow> smap \<Rightarrow> (smap \<times> bolt_cmd option) outcome" where
  "v1_mapToCmd ord headers =
     (if card (dom headers) < 10 then Inr (headers, None) else
      let get = GetPropertyValue BoltV1PropertyHeaders;
          (headers, protocolCode) = get headers HeaderProtocolCode;
          (headers, cmdType) = get headers HeaderCmdType;
          (headers, cmdCode) = get headers HeaderCmdCode;
          (headers, version) = get headers HeaderVersion;
          (headers, requestID) = get headers HeaderReqID;
          (headers, codec) = get headers HeaderCodec;
          (headers, classLength) = get headers HeaderClassLen;
          (headers, headerLength) = get headers HeaderHeaderLen;
          (headers, contentLength) = get headers HeaderContentLen;
          (headers, className) = get headers HeaderClassName
      in obind (ser_Serialize (pval_gvalue className)) (\<lambda>class.
        if cmdCode = PInt16 RPC_REQUEST then
          (let (headers, timeout) = get headers HeaderTimeout in
           obind (ser_Serialize (VMap (ord headers))) (\<lambda>header.
           obind (as_byte protocolCode) (\<lambda>protocolCode.
           obind (as_byte cmdType) (\<lambda>cmdType.
           obind (as_int16 cmdCode) (\<lambda>cmdCode.
           obind (as_byte version) (\<lambda>version.
           obind (as_uint32 requestID) (\<lambda>requestID.
           obind (as_byte codec) (\<lambda>codec.
           obind (as_int timeout) (\<lambda>timeout.
           obind (as_int16 classLength) (\<lambda>classLength.
           obind (as_int16 headerLength) (\<lambda>headerLength.
           obind (as_int contentLength) (\<lambda>contentLength.
             Inr (headers, Some (ReqV1
               \<lparr>rq_Protocol = protocolCode, rq_CmdType = cmdType, rq_CmdCode = cmdCode,
                rq_Version = version, rq_ReqID = requestID, rq_CodecPro = codec,
                rq_Timeout = timeout, rq_ClassLen = classLength, rq_HeaderLen = headerLength,
                rq_ContentLen = contentLength, rq_ClassName = B class [], rq_HeaderMap = B header [],
                rq_Content = NilB, rq_RequestHeader = None\<rparr>))))))))))))))
        else if cmdCode = PInt16 RPC_RESPONSE \<or> cmdCode = PInt16 HEARTBEAT then
          (let (headers, responseStatus) = get headers HeaderRespStatus;
               (headers, responseTime) = get headers HeaderRespTimeMills in
           obind (ser_Serialize (VMap (ord headers))) (\<lambda>header.
           obind (as_byte protocolCode) (\<lambda>protocolCode.
           obind (as_byte cmdType) (\<lambda>cmdType.
           obind (as_int16 cmdCode) (\<lambda>cmdCode.
           obind (as_byte version) (\<lambda>version.
           obind (as_uint32 requestID) (\<lambda>requestID.
           obind (as_byte codec) (\<lambda>codec.
           obind (as_int16 responseStatus) (\<lambda>responseStatus.
           obind (as_int16 classLength) (\<lambda>classLength.
           obind (as_int16 headerLength) (\<lambda>headerLength.
           obind (as_int contentLength) (\<lambda>contentLength.
           obind (as_int64 responseTime) (\<lambda>responseTime.
             Inr (headers, Some (RespV1
               \<lparr>rs_Protocol = protocolCode, rs_CmdType = cmdType, rs_CmdCode = cmdCode,
                rs_Version = version, rs_ReqID = requestID, rs_CodecPro = codec,
                rs_ResponseStatus = responseStatus, rs_ClassLen = classLength,
                rs_HeaderLen = headerLength, rs_ContentLen = contentLength,
                rs_ClassName = B class [], rs_HeaderMap = B header [], rs_Content = NilB,
                rs_ResponseTimeMillis = responseTime, rs_ResponseHeader = None\<rparr>)))))))))))))))
        else Inr (headers, None)))"

text \<open>
  The v2 codec asserts the command it got from the v1 codec to be a struct; the interface
  holds a pointer to one, so neither assertion succeeds.
\<close>

definition assert_BoltRequestCommand :: "bolt_cmd option \<Rightarrow> BoltRequestCommand option" where
  "assert_BoltRequestCommand v = None"

definition assert_BoltResponseCommand :: "bolt_cmd option \<Rightarrow> BoltResponseCommand option" where
  "assert_BoltResponseCommand v = None"

definition v2_mapToCmd ::
  "(smap \<Rightarrow> (string \<times> string) list) \<Rightarrow> smap \<Rightarrow> (smap \<times> bolt_cmd option) outcome" where
  "v2_mapToCmd ord headers =
     (if card (dom headers) < 12 then Inr (headers, None) else
      obind (v1_mapToCmd ord headers) (\<lambda>(headers, cmdV1).
        let (headers, ver1) = GetPropertyValue BoltV2PropertyHeaders headers HeaderVersion1;
            (headers, switchcode) = GetPropertyValue BoltV2PropertyHeaders headers HeaderSwitchCode
        in case assert_BoltRequestCommand cmdV1 of
             Some c \<Rightarrow> obind (as_byte ver1) (\<lambda>ver1. obind (as_byte switchcode) (\<lambda>switchcode.
               Inr (headers, Some (ReqV2 (BoltRequestCommand.extend c
                 (BoltV2RequestCommand.fields ver1 switchcode))))))
           | None \<Rightarrow>
               (case assert_BoltResponseCommand cmdV1 of
                  Some c \<Rightarrow> obind (as_byte ver1) (\<lambda>ver1. obind (as_byte switchcode) (\<lambda>switchcode.
                    Inr (headers, Some (RespV2 (BoltResponseCommand.extend c
                      (BoltV2ResponseCommand.fields ver1 switchcode))))))
                | None \<Rightarrow> Inr (headers, None))))"

section \<open>EncodeHeaders\<close>

datatype hdrs = HdrMap smap | HdrCmd bolt_cmd | HdrOther

definition v1_EncodeHeaders ::
  "(smap \<Rightarrow> (string \<times> string) list) \<Rightarrow> iobuffer option \<Rightarrow> hdrs \<Rightarrow> (hdrs \<times> (enc_err + iobuffer)) outcome" where
  "v1_EncodeHeaders ord pooled headers =
     (case headers of
        HdrMap m \<Rightarrow> obind (v1_mapToCmd ord m) (\<lambda>(m', cmd).
          obind (v1_encodeHeaders pooled cmd) (\<lambda>r. Inr (HdrMap m', r)))
      | HdrCmd c \<Rightarrow> obind (v1_encodeHeaders pooled (Some c)) (\<lambda>r. Inr (headers, r))
      | HdrOther \<Rightarrow> obind (v1_encodeHeaders pooled None) (\<lambda>r. Inr (headers, r)))"

definition v2_EncodeHeaders ::
  "(smap \<Rightarrow> (string \<times> string) list) \<Rightarrow> iobuffer option \<Rightarrow> hdrs \<Rightarrow> (hdrs \<times> (enc_err + iobuffer)) outcome" where
  "v2_EncodeHeaders ord pooled headers =
     (case headers of
        HdrMap m \<Rightarrow> obind (v2_mapToCmd ord m) (\<lambda>(m', cmd).
          obind (v2_encodeHeaders pooled cmd) (\<lambda>r. Inr (HdrMap m', r)))
      | HdrCmd c \<Rightarrow> obind (v2_encodeHeaders pooled (Some c)) (\<lambda>r. Inr (headers, r))
      | HdrOther \<Rightarrow> obind (v2_encodeHeaders pooled None) (\<lambda>r. Inr (headers, r)))"

section \<open>Response to a failed request\<close>

definition atoi_at :: "smap \<Rightarrow> string \<Rightarrow> int" where
  "atoi_at headers name =
     (case headers (SofaPropertyHeader name) of Some v \<Rightarrow> Atoi v | None \<Rightarrow> 0)"

definition empty_response :: "byte \<Rightarrow> 32 word \<Rightarrow> byte \<Rightarrow> 16 word \<Rightarrow> BoltResponseCommand" where
  "empty_response version reqID codec respStatus =
     \<lparr>rs_Protocol = PROTOCOL_CODE_V1, rs_CmdType = RESPONSE, rs_CmdCode = RPC_RESPONSE,
      rs_Version = version, rs_ReqID = reqID, rs_CodecPro = codec, rs_ResponseStatus = respStatus,
      rs_ClassLen = 0, rs_HeaderLen = 0, rs_ContentLen = 0, rs_ClassName = NilB,
      rs_HeaderMap = NilB, rs_Content = NilB, rs_ResponseTimeMillis = 0, rs_ResponseHeader = None\<rparr>"

definition BuildSofaRespMsg :: "smap \<Rightarrow> 16 word \<Rightarrow> hdrs \<times> enc_err option" where
  "BuildSofaRespMsg headers respStatus =
     (let pro = word_of_int (atoi_at headers HeaderProtocolCode) :: byte in
      case headers (SofaPropertyHeader HeaderReqID) of
        None \<Rightarrow> (HdrMap headers, Some NoReqIDFound)
      | Some r \<Rightarrow>
          (let reqID = word_of_int (Atoi r);
               version = word_of_int (atoi_at headers HeaderVersion);
               codec = word_of_int (atoi_at headers HeaderCodec);
               resp = empty_response version reqID codec respStatus
           in if pro = PROTOCOL_CODE_V1 then (HdrCmd (RespV1 resp), None)
              else if pro = PROTOCOL_CODE_V2 then
                (HdrCmd (RespV2 (BoltResponseCommand.extend resp
                   (BoltV2ResponseCommand.fields (word_of_int (atoi_at headers HeaderVersion1))
                      (word_of_int (atoi_at headers HeaderSwitchCode))))), None)
              else (HdrMap headers, Some UnSupportedProCode)))"

section \<open>From a command to a map\<close>

definition target_map :: "target \<Rightarrow> smap" where
  "target_map t = (case t of TMap m \<Rightarrow> m | _ \<Rightarrow> Map.empty)"

definition target_string :: "target \<Rightarrow> string" where
  "target_string t = (case t of TString s \<Rightarrow> s | _ \<Rightarrow> '''')"

definition deserializeRequestAllFields ::
  "smap option \<Rightarrow> smap option \<Rightarrow> 'a BoltRequestCommand_scheme \<Rightarrow> 'a BoltRequestCommand_scheme outcome" where
  "deserializeRequestAllFields pool1 pool2 c =
     obind (ser_DeSerialize (rq_HeaderMap c) (TMap (GetMap pool1))) (\<lambda>(t, _, _).
     obind (ser_DeSerialize (rq_ClassName c) (TString '''')) (\<lambda>(cn, _, _).
       let headerMap = target_map t;
           allField = (GetMap pool2)
             (SofaPropertyHeader HeaderProtocolCode \<mapsto> FormatUint (unat (rq_Protocol c)),
              SofaPropertyHeader HeaderCmdType \<mapsto> FormatUint (unat (rq_CmdType c)),
              SofaPropertyHeader HeaderCmdCode \<mapsto> FormatUint (unat (scast (rq_CmdCode c) :: 64 word)),
              SofaPropertyHeader HeaderVersion \<mapsto> FormatUint (unat (rq_Version c)),
              SofaPropertyHeader HeaderReqID \<mapsto> FormatUint (unat (rq_ReqID c)),
              SofaPropertyHeader HeaderCodec \<mapsto> FormatUint (unat (rq_CodecPro c)),
              SofaPropertyHeader HeaderTimeout \<mapsto> FormatUint (unat (rq_Timeout c)),
              SofaPropertyHeader HeaderClassLen \<mapsto> FormatUint (unat (scast (rq_ClassLen c) :: 64 word)),
              SofaPropertyHeader HeaderHeaderLen \<mapsto> FormatUint (unat (scast (rq_HeaderLen c) :: 64 word)),
              SofaPropertyHeader HeaderContentLen \<mapsto> FormatUint (unat (rq_ContentLen c)),
              SofaPropertyHeader HeaderClassName \<mapsto> target_string cn)
       in Inr (c\<lparr>rq_RequestHeader := Some (allField ++ headerMap)\<rparr>)))"

definition deserializeRequestAllFieldsV2 ::
  "smap option \<Rightarrow> smap option \<Rightarrow> BoltV2RequestCommand \<Rightarrow> BoltV2RequestCommand outcome" where
  "deserializeRequestAllFieldsV2 pool1 pool2 c =
     obind (deserializeRequestAllFields pool1 pool2 c) (\<lambda>c.
       Inr (c\<lparr>rq_RequestHeader := map_option (\<lambda>h. h
          (SofaPropertyHeader HeaderVersion1 \<mapsto> FormatUint (unat (rq_Version1 c)),
           SofaPropertyHeader HeaderSwitchCode \<mapsto> FormatUint (unat (rq_SwitchCode c))))
         (rq_RequestHeader c)\<rparr>))"

definition deserializeResponseAllFields ::
  "smap option \<Rightarrow> smap option \<Rightarrow> 'a BoltResponseCommand_scheme \<Rightarrow> 'a BoltResponseCommand_scheme outcome" where
  "deserializeResponseAllFields pool1 pool2 c =
     obind (ser_DeSerialize (rs_HeaderMap c) (TMap (GetMap pool1))) (\<lambda>(t, _, _).
     obind (ser_DeSerialize (rs_ClassName c) (TString '''')) (\<lambda>(cn, _, _).
       let headerMap = target_map t;
           allField = (GetMap pool2)
             (SofaPropertyHeader HeaderProtocolCode \<mapsto> FormatUint (unat (rs_Protocol c)),
              SofaPropertyHeader HeaderCmdType \<mapsto> FormatUint (unat (rs_CmdType c)),
              SofaPropertyHeader HeaderCmdCode \<mapsto> FormatUint (unat (scast (rs_CmdCode c) :: 64 word)),
              SofaPropertyHeader HeaderVersion \<mapsto> FormatUint (unat (rs_Version c)),
              SofaPropertyHeader HeaderReqID \<mapsto> FormatUint (unat (rs_ReqID c)),
              SofaPropertyHeader HeaderCodec \<mapsto> FormatUint (unat (rs_CodecPro c)),
              SofaPropertyHeader HeaderClassLen \<mapsto> FormatUint (unat (scast (rs_ClassLen c) :: 64 word)),
              SofaPropertyHeader HeaderHeaderLen \<mapsto> FormatUint (unat (scast (rs_HeaderLen c) :: 64 word)),
              SofaPropertyHeader HeaderContentLen \<mapsto> FormatUint (unat (rs_ContentLen c)),
              SofaPropertyHeader HeaderRespStatus \<mapsto> FormatUint (unat (scast (rs_ResponseStatus c) :: 64 word)),
              SofaPropertyHeader HeaderRespTimeMills \<mapsto> FormatUint (unat (rs_ResponseTimeMillis c)),
              SofaPropertyHeader HeaderClassName \<mapsto> target_string cn)
       in Inr (c\<lparr>rs_ResponseHeader := Some (allField ++ headerMap)\<rparr>)))"

definition deserializeResponseAllFieldsV2 ::
  "smap option \<Rightarrow> smap option \<Rightarrow> BoltV2ResponseCommand \<Rightarrow> BoltV2ResponseCommand outcome" where
  "deserializeResponseAllFieldsV2 pool1 pool2 c =
     obind (deserializeResponseAllFields pool1 pool2 c) (\<lambda>c.
       Inr (c\<lparr>rs_ResponseHeader := map_option (\<lambda>h. h
          (SofaPropertyHeader HeaderVersion1 \<mapsto> FormatUint (unat (rs_Version1 c)),
           SofaPropertyHeader HeaderSwitchCode \<mapsto> FormatUint (unat (rs_SwitchCode c))))
         (rs_ResponseHeader c)\<rparr>))"

section \<open>Reading properties back\<close>

lemma GetPropertyValue_Some:
  "headers name = Some v \<Longrightarrow>
     GetPropertyValue ph headers name = (headers(name := None), ConvertPropertyValue v (kind_at ph name))"
  by (simp add: GetPropertyValue_def SofaPropertyHeader_def)

lemma unat_less [simp]: "unat (b :: byte) < 256" "unat (w :: 32 word) < 4294967296"
proof -
  show "unat (b :: byte) < 256" using unsigned_less [of b] by simp
  show "unat (w :: 32 word) < 4294967296" using unsigned_less [of w] by simp
qed

lemma sint_16:
  fixes w :: "16 word"
  assumes "unat w < 2 ^ 15"
  shows "sint w = int (unat w)"
proof -
  have u: "int (unat w) < 2 ^ 15"
    using assms of_nat_less_iff [of "unat w" "2 ^ 15", where 'a = int] by (simp only: of_nat_power of_nat_numeral)
  have "sint w = signed_take_bit 15 (int (unat w))" by (simp add: sint_uint)
  also have "\<dots> = int (unat w)"
    by (rule signed_take_bit_int_eq_self [OF _ u]) (rule order_trans [of _ 0], simp_all only: of_nat_0_le_iff, simp)
  finally show ?thesis .
qed

lemma unat_scast_16:
  fixes w :: "16 word"
  assumes "unat w < 2 ^ 15"
  shows "unat (scast w :: 64 word) = unat w"
proof -
  have "scast w = (word_of_nat (unat w) :: 64 word)" by (simp only: scast_eq sint_16 [OF assms] of_int_of_nat_eq)
  moreover have "unat (word_of_nat n :: 64 word) = n" if "n < 2 ^ 15" for n
    using that by (simp add: unsigned_of_nat take_bit_nat_eq_self)
  ultimately show ?thesis using assms by (simp only:)
qed

lemma convert_FormatUint [simp]:
  "ConvertPropertyValue (FormatUint (unat (b :: byte))) KUint8 = PUint8 b"
  "ConvertPropertyValue (FormatUint (unat (u :: 32 word))) KUint32 = PUint32 u"
proof -
  have "unat b < 2 ^ 8" "unat u < 2 ^ 32" by simp_all
  then show "ConvertPropertyValue (FormatUint (unat b)) KUint8 = PUint8 b"
    "ConvertPropertyValue (FormatUint (unat u)) KUint32 = PUint32 u" by simp_all
qed

lemma convert_int16:
  "unat (w :: 16 word) < 2 ^ 15 \<Longrightarrow>
     ConvertPropertyValue (FormatUint (unat (scast w :: 64 word))) KInt16 = PInt16 w"
  by (simp add: unat_scast_16)

lemma convert_int:
  "unat (w :: 64 word) < 2 ^ 31 \<Longrightarrow> ConvertPropertyValue (FormatUint (unat w)) KInt = PInt w"
  by simp

lemma convert_int64:
  "unat (w :: 64 word) < 2 ^ 63 \<Longrightarrow> ConvertPropertyValue (FormatUint (unat w)) KInt64 = PInt64 w"
  by simp

lemma kinds [simp]:
  "kind_at BoltV1PropertyHeaders HeaderProtocolCode = KUint8"
  "kind_at BoltV1PropertyHeaders HeaderCmdType = KUint8"
  "kind_at BoltV1PropertyHeaders HeaderCmdCode = KInt16"
  "kind_at BoltV1PropertyHeaders HeaderVersion = KUint8"
  "kind_at BoltV1PropertyHeaders HeaderReqID = KUint32"
  "kind_at BoltV1PropertyHeaders HeaderCodec = KUint8"
  "kind_at BoltV1PropertyHeaders HeaderClassLen = KInt16"
  "kind_at BoltV1PropertyHeaders HeaderHeaderLen = KInt16"
  "kind_at BoltV1PropertyHeaders HeaderContentLen = KInt"
  "kind_at BoltV1PropertyHeaders HeaderTimeout = KInt"
  "kind_at BoltV1PropertyHeaders HeaderRespStatus = KInt16"
  "kind_at BoltV1PropertyHeaders HeaderRespTimeMills = KInt64"
  "kind_at BoltV1PropertyHeaders HeaderClassName = KInvalid"
  by (simp_all add: kind_at_def BoltV1PropertyHeaders_def header_names)


lemmas kinds_lit = kinds [unfolded header_names]

definition iter_order :: "(smap \<Rightarrow> (string \<times> string) list) \<Rightarrow> bool" where
  "iter_order ord \<longleftrightarrow> (\<forall>m. finite (dom m) \<longrightarrow> distinct (map fst (ord m)) \<and> map_of (ord m) = m)"

definition fresh_keys :: "smap \<Rightarrow> bool" where
  "fresh_keys h \<longleftrightarrow> list_all (\<lambda>k. h k = None) property_names"

definition req_fits :: "'a BoltRequestCommand_scheme \<Rightarrow> bool" where
  "req_fits c \<longleftrightarrow> rq_CmdCode c = RPC_REQUEST \<and> unat (rq_Timeout c) < 2 ^ 31 \<and> unat (rq_ClassLen c) < 2 ^ 15 \<and>
     unat (rq_HeaderLen c) < 2 ^ 15 \<and> unat (rq_ContentLen c) < 2 ^ 31"

definition req_fields :: "'a BoltRequestCommand_scheme \<Rightarrow> string \<Rightarrow> smap" where
  "req_fields c cn = map_of [
      (HeaderProtocolCode, FormatUint (unat (rq_Protocol c))),
      (HeaderCmdType, FormatUint (unat (rq_CmdType c))),
      (HeaderCmdCode, FormatUint (unat (scast (rq_CmdCode c) :: 64 word))),
      (HeaderVersion, FormatUint (unat (rq_Version c))),
      (HeaderReqID, FormatUint (unat (rq_ReqID c))),
      (HeaderCodec, FormatUint (unat (rq_CodecPro c))),
      (HeaderTimeout, FormatUint (unat (rq_Timeout c))),
      (HeaderClassLen, FormatUint (unat (scast (rq_ClassLen c) :: 64 word))),
      (HeaderHeaderLen, FormatUint (unat (scast (rq_HeaderLen c) :: 64 word))),
      (HeaderContentLen, FormatUint (unat (rq_ContentLen c))),
      (HeaderClassName, cn)]"

lemma card_dom_add:
  assumes "finite (dom h)" "finite (dom g)"
  shows "card (dom g) \<le> card (dom (g ++ h))"
  using assms by (intro card_mono) auto

lemma card_req_fields: "card (dom (req_fields c cn)) = 11"
  by (simp add: req_fields_def dom_map_of_conv_image_fst header_names)

lemma card_req_fields_add:
  assumes "finite (dom h)"
  shows "11 \<le> card (dom (req_fields c cn ++ h))"
proof -
  have "finite (dom (req_fields c cn))" by (simp add: req_fields_def finite_dom_map_of)
  from card_dom_add [OF assms this] show ?thesis by (simp only: card_req_fields)
qed

definition without :: "smap \<Rightarrow> string list \<Rightarrow> smap" where
  "without m ks = (\<lambda>k. if k \<in> set ks then None else m k)"

lemma get_without:
  assumes "m n = Some v" and "n \<notin> set ks"
  shows "GetPropertyValue ph (without m ks) n = (without m (n # ks), ConvertPropertyValue v (kind_at ph n))"
  using assms by (subst GetPropertyValue_Some [of _ _ v]) (auto simp: without_def fun_eq_iff)

lemma mapToCmd_request:
  assumes "req_fits c" and "fresh_keys h" and "finite (dom h)"
  shows "v1_mapToCmd ord (req_fields c cn ++ h) =
     Inr (h, Some (ReqV1 (BoltRequestCommand.truncate c
       \<lparr>rq_ClassName := B (bytes_of_string cn) [],
        rq_HeaderMap := B (concat (map entry_bytes (ord h))) [],
        rq_Content := NilB, rq_RequestHeader := None\<rparr>)))"
proof -
  let ?m = "req_fields c cn ++ h"
  have card: "\<not> card (dom ?m) < 10"
    using card_req_fields_add [OF assms(3), of c cn] by linarith
  have h: "list_all (\<lambda>k. h k = None) property_names" using assms(2) by (simp add: fresh_keys_def)
  have look: "?m HeaderProtocolCode = Some (FormatUint (unat (rq_Protocol c)))"
     "?m HeaderCmdType = Some (FormatUint (unat (rq_CmdType c)))"
     "?m HeaderCmdCode = Some (FormatUint (unat (scast (rq_CmdCode c) :: 64 word)))"
     "?m HeaderVersion = Some (FormatUint (unat (rq_Version c)))"
     "?m HeaderReqID = Some (FormatUint (unat (rq_ReqID c)))"
     "?m HeaderCodec = Some (FormatUint (unat (rq_CodecPro c)))"
     "?m HeaderTimeout = Some (FormatUint (unat (rq_Timeout c)))"
     "?m HeaderClassLen = Some (FormatUint (unat (scast (rq_ClassLen c) :: 64 word)))"
     "?m HeaderHeaderLen = Some (FormatUint (unat (scast (rq_HeaderLen c) :: 64 word)))"
     "?m HeaderContentLen = Some (FormatUint (unat (rq_ContentLen c)))"
     "?m HeaderClassName = Some cn"
    using h by (simp_all add: req_fields_def header_names map_add_def)
  define m where "m = ?m"
  have start: "?m = without m []" by (simp add: m_def without_def)
  have rest: "without m [HeaderTimeout, HeaderClassName, HeaderContentLen, HeaderHeaderLen, HeaderClassLen,
      HeaderCodec, HeaderReqID, HeaderVersion, HeaderCmdCode, HeaderCmdType, HeaderProtocolCode] = h"
    using h by (auto simp: m_def without_def fun_eq_iff map_add_def req_fields_def split: option.splits)
  have fits: "unat (rq_Timeout c) < 2 ^ 31" "unat (rq_ClassLen c) < 2 ^ 15" "unat (rq_HeaderLen c) < 2 ^ 15"
    "unat (rq_ContentLen c) < 2 ^ 31" "unat (rq_CmdCode c) < 2 ^ 15" "rq_CmdCode c = RPC_REQUEST"
    using assms(1) by (simp_all add: req_fits_def RPC_REQUEST_def)
  note conv = convert_FormatUint convert_int16 [OF fits(2)] convert_int16 [OF fits(3)]
    convert_int [OF fits(1)] convert_int [OF fits(4)] convert_int16 [OF fits(5), unfolded fits(6)]
  show ?thesis unfolding v1_mapToCmd_def if_not_P [OF card] unfolding start
    by (simp add: look [folded m_def, unfolded header_names] rest [unfolded header_names] get_without kinds_lit
       conv fits(6) Let_def header_names ser_Serialize_def encodeMap_eq encodeString_def BufferWrite_def unsafeStrToByte_def
       BoltRequestCommand.truncate_def
       del: ConvertPropertyValue.simps(1-8))
qed


lemma req_fields_upds:
  "Map.empty(SofaPropertyHeader HeaderProtocolCode \<mapsto> FormatUint (unat (rq_Protocol c)),
      SofaPropertyHeader HeaderCmdType \<mapsto> FormatUint (unat (rq_CmdType c)),
      SofaPropertyHeader HeaderCmdCode \<mapsto> FormatUint (unat (scast (rq_CmdCode c) :: 64 word)),
      SofaPropertyHeader HeaderVersion \<mapsto> FormatUint (unat (rq_Version c)),
      SofaPropertyHeader HeaderReqID \<mapsto> FormatUint (unat (rq_ReqID c)),
      SofaPropertyHeader HeaderCodec \<mapsto> FormatUint (unat (rq_CodecPro c)),
      SofaPropertyHeader HeaderTimeout \<mapsto> FormatUint (unat (rq_Timeout c)),
      SofaPropertyHeader HeaderClassLen \<mapsto> FormatUint (unat (scast (rq_ClassLen c) :: 64 word)),
      SofaPropertyHeader HeaderHeaderLen \<mapsto> FormatUint (unat (scast (rq_HeaderLen c) :: 64 word)),
      SofaPropertyHeader HeaderContentLen \<mapsto> FormatUint (unat (rq_ContentLen c)),
      SofaPropertyHeader HeaderClassName \<mapsto> cn) = req_fields c cn"
  by (rule ext) (simp add: req_fields_def SofaPropertyHeader_def header_names)

definition headers_of :: "bslice \<Rightarrow> (string \<times> string) list \<Rightarrow> bool" where
  "headers_of s kvs \<longleftrightarrow>
     bs_vis s = concat (map entry_bytes kvs) \<and> distinct (map fst kvs) \<and> list_all small_entry kvs"

lemma deserialize_headers:
  assumes "headers_of s kvs"
  shows "\<exists>v e. ser_DeSerialize s (TMap Map.empty) = Inr (TMap (map_of kvs), v, e)"
proof (cases "bs_vis s = []")
  case True
  then have "kvs = []" using assms by (cases kvs) (auto simp: headers_of_def entry_bytes_def PutUint32_def)
  with True show ?thesis by (simp add: ser_DeSerialize_def)
next
  case False
  then obtain x where s: "s = B (concat (map entry_bytes kvs)) x"
    using assms by (cases s) (auto simp: headers_of_def)
  have "decodeMap s Map.empty = Inr (map_of kvs, None)"
    using assms decodeMapLoop_entries [of kvs "[]" x Map.empty] unfolding s headers_of_def decodeMap_def
    by (simp add: foldl_upd_map_of)
  with False show ?thesis by (simp add: ser_DeSerialize_def)
qed

lemma deserialize_class:
  "\<exists>v. ser_DeSerialize s (TString '''') = Inr (TString (string_of_bytes (bs_vis s)), v, None)"
  by (simp add: ser_DeSerialize_def decodeString_def string_of_bytes_def Let_def)

lemma deserialize_request:
  assumes "headers_of (rq_HeaderMap c) kvs" and "GetMap p1 = Map.empty" and "GetMap p2 = Map.empty"
  shows "deserializeRequestAllFields p1 p2 c =
    Inr (c\<lparr>rq_RequestHeader := Some (req_fields c (string_of_bytes (bs_vis (rq_ClassName c))) ++ map_of kvs)\<rparr>)"
proof -
  from deserialize_headers [OF assms(1)] obtain v e where
    h: "ser_DeSerialize (rq_HeaderMap c) (TMap Map.empty) = Inr (TMap (map_of kvs), v, e)" by blast
  from deserialize_class [of "rq_ClassName c"] obtain w where
    cn: "ser_DeSerialize (rq_ClassName c) (TString '''') =
      Inr (TString (string_of_bytes (bs_vis (rq_ClassName c))), w, None)"
    by blast
  show ?thesis
    unfolding deserializeRequestAllFields_def assms(2,3) h cn obind_Inr prod.case Let_def target_map_def
      target_string_def target.case req_fields_upds by (rule refl)
qed

lemma iter_order_entries:
  assumes "iter_order ord" and "distinct (map fst kvs)"
  shows "distinct (map fst (ord (map_of kvs)))" "map_of (ord (map_of kvs)) = map_of kvs"
    "set (ord (map_of kvs)) = set kvs"
proof -
  have "finite (dom (map_of kvs))" by (rule finite_dom_map_of)
  with assms(1) show d: "distinct (map fst (ord (map_of kvs)))" and m: "map_of (ord (map_of kvs)) = map_of kvs"
    by (auto simp: iter_order_def)
  have "(k, v) \<in> set (ord (map_of kvs)) \<longleftrightarrow> (k, v) \<in> set kvs" for k v
    using m d assms(2) by (metis map_of_eq_Some_iff)
  then show "set (ord (map_of kvs)) = set kvs" by auto
qed

text \<open>The only panic of the conversion is a failed type assertion.\<close>

definition assert_panic :: "'a outcome \<Rightarrow> bool" where
  "assert_panic r \<longleftrightarrow> (\<forall>p. r = Inl p \<longrightarrow> p = FailedTypeAssertion)"

lemma assert_panicI:
  "assert_panic (Inr x)"
  "assert_panic r \<Longrightarrow> (\<And>x. assert_panic (f x)) \<Longrightarrow> assert_panic (obind r f)"
  "(\<And>a b. assert_panic (g a b)) \<Longrightarrow> assert_panic (case p of (a, b) \<Rightarrow> g a b)"
  "assert_panic (f z) \<Longrightarrow> assert_panic (Let z f)"
  "assert_panic r \<Longrightarrow> assert_panic s \<Longrightarrow> assert_panic (if Q then r else s)"
  by (auto simp: assert_panic_def obind_eq_Inl split: prod.splits)

lemma assert_panic_as:
  "assert_panic (as_byte v)" "assert_panic (as_int16 v)" "assert_panic (as_uint32 v)"
  "assert_panic (as_int v)" "assert_panic (as_int64 v)"
  by (cases v, simp_all add: assert_panic_def)+

lemma assert_panic_Serialize: "assert_panic (ser_Serialize g)"
  by (cases g) (simp_all add: assert_panic_def ser_Serialize_def encodeMap_eq encodeString_def
     BufferWrite_def encodeBytes_def)

lemma v1_mapToCmd_panics: "assert_panic (v1_mapToCmd ord m)"
  unfolding v1_mapToCmd_def by (intro assert_panicI assert_panic_as assert_panic_Serialize)

section \<open>Properties\<close>

text \<open>
  C10 (roundtrip). A Bolt v1 request that passes through the proxy as a header map keeps every
  field: converting the decoded command to a map and the map to a command gives the same
  protocol, type, code, version, id, codec, timeout, lengths and class name, and header bytes
  that decode to the same header map, in whatever order the map is visited. The timeout and
  the content length must be below \<open>2 ^ 31\<close>, the class and header lengths below \<open>2 ^ 15\<close>, and
  the message's own headers must not use the names of the properties.
\<close>

theorem request_forwarded_intact:
  assumes "req_fits c" and "headers_of (rq_HeaderMap c) kvs" and "fresh_keys (map_of kvs)"
    and "GetMap p1 = Map.empty" and "GetMap p2 = Map.empty" and "iter_order ord"
  shows "\<exists>c1 c2. deserializeRequestAllFields p1 p2 c = Inr c1 \<and>
    v1_mapToCmd ord (the (rq_RequestHeader c1)) = Inr (map_of kvs, Some (ReqV1 c2)) \<and>
    plain_req (c2\<lparr>rq_HeaderMap := NilB\<rparr>) =
      plain_req (BoltRequestCommand.truncate c\<lparr>rq_HeaderMap := NilB, rq_Content := NilB\<rparr>) \<and>
    decodeMap (rq_HeaderMap c2) Map.empty = Inr (map_of kvs, None)"
proof -
  let ?cn = "string_of_bytes (bs_vis (rq_ClassName c))" and ?es = "ord (map_of kvs)"
  have kvs: "distinct (map fst kvs)" "list_all small_entry kvs" using assms(2) by (simp_all add: headers_of_def)
  note es = iter_order_entries [OF assms(6) kvs(1)]
  have small: "list_all small_entry ?es" using kvs(2) es(3) by (simp add: list_all_iff)
  have dec: "decodeMap (B (concat (map entry_bytes ?es)) []) Map.empty = Inr (map_of kvs, None)"
    using decodeMapLoop_entries [OF small, of "[]" "[]" Map.empty] es(1,2)
    by (simp add: decodeMap_def foldl_upd_map_of)
  have "v1_mapToCmd ord (req_fields c ?cn ++ map_of kvs) = Inr (map_of kvs, Some (ReqV1
     (BoltRequestCommand.truncate c\<lparr>rq_ClassName := B (bytes_of_string ?cn) [],
        rq_HeaderMap := B (concat (map entry_bytes ?es)) [], rq_Content := NilB, rq_RequestHeader := None\<rparr>)))"
    by (rule mapToCmd_request [OF assms(1,3) finite_dom_map_of])
  then show ?thesis unfolding deserialize_request [OF assms(2,4,5)]
    by (simp add: dec) (cases c; simp add: plain_req_def plain_def BoltRequestCommand.truncate_def)
qed

definition sorted_order :: "smap \<Rightarrow> (string \<times> string) list" where
  "sorted_order m = map (\<lambda>k. (k, the (m k))) (sorted_list_of_set (dom m))"

lemma iter_order_sorted: "iter_order sorted_order"
  unfolding iter_order_def sorted_order_def
  by (auto simp: comp_def map_of_map_restrict restrict_map_def fun_eq_iff dom_def)

theorem request_forwarded_intact_witness:
  "\<exists>c1 c2. deserializeRequestAllFields None None (sample_req\<lparr>rq_HeaderMap := B (entry_bytes (''k'', ''v'')) []\<rparr>) = Inr c1 \<and>
    v1_mapToCmd sorted_order (the (rq_RequestHeader c1)) = Inr ([''k'' \<mapsto> ''v''], Some (ReqV1 c2)) \<and>
    decodeMap (rq_HeaderMap c2) Map.empty = Inr ([''k'' \<mapsto> ''v''], None)"
proof -
  let ?c = "sample_req\<lparr>rq_HeaderMap := B (entry_bytes (''k'', ''v'')) []\<rparr>"
  have "req_fits ?c" by (simp add: req_fits_def sample_req_def RPC_REQUEST_def)
  moreover have "headers_of (rq_HeaderMap ?c) [(''k'', ''v'')]" by (simp add: headers_of_def small_entry_def)
  moreover have "fresh_keys (map_of [(''k'', ''v'')])" by (simp add: fresh_keys_def header_names)
  moreover have "GetMap None = Map.empty" by (simp add: GetMap_def)
  ultimately show ?thesis
    using request_forwarded_intact [of ?c "[(''k'', ''v'')]" None None, OF _ _ _ _ _ iter_order_sorted]
    by fastforce
qed

text \<open>
  A timeout of \<open>2 ^ 31\<close> or more (the unlimited timeout -1 is \<open>2 ^ 32 - 1\<close> on the
  wire) is not forwarded: the property is formatted as 64 bits and parsed as 32, so the
  forwarded command has the timeout \<open>2 ^ 31 - 1\<close>.
\<close>

lemma timeout_saturates:
  assumes "2 ^ 31 \<le> unat (rq_Timeout c)" and "fresh_keys h"
  shows "snd (GetPropertyValue BoltV1PropertyHeaders (req_fields c cn ++ h) HeaderTimeout) = PInt (2 ^ 31 - 1)"
proof -
  have "(req_fields c cn ++ h) HeaderTimeout = Some (FormatUint (unat (rq_Timeout c)))"
    using assms(2) by (simp add: fresh_keys_def req_fields_def header_names map_add_def)
  with ParseInt_saturates [of 32 "unat (rq_Timeout c)"] assms(1) show ?thesis
    by (simp add: GetPropertyValue_Some)
qed

text \<open>
  The v2 codec never encodes a header map: whatever the map holds, the result is
  the error for an invalid command type, or a panic of the v1 conversion.
\<close>

lemma v2_map_never_encoded:
  "v2_EncodeHeaders ord pooled (HdrMap m) = Inl FailedTypeAssertion \<or>
   (\<exists>m'. v2_EncodeHeaders ord pooled (HdrMap m) = Inr (HdrMap m', Inl InvalidCommandType))"
proof (cases "v1_mapToCmd ord m")
  case (Inl p)
  with v1_mapToCmd_panics [of ord m] show ?thesis
    by (auto simp: v2_EncodeHeaders_def v2_mapToCmd_def v2_encodeHeaders_def assert_panic_def)
next
  case (Inr a)
  then show ?thesis
    by (auto simp: v2_EncodeHeaders_def v2_mapToCmd_def v2_encodeHeaders_def assert_BoltRequestCommand_def
        assert_BoltResponseCommand_def split: prod.splits)
qed

text \<open>
  Encoding a header map takes the properties out of the map. A second encoding of
  the same map, as a retry does it, fails when fewer than ten headers are left.
\<close>

lemma second_encoding_fails:
  assumes "req_fits c" and "fresh_keys h" and "finite (dom h)" and "card (dom h) < 10" and "pool_clean pooled"
  shows "\<exists>e. v1_EncodeHeaders ord pooled (HdrMap (req_fields c cn ++ h)) = Inr (HdrMap h, Inr e) \<and>
    v1_EncodeHeaders ord pooled (HdrMap h) = Inr (HdrMap h, Inl InvalidCommandType)"
proof -
  let ?c = "BoltRequestCommand.truncate c\<lparr>rq_ClassName := B (bytes_of_string cn) [],
        rq_HeaderMap := B (concat (map entry_bytes (ord h))) [], rq_Content := NilB, rq_RequestHeader := None\<rparr>"
  have "sint (rq_ClassLen c) = int (unat (rq_ClassLen c))" using assms(1) by (intro sint_16) (simp add: req_fits_def)
  then have "0 \<le> 22 + sint (rq_ClassLen ?c) + int (bs_len (rq_HeaderMap ?c))"
    by (simp add: BoltRequestCommand.truncate_def)
  from encode_chunks [OF assms(5) this, of "v1_req_chunks ?c"] obtain e where
    "v1_doEncodeRequestCommand pooled ?c = Inr e" unfolding v1_doEncodeRequestCommand_def by blast
  then show ?thesis using mapToCmd_request [OF assms(1-3), of ord cn] assms(4)
    by (auto simp: v1_EncodeHeaders_def v1_encodeHeaders_def v1_mapToCmd_def [of ord h])
qed

text \<open>
  The answer the proxy makes up for a v1 request carries the request's id,
  version and codec and the given status.
\<close>

lemma BuildSofaRespMsg_answers:
  assumes "rq_Protocol c = PROTOCOL_CODE_V1" and "fresh_keys h"
  shows "BuildSofaRespMsg (req_fields c cn ++ h) st =
    (HdrCmd (RespV1 (empty_response (rq_Version c) (rq_ReqID c) (rq_CodecPro c) st)), None)"
proof -
  let ?m = "req_fields c cn ++ h"
  have "Atoi (FormatUint (unat b)) = int (unat b)" for b :: byte
    unfolding Atoi_def by (rule ParseInt_FormatUint [OF less_le_trans [OF unat_less(1)]]) simp_all
  moreover have "Atoi (FormatUint (unat w)) = int (unat w)" for w :: "32 word"
    unfolding Atoi_def by (rule ParseInt_FormatUint [OF less_le_trans [OF unat_less(2)]]) simp_all
  moreover have "?m HeaderProtocolCode = Some (FormatUint (unat (rq_Protocol c)))"
     "?m HeaderVersion = Some (FormatUint (unat (rq_Version c)))"
     "?m HeaderReqID = Some (FormatUint (unat (rq_ReqID c)))"
     "?m HeaderCodec = Some (FormatUint (unat (rq_CodecPro c)))"
    using assms(2) by (simp_all add: fresh_keys_def req_fields_def header_names map_add_def)
  ultimately show ?thesis using assms(1)
    by (simp add: BuildSofaRespMsg_def atoi_at_def SofaPropertyHeader_def Let_def)
qed

end
