(* ===== verification/Bolt_Protocols.thy ===== *)
theory Bolt_Protocols
  imports Sofa_Headers
begin

text \<open>
  From bytes to stream events: the command handlers of \<open>pkg/protocol/sofarpc/handler\<close>, the
  id generator of \<open>pkg/protocol/util.go\<close> and the protocol dispatch of
  \<open>pkg/protocol/sofarpc/protocols.go\<close>. The decode filter (the stream connection) is a record
  of callbacks on a state of its own; each callback returns the new state and whether it asks
  to stop the iteration. The dispatch loop may run forever, which is the result \<open>None\<close>.
\<close>

section \<open>Stream ids\<close>

type_synonym IDGenerator = "32 word"

definition Get :: "IDGenerator \<Rightarrow> IDGenerator \<times> 32 word" where
  "Get g = (g + 1, g + 1)"

definition GetString :: "IDGenerator \<Rightarrow> IDGenerator \<times> string" where
  "GetString g = (g + 1, FormatUint (unat (g + 1)))"

definition StreamIDConv :: "32 word \<Rightarrow> string" where
  "StreamIDConv streamID = FormatUint (unat streamID)"

section \<open>Processors\<close>

datatype handle_err = UnKnownCmdcode | UnKnownCmd | UnSupportedCode | DecodeError decode_err

record 'f DecodeFilter =
  OnDecodeHeader :: "string \<Rightarrow> smap \<Rightarrow> 'f \<Rightarrow> 'f \<times> bool"
  OnDecodeData :: "string \<Rightarrow> iobuffer \<Rightarrow> 'f \<Rightarrow> 'f \<times> bool"
  OnDecodeError :: "handle_err \<Rightarrow> 'f \<Rightarrow> 'f"

definition HeaderStremEnd :: string where "HeaderStremEnd = ''x-mosn-endstream''"

text \<open>
  The callbacks of one message: headers (marked as the end of the stream when there is no
  content), then, unless the filter stops, the content.
\<close>

definition present :: "'f DecodeFilter \<Rightarrow> string \<Rightarrow> smap option \<Rightarrow> bslice \<Rightarrow> 'f \<Rightarrow> 'f" where
  "present flt streamID header content f =
     (let (f, stopped) =
            (case header of
               None \<Rightarrow> (f, False)
             | Some h \<Rightarrow> OnDecodeHeader flt streamID
                 (if content = NilB then h(HeaderStremEnd \<mapsto> ''yes'') else h) f)
      in if stopped then f
         else if content \<noteq> NilB then fst (OnDecodeData flt streamID (NewIoBufferBytes (bs_vis content)) f)
         else f)"

definition BoltRequestProcessor_Process ::
  "'f DecodeFilter \<Rightarrow> smap option \<times> smap option \<Rightarrow> bolt_cmd \<Rightarrow> IDGenerator \<times> 'f \<Rightarrow> (IDGenerator \<times> 'f) outcome" where
  "BoltRequestProcessor_Process flt pools msg st =
     (case msg of
        ReqV1 cmd \<Rightarrow> obind (deserializeRequestAllFields (fst pools) (snd pools) cmd) (\<lambda>cmd.
          let (g, streamID) = GetString (fst st)
          in Inr (g, present flt streamID (rq_RequestHeader cmd) (rq_Content cmd) (snd st)))
      | _ \<Rightarrow> Inr st)"

definition BoltRequestProcessorV2_Process ::
  "'f DecodeFilter \<Rightarrow> smap option \<times> smap option \<Rightarrow> bolt_cmd \<Rightarrow> IDGenerator \<times> 'f \<Rightarrow> (IDGenerator \<times> 'f) outcome" where
  "BoltRequestProcessorV2_Process flt pools msg st =
     (case msg of
        ReqV2 cmd \<Rightarrow> obind (deserializeRequestAllFieldsV2 (fst pools) (snd pools) cmd) (\<lambda>cmd.
          let (g, streamID) = GetString (fst st)
          in Inr (g, present flt streamID (rq_RequestHeader cmd) (rq_Content cmd) (snd st)))
      | _ \<Rightarrow> Inr st)"

definition BoltResponseProcessor_Process ::
  "'f DecodeFilter \<Rightarrow> smap option \<times> smap option \<Rightarrow> bolt_cmd \<Rightarrow> IDGenerator \<times> 'f \<Rightarrow> (IDGenerator \<times> 'f) outcome" where
  "BoltResponseProcessor_Process flt pools msg st =
     (case msg of
        RespV1 cmd \<Rightarrow> obind (deserializeResponseAllFields (fst pools) (snd pools) cmd) (\<lambda>cmd.
          Inr (fst st, present flt (StreamIDConv (rs_ReqID cmd)) (rs_ResponseHeader cmd) (rs_Content cmd) (snd st)))
      | _ \<Rightarrow> Inr st)"

definition BoltResponseProcessorV2_Process ::
  "'f DecodeFilter \<Rightarrow> smap option \<times> smap option \<Rightarrow> bolt_cmd \<Rightarrow> IDGenerator \<times> 'f \<Rightarrow> (IDGenerator \<times> 'f) outcome" where
  "BoltResponseProcessorV2_Process flt pools msg st =
     (case msg of
        RespV2 cmd \<Rightarrow> obind (deserializeResponseAllFieldsV2 (fst pools) (snd pools) cmd) (\<lambda>cmd.
          Inr (fst st, present flt (StreamIDConv (rs_ReqID cmd)) (rs_ResponseHeader cmd) (rs_Content cmd) (snd st)))
      | _ \<Rightarrow> Inr st)"

text \<open>Heartbeats have headers only; those of version 2 match neither branch.\<close>

definition header_only :: "'f DecodeFilter \<Rightarrow> string \<Rightarrow> smap option \<Rightarrow> 'f \<Rightarrow> 'f" where
  "header_only flt reqID header f =
     (case header of None \<Rightarrow> f | Some h \<Rightarrow> fst (OnDecodeHeader flt reqID h f))"

definition boltHbProcessor_Process ::
  "'f DecodeFilter \<Rightarrow> smap option \<times> smap option \<Rightarrow> bolt_cmd \<Rightarrow> IDGenerator \<times> 'f \<Rightarrow> (IDGenerator \<times> 'f) outcome" where
  "boltHbProcessor_Process flt pools msg st =
     (case msg of
        ReqV1 cmd \<Rightarrow> obind (deserializeRequestAllFields (fst pools) (snd pools) cmd) (\<lambda>cmd.
          Inr (fst st, header_only flt (StreamIDConv (rq_ReqID cmd)) (rq_RequestHeader cmd) (snd st)))
      | RespV1 cmd \<Rightarrow> obind (deserializeResponseAllFields (fst pools) (snd pools) cmd) (\<lambda>cmd.
          Inr (fst st, header_only flt (StreamIDConv (rs_ReqID cmd)) (rs_ResponseHeader cmd) (snd st)))
      | _ \<Rightarrow> Inr st)"

section \<open>The command handler\<close>

datatype processor = ReqProc | ReqProcV2 | RespProc | RespProcV2 | HbProc

fun Process ::
  "processor \<Rightarrow> 'f DecodeFilter \<Rightarrow> smap option \<times> smap option \<Rightarrow> bolt_cmd \<Rightarrow> IDGenerator \<times> 'f \<Rightarrow> (IDGenerator \<times> 'f) outcome" where
  "Process ReqProc = BoltRequestProcessor_Process"
| "Process ReqProcV2 = BoltRequestProcessorV2_Process"
| "Process RespProc = BoltResponseProcessor_Process"
| "Process RespProcV2 = BoltResponseProcessorV2_Process"
| "Process HbProc = boltHbProcessor_Process"

type_synonym boltCommandHandler = "16 word \<rightharpoonup> processor"

definition NewBoltCommandHandler :: boltCommandHandler where
  "NewBoltCommandHandler = [RPC_REQUEST \<mapsto> ReqProc, RPC_RESPONSE \<mapsto> RespProc, HEARTBEAT \<mapsto> HbProc]"

definition NewBoltCommandHandlerV2 :: boltCommandHandler where
  "NewBoltCommandHandlerV2 = [RPC_REQUEST \<mapsto> ReqProcV2, RPC_RESPONSE \<mapsto> RespProcV2, HEARTBEAT \<mapsto> HbProc]"

fun GetCmdCode :: "bolt_cmd \<Rightarrow> 16 word" where
  "GetCmdCode (ReqV1 c) = rq_CmdCode c"
| "GetCmdCode (RespV1 c) = rs_CmdCode c"
| "GetCmdCode (ReqV2 c) = rq_CmdCode c"
| "GetCmdCode (RespV2 c) = rs_CmdCode c"

fun GetProtocol :: "bolt_cmd \<Rightarrow> byte" where
  "GetProtocol (ReqV1 c) = rq_Protocol c"
| "GetProtocol (RespV1 c) = rs_Protocol c"
| "GetProtocol (ReqV2 c) = rq_Protocol c"
| "GetProtocol (RespV2 c) = rs_Protocol c"

fun GetReqID :: "bolt_cmd \<Rightarrow> 32 word" where
  "GetReqID (ReqV1 c) = rq_ReqID c"
| "GetReqID (RespV1 c) = rs_ReqID c"
| "GetReqID (ReqV2 c) = rq_ReqID c"
| "GetReqID (RespV2 c) = rs_ReqID c"

definition HandleCommand ::
  "boltCommandHandler \<Rightarrow> 'f DecodeFilter \<Rightarrow> smap option \<times> smap option \<Rightarrow> bolt_cmd \<Rightarrow> IDGenerator \<times> 'f \<Rightarrow>
     ((IDGenerator \<times> 'f) \<times> handle_err option) outcome" where
  "HandleCommand h flt pools cmd st =
     (case h (GetCmdCode cmd) of
        Some processor \<Rightarrow> obind (Process processor flt pools cmd st) (\<lambda>st. Inr (st, None))
      | None \<Rightarrow> Inr (st, Some UnKnownCmdcode))"

definition RegisterProcessor :: "16 word \<Rightarrow> processor \<Rightarrow> boltCommandHandler \<Rightarrow> boltCommandHandler" where
  "RegisterProcessor cmdCode p h = (case h cmdCode of Some _ \<Rightarrow> h | None \<Rightarrow> h(cmdCode \<mapsto> p))"

section \<open>Protocols\<close>

datatype codec_version = V1 | V2

record boltProtocol =
  protocolCode :: byte
  requestHeaderLen :: nat
  responseHeaderLen :: nat
  coder :: codec_version
  commandHandler :: boltCommandHandler

definition BoltV1 :: boltProtocol where
  "BoltV1 = \<lparr>protocolCode = PROTOCOL_CODE_V1, requestHeaderLen = REQUEST_HEADER_LEN_V1,
     responseHeaderLen = RESPONSE_HEADER_LEN_V1, coder = V1, commandHandler = NewBoltCommandHandler\<rparr>"

definition BoltV2 :: boltProtocol where
  "BoltV2 = \<lparr>protocolCode = PROTOCOL_CODE_V2, requestHeaderLen = REQUEST_HEADER_LEN_V2,
     responseHeaderLen = RESPONSE_HEADER_LEN_V2, coder = V2, commandHandler = NewBoltCommandHandlerV2\<rparr>"

fun decoder_Decode :: "codec_version \<Rightarrow> 64 word \<Rightarrow> iobuffer \<Rightarrow> (iobuffer \<times> (decode_err + bolt_cmd option)) outcome" where
  "decoder_Decode V1 = v1_Decode"
| "decoder_Decode V2 = v2_Decode"

fun encoder_EncodeHeaders ::
  "codec_version \<Rightarrow> (smap \<Rightarrow> (string \<times> string) list) \<Rightarrow> iobuffer option \<Rightarrow> hdrs \<Rightarrow> (hdrs \<times> (enc_err + iobuffer)) outcome" where
  "encoder_EncodeHeaders V1 = v1_EncodeHeaders"
| "encoder_EncodeHeaders V2 = v2_EncodeHeaders"

type_synonym protocols = "byte \<rightharpoonup> boltProtocol"

definition RegisterProtocol :: "byte \<Rightarrow> boltProtocol \<Rightarrow> protocols \<Rightarrow> protocols" where
  "RegisterProtocol code p pm = (case pm code of Some _ \<Rightarrow> pm | None \<Rightarrow> pm(code \<mapsto> p))"

definition UnRegisterProtocol :: "byte \<Rightarrow> protocols \<Rightarrow> protocols" where
  "UnRegisterProtocol code pm = (case pm code of Some _ \<Rightarrow> pm(code := None) | None \<Rightarrow> pm)"

definition defaultProtocols :: protocols where
  "defaultProtocols = RegisterProtocol PROTOCOL_CODE_V2 BoltV2 (RegisterProtocol PROTOCOL_CODE_V1 BoltV1 Map.empty)"

definition protocols_EncodeHeaders ::
  "protocols \<Rightarrow> (smap \<Rightarrow> (string \<times> string) list) \<Rightarrow> iobuffer option \<Rightarrow> hdrs \<Rightarrow> (hdrs \<times> (enc_err + iobuffer)) outcome" where
  "protocols_EncodeHeaders pm ord pooled headers =
     (let code =
        (case headers of
           HdrCmd c \<Rightarrow> Inr (GetProtocol c)
         | HdrMap m \<Rightarrow>
             (case m (SofaPropertyHeader HeaderProtocolCode) of
                Some proto \<Rightarrow> Inr (word_of_nat (ParseUint 8 proto))
              | None \<Rightarrow> Inl NoProCodeInHeader)
         | HdrOther \<Rightarrow> Inl InvalidHeaderType)
      in case code of
           Inl e \<Rightarrow> Inr (headers, Inl e)
         | Inr pc \<Rightarrow>
             (case pm pc of
                Some proto \<Rightarrow> encoder_EncodeHeaders (coder proto) ord pooled headers
              | None \<Rightarrow> Inr (headers, Inl UnSupportedProCode)))"

text \<open>\<open>clk k\<close> is the time the clock shows in the k-th pass of the loop.\<close>

partial_function (option) protocols_Decode ::
  "'f DecodeFilter \<Rightarrow> smap option \<times> smap option \<Rightarrow> (nat \<Rightarrow> 64 word) \<Rightarrow> nat \<Rightarrow> protocols \<Rightarrow> iobuffer \<Rightarrow> IDGenerator \<times> 'f \<Rightarrow>
     (iobuffer \<times> (IDGenerator \<times> 'f)) outcome option" where
  "protocols_Decode flt pools clk k pm data st =
     (if Len data > 1 then
        (case obind (BytesSlice data) (\<lambda>s. obind (byte_at s 0) (\<lambda>c. obind (byte_at s 1) (\<lambda>v. Inr c))) of
           Inl p \<Rightarrow> Some (Inl p)
         | Inr code \<Rightarrow>
             (case pm code of
                None \<Rightarrow> Some (Inr (data, fst st, OnDecodeError flt UnSupportedCode (snd st)))
              | Some proto \<Rightarrow>
                  (case decoder_Decode (coder proto) (clk k) data of
                     Inl p \<Rightarrow> Some (Inl p)
                   | Inr (data', r) \<Rightarrow>
                       (case r of
                          Inl e \<Rightarrow> Some (Inr (data', fst st, OnDecodeError flt (DecodeError e) (snd st)))
                        | Inr None \<Rightarrow> Some (Inr (data', st))
                        | Inr (Some cmd) \<Rightarrow>
                            (case HandleCommand (commandHandler proto) flt pools cmd st of
                               Inl p \<Rightarrow> Some (Inl p)
                             | Inr (st', err) \<Rightarrow>
                                 (case err of
                                    Some e \<Rightarrow> Some (Inr (data', fst st', OnDecodeError flt e (snd st')))
                                  | None \<Rightarrow> protocols_Decode flt pools clk (k + 1) pm data' st'))))))
      else Some (Inr (data, st)))"

section \<open>What a command means to the filter\<close>

fun headers_ok :: "bolt_cmd \<Rightarrow> bool" where
  "headers_ok (ReqV1 c) = (\<exists>kvs. headers_of (rq_HeaderMap c) kvs)"
| "headers_ok (RespV1 c) = (\<exists>kvs. headers_of (rs_HeaderMap c) kvs)"
| "headers_ok (ReqV2 c) = (\<exists>kvs. headers_of (rq_HeaderMap c) kvs)"
| "headers_ok (RespV2 c) = (\<exists>kvs. headers_of (rs_HeaderMap c) kvs)"

definition clean_maps :: "smap option \<times> smap option \<Rightarrow> bool" where
  "clean_maps pools \<longleftrightarrow> GetMap (fst pools) = Map.empty \<and> GetMap (snd pools) = Map.empty"

lemma present_cong:
  "bs_vis t = bs_vis t' \<Longrightarrow> (t = NilB \<longleftrightarrow> t' = NilB) \<Longrightarrow> present flt i h t f = present flt i h t' f"
  by (cases "t = NilB"; cases "t' = NilB") (auto simp: present_def split: option.splits prod.splits)

lemma plain_eqD: "plain s = plain s' \<Longrightarrow> bs_vis s = bs_vis s'"
  by (auto simp: plain_def split: if_splits)

definition resp_fields :: "'a BoltResponseCommand_scheme \<Rightarrow> string \<Rightarrow> smap" where
  "resp_fields c cn = Map.empty
     (HeaderProtocolCode \<mapsto> FormatUint (unat (rs_Protocol c)),
      HeaderCmdType \<mapsto> FormatUint (unat (rs_CmdType c)),
      HeaderCmdCode \<mapsto> FormatUint (unat (scast (rs_CmdCode c) :: 64 word)),
      HeaderVersion \<mapsto> FormatUint (unat (rs_Version c)),
      HeaderReqID \<mapsto> FormatUint (unat (rs_ReqID c)),
      HeaderCodec \<mapsto> FormatUint (unat (rs_CodecPro c)),
      HeaderClassLen \<mapsto> FormatUint (unat (scast (rs_ClassLen c) :: 64 word)),
      HeaderHeaderLen \<mapsto> FormatUint (unat (scast (rs_HeaderLen c) :: 64 word)),
      HeaderContentLen \<mapsto> FormatUint (unat (rs_ContentLen c)),
      HeaderRespStatus \<mapsto> FormatUint (unat (scast (rs_ResponseStatus c) :: 64 word)),
      HeaderRespTimeMills \<mapsto> FormatUint (unat (rs_ResponseTimeMillis c)),
      HeaderClassName \<mapsto> cn)"

lemma deserialize_response:
  assumes "headers_of (rs_HeaderMap c) kvs" and "GetMap p1 = Map.empty" and "GetMap p2 = Map.empty"
  shows "deserializeResponseAllFields p1 p2 c =
    Inr (c\<lparr>rs_ResponseHeader := Some (resp_fields c (string_of_bytes (bs_vis (rs_ClassName c))) ++ map_of kvs)\<rparr>)"
proof -
  from deserialize_headers [OF assms(1)] obtain v e where
    h: "ser_DeSerialize (rs_HeaderMap c) (TMap Map.empty) = Inr (TMap (map_of kvs), v, e)" by blast
  from deserialize_class [of "rs_ClassName c"] obtain w where
    cn: "ser_DeSerialize (rs_ClassName c) (TString '''') =
      Inr (TString (string_of_bytes (bs_vis (rs_ClassName c))), w, None)"
    by blast
  show ?thesis
    unfolding deserializeResponseAllFields_def assms(2,3) h cn obind_Inr prod.case Let_def target_map_def
      target_string_def target.case SofaPropertyHeader_def resp_fields_def by (rule refl)
qed

lemma plain_req_eqD:
  assumes "plain_req c = plain_req c'"
  shows "bs_vis (rq_HeaderMap c) = bs_vis (rq_HeaderMap c')" "bs_vis (rq_ClassName c) = bs_vis (rq_ClassName c')"
    "bs_vis (rq_Content c) = bs_vis (rq_Content c')" "req_fields c cn = req_fields c' cn"
    "rq_CmdCode c = rq_CmdCode c'" "rq_ReqID c = rq_ReqID c'"
    "BoltRequestCommand.more c = BoltRequestCommand.more c'"
  using assms by (cases c, cases c', auto simp: plain_req_def req_fields_def intro: plain_eqD)+

lemma plain_resp_eqD:
  assumes "plain_resp c = plain_resp c'"
  shows "bs_vis (rs_HeaderMap c) = bs_vis (rs_HeaderMap c')" "bs_vis (rs_ClassName c) = bs_vis (rs_ClassName c')"
    "bs_vis (rs_Content c) = bs_vis (rs_Content c')" "resp_fields c cn = resp_fields c' cn"
    "rs_CmdCode c = rs_CmdCode c'" "rs_ReqID c = rs_ReqID c'"
    "BoltResponseCommand.more c = BoltResponseCommand.more c'"
  using assms by (cases c, cases c', auto simp: plain_resp_def resp_fields_def intro: plain_eqD)+


lemma headers_of_cong: "bs_vis s = bs_vis s' \<Longrightarrow> headers_of s kvs = headers_of s' kvs"
  by (simp add: headers_of_def)

lemma tidy_Nil: "tidy c \<Longrightarrow> tidy c' \<Longrightarrow> bs_vis (content_slice c) = bs_vis (content_slice c') \<Longrightarrow>
   content_slice c = NilB \<longleftrightarrow> content_slice c' = NilB"
  by (auto simp: tidy_def)

text \<open>
  Two decoded commands that carry the same bytes lead to the same callbacks, provided their
  header bytes are a serialized map. The bytes behind the header slice then play no part.
\<close>

lemma HandleCommand_req:
  assumes "plain_req c = plain_req c'" and "headers_of (rq_HeaderMap c) kvs" and "clean_maps pools"
    and "tidy (ReqV1 c)" and "tidy (ReqV1 c')"
  shows "HandleCommand h flt pools (ReqV1 c) st = HandleCommand h flt pools (ReqV1 c') st"
proof -
  note eq = plain_req_eqD [OF assms(1)]
  have pools: "GetMap (fst pools) = Map.empty" "GetMap (snd pools) = Map.empty"
    using assms(3) by (simp_all add: clean_maps_def)
  have h': "headers_of (rq_HeaderMap c') kvs" using assms(2) headers_of_cong [OF eq(1)] by simp
  have nil: "rq_Content c = NilB \<longleftrightarrow> rq_Content c' = NilB" using tidy_Nil [OF assms(4,5)] eq(3) by simp
  note des = deserialize_request [OF assms(2) pools] deserialize_request [OF h' pools]
  have "Process p flt pools (ReqV1 c) st = Process p flt pools (ReqV1 c') st" for p
    using present_cong [OF eq(3) nil]
    by (cases p) (simp_all add: BoltRequestProcessor_Process_def BoltRequestProcessorV2_Process_def
      BoltResponseProcessor_Process_def BoltResponseProcessorV2_Process_def boltHbProcessor_Process_def
      des eq Let_def case_prod_unfold)
  then show ?thesis by (simp add: HandleCommand_def eq(5) split: option.split)
qed

lemma HandleCommand_resp:
  assumes "plain_resp c = plain_resp c'" and "headers_of (rs_HeaderMap c) kvs" and "clean_maps pools"
    and "tidy (RespV1 c)" and "tidy (RespV1 c')"
  shows "HandleCommand h flt pools (RespV1 c) st = HandleCommand h flt pools (RespV1 c') st"
proof -
  note eq = plain_resp_eqD [OF assms(1)]
  have pools: "GetMap (fst pools) = Map.empty" "GetMap (snd pools) = Map.empty"
    using assms(3) by (simp_all add: clean_maps_def)
  have h': "headers_of (rs_HeaderMap c') kvs" using assms(2) headers_of_cong [OF eq(1)] by simp
  have nil: "rs_Content c = NilB \<longleftrightarrow> rs_Content c' = NilB" using tidy_Nil [OF assms(4,5)] eq(3) by simp
  note des = deserialize_response [OF assms(2) pools] deserialize_response [OF h' pools]
  have "Process p flt pools (RespV1 c) st = Process p flt pools (RespV1 c') st" for p
    using present_cong [OF eq(3) nil]
    by (cases p) (simp_all add: BoltRequestProcessor_Process_def BoltRequestProcessorV2_Process_def
      BoltResponseProcessor_Process_def BoltResponseProcessorV2_Process_def boltHbProcessor_Process_def
      des eq Let_def case_prod_unfold)
  then show ?thesis by (simp add: HandleCommand_def eq(5) split: option.split)
qed

lemma received_tidy: "tidy (received now c)"
  by (cases c) (auto simp: tidy_def plain_req_def plain_resp_def plain_def)

lemma plain_plain [simp]: "plain (plain s) = plain s" "bs_vis (plain s) = bs_vis s"
  by (auto simp: plain_def)

lemma plain_idem [simp]: "plain_req (plain_req c) = plain_req c" "plain_resp (plain_resp d) = plain_resp d"
  by (simp_all add: plain_req_def plain_resp_def)

lemma HandleCommand_received:
  assumes "v1_cmd c" and "headers_ok c" and "clean_maps pools" and "plain_cmd c' = received now c" and "tidy c'"
  shows "HandleCommand h flt pools c' st = HandleCommand h flt pools (received now c) st"
proof (cases c)
  case (ReqV1 r)
  then obtain r' where c': "c' = ReqV1 r'" "plain_req r' = plain_req (r\<lparr>rq_Protocol := PROTOCOL_CODE_V1\<rparr>)"
    using assms(4) by (cases c') auto
  from ReqV1 assms(2) obtain kvs where "headers_of (rq_HeaderMap r) kvs" by auto
  then have "headers_of (rq_HeaderMap r') kvs" using plain_req_eqD(1) [OF c'(2)] by (simp add: headers_of_def)
  from HandleCommand_req [OF _ this assms(3), of "plain_req (r\<lparr>rq_Protocol := PROTOCOL_CODE_V1\<rparr>)"] show ?thesis
    using c' assms(5) received_tidy [of now c] ReqV1 by simp
next
  case (RespV1 r)
  then obtain r' where c': "c' = RespV1 r'"
    "plain_resp r' = plain_resp (r\<lparr>rs_Protocol := PROTOCOL_CODE_V1, rs_ResponseTimeMillis := now\<rparr>)"
    using assms(4) by (cases c') auto
  from RespV1 assms(2) obtain kvs where "headers_of (rs_HeaderMap r) kvs" by auto
  then have "headers_of (rs_HeaderMap r') kvs" using plain_resp_eqD(1) [OF c'(2)] by (simp add: headers_of_def)
  from HandleCommand_resp [OF _ this assms(3), of "plain_resp (r\<lparr>rs_Protocol := PROTOCOL_CODE_V1, rs_ResponseTimeMillis := now\<rparr>)"]
  show ?thesis using c' assms(5) received_tidy [of now c] RespV1 by simp
qed (use assms in simp_all)


lemma HandleCommand_known:
  assumes "v1_cmd c" and "headers_ok c" and "clean_maps pools" and "NewBoltCommandHandler (GetCmdCode c) \<noteq> None"
  shows "\<exists>st'. HandleCommand NewBoltCommandHandler flt pools (received now c) st = Inr (st', None)"
proof -
  obtain p where p: "NewBoltCommandHandler (GetCmdCode c) = Some p" using assms(4) by blast
  have "GetCmdCode (received now c) = GetCmdCode c" by (cases c) (simp_all add: plain_req_def plain_resp_def)
  moreover have "\<exists>st'. Process p flt pools (received now c) st = Inr st'"
  proof (cases c)
    case (ReqV1 r)
    with assms(2) obtain kvs where "headers_of (rq_HeaderMap r) kvs" by auto
    then have "headers_of (rq_HeaderMap (plain_req (r\<lparr>rq_Protocol := PROTOCOL_CODE_V1\<rparr>))) kvs"
      by (simp add: headers_of_def plain_req_def)
    from deserialize_request [OF this] assms(3) ReqV1 show ?thesis
      by (cases p) (simp_all add: BoltRequestProcessor_Process_def BoltRequestProcessorV2_Process_def
        BoltResponseProcessor_Process_def BoltResponseProcessorV2_Process_def boltHbProcessor_Process_def
        clean_maps_def case_prod_unfold Let_def)
  next
    case (RespV1 r)
    with assms(2) obtain kvs where "headers_of (rs_HeaderMap r) kvs" by auto
    then have "headers_of (rs_HeaderMap (plain_resp (r\<lparr>rs_Protocol := PROTOCOL_CODE_V1, rs_ResponseTimeMillis := now\<rparr>))) kvs"
      by (simp add: headers_of_def plain_resp_def)
    from deserialize_response [OF this] assms(3) RespV1 show ?thesis
      by (cases p) (simp_all add: BoltRequestProcessor_Process_def BoltRequestProcessorV2_Process_def
        BoltResponseProcessor_Process_def BoltResponseProcessorV2_Process_def boltHbProcessor_Process_def
        clean_maps_def case_prod_unfold Let_def)
  qed (use assms in simp_all)
  ultimately show ?thesis using p by (auto simp: HandleCommand_def)
qed

section \<open>The dispatch loop over framed decoders\<close>

lemma first_two_bytes:
  assumes "iob_wf b" and "contents b = x # y # ys"
  shows "Len b > 1"
    "obind (BytesSlice b) (\<lambda>s. obind (byte_at s 0) (\<lambda>c. obind (byte_at s 1) (\<lambda>v. Inr c))) = Inr x"
  using assms length_contents [OF assms(1)] by (simp_all add: BytesSlice_wf byte_at_def)

context frame_decoder
begin

lemma dispatch_frame:
  assumes "pm code = Some proto" and "decoder_Decode (coder proto) (clk k) = dec"
    and "cmd_ok c" and "iob_wf b" and "contents b = bolt_frame c @ r"
    and "\<And>c'. plain_cmd c' = received now c \<Longrightarrow> tidy c' \<Longrightarrow>
       HandleCommand (commandHandler proto) flt pools c' st = Inr (st', None)"
  shows "\<exists>b'. iob_wf b' \<and> contents b' = r \<and>
    protocols_Decode flt pools clk k pm b st = protocols_Decode flt pools clk (k + 1) pm b' st'"
proof -
  obtain x xs where "contents b = code # x # xs" using first [OF assms(3)] assms(5) by auto
  note two = first_two_bytes [OF assms(4) this]
  from whole [OF assms(3-5)] obtain b' c' where
    "dec b = Inr (b', Inr (Some c'))" "iob_wf b'" "contents b' = r" "plain_cmd c' = received now c" "tidy c'"
    unfolding delivers_def by blast
  note d = this
  have "protocols_Decode flt pools clk k pm b st = protocols_Decode flt pools clk (k + 1) pm b' st'"
    by (subst protocols_Decode.simps) (simp add: two [simplified] assms(1,2) d(1) assms(6) [OF d(4,5)])
  with d(2,3) show ?thesis by blast
qed

lemma dispatch_waits:
  assumes "pm code = Some proto" and "decoder_Decode (coder proto) (clk k) = dec"
    and "cmd_ok c" and "iob_wf b" and "n < length (bolt_frame c)" and "contents b = take n (bolt_frame c)"
  shows "protocols_Decode flt pools clk k pm b st = Some (Inr (b, st))"
proof (cases "n > 1")
  case True
  then obtain x xs where "contents b = code # x # xs"
    using first [OF assms(3)] assms(6) by (cases n; cases "n - 1") auto
  note two = first_two_bytes [OF assms(4) this]
  from partial [OF assms(3-6)] show ?thesis
    by (subst protocols_Decode.simps) (simp add: two [simplified] assms(1,2))
next
  case False
  then have "\<not> Len b > 1" using assms(5,6) length_contents [OF assms(4)] by simp
  then show ?thesis by (subst protocols_Decode.simps) simp
qed

end

lemma defaultProtocols_at:
  "defaultProtocols PROTOCOL_CODE_V1 = Some BoltV1" "defaultProtocols PROTOCOL_CODE_V2 = Some BoltV2"
  by (simp_all add: defaultProtocols_def RegisterProtocol_def bolt_consts)

lemma v2_resp_pass:
  assumes "resp_ok c" and "rs_CmdCode c = RPC_RESPONSE" and "headers_of (rs_HeaderMap c) kvs" and "clean_maps pools"
    and "iob_wf b" and "contents b = bolt_frame (RespV2 c) @ r"
  shows "\<exists>c' st'. v2_Decode now b = Inr (b, Inr (Some c')) \<and>
    HandleCommand NewBoltCommandHandlerV2 flt pools c' st = Inr (st', None)"
proof -
  from v2_resp_whole [OF assms(1,5,6)] obtain c' where c': "v2_Decode now b = Inr (b, Inr (Some (RespV2 c')))"
    "plain_resp c' = plain_resp (c\<lparr>rs_Protocol := PROTOCOL_CODE_V1, rs_ResponseTimeMillis := now\<rparr>)" by auto
  note eq = plain_resp_eqD [OF c'(2)]
  have "headers_of (rs_HeaderMap c') kvs" using assms(3) eq(1) by (simp add: headers_of_def)
  from deserialize_response [OF this] assms(2,4) eq(5) c'(1) show ?thesis
    by (simp add: HandleCommand_def NewBoltCommandHandlerV2_def bolt_consts BoltResponseProcessorV2_Process_def
      deserializeResponseAllFieldsV2_def clean_maps_def)
qed

section \<open>Properties\<close>

text \<open>The commands of a byte stream, handled one after the other.\<close>

fun handle_all ::
  "'f DecodeFilter \<Rightarrow> smap option \<times> smap option \<Rightarrow> (nat \<Rightarrow> 64 word) \<Rightarrow> nat \<Rightarrow> bolt_cmd list \<Rightarrow>
     IDGenerator \<times> 'f \<Rightarrow> (IDGenerator \<times> 'f) outcome" where
  "handle_all flt pools clk k [] st = Inr st"
| "handle_all flt pools clk k (c # cs) st =
     obind (HandleCommand NewBoltCommandHandler flt pools (received (clk k) c) st)
       (\<lambda>(st', _). handle_all flt pools clk (k + 1) cs st')"

definition sendable :: "bolt_cmd \<Rightarrow> bool" where
  "sendable c \<longleftrightarrow> v1_cmd c \<and> headers_ok c \<and> NewBoltCommandHandler (GetCmdCode c) \<noteq> None"

text \<open>
  C8 (functional). A buffer that holds the frames of Bolt v1 commands one after the other,
  followed by the beginning of a further frame: the dispatch loop ends, hands the filter the
  callbacks of every command once and in order, and leaves exactly the unfinished frame in the
  buffer. No step panics.
\<close>

theorem protocols_Decode_in_order:
  assumes "list_all sendable cs" and "v1_cmd c" and "n < length (bolt_frame c)" and "clean_maps pools"
    and "iob_wf b" and "contents b = concat (map bolt_frame cs) @ take n (bolt_frame c)"
  shows "\<exists>b' st'. protocols_Decode flt pools clk k defaultProtocols b st = Some (Inr (b', st')) \<and>
    iob_wf b' \<and> contents b' = take n (bolt_frame c) \<and> handle_all flt pools clk k cs st = Inr st'"
  using assms
proof (induction cs arbitrary: b k st)
  case Nil
  have "protocols_Decode flt pools clk k defaultProtocols b st = Some (Inr (b, st))"
    using Nil.prems
    by (intro v1_frames.dispatch_waits [where now = "clk k" and c = c and pm = defaultProtocols, OF defaultProtocols_at(1)])
       (simp_all add: BoltV1_def)
  with Nil.prems show ?case by simp
next
  case (Cons a cs)
  from Cons.prems have a: "v1_cmd a" "headers_ok a" "NewBoltCommandHandler (GetCmdCode a) \<noteq> None"
    by (simp_all add: sendable_def)
  from HandleCommand_known [OF a(1,2) Cons.prems(4) a(3)] obtain st1 where
    st1: "HandleCommand NewBoltCommandHandler flt pools (received (clk k) a) st = Inr (st1, None)" by blast
  have handled: "HandleCommand (commandHandler BoltV1) flt pools c' st = Inr (st1, None)"
    if "plain_cmd c' = received (clk k) a" "tidy c'" for c'
    using HandleCommand_received [OF a(1,2) Cons.prems(4) that, of NewBoltCommandHandler flt st] st1 by (simp add: BoltV1_def)
  have "\<exists>b'. iob_wf b' \<and> contents b' = concat (map bolt_frame cs) @ take n (bolt_frame c) \<and>
    protocols_Decode flt pools clk k defaultProtocols b st = protocols_Decode flt pools clk (k + 1) defaultProtocols b' st1"
    using Cons.prems
    by (intro v1_frames.dispatch_frame [where now = "clk k" and c = a and pm = defaultProtocols, OF defaultProtocols_at(1)])
       (simp_all add: handled a, simp add: BoltV1_def)
  with Cons.IH [OF _ Cons.prems(2-4)] Cons.prems(1) st1 show ?case by fastforce
qed

definition log_filter :: "(string \<times> nat) list DecodeFilter" where
  "log_filter = \<lparr>OnDecodeHeader = (\<lambda>i h l. (l @ [(i, 0)], False)),
     OnDecodeData = (\<lambda>i d l. (l @ [(i, length (contents d))], False)),
     OnDecodeError = (\<lambda>e l. l)\<rparr>"

definition plain_sample :: bolt_cmd where
  "plain_sample = ReqV1 (sample_req\<lparr>rq_HeaderLen := 0, rq_HeaderMap := NilB\<rparr>)"

lemma plain_sample_sendable: "sendable plain_sample"
proof -
  have "headers_of NilB []" by (simp add: headers_of_def)
  then show ?thesis
    by (auto simp: sendable_def plain_sample_def sample_req_def req_ok_def lens_ok_def bolt_consts
      NewBoltCommandHandler_def)
qed

theorem protocols_Decode_in_order_witness:
  "\<exists>b' st'. protocols_Decode log_filter (None, None) (\<lambda>_. 0) 0 defaultProtocols
      (NewIoBufferBytes (concat (map bolt_frame [plain_sample, plain_sample]) @ take 5 (bolt_frame plain_sample)))
      (0, []) = Some (Inr (b', st')) \<and>
    iob_wf b' \<and> contents b' = take 5 (bolt_frame plain_sample) \<and>
    handle_all log_filter (None, None) (\<lambda>_. 0) 0 [plain_sample, plain_sample] (0, []) = Inr st'"
proof (rule protocols_Decode_in_order)
  show "list_all sendable [plain_sample, plain_sample]" by (simp add: plain_sample_sendable)
  show "v1_cmd plain_sample" using plain_sample_sendable by (simp add: sendable_def)
  show "5 < length (bolt_frame plain_sample)" by (simp add: plain_sample_def v1_req_chunks_def)
qed (simp_all add: clean_maps_def GetMap_def)

text \<open>
  A Bolt v2 response makes the dispatch loop run forever: the decoder delivers it
  without draining it, so every pass finds the same frame again and calls the filter again.
\<close>

lemma v2_response_never_ends:
  assumes "resp_ok c" and "rs_Protocol c = PROTOCOL_CODE_V2" and "rs_CmdCode c = RPC_RESPONSE"
    and "headers_of (rs_HeaderMap c) kvs" and "clean_maps pools"
    and "iob_wf b" and "contents b = bolt_frame (RespV2 c) @ r"
  shows "protocols_Decode flt pools clk k defaultProtocols b st = None"
proof -
  have "\<exists>x xs. contents b = PROTOCOL_CODE_V2 # x # xs"
    using assms(2,7) by (simp add: v2_resp_chunks_def)
  then have two: "Len b > 1" "obind (BytesSlice b) (\<lambda>s. obind (byte_at s 0) (\<lambda>c. obind (byte_at s 1) (\<lambda>v. Inr c))) =
      Inr PROTOCOL_CODE_V2"
    using first_two_bytes [OF assms(6)] by blast+
  note pass = v2_resp_pass [OF assms(1,3-7), where flt = flt]
  let ?P = "\<lambda>f ps clk k pm data st y. \<not> (f = flt \<and> ps = pools \<and> pm = defaultProtocols \<and> data = b)"
  have "?P flt pools clk k defaultProtocols b st y"
    if "protocols_Decode flt pools clk k defaultProtocols b st = Some y" for y
  proof (rule protocols_Decode.raw_induct [where P = ?P, OF _ that], goal_cases)
    case (1 rec f ps clk k pm data st y)
    from pass [of "clk k" st] obtain c' st' where c': "v2_Decode (clk k) b = Inr (b, Inr (Some c'))"
      "HandleCommand NewBoltCommandHandlerV2 flt pools c' st = Inr (st', None)" by blast
    show ?case
    proof (intro notI, elim conjE)
      assume eq: "f = flt" "ps = pools" "pm = defaultProtocols" "data = b"
      with 1(2) have "rec flt pools clk (k + 1) defaultProtocols b st' = Some y"
        by (simp add: two [simplified] defaultProtocols_at BoltV2_def c')
      from 1(1) [OF this] show False by simp
    qed
  qed
  then show ?thesis by (metis not_Some_eq)
qed

definition sample_resp2 :: BoltV2ResponseCommand where
  "sample_resp2 = \<lparr>rs_Protocol = 2, rs_CmdType = 0, rs_CmdCode = 2, rs_Version = 1, rs_ReqID = 7,
     rs_CodecPro = 1, rs_ResponseStatus = 0, rs_ClassLen = 0, rs_HeaderLen = 0, rs_ContentLen = 1,
     rs_ClassName = NilB, rs_HeaderMap = NilB, rs_Content = B [4] [],
     rs_ResponseTimeMillis = 0, rs_ResponseHeader = None, rs_Version1 = 1, rs_SwitchCode = 0\<rparr>"

end
