(* ===== verification/Load_Balancer.thy ===== *)
theory Load_Balancer
  imports Mosn_Prelude
begin

text \<open>
  Host selection: \<open>pkg/upstream/cluster/loadbalancer.go\<close>. A priority set is the list of the
  healthy hosts of its host sets, in priority order; a host is any value. The numbers drawn
  by \<open>rand.Intn\<close> are arguments of the random balancer.
\<close>

section \<open>Random\<close>

definition Intn :: "nat \<Rightarrow> nat \<Rightarrow> nat outcome" where
  "Intn draw n = (if n = 0 then Inl (ExplicitPanic ''invalid argument to Intn'') else Inr (draw mod n))"

definition random_ChooseHost :: "'h list list \<Rightarrow> nat \<times> nat \<Rightarrow> 'h option outcome" where
  "random_ChooseHost hostSets draws =
     obind (Intn (fst draws) (length hostSets)) (\<lambda>idx.
     obind (go_index hostSets (int idx)) (\<lambda>hosts.
       if length hosts = 0 then Inr None
       else obind (Intn (snd draws) (length hosts)) (\<lambda>hostIdx.
            obind (go_index hosts (int hostIdx)) (\<lambda>h. Inr (Some h)))))"

section \<open>Round robin\<close>

record roundRobinLoadBalancer =
  rrIndexPriority :: "32 word"
  rrIndex :: "32 word"

definition newRoundRobinLoadBalancer :: roundRobinLoadBalancer where
  "newRoundRobinLoadBalancer = \<lparr>rrIndexPriority = 0, rrIndex = 0\<rparr>"

definition go_mod :: "32 word \<Rightarrow> 32 word \<Rightarrow> 32 word outcome" where
  "go_mod a b = (if b = 0 then Inl IntegerDivideByZero else Inr (a mod b))"

definition rr_select ::
  "'h list \<Rightarrow> roundRobinLoadBalancer \<Rightarrow> (roundRobinLoadBalancer \<times> 'h option) outcome" where
  "rr_select selectedHostSet l =
     (if length selectedHostSet = 0 then Inr (l, None)
      else obind (go_mod (rrIndex l) (word_of_nat (length selectedHostSet))) (\<lambda>i.
           obind (go_index selectedHostSet (int (unat i))) (\<lambda>h.
             Inr (l\<lparr>rrIndex := rrIndex l + 1\<rparr>, Some h))))"

definition roundRobin_ChooseHost ::
  "'h list list \<Rightarrow> roundRobinLoadBalancer \<Rightarrow> (roundRobinLoadBalancer \<times> 'h option) outcome" where
  "roundRobin_ChooseHost hostSets l =
     (let hostSetsNum = word_of_nat (length hostSets) in
      obind (go_mod (rrIndexPriority l) hostSetsNum) (\<lambda>p.
      obind (go_index hostSets (int (unat p))) (\<lambda>curHostSet.
        if rrIndex l \<ge> word_of_nat (length curHostSet) then
          obind (go_mod (rrIndexPriority l + 1) hostSetsNum) (\<lambda>p'.
          obind (go_index hostSets (int (unat p'))) (\<lambda>selectedHostSet.
            rr_select selectedHostSet (l\<lparr>rrIndexPriority := p', rrIndex := 0\<rparr>)))
        else rr_select curHostSet l)))"

section \<open>Choosing by type\<close>

datatype LoadBalancerType = RoundRobin | Random

datatype LoadBalancer = RoundRobinLB roundRobinLoadBalancer | RandomLB

definition NewLoadBalancer :: "LoadBalancerType \<Rightarrow> LoadBalancer" where
  "NewLoadBalancer lbType =
     (case lbType of RoundRobin \<Rightarrow> RoundRobinLB newRoundRobinLoadBalancer | Random \<Rightarrow> RandomLB)"

fun ChooseHost :: "'h list list \<Rightarrow> nat \<times> nat \<Rightarrow> LoadBalancer \<Rightarrow> (LoadBalancer \<times> 'h option) outcome" where
  "ChooseHost hostSets draws (RoundRobinLB l) =
     obind (roundRobin_ChooseHost hostSets l) (\<lambda>(l', h). Inr (RoundRobinLB l', h))"
| "ChooseHost hostSets draws RandomLB =
     obind (random_ChooseHost hostSets draws) (\<lambda>h. Inr (RandomLB, h))"

section \<open>What every balancer promises\<close>

lemma go_index_mem: "go_index xs i = Inr x \<Longrightarrow> x \<in> set xs"
  by (auto simp: go_index_def split: if_splits)

lemma rr_select_mem: "rr_select hs l = Inr (l', Some h) \<Longrightarrow> h \<in> set hs"
  by (auto simp: rr_select_def go_outcome dest: go_index_mem split: if_splits)

lemma roundRobin_mem:
  "roundRobin_ChooseHost hostSets l = Inr (l', Some h) \<Longrightarrow> h \<in> \<Union> (set (map set hostSets))"
  by (auto simp: roundRobin_ChooseHost_def Let_def go_outcome split: if_splits
      dest!: go_index_mem rr_select_mem)

lemma random_mem:
  "random_ChooseHost hostSets draws = Inr (Some h) \<Longrightarrow> h \<in> \<Union> (set (map set hostSets))"
  by (auto simp: random_ChooseHost_def go_outcome split: if_splits dest!: go_index_mem)

text \<open>
  The contract the cluster manager relies on: a chosen host is one of the hosts offered, and
  a choice is always made when every host set offers one.
\<close>

locale host_chooser =
  fixes pick :: "'h list list \<Rightarrow> nat \<times> nat \<Rightarrow> 's \<Rightarrow> ('s \<times> 'h option) outcome"
    and usable :: "'h list list \<Rightarrow> bool"
  assumes chosen: "pick hss draws s = Inr (s', Some h) \<Longrightarrow> h \<in> \<Union> (set (map set hss))"
    and available: "usable hss \<Longrightarrow> \<exists>s' h. pick hss draws s = Inr (s', Some h)"
begin

lemma chosen_satisfies:
  assumes "pick hss draws s = Inr (s', Some h)" and "list_all (list_all P) hss"
  shows "P h"
  using chosen [OF assms(1)] assms(2) by (auto simp: list_all_iff)

end

definition small_sets :: "'h list list \<Rightarrow> bool" where
  "small_sets hss \<longleftrightarrow> hss \<noteq> [] \<and> length hss < 2 ^ 32 \<and> list_all (\<lambda>hs. hs \<noteq> [] \<and> length hs < 2 ^ 32) hss"

lemma unat_mod_of_nat:
  fixes a :: "32 word"
  assumes "0 < n" and "n < 2 ^ 32"
  shows "word_of_nat n \<noteq> (0 :: 32 word)" and "unat (a mod word_of_nat n) = unat a mod n"
proof -
  have u: "unat (word_of_nat n :: 32 word) = n" using assms(2) by (simp add: unsigned_of_nat take_bit_nat_eq_self)
  show "word_of_nat n \<noteq> (0 :: 32 word)" using u assms(1) by auto
  show "unat (a mod word_of_nat n) = unat a mod n" by (simp add: unat_mod u)
qed

lemma go_index_mod:
  fixes a :: "32 word"
  assumes "xs \<noteq> []" and "length xs < 2 ^ 32"
  shows "go_mod a (word_of_nat (length xs)) = Inr (a mod word_of_nat (length xs))"
    and "go_index xs (uint (a mod word_of_nat (length xs))) = Inr (xs ! (unat a mod length xs))"
proof -
  have n: "0 < length xs" using assms(1) by simp
  note w = unat_mod_of_nat [OF n assms(2)]
  show "go_mod a (word_of_nat (length xs)) = Inr (a mod word_of_nat (length xs))"
    by (simp add: go_mod_def w(1))
  have "uint (a mod word_of_nat (length xs)) = int (unat a mod length xs)"
    by (simp only: uint_nat w(2))
  then show "go_index xs (uint (a mod word_of_nat (length xs))) = Inr (xs ! (unat a mod length xs))"
    using n by (simp only:) simp
qed

lemma rr_select_some:
  assumes "hs \<noteq> []" and "length hs < 2 ^ 32"
  shows "rr_select hs l = Inr (l\<lparr>rrIndex := rrIndex l + 1\<rparr>, Some (hs ! (unat (rrIndex l) mod length hs)))"
  using assms by (simp add: rr_select_def go_index_mod)

lemma of_nat_le_word:
  fixes a :: "32 word"
  assumes "k < 2 ^ 32"
  shows "word_of_nat k \<le> a \<longleftrightarrow> k \<le> unat a"
  using assms by (simp add: word_le_nat_alt unsigned_of_nat take_bit_nat_eq_self)

lemma roundRobin_some:
  assumes "small_sets hss"
  shows "roundRobin_ChooseHost hss l =
    (let p = unat (rrIndexPriority l) mod length hss; p' = unat (rrIndexPriority l + 1) mod length hss in
     if unat (rrIndex l) \<ge> length (hss ! p)
     then Inr (l\<lparr>rrIndexPriority := word_of_nat p', rrIndex := 1\<rparr>, Some (hd (hss ! p')))
     else Inr (l\<lparr>rrIndex := rrIndex l + 1\<rparr>, Some ((hss ! p) ! unat (rrIndex l))))"
proof -
  have n: "hss \<noteq> []" "length hss < 2 ^ 32" using assms by (simp_all add: small_sets_def)
  have hs: "hss ! (i mod length hss) \<noteq> []" "length (hss ! (i mod length hss)) < 2 ^ 32" for i
    using assms n(1) by (auto simp: small_sets_def list_all_length)
  have p': "(word_of_nat (unat a mod length hss) :: 32 word) = a mod word_of_nat (length hss)" for a :: "32 word"
    using n by (subst unat_mod_of_nat(2) [symmetric]) simp_all
  show ?thesis using n hs
    by (simp add: roundRobin_ChooseHost_def Let_def go_index_mod rr_select_some of_nat_le_word p' hd_conv_nth)
qed

section \<open>Round robin visits all hosts in turn\<close>

definition rr_inv :: "'h list list \<Rightarrow> roundRobinLoadBalancer \<Rightarrow> bool" where
  "rr_inv hss l \<longleftrightarrow> unat (rrIndexPriority l) < length hss \<and>
     unat (rrIndex l) \<le> length (hss ! unat (rrIndexPriority l))"

definition rr_pos :: "'h list list \<Rightarrow> roundRobinLoadBalancer \<Rightarrow> nat" where
  "rr_pos hss l = length (concat (take (unat (rrIndexPriority l)) hss)) + unat (rrIndex l)"

lemma concat_split:
  assumes "p < length hss"
  shows "concat hss = concat (take p hss) @ hss ! p @ concat (drop (Suc p) hss)"
  using id_take_nth_drop [OF assms] by (metis concat.simps(2) concat_append)

lemma concat_at:
  assumes "p < length hss" and "i < length (hss ! p)"
  shows "length (concat (take p hss)) + i < length (concat hss)"
    and "concat hss ! (length (concat (take p hss)) + i) = hss ! p ! i"
  using concat_split [OF assms(1)] assms(2) by (simp_all add: nth_append)

lemma unat_Suc:
  fixes a :: "32 word"
  assumes "unat a < m" and "m < 2 ^ 32"
  shows "unat (a + 1) = Suc (unat a)"
  using assms by (simp add: unat_word_ariths)

lemma rr_step:
  assumes "small_sets hss" and "rr_inv hss l"
  shows "\<exists>l'. roundRobin_ChooseHost hss l = Inr (l', Some (concat hss ! (rr_pos hss l mod length (concat hss)))) \<and>
    rr_inv hss l' \<and> rr_pos hss l' = rr_pos hss l mod length (concat hss) + 1"
proof -
  let ?p = "unat (rrIndexPriority l)" and ?i = "unat (rrIndex l)"
  have n: "?p < length hss" "?i \<le> length (hss ! ?p)" "length hss < 2 ^ 32"
    using assms by (simp_all add: rr_inv_def small_sets_def)
  have ne: "hss ! q \<noteq> []" "length (hss ! q) < 2 ^ 32" if "q < length hss" for q
    using assms(1) that by (auto simp: small_sets_def list_all_length)
  have Sp: "unat (rrIndexPriority l + 1) = Suc ?p" by (rule unat_Suc [OF n(1,3)])
  show ?thesis
  proof (cases "?i < length (hss ! ?p)")
    case True
    have "unat (rrIndex l + 1) = Suc ?i" by (rule unat_Suc [OF True ne(2) [OF n(1)]])
    then show ?thesis using True n concat_at [OF n(1) True]
      by (simp add: roundRobin_some [OF assms(1)] rr_pos_def rr_inv_def)
  next
    case False
    then have pos: "rr_pos hss l = length (concat (take (Suc ?p) hss))"
      using n by (simp add: rr_pos_def take_Suc_conv_app_nth)
    let ?q = "Suc ?p mod length hss"
    have q: "?q < length hss" by (rule mod_less_divisor) (use n(1) in linarith)
    have qw: "unat (word_of_nat ?q :: 32 word) = ?q"
      using q n(3) by (simp add: unsigned_of_nat take_bit_nat_eq_self)
    have posq: "rr_pos hss l mod length (concat hss) = length (concat (take ?q hss))"
    proof (cases "Suc ?p < length hss")
      case True
      with concat_at(1) [OF True, of 0] ne(1) [OF True] pos show ?thesis by simp
    next
      case False
      with n(1) have "Suc ?p = length hss" by simp
      with pos show ?thesis by simp
    qed
    have "hd (hss ! ?q) = hss ! ?q ! 0" "0 < length (hss ! ?q)" using ne(1) [OF q] by (simp_all add: hd_conv_nth)
    then show ?thesis unfolding posq using False n q concat_at [OF q, of 0]
      by (simp add: roundRobin_some [OF assms(1)] Sp Let_def rr_inv_def rr_pos_def qw Suc_le_eq)
  qed
qed

fun rr_run :: "'h list list \<Rightarrow> nat \<Rightarrow> roundRobinLoadBalancer \<Rightarrow> (roundRobinLoadBalancer \<times> 'h option list) outcome" where
  "rr_run hss 0 l = Inr (l, [])"
| "rr_run hss (Suc k) l = obind (roundRobin_ChooseHost hss l) (\<lambda>(l', h).
     obind (rr_run hss k l') (\<lambda>(l'', hs). Inr (l'', h # hs)))"

lemma rr_run_from:
  "small_sets hss \<Longrightarrow> rr_inv hss l \<Longrightarrow>
   \<exists>l'. rr_run hss k l =
     Inr (l', map (\<lambda>i. Some (concat hss ! ((rr_pos hss l + i) mod length (concat hss)))) [0..<k])"
proof (induction k arbitrary: l)
  case 0
  then show ?case by simp
next
  case (Suc k)
  from rr_step [OF Suc.prems] obtain l1 where
    l1: "roundRobin_ChooseHost hss l = Inr (l1, Some (concat hss ! (rr_pos hss l mod length (concat hss))))"
    "rr_inv hss l1" "rr_pos hss l1 = rr_pos hss l mod length (concat hss) + 1" by blast
  from Suc.IH [OF Suc.prems(1) l1(2)] obtain l2 where
    "rr_run hss k l1 = Inr (l2, map (\<lambda>i. Some (concat hss ! ((rr_pos hss l1 + i) mod length (concat hss)))) [0..<k])"
    by blast
  moreover have "(rr_pos hss l1 + i) mod length (concat hss) = (rr_pos hss l + Suc i) mod length (concat hss)" for i
    unfolding l1(3) by (metis add.assoc mod_add_left_eq plus_1_eq_Suc)
  ultimately show ?case using l1(1)
    by (simp add: upt_conv_Cons map_Suc_upt [symmetric] comp_def del: upt_Suc)
qed

lemma rr_inv_new: "small_sets hss \<Longrightarrow> rr_inv hss newRoundRobinLoadBalancer"
  by (simp add: rr_inv_def newRoundRobinLoadBalancer_def small_sets_def)

interpretation lb_choice: host_chooser ChooseHost
  "\<lambda>hss :: 'h list list. small_sets hss"
proof
  fix hss :: "'h list list" and draws s s' h
  assume "ChooseHost hss draws s = Inr (s', Some h)"
  then show "h \<in> \<Union> (set (map set hss))"
    by (cases s) (auto simp: go_outcome simp del: set_map dest!: roundRobin_mem random_mem)
next
  fix hss :: "'h list list" and draws s
  assume "small_sets hss"
  then show "\<exists>s' h. ChooseHost hss draws s = Inr (s', Some h)"
    by (cases s) (auto simp: roundRobin_some Let_def random_ChooseHost_def Intn_def small_sets_def list_all_length)
qed

section \<open>Properties\<close>

text \<open>
  C25 (functional). Round robin over host sets that all have healthy hosts: a new balancer
  never fails, and its choices go through the hosts of all sets in order, over and over. In
  particular, in every run of as many calls as there are hosts each host is chosen once.
\<close>

theorem round_robin_cycles:
  assumes "small_sets hss"
  shows "\<exists>l. rr_run hss k newRoundRobinLoadBalancer =
    Inr (l, map (\<lambda>i. Some (concat hss ! (i mod length (concat hss)))) [0..<k])"
  using rr_run_from [OF assms rr_inv_new [OF assms], of k]
  by (simp add: rr_pos_def newRoundRobinLoadBalancer_def)

theorem round_robin_cycles_witness:
  "\<exists>l. rr_run [[''a'', ''b''], [''c'']] 4 newRoundRobinLoadBalancer =
    Inr (l, [Some ''a'', Some ''b'', Some ''c'', Some ''a''])"
  using round_robin_cycles [of "[[''a'', ''b''], [''c'']]" 4] by (simp add: small_sets_def upt_conv_Cons)

text \<open>
  Whatever the balancer and its state, a chosen host is one of the healthy hosts
  of the priority set, so any property all of them have holds of it.
\<close>

lemma chosen_host_is_healthy:
  assumes "ChooseHost hss draws lb = Inr (lb', Some h)" and "list_all (list_all healthy) hss"
  shows "healthy h"
  using assms by (rule lb_choice.chosen_satisfies)

end
