(* ===== verification/Cluster.thy ===== *)
theory Cluster
  imports Load_Balancer
begin

text \<open>
  Hosts, host sets and clusters: \<open>host.go\<close>, \<open>cluster.go\<close> and \<open>concreteclusters.go\<close> of
  \<open>pkg/upstream/cluster\<close>. Hosts are pointers into a store. Host slices are kept with the
  array behind them, because \<open>append(s[:i], s[i+1:]...)\<close> moves elements inside an array that
  other slices share. All slices of these files start at the first element of their array.
  The health checker and the update callbacks are traces of the notifications they get.
\<close>

section \<open>Hosts\<close>

type_synonym hid = nat

record host =
  hostname :: string
  addressString :: string
  weight :: "32 word"
  used :: bool
  healthFlags :: "64 word"

type_synonym store = "hid \<Rightarrow> host"

record host_config =
  hc_Address :: string
  hc_Hostname :: string
  hc_Weight :: "32 word"

definition NewHost :: "host_config \<Rightarrow> host" where
  "NewHost config = \<lparr>hostname = hc_Hostname config, addressString = hc_Address config,
     weight = hc_Weight config, used = False, healthFlags = 0\<rparr>"

definition FAILED_ACTIVE_HC :: "64 word" where "FAILED_ACTIVE_HC = 1"
definition FAILED_OUTLIER_CHECK :: "64 word" where "FAILED_OUTLIER_CHECK = 2"

definition ClearHealthFlag :: "64 word \<Rightarrow> host \<Rightarrow> host" where
  "ClearHealthFlag flag h = h\<lparr>healthFlags := and (healthFlags h) (not flag)\<rparr>"

definition ContainHealthFlag :: "64 word \<Rightarrow> host \<Rightarrow> bool" where
  "ContainHealthFlag flag h \<longleftrightarrow> and (healthFlags h) flag > 0"

definition SetHealthFlag :: "64 word \<Rightarrow> host \<Rightarrow> host" where
  "SetHealthFlag flag h = h\<lparr>healthFlags := or (healthFlags h) flag\<rparr>"

definition Health :: "host \<Rightarrow> bool" where
  "Health h \<longleftrightarrow> healthFlags h = 0"

definition SetWeight :: "32 word \<Rightarrow> host \<Rightarrow> host" where
  "SetWeight w h = h\<lparr>weight := w\<rparr>"

definition SetUsed :: "bool \<Rightarrow> host \<Rightarrow> host" where
  "SetUsed u h = h\<lparr>used := u\<rparr>"

section \<open>Slices of hosts\<close>

datatype hslice = NilH | Sl nat nat

record world =
  store :: store
  next_host :: hid
  arrays :: "nat \<Rightarrow> hid list"
  next_array :: nat
  growth :: "nat \<Rightarrow> nat"

fun slen :: "hslice \<Rightarrow> nat" where
  "slen NilH = 0"
| "slen (Sl a n) = n"

fun vals :: "world \<Rightarrow> hslice \<Rightarrow> hid list" where
  "vals w NilH = []"
| "vals w (Sl a n) = take n (arrays w a)"

text \<open>A new array for the given elements; \<open>growth\<close> is the capacity the runtime chooses.\<close>

definition alloc :: "hid list \<Rightarrow> world \<Rightarrow> world \<times> hslice" where
  "alloc xs w =
     (if xs = [] then (w, NilH)
      else (w\<lparr>arrays := (arrays w)(next_array w := xs @ replicate (growth w (length xs) - length xs) 0),
               next_array := next_array w + 1\<rparr>,
            Sl (next_array w) (length xs)))"

text \<open>\<open>append(s, x)\<close>: in place when the capacity allows, else into a new array.\<close>

fun append_host :: "hslice \<Rightarrow> hid \<Rightarrow> world \<Rightarrow> world \<times> hslice" where
  "append_host NilH x w = alloc [x] w"
| "append_host (Sl a n) x w =
     (if n < length (arrays w a)
      then (w\<lparr>arrays := (arrays w)(a := (arrays w a)[n := x])\<rparr>, Sl a (n + 1))
      else alloc (vals w (Sl a n) @ [x]) w)"

text \<open>\<open>append(s[:i], s[i+1:]...)\<close>: always in place.\<close>

fun delete_at :: "hslice \<Rightarrow> nat \<Rightarrow> world \<Rightarrow> world \<times> hslice" where
  "delete_at NilH i w = (w, NilH)"
| "delete_at (Sl a n) i w =
     (let v = take n (arrays w a) in
      (w\<lparr>arrays := (arrays w)(a := take i v @ drop (i + 1) v @ drop (n - 1) (arrays w a))\<rparr>, Sl a (n - 1)))"

definition addr :: "world \<Rightarrow> hid \<Rightarrow> string" where
  "addr w h = addressString (store w h)"

definition put_host :: "hid \<Rightarrow> host \<Rightarrow> world \<Rightarrow> world" where
  "put_host h x w = w\<lparr>store := (store w)(h := x)\<rparr>"

definition new_host :: "host_config \<Rightarrow> world \<Rightarrow> world \<times> hid" where
  "new_host config w =
     ((put_host (next_host w) (NewHost config) w)\<lparr>next_host := next_host w + 1\<rparr>, next_host w)"

section \<open>Host sets\<close>

record hostSet =
  priority :: "32 word"
  hosts :: hslice
  healthyHosts :: hslice
  hostsPerLocality :: "hslice list option"
  healthyHostsPerLocality :: "hslice list option"

type_synonym update = "32 word \<times> hid list \<times> hid list"

definition hostSet_UpdateHosts ::
  "hslice \<Rightarrow> hslice \<Rightarrow> hslice list option \<Rightarrow> hslice list option \<Rightarrow> hid list \<Rightarrow> hid list \<Rightarrow> hostSet \<Rightarrow>
     hostSet \<times> update" where
  "hostSet_UpdateHosts hs hhs hpl hhpl hostsAdded hostsRemoved s =
     (s\<lparr>hosts := hs, healthyHosts := hhs, hostsPerLocality := hpl, healthyHostsPerLocality := hhpl\<rparr>,
      (priority s, hostsAdded, hostsRemoved))"

definition createHostSet :: "32 word \<Rightarrow> hostSet" where
  "createHostSet p = \<lparr>priority = p, hosts = NilH, healthyHosts = NilH, hostsPerLocality = None,
     healthyHostsPerLocality = None\<rparr>"

text \<open>The index of a host set is its priority; missing ones are created.\<close>

definition GetOrCreateHostSet :: "32 word \<Rightarrow> hostSet list \<Rightarrow> (hostSet list \<times> hostSet) outcome" where
  "GetOrCreateHostSet p hss =
     (let hss' = (if word_of_nat (length hss) < p + 1
                  then hss @ map (\<lambda>i. createHostSet (word_of_nat i)) [length hss..<Suc (unat p)] else hss)
      in obind (go_index hss' (int (unat p))) (\<lambda>s. Inr (hss', s)))"

definition getHealthHost :: "world \<Rightarrow> hid list \<Rightarrow> hid list" where
  "getHealthHost w hs = filter (\<lambda>h. Health (store w h)) hs"

text \<open>Localities without a healthy host leave no gap; the unused entries at the end are nil.\<close>

fun health_localities :: "world \<Rightarrow> hid list list \<Rightarrow> hid list list" where
  "health_localities w [] = []"
| "health_localities w (hs # rest) =
     (let g = getHealthHost w hs; r = health_localities w rest in if g = [] then r else g # r)"

definition getHealthHostsPerLocality :: "world \<Rightarrow> hid list list \<Rightarrow> hid list list" where
  "getHealthHostsPerLocality w hhpl =
     (let g = health_localities w hhpl in g @ replicate (length hhpl - length g) [])"

section \<open>Health changes\<close>

fun find_index :: "('a \<Rightarrow> bool) \<Rightarrow> 'a list \<Rightarrow> nat option" where
  "find_index P [] = None"
| "find_index P (x # xs) = (if P x then Some 0 else map_option Suc (find_index P xs))"

definition holds_host :: "world \<Rightarrow> hid \<Rightarrow> hostSet \<Rightarrow> bool" where
  "holds_host w h s = list_ex (\<lambda>x. addr w x = addr w h) (vals w (hosts s))"

definition add_to_set :: "hid \<Rightarrow> hostSet \<Rightarrow> world \<Rightarrow> (world \<times> hostSet \<times> update) outcome" where
  "add_to_set h s w =
     (let (w, newHealthHost) = append_host (healthyHosts s) h w;
          hpl = (case healthyHostsPerLocality s of None \<Rightarrow> [] | Some l \<Rightarrow> l)
      in obind (go_index hpl (int (length hpl) - 1)) (\<lambda>l.
           let (w, l') = append_host l h w
           in Inr (w, hostSet_UpdateHosts (hosts s) newHealthHost (hostsPerLocality s)
                (Some (hpl[length hpl - 1 := l'])) [] [] s)))"

fun addHealthyHost :: "hid \<Rightarrow> hostSet list \<Rightarrow> world \<Rightarrow> (world \<times> hostSet list \<times> update list) outcome" where
  "addHealthyHost h [] w = Inr (w, [], [])"
| "addHealthyHost h (s # ss) w =
     (if holds_host w h s
      then obind (add_to_set h s w) (\<lambda>(w, s', u). Inr (w, s' # ss, [u]))
      else obind (addHealthyHost h ss w) (\<lambda>(w, ss', us). Inr (w, s # ss', us)))"

definition delete_named :: "string \<Rightarrow> hslice \<Rightarrow> world \<Rightarrow> world \<times> hslice" where
  "delete_named name s w =
     (case find_index (\<lambda>h. name = hostname (store w h)) (vals w s) of
        Some i \<Rightarrow> delete_at s i w
      | None \<Rightarrow> (w, s))"

fun delete_localities :: "string \<Rightarrow> hslice list \<Rightarrow> world \<Rightarrow> world \<times> hslice list" where
  "delete_localities name [] w = (w, [])"
| "delete_localities name (l # ls) w =
     (let (w, l') = delete_named name l w; (w, ls') = delete_localities name ls w in (w, l' # ls'))"

definition del_from_set :: "hid \<Rightarrow> hostSet \<Rightarrow> world \<Rightarrow> world \<times> hostSet \<times> update" where
  "del_from_set h s w =
     (let name = hostname (store w h);
          (w, newHealthHost) = delete_named name (healthyHosts s) w
      in case healthyHostsPerLocality s of
           None \<Rightarrow> (w, hostSet_UpdateHosts (hosts s) newHealthHost (hostsPerLocality s) None [] [] s)
         | Some ls \<Rightarrow>
             (let (w, ls') = delete_localities name ls w
              in (w, hostSet_UpdateHosts (hosts s) newHealthHost (hostsPerLocality s) (Some ls') [] [] s)))"

fun delHealthHost :: "hid \<Rightarrow> hostSet list \<Rightarrow> world \<Rightarrow> world \<times> hostSet list \<times> update list" where
  "delHealthHost h [] w = (w, [], [])"
| "delHealthHost h (s # ss) w =
     (if holds_host w h s
      then (let (w, s', u) = del_from_set h s w in (w, s' # ss, [u]))
      else (let (w, ss', us) = delHealthHost h ss w in (w, s # ss', us)))"

section \<open>The list of hosts of a cluster\<close>

text \<open>The current hosts with the address of a new host, and those without.\<close>

fun match_loop :: "hid \<Rightarrow> hid list \<Rightarrow> world \<Rightarrow> world \<times> hid list \<times> hid list" where
  "match_loop nh [] w = (w, [], [])"
| "match_loop nh (c # cs) w =
     (if addr w nh = addr w c
      then (let (w', m, r) = match_loop nh cs (put_host c (SetWeight (weight (store w nh)) (store w c)) w)
            in (w', c # m, r))
      else (let (w', m, r) = match_loop nh cs w in (w', m, c # r)))"

fun new_hosts_loop ::
  "string list \<Rightarrow> hid list \<Rightarrow> hid list \<Rightarrow> world \<Rightarrow> world \<times> hid list \<times> hid list \<times> hid list" where
  "new_hosts_loop hostAddrs [] currentHosts w = (w, [], [], currentHosts)"
| "new_hosts_loop hostAddrs (nh # nhs) currentHosts w =
     (if addr w nh \<in> set hostAddrs then new_hosts_loop hostAddrs nhs currentHosts w
      else (let (w1, m, rest) = match_loop nh currentHosts w;
                (w2, final, added, left) = new_hosts_loop (addr w nh # hostAddrs) nhs rest w1
            in if m = [] then (w2, nh # final, nh # added, left) else (w2, m @ final, added, left)))"

definition updateDynamicHostList ::
  "hid list \<Rightarrow> hid list \<Rightarrow> world \<Rightarrow> world \<times> bool \<times> hid list \<times> hid list \<times> hid list" where
  "updateDynamicHostList newHosts currentHosts w =
     (let (w, finalHosts, hostsAdded, hostsRemoved) = new_hosts_loop [] newHosts currentHosts w
      in (w, hostsAdded \<noteq> [] \<or> hostsRemoved \<noteq> [], finalHosts, hostsAdded, hostsRemoved))"

section \<open>Clusters\<close>

record simpleInMemCluster =
  hostSets :: "hostSet list"
  sc_hosts :: hslice
  has_checker :: bool
  lb :: LoadBalancer
  updates :: "update list"
  checked :: "(hid list \<times> hid list) list"

record cluster_config =
  cc_Name :: string
  cc_ClusterType :: string
  cc_LbType :: string
  cc_HealthCheckProtocol :: string

text \<open>Any other load balancer type than the two known ones is served by the random one.\<close>

definition cluster_lbType :: "string \<Rightarrow> LoadBalancerType" where
  "cluster_lbType t = (if t = ''LB_ROUNDROBIN'' then RoundRobin else Random)"

definition newSimpleInMemCluster :: "cluster_config \<Rightarrow> simpleInMemCluster" where
  "newSimpleInMemCluster config =
     \<lparr>hostSets = [createHostSet 0], sc_hosts = NilH, has_checker = False,
      lb = NewLoadBalancer (cluster_lbType (cc_LbType config)), updates = [], checked = []\<rparr>"

text \<open>The health check factory knows two protocols; for any other it returns nil, on which
  \<open>SetHealthChecker\<close> calls a method.\<close>

definition factory_New :: "string \<Rightarrow> unit option" where
  "factory_New protocol = (if protocol = ''SofaRpc'' \<or> protocol = ''Http2'' then Some () else None)"

definition SetHealthChecker :: "unit option \<Rightarrow> simpleInMemCluster \<Rightarrow> simpleInMemCluster outcome" where
  "SetHealthChecker hc c = (case hc of None \<Rightarrow> Inl NilDereference | Some _ \<Rightarrow> Inr (c\<lparr>has_checker := True\<rparr>))"

definition NewCluster :: "cluster_config \<Rightarrow> simpleInMemCluster option outcome" where
  "NewCluster config =
     (if cc_ClusterType config \<in> {''SIMPLE'', ''DYNAMIC'', ''EDS''} then
        (let c = newSimpleInMemCluster config in
         if cc_HealthCheckProtocol config \<noteq> '''' then
           obind (SetHealthChecker (factory_New (cc_HealthCheckProtocol config)) c) (\<lambda>c'. Inr (Some c'))
         else Inr (Some c))
      else Inr None)"

lemma NewCluster_SomeD:
  "NewCluster config = Inr (Some c) \<Longrightarrow> \<exists>hc. c = (newSimpleInMemCluster config)\<lparr>has_checker := hc\<rparr>"
  by (auto simp: NewCluster_def SetHealthChecker_def newSimpleInMemCluster_def go_outcome Let_def
      split: if_splits option.splits)

definition refreshHealthHosts :: "hid \<Rightarrow> simpleInMemCluster \<Rightarrow> world \<Rightarrow> (world \<times> simpleInMemCluster) outcome" where
  "refreshHealthHosts h c w =
     (if Health (store w h)
      then obind (addHealthyHost h (hostSets c) w) (\<lambda>(w, ss, us).
             Inr (w, c\<lparr>hostSets := ss, updates := updates c @ us\<rparr>))
      else (let (w, ss, us) = delHealthHost h (hostSets c) w
            in Inr (w, c\<lparr>hostSets := ss, updates := updates c @ us\<rparr>)))"

text \<open>The healthy hosts of every set and locality, computed anew from the flags.\<close>

fun alloc_all :: "hid list list \<Rightarrow> world \<Rightarrow> world \<times> hslice list" where
  "alloc_all [] w = (w, [])"
| "alloc_all (xs # xss) w = (let (w, s) = alloc xs w; (w, ss) = alloc_all xss w in (w, s # ss))"

definition refresh_set :: "hostSet \<Rightarrow> world \<Rightarrow> world \<times> hostSet \<times> update" where
  "refresh_set s w =
     (let hpl = (case hostsPerLocality s of None \<Rightarrow> [] | Some ls \<Rightarrow> ls);
          (w1, healthyHost) = alloc (getHealthHost w (vals w (hosts s))) w;
          (w2, healthyHostPerLocality) = alloc_all (getHealthHostsPerLocality w (map (vals w) hpl)) w1
      in (w2, hostSet_UpdateHosts (hosts s) healthyHost (hostsPerLocality s) (Some healthyHostPerLocality) [] [] s))"

fun refresh_all :: "hostSet list \<Rightarrow> world \<Rightarrow> world \<times> hostSet list \<times> update list" where
  "refresh_all [] w = (w, [], [])"
| "refresh_all (s # ss) w =
     (let (w, s', u) = refresh_set s w; (w, ss', us) = refresh_all ss w in (w, s' # ss', u # us))"

definition refreshHealthHostsGlobal :: "simpleInMemCluster \<Rightarrow> world \<Rightarrow> world \<times> simpleInMemCluster" where
  "refreshHealthHostsGlobal c w =
     (let (w, ss, us) = refresh_all (hostSets c) w in (w, c\<lparr>hostSets := ss, updates := updates c @ us\<rparr>))"

definition cluster_UpdateHosts ::
  "hid list \<Rightarrow> simpleInMemCluster \<Rightarrow> world \<Rightarrow> (world \<times> simpleInMemCluster) outcome" where
  "cluster_UpdateHosts newHosts c w =
     (let (w, changed, finalHosts, hostsAdded, hostsRemoved) =
            updateDynamicHostList newHosts (vals w (sc_hosts c)) w
      in if changed then
           (let (w, s) = alloc finalHosts w
            in obind (GetOrCreateHostSet 0 (hostSets c)) (\<lambda>(hss, hs).
                 let (hs', u) = hostSet_UpdateHosts s s None None hostsAdded hostsRemoved hs
                 in Inr (w, c\<lparr>sc_hosts := s, hostSets := hss[0 := hs'], updates := updates c @ [u],
                      checked := (if has_checker c then checked c @ [(hostsAdded, hostsRemoved)] else checked c)\<rparr>)))
         else Inr (w, c))"

section \<open>Updating the list of hosts\<close>

lemma addr_put_weight [simp]: "addr (put_host c (SetWeight x (store w c)) w) h = addr w h"
  by (simp add: addr_def put_host_def SetWeight_def)

lemma match_loop_spec:
  "match_loop nh cur w = (w', m, r) \<Longrightarrow>
   (\<forall>h. addr w' h = addr w h) \<and> m = filter (\<lambda>c. addr w c = addr w nh) cur \<and>
   r = filter (\<lambda>c. addr w c \<noteq> addr w nh) cur"
proof (induction cur arbitrary: w w' m r)
  case Nil
  then show ?case by simp
next
  case (Cons c cs)
  obtain w1 m1 r1 where 1: "match_loop nh cs (if addr w nh = addr w c
      then put_host c (SetWeight (weight (store w nh)) (store w c)) w else w) = (w1, m1, r1)"
    by (metis prod_cases3)
  from Cons.IH [OF this] Cons.prems 1 show ?case by (auto split: if_splits)
qed

fun first_by :: "('a \<Rightarrow> 'k) \<Rightarrow> 'k list \<Rightarrow> 'a list \<Rightarrow> 'a list" where
  "first_by f seen [] = []"
| "first_by f seen (x # xs) =
     (if f x \<in> set seen then first_by f seen xs else x # first_by f (f x # seen) xs)"

lemma first_by_addr: "x \<in> set (first_by f seen xs) \<Longrightarrow> f x \<notin> set seen \<and> x \<in> set xs"
  by (induction f seen xs rule: first_by.induct) (auto split: if_splits)

lemma image_first_by: "f ` set (first_by f seen xs) = f ` set xs - set seen"
  by (induction f seen xs rule: first_by.induct) auto

text \<open>The host that stands for a new host: the current one with its address, if there is one.\<close>

definition keep_current :: "world \<Rightarrow> hid list \<Rightarrow> hid \<Rightarrow> hid" where
  "keep_current w cur nh = (case find (\<lambda>c. addr w c = addr w nh) cur of Some c \<Rightarrow> c | None \<Rightarrow> nh)"

lemma filter_unique:
  assumes "distinct (map f cur)"
  shows "filter (\<lambda>c. f c = k) cur = (case find (\<lambda>c. f c = k) cur of None \<Rightarrow> [] | Some c \<Rightarrow> [c])"
  using assms
proof (induction cur)
  case (Cons a cur)
  then have "filter (\<lambda>c. f c = f a) cur = []" by (auto simp: filter_empty_conv image_iff)
  with Cons show ?case by auto
qed simp

lemma find_filter_other: "k \<noteq> k' \<Longrightarrow> find (\<lambda>c. f c = k) (filter (\<lambda>c. f c \<noteq> k') cur) = find (\<lambda>c. f c = k) cur"
  by (induction cur) auto

lemma new_hosts_loop_spec:
  assumes "distinct (map (addr w) cur)" and "new_hosts_loop seen new cur w = (w', final, added, left)"
  shows "(\<forall>h. addr w' h = addr w h) \<and>
    final = map (keep_current w cur) (first_by (addr w) seen new) \<and>
    added = filter (\<lambda>h. addr w h \<notin> addr w ` set cur) (first_by (addr w) seen new) \<and>
    left = filter (\<lambda>c. addr w c \<in> set seen \<or> addr w c \<notin> addr w ` set new) cur"
  using assms
proof (induction new arbitrary: seen cur w w' final added left)
  case Nil
  then show ?case by auto
next
  case (Cons nh new)
  show ?case
  proof (cases "addr w nh \<in> set seen")
    case True
    then have "filter (\<lambda>c. addr w c \<in> set seen \<or> addr w c \<notin> addr w ` set new) cur =
        filter (\<lambda>c. addr w c \<in> set seen \<or> addr w c \<notin> addr w ` set (nh # new)) cur"
      by (intro filter_cong) auto
    with True Cons.IH [OF Cons.prems(1), of seen] Cons.prems(2) show ?thesis by simp
  next
    case False
    obtain w1 m r where m: "match_loop nh cur w = (w1, m, r)" by (metis prod_cases3)
    obtain w2 f2 a2 l2 where n: "new_hosts_loop (addr w nh # seen) new r w1 = (w2, f2, a2, l2)" by (metis prod_cases4)
    note ms = match_loop_spec [OF m]
    then have a: "addr w1 = addr w" by auto
    have "distinct (map (addr w1) r)" using ms Cons.prems(1) a by (auto simp: distinct_map_filter)
    note IH = Cons.IH [OF this n, unfolded a]
    have keep: "map (keep_current w1 r) (first_by (addr w) (addr w nh # seen) new) =
        map (keep_current w cur) (first_by (addr w) (addr w nh # seen) new)"
      using ms by (auto simp: keep_current_def a find_filter_other dest!: first_by_addr)
    have new: "filter (\<lambda>h. addr w h \<notin> addr w ` set r) (first_by (addr w) (addr w nh # seen) new) =
        filter (\<lambda>h. addr w h \<notin> addr w ` set cur) (first_by (addr w) (addr w nh # seen) new)"
      using ms by (intro filter_cong) (auto dest!: first_by_addr)
    have left: "filter (\<lambda>c. addr w c \<in> set (addr w nh # seen) \<or> addr w c \<notin> addr w ` set new) r =
        filter (\<lambda>c. addr w c \<in> set seen \<or> addr w c \<notin> addr w ` set (nh # new)) cur"
      using ms False by (auto intro!: filter_cong)
    have none: "m = [] \<longleftrightarrow> addr w nh \<notin> addr w ` set cur" using ms by (auto simp: filter_empty_conv image_iff)
    have one: "m \<noteq> [] \<longrightarrow> m = [keep_current w cur nh]"
      using ms filter_unique [OF Cons.prems(1), of "addr w nh"] by (auto simp: keep_current_def split: option.splits)
    have "find (\<lambda>c. addr w c = addr w nh) cur = None" if "m = []"
      using ms that by (metis (mono_tags, lifting) filter_empty_conv find_None_iff)
    then have keep_new: "m = [] \<longrightarrow> keep_current w cur nh = nh" by (simp add: keep_current_def)
    have step: "(w', final, added, left) = (if m = [] then (w2, nh # f2, nh # a2, l2) else (w2, m @ f2, a2, l2))"
      using False m n Cons.prems(2) by simp
    show ?thesis using False step IH keep new left none one keep_new by (cases "m = []") auto
  qed
qed

section \<open>What deleting in place does to the other slices of an array\<close>

lemma find_index_Some:
  "find_index P xs = Some i \<Longrightarrow> i < length xs \<and> P (xs ! i) \<and> (\<forall>j < i. \<not> P (xs ! j))"
proof (induction xs arbitrary: i)
  case (Cons x xs)
  then show ?case by (cases i) (auto simp: less_Suc_eq_0_disj split: if_splits)
qed simp

lemma find_index_append:
  "\<not> list_ex P xs \<Longrightarrow> P y \<Longrightarrow> find_index P (xs @ y # ys) = Some (length xs)"
  by (induction xs) auto

text \<open>A shared array after deleting an element in place: the elements behind it move up, and
  the last one stays where it was as well.\<close>

lemma delete_at_shared:
  assumes "vals w (Sl a n) = xs @ y # ys" and "n = length (xs @ y # ys)"
  shows "vals (fst (delete_at (Sl a n) (length xs) w)) (Sl a n) = xs @ ys @ [last (y # ys)]"
    and "vals (fst (delete_at (Sl a n) (length xs) w)) (snd (delete_at (Sl a n) (length xs) w)) = xs @ ys"
    and "store (fst (delete_at (Sl a n) (length xs) w)) = store w"
proof -
  obtain rest where arr: "arrays w a = xs @ y # ys @ rest"
    using assms append_take_drop_id [of n "arrays w a"] by (metis append_Cons append_assoc vals.simps(2))
  have "drop (n - 1) (arrays w a) = last (y # ys) # rest"
    unfolding arr using assms(2) by (cases ys rule: rev_cases) simp_all
  with assms(2) show "vals (fst (delete_at (Sl a n) (length xs) w)) (Sl a n) = xs @ ys @ [last (y # ys)]"
    "vals (fst (delete_at (Sl a n) (length xs) w)) (snd (delete_at (Sl a n) (length xs) w)) = xs @ ys"
    "store (fst (delete_at (Sl a n) (length xs) w)) = store w"
    by (simp_all add: arr Let_def)
qed

text \<open>What a cluster looks like after its hosts were set: one slice serves for all hosts and
  for the healthy ones.\<close>

definition shared_set :: "world \<Rightarrow> hid list \<Rightarrow> hostSet \<Rightarrow> bool" where
  "shared_set w hs s \<longleftrightarrow> hosts s = healthyHosts s \<and> vals w (hosts s) = hs \<and> slen (hosts s) = length hs \<and>
     healthyHostsPerLocality s = None"

lemma new_hosts_loop_empty:
  "new_hosts_loop seen new [] w = (w, first_by (addr w) seen new, first_by (addr w) seen new, [])"
  by (induction seen new "[] :: hid list" w rule: new_hosts_loop.induct) auto

lemma first_by_distinct:
  "distinct (map f xs) \<Longrightarrow> (\<forall>x \<in> set xs. f x \<notin> set seen) \<Longrightarrow> first_by f seen xs = xs"
proof (induction xs arbitrary: seen)
  case (Cons a xs)
  then have "\<forall>x \<in> set xs. f x \<notin> set (f a # seen)" by (auto simp: image_iff)
  with Cons show ?case by simp
qed simp

lemma first_UpdateHosts:
  assumes "NewCluster config = Inr (Some c)" and "distinct (map (addr w) new)" and "new \<noteq> []"
  shows "\<exists>w1 c1 s. cluster_UpdateHosts new c w = Inr (w1, c1) \<and> hostSets c1 = [s] \<and>
    sc_hosts c1 = hosts s \<and> shared_set w1 new s \<and> store w1 = store w \<and>
    priority s = 0 \<and> updates c1 = [(0, new, [])] \<and> has_checker c1 = has_checker c"
  using assms(2,3) NewCluster_SomeD [OF assms(1)]
  by (auto simp: cluster_UpdateHosts_def newSimpleInMemCluster_def updateDynamicHostList_def
    new_hosts_loop_empty first_by_distinct alloc_def GetOrCreateHostSet_def createHostSet_def
    hostSet_UpdateHosts_def Let_def shared_set_def split: if_splits)

lemma del_from_shared:
  assumes "shared_set w (xs @ y # ys) s" and "\<forall>x \<in> set xs. hostname (store w x) \<noteq> hostname (store w y)"
  shows "\<exists>w' s' u. del_from_set y s w = (w', s', u) \<and> vals w' (hosts s') = xs @ ys @ [last (y # ys)] \<and>
    vals w' (healthyHosts s') = xs @ ys"
proof -
  from assms(1) obtain a where s: "hosts s = Sl a (length (xs @ y # ys))" "healthyHosts s = Sl a (length (xs @ y # ys))"
    "vals w (Sl a (length (xs @ y # ys))) = xs @ y # ys" "healthyHostsPerLocality s = None"
    by (cases "hosts s") (auto simp: shared_set_def)
  have "find_index (\<lambda>h. hostname (store w y) = hostname (store w h)) (xs @ y # ys) = Some (length xs)"
    using assms(2) by (intro find_index_append) (auto simp: list_ex_iff)
  with delete_at_shared [OF s(3) refl] s show ?thesis
    by (auto simp: del_from_set_def delete_named_def hostSet_UpdateHosts_def Let_def split: prod.split
      simp del: delete_at.simps vals.simps)
qed

section \<open>Properties\<close>

text \<open>
  C26 (functional). \<open>updateDynamicHostList\<close>, for current hosts with different addresses: the
  result has one host for every address of the new list, in the order of their first
  occurrences; where the cluster already has a host with that address, that host is kept.
  Added are the new hosts with an unknown address, removed the current ones whose address is
  gone, and a change is reported just when the two sets of addresses differ.
\<close>

theorem updateDynamicHostList_spec:
  assumes "distinct (map (addr w) cur)"
  shows "\<exists>w'. updateDynamicHostList new cur w =
    (w', addr w ` set new \<noteq> addr w ` set cur,
     map (keep_current w cur) (first_by (addr w) [] new),
     filter (\<lambda>h. addr w h \<notin> addr w ` set cur) (first_by (addr w) [] new),
     filter (\<lambda>c. addr w c \<notin> addr w ` set new) cur) \<and> (\<forall>h. addr w' h = addr w h)"
proof -
  obtain w' f a l where n: "new_hosts_loop [] new cur w = (w', f, a, l)" by (metis prod_cases4)
  note spec = new_hosts_loop_spec [OF assms n]
  have "a = [] \<longleftrightarrow> addr w ` set (first_by (addr w) [] new) \<subseteq> addr w ` set cur"
    using spec by (auto simp: filter_empty_conv)
  then have a: "a = [] \<longleftrightarrow> addr w ` set new \<subseteq> addr w ` set cur"
    using image_first_by [of "addr w" "[]" new] by simp
  have l: "l = [] \<longleftrightarrow> addr w ` set cur \<subseteq> addr w ` set new"
    using spec by (auto simp: filter_empty_conv)
  have "(a \<noteq> [] \<or> l \<noteq> []) = (addr w ` set new \<noteq> addr w ` set cur)" unfolding a l set_eq_subset by simp
  with n spec show ?thesis by (simp add: updateDynamicHostList_def)
qed

definition sample_world :: world where
  "sample_world = \<lparr>store = (\<lambda>h. \<lparr>hostname = replicate h (CHR ''h''), addressString = replicate h (CHR ''a''),
     weight = 1, used = False, healthFlags = 0\<rparr>), next_host = 9, arrays = (\<lambda>_. []), next_array = 0,
     growth = (\<lambda>n. n)\<rparr>"

definition sample_config :: cluster_config where
  "sample_config = \<lparr>cc_Name = ''c'', cc_ClusterType = ''SIMPLE'', cc_LbType = ''LB_RANDOM'',
     cc_HealthCheckProtocol = ''SofaRpc''\<rparr>"

definition sample_cluster :: simpleInMemCluster where
  "sample_cluster = (newSimpleInMemCluster sample_config)\<lparr>has_checker := True\<rparr>"

lemma sample_cluster: "NewCluster sample_config = Inr (Some sample_cluster)"
  by (simp add: NewCluster_def SetHealthChecker_def factory_New_def sample_config_def sample_cluster_def)

theorem updateDynamicHostList_spec_witness:
  "\<exists>w'. updateDynamicHostList [3, 1, 3] [1, 2] sample_world = (w', True, [3, 1], [3], [2]) \<and>
     (\<forall>h. addr w' h = addr sample_world h)"
proof -
  have "distinct (map (addr sample_world) [1, 2])" by (simp add: sample_world_def addr_def numeral_2_eq_2)
  note spec = updateDynamicHostList_spec [OF this, of "[3, 1, 3]"]
  have "replicate 3 (CHR ''a'') \<in> addr sample_world ` set [3, 1, 3]"
    "replicate 3 (CHR ''a'') \<notin> addr sample_world ` set [1, 2]"
    by (simp_all add: sample_world_def addr_def numeral_3_eq_3 numeral_2_eq_2)
  then have "addr sample_world ` set [3, 1, 3] \<noteq> addr sample_world ` set [1, 2]" by metis
  with spec show ?thesis
    by (simp add: sample_world_def addr_def keep_current_def numeral_3_eq_3 numeral_2_eq_2 image_iff)
qed

text \<open>
  The host slice of a cluster serves as the slice of its healthy hosts too. When a
  host fails its health check and is taken out of the healthy hosts, the elements behind it
  move up in the array both share: the cluster loses the failed host from its list of all
  hosts as well, and lists the last host twice.
\<close>

lemma failed_host_is_lost:
  assumes "NewCluster config = Inr (Some c)" and "distinct (map (addr w) (xs @ y # ys))"
    and "\<forall>x \<in> set xs. hostname (store w x) \<noteq> hostname (store w y)"
  shows "\<exists>w1 c1 w2 c2. cluster_UpdateHosts (xs @ y # ys) c w = Inr (w1, c1) \<and>
    refreshHealthHosts y c1 (put_host y (SetHealthFlag FAILED_ACTIVE_HC (store w1 y)) w1) = Inr (w2, c2) \<and>
    map (vals w2 \<circ> healthyHosts) (hostSets c2) = [xs @ ys] \<and>
    map (vals w2 \<circ> hosts) (hostSets c2) = [xs @ ys @ [last (y # ys)]]"
proof -
  from first_UpdateHosts [OF assms(1,2)] obtain w1 c1 s where
    1: "cluster_UpdateHosts (xs @ y # ys) c w = Inr (w1, c1)" "hostSets c1 = [s]"
    "shared_set w1 (xs @ y # ys) s" "store w1 = store w" by blast
  define w1' where "w1' = put_host y (SetHealthFlag FAILED_ACTIVE_HC (store w1 y)) w1"
  have v: "vals w1' sl = vals w1 sl" for sl by (cases sl) (simp_all add: w1'_def put_host_def)
  have names: "hostname (store w1' h) = hostname (store w h)" "addr w1' h = addr w h" for h
    by (simp_all add: w1'_def put_host_def SetHealthFlag_def addr_def 1(4))
  have sh: "shared_set w1' (xs @ y # ys) s" using 1(3) unfolding shared_set_def v .
  from del_from_shared [OF sh] assms(3) obtain w2 s2 u where
    2: "del_from_set y s w1' = (w2, s2, u)" "vals w2 (hosts s2) = xs @ ys @ [last (y # ys)]"
    "vals w2 (healthyHosts s2) = xs @ ys" by (auto simp: names)
  have "\<not> Health (store w1' y)"
    by (simp add: Health_def w1'_def put_host_def SetHealthFlag_def FAILED_ACTIVE_HC_def or_eq_0_iff)
  moreover have "vals w1' (hosts s) = xs @ y # ys" using sh unfolding shared_set_def by (elim conjE)
  then have "holds_host w1' y s" by (simp add: holds_host_def)
  ultimately have "refreshHealthHosts y c1 w1' = Inr (w2, c1\<lparr>hostSets := [s2], updates := updates c1 @ [u]\<rparr>)"
    by (simp add: refreshHealthHosts_def 1(2) 2(1))
  with 1(1) 2(2,3) show ?thesis by (auto simp: w1'_def)
qed

text \<open>
  When a host of such a cluster becomes healthy, the cluster panics: it writes to
  the last locality of a list of localities that is nil.
\<close>

lemma recovered_host_panics:
  assumes "NewCluster config = Inr (Some c)" and "distinct (map (addr w) new)" and "h \<in> set new" and "Health (store w h)"
  shows "\<exists>w1 c1. cluster_UpdateHosts new c w = Inr (w1, c1) \<and>
    refreshHealthHosts h c1 w1 = Inl IndexOutOfRange"
proof -
  from assms(3) have "new \<noteq> []" by auto
  from first_UpdateHosts [OF assms(1,2) this] obtain w1 c1 s where
    1: "cluster_UpdateHosts new c w = Inr (w1, c1)" "hostSets c1 = [s]"
    "shared_set w1 new s" "store w1 = store w" by blast
  have "holds_host w1 h s" using 1(3) assms(3) by (auto simp: holds_host_def shared_set_def list_ex_iff)
  moreover have "add_to_set h s w1 = Inl IndexOutOfRange"
    using 1(3) by (simp add: add_to_set_def shared_set_def go_index_def split: prod.split)
  ultimately show ?thesis using 1 assms(4) by (simp add: refreshHealthHosts_def)
qed

end
