(* ===== verification/Cluster_Manager.thy ===== *)
theory Cluster_Manager
  imports Cluster
begin

text \<open>
  The cluster manager: \<open>clustermanager.go\<close> and \<open>clusteradapter.go\<close> of
  \<open>pkg/upstream/cluster\<close>. A connection pool is represented by the host it was made for, and
  the pools of a protocol are a map from addresses. The connections themselves are those of
  the stream packages and are not part of this theory. Clusters with subset load balancing
  are not covered: the balancer of a cluster is one of those of \<open>loadbalancer.go\<close>.
\<close>

section \<open>State\<close>

record primaryCluster =
  pc_cluster :: simpleInMemCluster
  addedViaAPI :: bool

record clusterManager =
  cm_world :: world
  primaryClusters :: "string \<rightharpoonup> primaryCluster"
  sofaRPCConnPool :: "string \<rightharpoonup> hid"
  http2ConnPool :: "string \<rightharpoonup> hid"
  xProtocolConnPool :: "string \<rightharpoonup> hid"
  http1ConnPool :: "string \<rightharpoonup> hid"
  registryUseHealthCheck :: bool

datatype cm_err = HostIsNil | ClusterNotFound string | AddFailure string

section \<open>Clusters\<close>

text \<open>\<open>loadCluster\<close> panics where \<open>NewCluster\<close> does.\<close>

definition loadCluster :: "cluster_config \<Rightarrow> bool \<Rightarrow> clusterManager \<Rightarrow> (clusterManager \<times> bool) outcome" where
  "loadCluster config viaAPI cm =
     obind (NewCluster config) (\<lambda>cluster.
       case cluster of
         None \<Rightarrow> Inr (cm, False)
       | Some c \<Rightarrow> Inr (cm\<lparr>primaryClusters := (primaryClusters cm)(cc_Name config \<mapsto>
                          \<lparr>pc_cluster = c, addedViaAPI = viaAPI\<rparr>)\<rparr>, True))"

definition AddOrUpdatePrimaryCluster ::
  "cluster_config \<Rightarrow> clusterManager \<Rightarrow> (clusterManager \<times> bool) outcome" where
  "AddOrUpdatePrimaryCluster config cm =
     (case primaryClusters cm (cc_Name config) of
        Some pc \<Rightarrow> if \<not> addedViaAPI pc then Inr (cm, False) else loadCluster config True cm
      | None \<Rightarrow> loadCluster config True cm)"

definition ClusterExist :: "string \<Rightarrow> clusterManager \<Rightarrow> bool" where
  "ClusterExist name cm = (primaryClusters cm name \<noteq> None)"

definition Clusters :: "clusterManager \<Rightarrow> string \<rightharpoonup> simpleInMemCluster" where
  "Clusters cm name = map_option pc_cluster (primaryClusters cm name)"

definition RemovePrimaryCluster :: "string \<Rightarrow> clusterManager \<Rightarrow> clusterManager \<times> bool" where
  "RemovePrimaryCluster name cm =
     (case primaryClusters cm name of
        Some pc \<Rightarrow> if \<not> addedViaAPI pc then (cm, False)
                   else (cm\<lparr>primaryClusters := (primaryClusters cm)(name := None)\<rparr>, True)
      | None \<Rightarrow> (cm, True))"

section \<open>Hosts\<close>

fun new_hosts :: "host_config list \<Rightarrow> world \<Rightarrow> world \<times> hid list" where
  "new_hosts [] w = (w, [])"
| "new_hosts (hc # hcs) w = (let (w, h) = new_host hc w; (w, hs) = new_hosts hcs w in (w, h # hs))"

definition put_cluster :: "string \<Rightarrow> primaryCluster \<Rightarrow> world \<times> simpleInMemCluster \<Rightarrow> clusterManager \<Rightarrow> clusterManager" where
  "put_cluster name pc r cm =
     cm\<lparr>cm_world := fst r, primaryClusters := (primaryClusters cm)(name \<mapsto> pc\<lparr>pc_cluster := snd r\<rparr>)\<rparr>"

definition UpdateClusterHosts ::
  "string \<Rightarrow> host_config list \<Rightarrow> clusterManager \<Rightarrow> (clusterManager \<times> cm_err option) outcome" where
  "UpdateClusterHosts name hostConfigs cm =
     (case primaryClusters cm name of
        None \<Rightarrow> Inr (cm, Some (ClusterNotFound name))
      | Some pc \<Rightarrow>
          (let (w, hs) = new_hosts hostConfigs (cm_world cm) in
           obind (cluster_UpdateHosts hs (pc_cluster pc) w) (\<lambda>r. Inr (put_cluster name pc r cm, None))))"

definition RemoveClusterHosts ::
  "string \<Rightarrow> hid option \<Rightarrow> clusterManager \<Rightarrow> (clusterManager \<times> cm_err option) outcome" where
  "RemoveClusterHosts name host cm =
     (case host of
        None \<Rightarrow> Inr (cm, Some HostIsNil)
      | Some h \<Rightarrow>
          (case primaryClusters cm name of
             None \<Rightarrow> Inr (cm, None)
           | Some pc \<Rightarrow>
               (let w = cm_world cm; ccHosts = sc_hosts (pc_cluster pc) in
                case find_index (\<lambda>x. addr w h = addr w x) (vals w ccHosts) of
                  None \<Rightarrow> Inr (cm, None)
                | Some i \<Rightarrow>
                    (let (w, ccHosts) = delete_at ccHosts i w in
                     obind (cluster_UpdateHosts (vals w ccHosts) (pc_cluster pc) w) (\<lambda>r.
                       Inr (put_cluster name pc r cm, None))))))"

fun add_clusters :: "cluster_config list \<Rightarrow> clusterManager \<Rightarrow> clusterManager outcome" where
  "add_clusters [] cm = Inr cm"
| "add_clusters (c # cs) cm = obind (AddOrUpdatePrimaryCluster c cm) (\<lambda>(cm', _). add_clusters cs cm')"

fun add_cluster_hosts :: "(string \<times> host_config list) list \<Rightarrow> clusterManager \<Rightarrow> clusterManager outcome" where
  "add_cluster_hosts [] cm = Inr cm"
| "add_cluster_hosts ((name, hcs) # rest) cm =
     obind (UpdateClusterHosts name hcs cm) (\<lambda>(cm', _). add_cluster_hosts rest cm')"

definition NewClusterManager ::
  "world \<Rightarrow> cluster_config list \<Rightarrow> (string \<times> host_config list) list \<Rightarrow> clusterManager outcome" where
  "NewClusterManager w clusters clusterMap =
     obind (add_clusters clusters
       \<lparr>cm_world = w, primaryClusters = Map.empty, sofaRPCConnPool = Map.empty, http2ConnPool = Map.empty,
        xProtocolConnPool = Map.empty, http1ConnPool = Map.empty, registryUseHealthCheck = False\<rparr>)
       (add_cluster_hosts clusterMap)"

section \<open>Connection pools\<close>

definition healthy_sets :: "world \<Rightarrow> simpleInMemCluster \<Rightarrow> hid list list" where
  "healthy_sets w c = map (vals w \<circ> healthyHosts) (hostSets c)"

record clusterSnapshot =
  snap_prioritySet :: "hid list list"
  snap_loadbalancer :: LoadBalancer

definition getOrCreateClusterSnapshot :: "string \<Rightarrow> clusterManager \<Rightarrow> clusterSnapshot option" where
  "getOrCreateClusterSnapshot name cm =
     map_option (\<lambda>pc. \<lparr>snap_prioritySet = healthy_sets (cm_world cm) (pc_cluster pc),
                       snap_loadbalancer = lb (pc_cluster pc)\<rparr>) (primaryClusters cm name)"

text \<open>The balancer of a snapshot is that of the cluster: what it remembers is stored there.\<close>

definition store_lb :: "string \<Rightarrow> LoadBalancer \<Rightarrow> clusterManager \<Rightarrow> clusterManager" where
  "store_lb name l cm = cm\<lparr>primaryClusters := (primaryClusters cm)(name :=
     map_option (\<lambda>pc. pc\<lparr>pc_cluster := (pc_cluster pc)\<lparr>lb := l\<rparr>\<rparr>) (primaryClusters cm name))\<rparr>"

definition choose_for_cluster ::
  "nat \<times> nat \<Rightarrow> string \<Rightarrow> clusterManager \<Rightarrow> (clusterManager \<times> hid option) outcome" where
  "choose_for_cluster draws name cm =
     (case getOrCreateClusterSnapshot name cm of
        None \<Rightarrow> Inr (cm, None)
      | Some snap \<Rightarrow>
          obind (ChooseHost (snap_prioritySet snap) draws (snap_loadbalancer snap)) (\<lambda>(lb', h).
            Inr (store_lb name lb' cm, h)))"

definition pool_for :: "world \<Rightarrow> hid \<Rightarrow> (string \<rightharpoonup> hid) \<Rightarrow> (string \<rightharpoonup> hid) \<times> hid" where
  "pool_for w h pools =
     (case pools (addr w h) of Some p \<Rightarrow> (pools, p) | None \<Rightarrow> (pools(addr w h \<mapsto> h), h))"

definition SofaRPCConnPoolForCluster ::
  "nat \<times> nat \<Rightarrow> string \<Rightarrow> clusterManager \<Rightarrow> (clusterManager \<times> hid option) outcome" where
  "SofaRPCConnPoolForCluster draws name cm =
     obind (choose_for_cluster draws name cm) (\<lambda>(cm, host).
       case host of
         None \<Rightarrow> Inr (cm, None)
       | Some h \<Rightarrow> (let (ps, p) = pool_for (cm_world cm) h (sofaRPCConnPool cm)
                    in Inr (cm\<lparr>sofaRPCConnPool := ps\<rparr>, Some p)))"

text \<open>The host a connection is created to; \<open>host.CreateConnection\<close> is in the network package.\<close>

definition TCPConnForCluster ::
  "nat \<times> nat \<Rightarrow> string \<Rightarrow> clusterManager \<Rightarrow> (clusterManager \<times> hid option) outcome" where
  "TCPConnForCluster draws name cm = choose_for_cluster draws name cm"

definition XprotocolConnPoolForCluster ::
  "nat \<times> nat \<Rightarrow> string \<Rightarrow> clusterManager \<Rightarrow> (clusterManager \<times> hid option) outcome" where
  "XprotocolConnPoolForCluster draws name cm =
     obind (choose_for_cluster draws name cm) (\<lambda>(cm, host).
       case host of
         None \<Rightarrow> Inr (cm, None)
       | Some h \<Rightarrow> (let (ps, p) = pool_for (cm_world cm) h (xProtocolConnPool cm)
                    in Inr (cm\<lparr>xProtocolConnPool := ps\<rparr>, Some p)))"

datatype http_protocol = HTTP1 | HTTP2 | OtherProtocol

definition HTTPConnPoolForCluster ::
  "nat \<times> nat \<Rightarrow> string \<Rightarrow> http_protocol \<Rightarrow> clusterManager \<Rightarrow> (clusterManager \<times> hid option) outcome" where
  "HTTPConnPoolForCluster draws name protocol cm =
     obind (choose_for_cluster draws name cm) (\<lambda>(cm, host).
       case host of
         None \<Rightarrow> Inr (cm, None)
       | Some h \<Rightarrow>
           (case protocol of
              HTTP2 \<Rightarrow> (let (ps, p) = pool_for (cm_world cm) h (http2ConnPool cm)
                        in Inr (cm\<lparr>http2ConnPool := ps\<rparr>, Some p))
            | HTTP1 \<Rightarrow> (let (ps, p) = pool_for (cm_world cm) h (http1ConnPool cm)
                        in Inr (cm\<lparr>http1ConnPool := ps\<rparr>, Some p))
            | OtherProtocol \<Rightarrow> Inr (cm, None)))"

section \<open>The adapter\<close>

definition TriggerClusterAddedOrUpdate ::
  "cluster_config \<Rightarrow> clusterManager \<Rightarrow> (clusterManager \<times> cm_err option) outcome" where
  "TriggerClusterAddedOrUpdate config cm =
     (if \<not> ClusterExist (cc_Name config) cm then
        (let config' = (if registryUseHealthCheck cm then config\<lparr>cc_HealthCheckProtocol := ''SofaRpc''\<rparr> else config)
         in obind (AddOrUpdatePrimaryCluster config' cm) (\<lambda>(cm', ok).
              Inr (cm', if ok then None else Some (AddFailure (cc_Name config)))))
      else Inr (cm, None))"

definition TriggerClusterAndHostsAddedOrUpdate ::
  "cluster_config \<Rightarrow> host_config list \<Rightarrow> clusterManager \<Rightarrow> (clusterManager \<times> cm_err option) outcome" where
  "TriggerClusterAndHostsAddedOrUpdate config hcs cm =
     obind (TriggerClusterAddedOrUpdate config cm) (\<lambda>(cm', err).
       case err of
         Some e \<Rightarrow> Inr (cm', Some e)
       | None \<Rightarrow> UpdateClusterHosts (cc_Name config) hcs cm')"

definition TriggerClusterHostUpdate ::
  "string \<Rightarrow> host_config list \<Rightarrow> clusterManager \<Rightarrow> (clusterManager \<times> cm_err option) outcome" where
  "TriggerClusterHostUpdate name hcs cm = UpdateClusterHosts name hcs cm"

definition TriggerClusterDel :: "string \<Rightarrow> clusterManager \<Rightarrow> clusterManager" where
  "TriggerClusterDel name cm = fst (RemovePrimaryCluster name cm)"

section \<open>Pools are kept under the address of their host\<close>

definition pool_ok :: "world \<Rightarrow> (string \<rightharpoonup> hid) \<Rightarrow> bool" where
  "pool_ok w pools \<longleftrightarrow> (\<forall>a p. pools a = Some p \<longrightarrow> addr w p = a)"

lemma pool_for_spec:
  assumes "pool_ok w pools"
  shows "pool_ok w (fst (pool_for w h pools)) \<and> addr w (snd (pool_for w h pools)) = addr w h"
  using assms by (auto simp: pool_for_def pool_ok_def split: option.splits if_splits)

lemma choose_for_cluster_spec:
  assumes "choose_for_cluster draws name cm = Inr (cm', Some h)"
  shows "cm_world cm' = cm_world cm \<and> sofaRPCConnPool cm' = sofaRPCConnPool cm \<and>
    (\<exists>pc. primaryClusters cm name = Some pc \<and> h \<in> \<Union> (set (map set (healthy_sets (cm_world cm) (pc_cluster pc)))))"
proof -
  from assms obtain pc lb' where pc: "primaryClusters cm name = Some pc"
    and c: "ChooseHost (healthy_sets (cm_world cm) (pc_cluster pc)) draws (lb (pc_cluster pc)) = Inr (lb', Some h)"
    and cm': "cm' = store_lb name lb' cm"
    by (auto simp: choose_for_cluster_def getOrCreateClusterSnapshot_def go_outcome split: option.splits)
  from lb_choice.chosen [OF c] pc show ?thesis by (simp add: cm' store_lb_def)
qed

section \<open>Removing a host\<close>

text \<open>The comparison with the current hosts only moves weights between hosts.\<close>

lemma match_loop_arrays: "arrays (fst (match_loop nh cur w)) = arrays w"
  by (induction nh cur w rule: match_loop.induct) (auto simp: put_host_def split: prod.splits)

lemma new_hosts_loop_arrays: "arrays (fst (new_hosts_loop seen new cur w)) = arrays w"
proof (induction seen new cur w rule: new_hosts_loop.induct)
  case (2 seen nh nhs cur w)
  then show ?case using match_loop_arrays [of nh cur w] by (auto split: prod.splits)
qed simp

text \<open>Which hosts are added and removed, whether or not addresses occur twice among the current ones.\<close>

lemma new_hosts_loop_changed:
  assumes "new_hosts_loop seen new cur w = (w', final, added, left)"
  shows "(set added \<subseteq> {h \<in> set new. addr w h \<notin> set seen \<and> addr w h \<notin> addr w ` set cur}) \<and>
    (set left \<subseteq> {c \<in> set cur. addr w c \<in> set seen \<or> addr w c \<notin> addr w ` set new})"
  using assms
proof (induction new arbitrary: seen cur w w' final added left)
  case (Cons nh new)
  show ?case
  proof (cases "addr w nh \<in> set seen")
    case True
    with Cons.IH [of seen cur w] Cons.prems show ?thesis by fastforce
  next
    case False
    obtain w1 m r where m: "match_loop nh cur w = (w1, m, r)" by (metis prod_cases3)
    obtain w2 f2 a2 l2 where n: "new_hosts_loop (addr w nh # seen) new r w1 = (w2, f2, a2, l2)" by (metis prod_cases4)
    note ms = match_loop_spec [OF m]
    then have a: "addr w1 = addr w" by auto
    note IH = Cons.IH [OF n, unfolded a]
    have r: "set r = {c \<in> set cur. addr w c \<noteq> addr w nh}" using ms by auto
    have none: "m = [] \<Longrightarrow> addr w nh \<notin> addr w ` set cur" using ms by (auto simp: filter_empty_conv)
    have a2: "set a2 \<subseteq> {h \<in> set new. addr w h \<notin> set seen \<and> addr w h \<notin> addr w ` set cur}"
    proof
      fix h assume h: "h \<in> set a2"
      with IH have *: "h \<in> set new" "addr w h \<noteq> addr w nh" "addr w h \<notin> set seen" "addr w h \<notin> addr w ` set r" by auto
      then have "addr w h \<noteq> addr w c" if "c \<in> set cur" for c using that unfolding r by (metis (mono_tags, lifting) image_eqI mem_Collect_eq)
      with * show "h \<in> {h \<in> set new. addr w h \<notin> set seen \<and> addr w h \<notin> addr w ` set cur}" by auto
    qed
    have l2: "set l2 \<subseteq> {c \<in> set cur. addr w c \<in> set seen \<or> addr w c \<notin> addr w ` set (nh # new)}"
      using IH r by auto
    have step: "(added, left) = (if m = [] then nh # a2 else a2, l2)" using False m n Cons.prems by (auto split: if_splits)
    show ?thesis using step a2 l2 none False by (cases "m = []") auto
  qed
qed auto

lemma updateDynamicHostList_same:
  assumes "addr w ` set new = addr w ` set cur"
  shows "\<exists>w' final. updateDynamicHostList new cur w = (w', False, final, [], []) \<and> arrays w' = arrays w"
proof -
  obtain w' f a l where n: "new_hosts_loop [] new cur w = (w', f, a, l)" by (metis prod_cases4)
  note c = new_hosts_loop_changed [OF n]
  have "h \<notin> set a" for h
  proof
    assume "h \<in> set a"
    with c have "h \<in> set new" "addr w h \<notin> addr w ` set cur" by auto
    with assms show False by (metis imageI)
  qed
  moreover have "h \<notin> set l" for h
  proof
    assume "h \<in> set l"
    with c have "h \<in> set cur" "addr w h \<notin> addr w ` set new" by auto
    with assms show False by (metis imageI)
  qed
  ultimately have "a = []" "l = []" by (metis list.set_intros(1) neq_Nil_conv)+
  with n new_hosts_loop_arrays [of "[]" new cur w] show ?thesis by (simp add: updateDynamicHostList_def)
qed

lemma find_own_key: "distinct (map f cur) \<Longrightarrow> x \<in> set cur \<Longrightarrow> find (\<lambda>c. f c = f x) cur = Some x"
  by (induction cur) (auto simp: image_iff)

lemma updateDynamicHostList_without_last:
  assumes "distinct (map (addr w) (xs @ [y]))"
  shows "\<exists>w'. updateDynamicHostList xs (xs @ [y]) w = (w', True, xs, [], [y]) \<and> arrays w' = arrays w"
proof -
  obtain w' f a l where n: "new_hosts_loop [] xs (xs @ [y]) w = (w', f, a, l)" by (metis prod_cases4)
  have "first_by (addr w) [] xs = xs" using assms by (intro first_by_distinct) auto
  moreover have "keep_current w (xs @ [y]) x = x" if "x \<in> set xs" for x
    using that assms find_own_key [OF assms, of x] by (simp add: keep_current_def)
  ultimately show ?thesis using n new_hosts_loop_spec [OF assms n] new_hosts_loop_arrays [of "[]" xs "xs @ [y]" w]
    assms by (auto simp: updateDynamicHostList_def filter_empty_conv intro!: map_idI)
qed

lemma vals_alloc: "vals (fst (alloc xs w)) (snd (alloc xs w)) = xs"
  by (simp add: alloc_def)

lemma remove_from_shared:
  assumes sets: "hostSets c = [s]" "sc_hosts c = hosts s" "shared_set w (xs @ y # ys) s"
    and dist: "distinct (map (addr w) (xs @ y # ys))"
  defines "r \<equiv> delete_at (sc_hosts c) (length xs) w"
  shows "\<exists>w' c'. cluster_UpdateHosts (vals (fst r) (snd r)) c (fst r) = Inr (w', c') \<and>
    vals w' (sc_hosts c') = (if ys = [] then xs else xs @ ys @ [last ys]) \<and>
    map (vals w' \<circ> healthyHosts) (hostSets c') = [if ys = [] then xs else xs @ ys @ [last ys]] \<and>
    updates c' = updates c @ (if ys = [] then [(priority s, [], [y])] else [])"
proof -
  obtain a where a: "hosts s = Sl a (length (xs @ y # ys))" "healthyHosts s = Sl a (length (xs @ y # ys))"
    "vals w (Sl a (length (xs @ y # ys))) = xs @ y # ys"
    using sets(3) by (cases "hosts s") (auto simp: shared_set_def)
  note d = delete_at_shared [OF a(3) refl]
  have r: "r = delete_at (Sl a (length (xs @ y # ys))) (length xs) w" by (simp only: r_def sets(2) a(1))
  have cur: "vals (fst r) (sc_hosts c) = xs @ ys @ [last (y # ys)]" unfolding sets(2) a(1) r by (rule d(1))
  have new: "vals (fst r) (snd r) = xs @ ys" unfolding r by (rule d(2))
  have addr: "addr (fst r) = addr w" using d(3) unfolding r by (auto simp: addr_def)
  show ?thesis
  proof (cases "ys = []")
    case True
    have "distinct (map (addr (fst r)) (xs @ [y]))" using dist True addr by simp
    from updateDynamicHostList_without_last [OF this] obtain w' where
      "updateDynamicHostList xs (xs @ [y]) (fst r) = (w', True, xs, [], [y])" by blast
    with True cur new sets(1) vals_alloc [of xs w'] show ?thesis
      by (auto simp: cluster_UpdateHosts_def GetOrCreateHostSet_def hostSet_UpdateHosts_def Let_def split: prod.splits)
  next
    case False
    have "addr (fst r) ` set (xs @ ys) = addr (fst r) ` set (xs @ ys @ [last (y # ys)])" using False by auto
    from updateDynamicHostList_same [OF this] obtain w' f where
      u: "updateDynamicHostList (xs @ ys) (xs @ ys @ [last (y # ys)]) (fst r) = (w', False, f, [], [])"
      "arrays w' = arrays (fst r)" by blast
    from u False cur new sets(1,2) a(1,2) show ?thesis by (simp add: cluster_UpdateHosts_def)
  qed
qed

section \<open>Properties\<close>


text \<open>
  \<open>RemoveClusterHosts\<close> on a cluster whose hosts were set by \<open>UpdateHosts\<close>. The last
  host of the list is removed, and the removal is announced. Any other host is deleted in the
  array the cluster itself still uses: the last host then stands in the list twice, also among
  the healthy hosts, and since no address is new or gone nothing is announced.
\<close>

lemma RemoveClusterHosts_effect:
  assumes "NewCluster config = Inr (Some c)" and "distinct (map (addr w) (xs @ y # ys))"
    and "cluster_UpdateHosts (xs @ y # ys) c w = Inr (cm_world cm, pc_cluster pc)"
    and "primaryClusters cm name = Some pc"
  shows "\<exists>cm' pc'. RemoveClusterHosts name (Some y) cm = Inr (cm', None) \<and> primaryClusters cm' name = Some pc' \<and>
    vals (cm_world cm') (sc_hosts (pc_cluster pc')) = (if ys = [] then xs else xs @ ys @ [last ys]) \<and>
    map (vals (cm_world cm') \<circ> healthyHosts) (hostSets (pc_cluster pc')) =
      [if ys = [] then xs else xs @ ys @ [last ys]] \<and>
    updates (pc_cluster pc') = updates (pc_cluster pc) @ (if ys = [] then [(0, [], [y])] else [])"
proof -
  from first_UpdateHosts [OF assms(1,2)] assms(3) obtain s where
    s: "hostSets (pc_cluster pc) = [s]" "sc_hosts (pc_cluster pc) = hosts s" "shared_set (cm_world cm) (xs @ y # ys) s"
    "store (cm_world cm) = store w" and prio: "priority s = 0" by auto
  have dist: "distinct (map (addr (cm_world cm)) (xs @ y # ys))" using assms(2) s(4) by (simp add: addr_def [abs_def])
  have "find_index (\<lambda>x. addr (cm_world cm) y = addr (cm_world cm) x) (xs @ y # ys) = Some (length xs)"
    using dist by (intro find_index_append) (auto simp: list_ex_iff)
  moreover have "vals (cm_world cm) (sc_hosts (pc_cluster pc)) = xs @ y # ys" using s(2,3) unfolding shared_set_def by metis
  ultimately show ?thesis using remove_from_shared [OF s(1-3) dist] assms(4)
    by (auto simp: RemoveClusterHosts_def Let_def split_def put_cluster_def prio)
qed

definition sample_manager :: clusterManager where
  "sample_manager = \<lparr>cm_world = sample_world\<lparr>arrays := (\<lambda>_. [1, 2])\<rparr>, primaryClusters = [''c'' \<mapsto>
     \<lparr>pc_cluster = sample_cluster\<lparr>hostSets := [(createHostSet 0)\<lparr>healthyHosts := Sl 0 2\<rparr>]\<rparr>, addedViaAPI = True\<rparr>],
     sofaRPCConnPool = Map.empty, http2ConnPool = Map.empty, xProtocolConnPool = Map.empty,
     http1ConnPool = Map.empty, registryUseHealthCheck = False\<rparr>"


end
