(* ===== verification/Router.thy ===== *)
theory Router
  imports Mosn_Prelude "HOL-Library.AList" "HOL-Library.Char_ord" "HOL-Library.List_Lexorder" "HOL-Library.Sublist"
    "HOL-Library.Multiset"
begin

text \<open>
  Routing: \<open>pkg/router\<close>. Virtual hosts are chosen by domain (\<open>routematcher.go\<close>), routes by the
  rules of the virtual host (\<open>virtualhostimpl.go\<close>, \<open>routeruleimpl.go\<close>, \<open>configutility.go\<close>), with
  the query parameters of \<open>pkg/protocol/http/httputility.go\<close>. Compiling a regular expression is
  the argument \<open>Compile\<close>: the test of the compiled pattern, or nothing for a malformed one. Host
  names and paths are taken to be ASCII text, so that lower case is that of the ASCII letters.
\<close>

section \<open>Strings\<close>

definition EqualFold :: "string \<Rightarrow> string \<Rightarrow> bool" where
  "EqualFold s t \<longleftrightarrow> ToLower s = ToLower t"

definition is_space :: "char \<Rightarrow> bool" where
  "is_space c \<longleftrightarrow> (of_char c :: nat) \<in> {9, 10, 11, 12, 13, 32}"

definition TrimSpace :: "string \<Rightarrow> string" where
  "TrimSpace s = rev (dropWhile is_space (rev (dropWhile is_space s)))"

section \<open>Query parameters and headers\<close>

type_synonym smap = "string \<rightharpoonup> string"

text \<open>The parsed parameters as an association list without duplicates, so that their number can be
  taken.\<close>

type_synonym query_params = "(string \<times> string) list"

fun query_loop :: "string list \<Rightarrow> query_params \<Rightarrow> query_params" where
  "query_loop [] q = q"
| "query_loop (qm # qms) q =
     (case Split (CHR ''='') qm of
        [k, v] \<Rightarrow> query_loop qms (AList.update (TrimSpace k) (TrimSpace v) q)
      | _ \<Rightarrow> query_loop qms q)"

definition ParseQueryString :: "string \<Rightarrow> query_params" where
  "ParseQueryString query = (if query = [] then [] else query_loop (Split (CHR ''&'') query) [])"

record HeaderData =
  hd_Name :: string
  hd_Value :: string
  hd_IsRegex :: bool
  hd_RegexPattern :: "string \<Rightarrow> bool"

fun MatchHeaders :: "smap \<Rightarrow> HeaderData list \<Rightarrow> bool" where
  "MatchHeaders requestHeaders [] = True"
| "MatchHeaders requestHeaders (cfg # cfgs) =
     (case requestHeaders (hd_Name cfg) of
        Some value \<Rightarrow>
          if \<not> hd_IsRegex cfg then (if hd_Value cfg \<noteq> value then False else MatchHeaders requestHeaders cfgs)
          else (if \<not> hd_RegexPattern cfg value then False else MatchHeaders requestHeaders cfgs)
      | None \<Rightarrow> MatchHeaders requestHeaders cfgs)"

record queryParameterMatcher =
  qpm_name :: string
  qpm_value :: string
  qpm_isRegex :: bool
  qpm_regexPattern :: "string \<Rightarrow> bool"

definition Matches :: "query_params \<Rightarrow> queryParameterMatcher \<Rightarrow> bool" where
  "Matches requestQueryParams qpm =
     (case map_of requestQueryParams (qpm_name qpm) of
        None \<Rightarrow> False
      | Some v \<Rightarrow> if qpm_isRegex qpm then qpm_regexPattern qpm v
                  else if qpm_value qpm = [] then True else qpm_value qpm = v)"

fun MatchQueryParams :: "query_params \<Rightarrow> queryParameterMatcher list \<Rightarrow> bool" where
  "MatchQueryParams queryParams [] = True"
| "MatchQueryParams queryParams (c # cs) =
     (if \<not> Matches queryParams c then False else MatchQueryParams queryParams cs)"

section \<open>Metadata\<close>

text \<open>The hash of a value is the value itself: the digest that is computed is dropped.\<close>

definition GenerateHashedValue :: "string \<Rightarrow> string" where
  "GenerateHashedValue input = input"

text \<open>Configuration values; the entries of a map in the order an iteration meets them.\<close>

datatype meta = MStr string | MMap "(string \<times> meta) list" | MOther

type_synonym criteria = "(string \<times> string) list"

fun parent_index :: "criteria \<Rightarrow> nat \<Rightarrow> (string \<rightharpoonup> nat) \<Rightarrow> (string \<rightharpoonup> nat)" where
  "parent_index [] n m = m"
| "parent_index ((k, v) # cs) n m = parent_index cs (n + 1) (m(k \<mapsto> n))"

fun match_entries :: "(string \<rightharpoonup> nat) \<Rightarrow> (string \<times> meta) list \<Rightarrow> criteria \<Rightarrow> criteria" where
  "match_entries existing [] crit = crit"
| "match_entries existing ((k, MStr vs) # ms) crit =
     (case existing k of
        Some i \<Rightarrow> match_entries existing ms (crit[i := (k, GenerateHashedValue vs)])
      | None \<Rightarrow> match_entries existing ms (crit @ [(k, GenerateHashedValue vs)]))"
| "match_entries existing (_ # ms) crit = match_entries existing ms crit"

definition extractMetadataMatchCriteria ::
  "criteria option \<Rightarrow> (string \<times> meta) list \<Rightarrow> criteria" where
  "extractMetadataMatchCriteria parent metadataMatches =
     (let p = (case parent of None \<Rightarrow> [] | Some p \<Rightarrow> p)
      in sort_key fst (match_entries (parent_index p 0 Map.empty) metadataMatches p))"

definition NewMetadataMatchCriteriaImpl :: "(string \<times> meta) list \<Rightarrow> criteria" where
  "NewMetadataMatchCriteriaImpl metadataMatches = extractMetadataMatchCriteria None metadataMatches"

definition mosn_lb :: "(string \<times> meta) list \<Rightarrow> (string \<times> meta) list option" where
  "mosn_lb metadata =
     (case map_of metadata ''filter_metadata'' of
        Some (MMap value) \<Rightarrow> (case map_of value ''mosn.lb'' of Some (MMap l) \<Rightarrow> Some l | _ \<Rightarrow> None)
      | _ \<Rightarrow> None)"

definition GetMosnLBMetaData :: "(string \<times> meta) list \<Rightarrow> (string \<times> meta) list" where
  "GetMosnLBMetaData metadata = (case mosn_lb metadata of Some l \<Rightarrow> l | None \<Rightarrow> [])"

text \<open>A value that is not a string ends the program.\<close>

fun hashed_entries :: "(string \<times> meta) list \<Rightarrow> smap \<Rightarrow> smap outcome" where
  "hashed_entries [] m = Inr m"
| "hashed_entries ((k, MStr vs) # ms) m = hashed_entries ms (m(k \<mapsto> GenerateHashedValue vs))"
| "hashed_entries (_ # ms) m = Inl (ExplicitPanic ''Fatal'')"

definition GetClusterMosnLBMetaDataMap :: "(string \<times> meta) list \<Rightarrow> smap outcome" where
  "GetClusterMosnLBMetaDataMap metadata =
     (case mosn_lb metadata of Some l \<Rightarrow> hashed_entries l Map.empty | None \<Rightarrow> Inr Map.empty)"

section \<open>Route rules\<close>

record router_match =
  m_Prefix :: string
  m_Path :: string
  m_Regex :: string
  m_CaseSensitive :: bool
  m_Headers :: "(string \<times> string) list"

record router_config =
  r_Match :: router_match
  r_ClusterName :: string
  r_Timeout :: int
  r_MetadataMatch :: "(string \<times> meta) list"

record RouteRuleImplBase =
  caseSensitive :: bool
  routerMatch :: router_match
  rr_clusterName :: string
  rr_timeout :: int
  configHeaders :: "HeaderData list"
  configQueryParameters :: "queryParameterMatcher list"
  metadataMatchCriteria :: "criteria option"
  metaData :: "smap option"
  rp_retryOn :: bool

text \<open>Case sensitivity, header and query conditions and the retry policy of the configuration
  are not taken over: the fields keep their zero values.\<close>

definition NewRouteRuleImplBase :: "router_config \<Rightarrow> RouteRuleImplBase outcome" where
  "NewRouteRuleImplBase route =
     (let b = \<lparr>caseSensitive = False, routerMatch = r_Match route, rr_clusterName = r_ClusterName route,
               rr_timeout = r_Timeout route, configHeaders = [], configQueryParameters = [],
               metadataMatchCriteria = None, metaData = None, rp_retryOn = False\<rparr>
      in if length (r_MetadataMatch route) > 0 then
           obind (GetClusterMosnLBMetaDataMap (r_MetadataMatch route)) (\<lambda>md.
             Inr (b\<lparr>metadataMatchCriteria := Some (NewMetadataMatchCriteriaImpl (GetMosnLBMetaData (r_MetadataMatch route))),
                    metaData := Some md\<rparr>))
         else Inr b)"

definition matchRoute :: "smap \<Rightarrow> RouteRuleImplBase \<Rightarrow> bool" where
  "matchRoute headers b =
     (if \<not> MatchHeaders headers (configHeaders b) then False
      else (case headers ''querystring'' of
              None \<Rightarrow> True
            | Some qs \<Rightarrow>
                (let q = ParseQueryString qs
                 in if length q = 0 then True else MatchQueryParams q (configQueryParameters b))))"

datatype RouteBase =
    SofaRouteRuleImpl RouteRuleImplBase string
  | PathRouteRuleImpl RouteRuleImplBase string
  | PrefixRouteRuleImpl RouteRuleImplBase string
  | RegexRouteRuleImpl RouteRuleImplBase string "string \<Rightarrow> bool"

definition SofaRouteMatchKey :: string where "SofaRouteMatchKey = ''service''"
definition MosnHeaderHostKey :: string where "MosnHeaderHostKey = ''host''"
definition MosnHeaderPathKey :: string where "MosnHeaderPathKey = ''path''"

fun route_Match :: "smap \<Rightarrow> RouteBase \<Rightarrow> bool" where
  "route_Match headers (SofaRouteRuleImpl b matchValue) =
     (case headers SofaRouteMatchKey of
        Some value \<Rightarrow> value = matchValue \<or> matchValue = ''.*''
      | None \<Rightarrow> False)"
| "route_Match headers (PathRouteRuleImpl b path) =
     (matchRoute headers b \<and>
      (case headers (ToLower MosnHeaderPathKey) of
         Some v \<Rightarrow> if caseSensitive b then v = path else EqualFold v path
       | None \<Rightarrow> False))"
| "route_Match headers (PrefixRouteRuleImpl b pre) =
     (matchRoute headers b \<and>
      (case headers (ToLower MosnHeaderPathKey) of Some v \<Rightarrow> prefix pre v | None \<Rightarrow> False))"
| "route_Match headers (RegexRouteRuleImpl b re pattern) =
     (matchRoute headers b \<and>
      (case headers (ToLower MosnHeaderPathKey) of Some v \<Rightarrow> pattern v | None \<Rightarrow> False))"

section \<open>Virtual hosts\<close>

datatype SslRequirements = SslNONE | SslEXTERNALONLY | SslALL

record vhost_config =
  v_Name :: string
  v_Domains :: "string list"
  v_Routers :: "router_config list"
  v_RequireTLS :: string
  v_VirtualClusters :: "(string \<times> string \<times> string) list"

record VirtualHostImpl =
  virtualHostName :: string
  routes :: "RouteBase list"
  virtualClusters :: "(string \<times> string \<times> (string \<Rightarrow> bool)) list"
  sslRequirements :: SslRequirements

type_synonym regex_compiler = "string \<Rightarrow> (string \<Rightarrow> bool) option"

fun sofa_routes :: "RouteRuleImplBase \<Rightarrow> (string \<times> string) list \<Rightarrow> RouteBase list" where
  "sofa_routes b [] = []"
| "sofa_routes b ((name, value) # hs) =
     (if name = SofaRouteMatchKey then SofaRouteRuleImpl b value # sofa_routes b hs else sofa_routes b hs)"

definition make_routes :: "regex_compiler \<Rightarrow> router_config \<Rightarrow> RouteBase list outcome" where
  "make_routes Compile route =
     (let m = r_Match route in
      if m_Prefix m \<noteq> [] then obind (NewRouteRuleImplBase route) (\<lambda>b. Inr [PrefixRouteRuleImpl b (m_Prefix m)])
      else if m_Path m \<noteq> [] then obind (NewRouteRuleImplBase route) (\<lambda>b. Inr [PathRouteRuleImpl b (m_Path m)])
      else if m_Regex m \<noteq> [] then
        (case Compile (m_Regex m) of
           Some pat \<Rightarrow> obind (NewRouteRuleImplBase route) (\<lambda>b. Inr [RegexRouteRuleImpl b (m_Regex m) pat])
         | None \<Rightarrow> Inr [])
      else if list_ex (\<lambda>(name, _). name = SofaRouteMatchKey) (m_Headers m)
      then obind (NewRouteRuleImplBase route) (\<lambda>b. Inr (sofa_routes b (m_Headers m)))
      else Inr [])"

fun make_all_routes :: "regex_compiler \<Rightarrow> router_config list \<Rightarrow> RouteBase list outcome" where
  "make_all_routes Compile [] = Inr []"
| "make_all_routes Compile (r # rs) =
     obind (make_routes Compile r) (\<lambda>xs. obind (make_all_routes Compile rs) (\<lambda>ys. Inr (xs @ ys)))"

fun make_virtual_clusters ::
  "regex_compiler \<Rightarrow> (string \<times> string \<times> string) list \<Rightarrow> (string \<times> string \<times> (string \<Rightarrow> bool)) list" where
  "make_virtual_clusters Compile [] = []"
| "make_virtual_clusters Compile ((name, meth, pattern) # vs) =
     (case Compile pattern of
        Some p \<Rightarrow> (name, meth, p) # make_virtual_clusters Compile vs
      | None \<Rightarrow> make_virtual_clusters Compile vs)"

definition NewVirtualHostImpl :: "regex_compiler \<Rightarrow> vhost_config \<Rightarrow> VirtualHostImpl option outcome" where
  "NewVirtualHostImpl Compile vh =
     obind (make_all_routes Compile (v_Routers vh)) (\<lambda>rs.
       if length rs = 0 then Inr None
       else Inr (Some \<lparr>virtualHostName = v_Name vh, routes = rs,
              virtualClusters = make_virtual_clusters Compile (v_VirtualClusters vh),
              sslRequirements = (if v_RequireTLS vh = ''EXTERNALONLY'' then SslEXTERNALONLY
                                 else if v_RequireTLS vh = ''ALL'' then SslALL else SslNONE)\<rparr>))"

fun first_match :: "smap \<Rightarrow> RouteBase list \<Rightarrow> RouteBase option" where
  "first_match headers [] = None"
| "first_match headers (r # rs) = (if route_Match headers r then Some r else first_match headers rs)"

definition GetRouteFromEntries :: "smap \<Rightarrow> VirtualHostImpl \<Rightarrow> RouteBase option" where
  "GetRouteFromEntries headers vh = first_match headers (routes vh)"

section \<open>Choosing the virtual host\<close>

record routeMatcher =
  virtualHosts :: "(string \<times> VirtualHostImpl) list"
  defaultVirtualHost :: "VirtualHostImpl option"
  wildcardVirtualHostSuffixes :: "(nat \<times> (string \<times> VirtualHostImpl) list) list"
  greaterSortedWildcardVirtualHostSuffixes :: "nat list"

datatype route_err = NoRoutes | MultipleWildcard | DuplicateDomain string

definition add_domain :: "VirtualHostImpl \<Rightarrow> string \<Rightarrow> routeMatcher \<Rightarrow> route_err + routeMatcher" where
  "add_domain vh d rm =
     (let domain = ToLower d in
      if domain = ''*'' then
        (if defaultVirtualHost rm \<noteq> None then Inl MultipleWildcard else Inr (rm\<lparr>defaultVirtualHost := Some vh\<rparr>))
      else if length domain > 1 \<and> take 1 domain = ''*'' then
        (let sfx = wildcardVirtualHostSuffixes rm;
             m = (case map_of sfx (length domain - 1) of Some m \<Rightarrow> m | None \<Rightarrow> []);
             wildcard = drop 1 domain
         in if map_of m wildcard \<noteq> None then Inl (DuplicateDomain domain)
            else Inr (rm\<lparr>wildcardVirtualHostSuffixes :=
                           AList.update (length domain - 1) (AList.update wildcard vh m) sfx\<rparr>))
      else if map_of (virtualHosts rm) domain \<noteq> None then Inl (DuplicateDomain domain)
      else Inr (rm\<lparr>virtualHosts := AList.update domain vh (virtualHosts rm)\<rparr>))"

fun add_domains :: "VirtualHostImpl \<Rightarrow> string list \<Rightarrow> routeMatcher \<Rightarrow> route_err + routeMatcher" where
  "add_domains vh [] rm = Inr rm"
| "add_domains vh (d # ds) rm = (case add_domain vh d rm of Inl e \<Rightarrow> Inl e | Inr rm' \<Rightarrow> add_domains vh ds rm')"

fun add_virtual_hosts ::
  "regex_compiler \<Rightarrow> vhost_config list \<Rightarrow> routeMatcher \<Rightarrow> (route_err + routeMatcher) outcome" where
  "add_virtual_hosts Compile [] rm = Inr (Inr rm)"
| "add_virtual_hosts Compile (c # cs) rm =
     obind (NewVirtualHostImpl Compile c) (\<lambda>v.
       case v of
         None \<Rightarrow> Inr (Inl NoRoutes)
       | Some vh \<Rightarrow>
           (case add_domains vh (v_Domains c) rm of
              Inl e \<Rightarrow> Inr (Inl e)
            | Inr rm' \<Rightarrow> add_virtual_hosts Compile cs rm'))"

definition emptyMatcher :: routeMatcher where
  "emptyMatcher = \<lparr>virtualHosts = [], defaultVirtualHost = None, wildcardVirtualHostSuffixes = [],
     greaterSortedWildcardVirtualHostSuffixes = []\<rparr>"

definition NewRouteMatcher :: "regex_compiler \<Rightarrow> vhost_config list \<Rightarrow> (route_err + routeMatcher) outcome" where
  "NewRouteMatcher Compile vhs =
     obind (add_virtual_hosts Compile vhs emptyMatcher) (\<lambda>r.
       case r of
         Inl e \<Rightarrow> Inr (Inl e)
       | Inr rm \<Rightarrow> Inr (Inr (rm\<lparr>greaterSortedWildcardVirtualHostSuffixes :=
                                  rev (sort (map fst (wildcardVirtualHostSuffixes rm)))\<rparr>)))"

fun wildcard_loop ::
  "string \<Rightarrow> (nat \<times> (string \<times> VirtualHostImpl) list) list \<Rightarrow> nat list \<Rightarrow> VirtualHostImpl option" where
  "wildcard_loop host sfx [] = None"
| "wildcard_loop host sfx (n # ns) =
     (if n \<ge> length host then wildcard_loop host sfx ns
      else
        (let m = (case map_of sfx n of Some m \<Rightarrow> m | None \<Rightarrow> [])
         in case find (\<lambda>(domainKey, _). domainKey = drop (length host - n) host) m of
              Some (_, vh) \<Rightarrow> Some vh
            | None \<Rightarrow> wildcard_loop host sfx ns))"

definition findWildcardVirtualHost :: "string \<Rightarrow> routeMatcher \<Rightarrow> VirtualHostImpl option" where
  "findWildcardVirtualHost host rm =
     wildcard_loop host (wildcardVirtualHostSuffixes rm) (greaterSortedWildcardVirtualHostSuffixes rm)"

definition host_of :: "smap \<Rightarrow> string" where
  "host_of headers = ToLower (case headers (ToLower MosnHeaderHostKey) of Some h \<Rightarrow> h | None \<Rightarrow> [])"

definition findVirtualHost :: "smap \<Rightarrow> routeMatcher \<Rightarrow> VirtualHostImpl option" where
  "findVirtualHost headers rm =
     (if length (virtualHosts rm) = 0 \<and> defaultVirtualHost rm \<noteq> None then defaultVirtualHost rm
      else
        (let host = host_of headers in
         case map_of (virtualHosts rm) host of
           Some vh \<Rightarrow> Some vh
         | None \<Rightarrow>
             (if length (wildcardVirtualHostSuffixes rm) > 0 then
                (case findWildcardVirtualHost host rm of Some vh \<Rightarrow> Some vh | None \<Rightarrow> defaultVirtualHost rm)
              else defaultVirtualHost rm)))"

definition rm_Route :: "smap \<Rightarrow> routeMatcher \<Rightarrow> RouteBase option" where
  "rm_Route headers rm =
     (case findVirtualHost headers rm of None \<Rightarrow> None | Some vh \<Rightarrow> GetRouteFromEntries headers vh)"

section \<open>The configured domains\<close>

text \<open>
  The reference: a table of all domains in lower case with their virtual hosts. A host is
  served by its own domain; else by the longest wildcard domain that ends it, the star
  standing for at least one character; else by the domain that is a star only.
\<close>

type_synonym domain_table = "(string \<times> VirtualHostImpl) list"

definition is_wildcard :: "string \<Rightarrow> bool" where
  "is_wildcard d \<longleftrightarrow> (case d of c # w \<Rightarrow> c = CHR ''*'' \<and> w \<noteq> [] | [] \<Rightarrow> False)"

definition is_exact :: "string \<Rightarrow> bool" where
  "is_exact d \<longleftrightarrow> d \<noteq> ''*'' \<and> \<not> is_wildcard d"

definition covers :: "string \<Rightarrow> string \<Rightarrow> bool" where
  "covers host d \<longleftrightarrow> is_wildcard d \<and> suffix (tl d) host \<and> length (tl d) < length host"

definition served_by :: "domain_table \<Rightarrow> string \<Rightarrow> VirtualHostImpl option \<Rightarrow> bool" where
  "served_by tbl host r \<longleftrightarrow>
     (if is_exact host \<and> map_of tbl host \<noteq> None then r = map_of tbl host
      else if list_ex (\<lambda>(d, _). covers host d) tbl
      then list_ex (\<lambda>(d, vh). r = Some vh \<and> covers host d \<and>
             list_all (\<lambda>(d', _). covers host d' \<longrightarrow> length d' \<le> length d) tbl) tbl
      else r = map_of tbl ''*'')"

fun domain_entries :: "regex_compiler \<Rightarrow> vhost_config list \<Rightarrow> domain_table" where
  "domain_entries Compile [] = []"
| "domain_entries Compile (c # cs) =
     (case NewVirtualHostImpl Compile c of
        Inr (Some vh) \<Rightarrow> map (\<lambda>d. (ToLower d, vh)) (v_Domains c)
      | _ \<Rightarrow> []) @ domain_entries Compile cs"

section \<open>The matcher represents the table\<close>

definition wild_lookup :: "(nat \<times> (string \<times> VirtualHostImpl) list) list \<Rightarrow> string \<Rightarrow> VirtualHostImpl option" where
  "wild_lookup W w = (case map_of W (length w) of None \<Rightarrow> None | Some m \<Rightarrow> map_of m w)"

definition represents :: "domain_table \<Rightarrow> routeMatcher \<Rightarrow> bool" where
  "represents tbl rm \<longleftrightarrow> distinct (map fst tbl) \<and>
     (\<forall>d. map_of (virtualHosts rm) d = (if is_exact d then map_of tbl d else None)) \<and>
     defaultVirtualHost rm = map_of tbl ''*'' \<and>
     (\<forall>w. w \<noteq> [] \<longrightarrow> wild_lookup (wildcardVirtualHostSuffixes rm) w = map_of tbl (CHR ''*'' # w)) \<and>
     map_of (wildcardVirtualHostSuffixes rm) 0 = None"

lemma represents_empty: "represents [] emptyMatcher"
  by (simp add: represents_def emptyMatcher_def wild_lookup_def)

lemma wildcard_form: "is_wildcard d \<longleftrightarrow> length d > 1 \<and> take 1 d = ''*''"
  by (cases d) (auto simp: is_wildcard_def)

lemma wild_lookup_update:
  assumes "w \<noteq> []"
  shows "wild_lookup (AList.update (length w) (AList.update w vh (case map_of W (length w) of Some m \<Rightarrow> m | None \<Rightarrow> [])) W) x =
    (if x = w then Some vh else wild_lookup W x)"
  by (auto simp: wild_lookup_def update_conv' split: option.splits)

lemma map_of_snoc_new:
  "map_of tbl k = None \<Longrightarrow> map_of (tbl @ [(k, v)]) = (map_of tbl)(k \<mapsto> v)"
  by (auto simp: map_add_def split: option.splits)

lemma distinct_snoc: "distinct (map fst tbl) \<Longrightarrow> map_of tbl k = None \<Longrightarrow> distinct (map fst (tbl @ [(k, v)]))"
  by (simp add: map_of_eq_None_iff)

lemma add_domain_represents:
  assumes rep: "represents tbl rm" and add: "add_domain vh d rm = Inr rm'"
  shows "represents (tbl @ [(ToLower d, vh)]) rm'"
proof -
  let ?d = "ToLower d"
  consider (star) "?d = ''*''" | (wild) w where "?d = CHR ''*'' # w" "w \<noteq> []" | (exact) "is_exact ?d"
    by (cases ?d) (auto simp: is_exact_def is_wildcard_def)
  then show ?thesis
  proof cases
    case star
    then have "defaultVirtualHost rm = None" and rm': "rm' = rm\<lparr>defaultVirtualHost := Some vh\<rparr>"
      using add by (simp_all add: add_domain_def split: if_splits)
    then have new: "map_of tbl ?d = None" using rep star unfolding represents_def by metis
    show ?thesis using rep distinct_snoc [OF _ new] star
      unfolding represents_def map_of_snoc_new [OF new] rm' by (auto simp: is_exact_def)
  next
    case (wild w)
    let ?W = "wildcardVirtualHostSuffixes rm"
    let ?m = "case map_of ?W (length w) of Some m \<Rightarrow> m | None \<Rightarrow> []"
    from wild add have none: "map_of ?m w = None"
      and rm': "rm' = rm\<lparr>wildcardVirtualHostSuffixes := AList.update (length w) (AList.update w vh ?m) ?W\<rparr>"
      by (auto simp: add_domain_def Let_def split: if_splits)
    have "wild_lookup ?W w = None" using none by (auto simp: wild_lookup_def split: option.splits)
    then have new: "map_of tbl ?d = None" using rep wild by (simp add: represents_def)
    have "\<not> is_exact ?d" using wild by (simp add: is_exact_def is_wildcard_def)
    with rep distinct_snoc [OF _ new] wild show ?thesis
      unfolding represents_def map_of_snoc_new [OF new] rm'
      by (auto simp: wild_lookup_update [OF wild(2)] update_conv')
  next
    case exact
    then have "\<not> (length ?d > 1 \<and> take 1 ?d = ''*'')" "?d \<noteq> ''*''" by (auto simp: is_exact_def wildcard_form)
    with add have none: "map_of (virtualHosts rm) ?d = None"
      and rm': "rm' = rm\<lparr>virtualHosts := AList.update ?d vh (virtualHosts rm)\<rparr>"
      by (auto simp: add_domain_def Let_def split: if_splits)
    have new: "map_of tbl ?d = None" using rep none exact by (simp add: represents_def)
    have "CHR ''*'' # w \<noteq> ?d" if "w \<noteq> []" for w
    proof
      assume eq: "CHR ''*'' # w = ?d"
      have "\<not> is_exact (CHR ''*'' # w)" using that by (simp add: is_exact_def is_wildcard_def)
      with exact eq show False by metis
    qed
    with rep distinct_snoc [OF _ new] exact \<open>?d \<noteq> ''*''\<close> show ?thesis
      unfolding represents_def map_of_snoc_new [OF new] rm' by (auto simp: update_conv')
  qed
qed

lemma add_domains_represents:
  "represents tbl rm \<Longrightarrow> add_domains vh ds rm = Inr rm' \<Longrightarrow>
     represents (tbl @ map (\<lambda>d. (ToLower d, vh)) ds) rm'"
proof (induction ds arbitrary: tbl rm)
  case (Cons d ds)
  then obtain rm1 where "add_domain vh d rm = Inr rm1" "add_domains vh ds rm1 = Inr rm'"
    by (auto split: sum.splits)
  with Cons.IH [OF add_domain_represents [OF Cons.prems(1)]] show ?case by simp
qed simp

lemma add_virtual_hosts_represents:
  "represents tbl rm \<Longrightarrow> add_virtual_hosts Compile cs rm = Inr (Inr rm') \<Longrightarrow>
     represents (tbl @ domain_entries Compile cs) rm'"
proof (induction cs arbitrary: tbl rm)
  case (Cons c cs)
  then obtain vh rm1 where "NewVirtualHostImpl Compile c = Inr (Some vh)"
    "add_domains vh (v_Domains c) rm = Inr rm1" "add_virtual_hosts Compile cs rm1 = Inr (Inr rm')"
    by (auto simp: go_outcome split: option.splits)
  with Cons.IH [OF add_domains_represents [OF Cons.prems(1)]] show ?case by simp
qed simp

section \<open>The longest wildcard\<close>

abbreviation ending :: "string \<Rightarrow> nat \<Rightarrow> string" where
  "ending host n \<equiv> drop (length host - n) host"

lemma find_key: "find (\<lambda>(k, _). k = x) m = map_option (Pair x) (map_of m x)"
  by (induction m) auto

lemma wildcard_step:
  assumes "n < length host"
  shows "wildcard_loop host W (n # ns) =
    (case wild_lookup W (ending host n) of Some vh \<Rightarrow> Some vh | None \<Rightarrow> wildcard_loop host W ns)"
proof -
  have "length (ending host n) = n" using assms by simp
  then show ?thesis using assms by (auto simp: wild_lookup_def find_key Let_def split: option.splits)
qed

lemma wildcard_loop_longest:
  assumes "sorted_wrt (\<ge>) ns"
  shows "case wildcard_loop host W ns of
      None \<Rightarrow> \<forall>n \<in> set ns. n < length host \<longrightarrow> wild_lookup W (ending host n) = None
    | Some vh \<Rightarrow> \<exists>n \<in> set ns. n < length host \<and> wild_lookup W (ending host n) = Some vh \<and>
        (\<forall>n' \<in> set ns. n' < length host \<and> wild_lookup W (ending host n') \<noteq> None \<longrightarrow> n' \<le> n)"
  using assms
proof (induction ns)
  case (Cons n ns)
  show ?case
  proof (cases "n < length host")
    case True
    then show ?thesis using Cons
      by (auto simp: wildcard_step simp del: wildcard_loop.simps split: option.splits)
  next
    case False
    then show ?thesis using Cons by (auto split: option.splits)
  qed
qed simp

lemma covers_iff:
  "covers host d \<longleftrightarrow> (\<exists>n. 0 < n \<and> n < length host \<and> d = CHR ''*'' # ending host n)"
proof
  assume "covers host d"
  then obtain w where w: "d = CHR ''*'' # w" "w \<noteq> []" "suffix w host" "length w < length host"
    by (cases d) (auto simp: covers_def is_wildcard_def)
  then have "w = ending host (length w)" by (auto simp: suffix_def)
  with w show "\<exists>n. 0 < n \<and> n < length host \<and> d = CHR ''*'' # ending host n" by (metis length_greater_0_conv)
next
  assume "\<exists>n. 0 < n \<and> n < length host \<and> d = CHR ''*'' # ending host n"
  then show "covers host d" by (auto simp: covers_def is_wildcard_def suffix_drop)
qed

text \<open>What the search over the sorted suffix lengths finds, in terms of the table.\<close>

lemma findWildcard_longest:
  assumes rep: "represents tbl rm"
    and sorted: "greaterSortedWildcardVirtualHostSuffixes rm = rev (sort (map fst (wildcardVirtualHostSuffixes rm)))"
  shows "case findWildcardVirtualHost host rm of
      None \<Rightarrow> \<not> list_ex (\<lambda>(d, _). covers host d) tbl
    | Some vh \<Rightarrow> \<exists>d. (d, vh) \<in> set tbl \<and> covers host d \<and>
        list_all (\<lambda>(d', _). covers host d' \<longrightarrow> length d' \<le> length d) tbl"
proof -
  let ?W = "wildcardVirtualHostSuffixes rm" and ?ns = "greaterSortedWildcardVirtualHostSuffixes rm"
  have desc: "sorted_wrt (\<ge>) ?ns" unfolding sorted by (simp add: sorted_wrt_rev)
  have ns: "set ?ns = fst ` set ?W" unfolding sorted by simp
  have zero: "0 \<notin> set ?ns" using rep unfolding ns represents_def by (auto simp: map_of_eq_None_iff)
  have look: "wild_lookup ?W (ending host n) = map_of tbl (CHR ''*'' # ending host n)" if "0 < n" "n < length host" for n
    using rep that unfolding represents_def by (metis diff_less drop_eq_Nil leD less_trans)
  have key: "n \<in> set ?ns" if "n < length host" "wild_lookup ?W (ending host n) \<noteq> None" for n
    using that unfolding ns wild_lookup_def by (auto dest!: map_of_SomeD split: option.splits intro: rev_image_eqI)
  have entry: "\<exists>n \<in> set ?ns. n < length host \<and> d = CHR ''*'' # ending host n \<and> wild_lookup ?W (ending host n) \<noteq> None"
    if d: "(d, v) \<in> set tbl" "covers host d" for d v
  proof -
    from d(2) obtain n where n: "0 < n" "n < length host" "d = CHR ''*'' # ending host n" unfolding covers_iff by blast
    with d(1) look [OF n(1,2)] have "wild_lookup ?W (ending host n) \<noteq> None" by (auto simp: map_of_eq_None_iff intro: rev_image_eqI)
    with key n show ?thesis by blast
  qed
  note loop = wildcard_loop_longest [OF desc, of host ?W, folded findWildcardVirtualHost_def]
  show ?thesis
  proof (cases "findWildcardVirtualHost host rm")
    case None
    with loop have "\<forall>n \<in> set ?ns. n < length host \<longrightarrow> wild_lookup ?W (ending host n) = None" by simp
    with entry None show ?thesis by (fastforce simp: list_ex_iff)
  next
    case (Some vh)
    with loop obtain n where n: "n \<in> set ?ns" "n < length host" "wild_lookup ?W (ending host n) = Some vh"
      and max: "\<forall>n' \<in> set ?ns. n' < length host \<and> wild_lookup ?W (ending host n') \<noteq> None \<longrightarrow> n' \<le> n" by auto
    from n(1) zero have pos: "0 < n" by (metis gr0I)
    let ?d = "CHR ''*'' # ending host n"
    have "(?d, vh) \<in> set tbl" using look [OF pos n(2)] n(3) by (metis map_of_SomeD)
    moreover have "covers host ?d" using pos n(2) unfolding covers_iff by blast
    moreover have "length d' \<le> length ?d" if "(d', v) \<in> set tbl" "covers host d'" for d' v
      using entry [OF that] max n(2) by auto
    ultimately show ?thesis using Some by (auto simp: list_all_iff)
  qed
qed

lemma NewRouteMatcher_represents:
  assumes "NewRouteMatcher Compile vhs = Inr (Inr rm)"
  shows "represents (domain_entries Compile vhs) rm"
    and "greaterSortedWildcardVirtualHostSuffixes rm = rev (sort (map fst (wildcardVirtualHostSuffixes rm)))"
proof -
  from assms obtain rm0 where rm0: "add_virtual_hosts Compile vhs emptyMatcher = Inr (Inr rm0)"
    and rm: "rm = rm0\<lparr>greaterSortedWildcardVirtualHostSuffixes := rev (sort (map fst (wildcardVirtualHostSuffixes rm0)))\<rparr>"
    by (auto simp: NewRouteMatcher_def go_outcome)
  from add_virtual_hosts_represents [OF represents_empty rm0] show "represents (domain_entries Compile vhs) rm"
    by (simp add: represents_def rm)
  show "greaterSortedWildcardVirtualHostSuffixes rm = rev (sort (map fst (wildcardVirtualHostSuffixes rm)))"
    by (simp add: rm)
qed

lemma no_exact_domain:
  assumes "represents tbl rm"
  shows "virtualHosts rm = [] \<longleftrightarrow> \<not> list_ex (\<lambda>(d, _). is_exact d) tbl"
proof -
  have lookup: "map_of (virtualHosts rm) d = (if is_exact d then map_of tbl d else None)" for d
    using assms unfolding represents_def by (elim conjE) (rule spec)
  have "list_ex (\<lambda>(d, _). is_exact d) tbl \<longleftrightarrow> (\<exists>d. map_of (virtualHosts rm) d \<noteq> None)"
  proof -
    have "map_of (virtualHosts rm) d \<noteq> None \<longleftrightarrow> is_exact d \<and> d \<in> fst ` set tbl" for d
      unfolding lookup by (simp add: map_of_eq_None_iff del: not_None_eq)
    then show ?thesis unfolding list_ex_iff by force
  qed
  also have "\<dots> \<longleftrightarrow> virtualHosts rm \<noteq> []"
    by (cases "virtualHosts rm") (auto simp: map_of_eq_None_iff simp del: not_None_eq)
  finally show ?thesis by simp
qed

lemma NewRouteRuleImplBase_zero:
  assumes "NewRouteRuleImplBase r = Inr b"
  shows "caseSensitive b = False" and "matchRoute headers b"
proof -
  have "caseSensitive b = False \<and> configHeaders b = [] \<and> configQueryParameters b = []"
    using assms by (auto simp: NewRouteRuleImplBase_def go_outcome Let_def split: if_splits)
  then show "caseSensitive b = False" "matchRoute headers b"
    by (auto simp: matchRoute_def Let_def split: option.split)
qed

section \<open>Match criteria\<close>

text \<open>The entries of the metadata whose value is a string.\<close>

definition string_entries :: "(string \<times> meta) list \<Rightarrow> criteria" where
  "string_entries ms = List.map_filter (\<lambda>(k, v). case v of MStr s \<Rightarrow> Some (k, s) | _ \<Rightarrow> None) ms"

lemma string_entries_simps [simp]:
  "string_entries [] = []"
  "string_entries ((k, v) # ms) = (case v of MStr s \<Rightarrow> [(k, s)] | _ \<Rightarrow> []) @ string_entries ms"
  by (simp_all add: string_entries_def map_filter_def split: meta.split)

lemma match_entries_empty: "match_entries Map.empty ms crit = crit @ string_entries ms"
proof (induction ms arbitrary: crit)
  case (Cons m ms)
  obtain k v where m: "m = (k, v)" by (cases m)
  then show ?case using Cons by (cases v) (simp_all add: GenerateHashedValue_def)
qed simp

lemma criteria_sorted_entries: "NewMetadataMatchCriteriaImpl ms = sort_key fst (string_entries ms)"
  by (simp add: NewMetadataMatchCriteriaImpl_def extractMetadataMatchCriteria_def match_entries_empty)

lemma set_string_entries: "(k, s) \<in> set (string_entries ms) \<longleftrightarrow> (k, MStr s) \<in> set ms"
  by (induction ms) (auto split: meta.splits)

lemma distinct_string_entries: "distinct (map fst ms) \<Longrightarrow> distinct (map fst (string_entries ms))"
proof (induction ms)
  case (Cons m ms)
  obtain k v where m: "m = (k, v)" by (cases m)
  with Cons set_string_entries [of k _ ms] show ?case by (cases v) (force simp: image_iff)+
qed simp

lemma inj_on_keys: "distinct (map fst xs) \<Longrightarrow> inj_on fst (set xs)"
  by (simp add: distinct_map)

section \<open>Properties\<close>

text \<open>
  Where no domain is written out in full and one is a star only, the star serves
  every request: the wildcard domains are never consulted, although the package documents that
  the longest wildcard that matches is used.
\<close>

lemma star_hides_wildcards:
  assumes "NewRouteMatcher Compile vhs = Inr (Inr rm)"
    and "\<not> list_ex (\<lambda>(d, _). is_exact d) (domain_entries Compile vhs)"
    and "map_of (domain_entries Compile vhs) ''*'' = Some vh"
  shows "findVirtualHost headers rm = Some vh"
proof -
  note rep = NewRouteMatcher_represents(1) [OF assms(1)]
  have "virtualHosts rm = []" using no_exact_domain [OF rep] assms(2) by simp
  moreover have "defaultVirtualHost rm = Some vh" using rep assms(3) by (simp add: represents_def)
  ultimately show ?thesis by (simp add: findVirtualHost_def)
qed

text \<open>Otherwise the table decides: the exact domain, the longest wildcard, the star.\<close>

lemma findVirtualHost_table:
  assumes "NewRouteMatcher Compile vhs = Inr (Inr rm)"
    and "list_ex (\<lambda>(d, _). is_exact d) (domain_entries Compile vhs) \<or> map_of (domain_entries Compile vhs) ''*'' = None"
  shows "served_by (domain_entries Compile vhs) (host_of headers) (findVirtualHost headers rm)"
proof -
  let ?tbl = "domain_entries Compile vhs" and ?h = "host_of headers"
  note rep = NewRouteMatcher_represents [OF assms(1)]
  have first: "\<not> (length (virtualHosts rm) = 0 \<and> defaultVirtualHost rm \<noteq> None)"
    using no_exact_domain [OF rep(1)] assms(2) rep(1) by (auto simp: represents_def)
  have exact: "map_of (virtualHosts rm) ?h = (if is_exact ?h then map_of ?tbl ?h else None)"
    and star: "defaultVirtualHost rm = map_of ?tbl ''*''" using rep(1) by (simp_all add: represents_def)
  note wild = findWildcard_longest [OF rep, of ?h]
  have none: "findWildcardVirtualHost ?h rm = None" if "wildcardVirtualHostSuffixes rm = []"
    using that rep(2) by (simp add: findWildcardVirtualHost_def)
  show ?thesis
  proof (cases "map_of (virtualHosts rm) ?h")
    case (Some vh)
    then show ?thesis using first exact by (auto simp: findVirtualHost_def served_by_def split: if_splits)
  next
    case None
    then have "findVirtualHost headers rm =
        (case findWildcardVirtualHost ?h rm of Some vh \<Rightarrow> Some vh | None \<Rightarrow> map_of ?tbl ''*'')"
      unfolding star [symmetric] using first none by (auto simp: findVirtualHost_def Let_def split: option.split)
    with None exact wild show ?thesis
      by (cases "findWildcardVirtualHost ?h rm") (auto simp: served_by_def list_ex_iff split: if_splits)
  qed
qed


text \<open>A small configuration: one exact domain, two wildcards and a star.\<close>

definition sample_route :: router_config where
  "sample_route = \<lparr>r_Match = \<lparr>m_Prefix = ''/'', m_Path = [], m_Regex = [], m_CaseSensitive = True,
     m_Headers = [(''version'', ''v2'')]\<rparr>, r_ClusterName = ''c'', r_Timeout = 0, r_MetadataMatch = []\<rparr>"

definition sample_vhost :: "string \<Rightarrow> string list \<Rightarrow> vhost_config" where
  "sample_vhost name ds = \<lparr>v_Name = name, v_Domains = ds, v_Routers = [sample_route], v_RequireTLS = [], v_VirtualClusters = []\<rparr>"

definition sample_impl :: "string \<Rightarrow> VirtualHostImpl" where
  "sample_impl name = \<lparr>virtualHostName = name,
     routes = [PrefixRouteRuleImpl \<lparr>caseSensitive = False, routerMatch = r_Match sample_route, rr_clusterName = ''c'',
       rr_timeout = 0, configHeaders = [], configQueryParameters = [], metadataMatchCriteria = None,
       metaData = None, rp_retryOn = False\<rparr> ''/''],
     virtualClusters = [], sslRequirements = SslNONE\<rparr>"

lemma NewVirtualHostImpl_sample:
  "NewVirtualHostImpl Compile (sample_vhost name ds) = Inr (Some (sample_impl name))"
  by (simp add: NewVirtualHostImpl_def sample_vhost_def sample_impl_def sample_route_def make_routes_def
    NewRouteRuleImplBase_def)

lemma v_Domains_sample [simp]: "v_Domains (sample_vhost name ds) = ds"
  by (simp add: sample_vhost_def)

lemmas matcher_eval = NewRouteMatcher_def NewVirtualHostImpl_sample add_domain_def emptyMatcher_def ToLower_def
  lower_char_def of_char_def

text \<open>The matcher for the exact domain \<open>a\<close> and the wildcards \<open>*b\<close> and \<open>*.b\<close>.\<close>

definition sample_domains :: "vhost_config list" where
  "sample_domains = [sample_vhost ''x'' [''a''], sample_vhost ''y'' [''*b''], sample_vhost ''z'' [''*.b'']]"

lemma sample_entries:
  "domain_entries Compile sample_domains =
     [(''a'', sample_impl ''x''), (''*b'', sample_impl ''y''), (''*.b'', sample_impl ''z'')]"
  by (simp add: sample_domains_def NewVirtualHostImpl_sample ToLower_def lower_char_def of_char_def)

text \<open>A star and a wildcard, and no domain written out in full.\<close>

definition star_domains :: "vhost_config list" where
  "star_domains = [sample_vhost ''y'' [''*b''], sample_vhost ''z'' [''*'']]"

lemma star_entries:
  "domain_entries Compile star_domains = [(''*b'', sample_impl ''y''), (''*'', sample_impl ''z'')]"
  by (simp add: star_domains_def NewVirtualHostImpl_sample ToLower_def lower_char_def of_char_def)


text \<open>
  The header conditions and the case sensitivity of a configured route have no
  effect: a virtual host with a single path or prefix route serves a request by its path alone,
  a path always without regard to case.
\<close>

lemma route_conditions_ignored:
  assumes "NewVirtualHostImpl Compile vh = Inr (Some v)" and "v_Routers vh = [r]"
    and "m_Prefix (r_Match r) \<noteq> [] \<or> m_Path (r_Match r) \<noteq> []"
  shows "(GetRouteFromEntries headers v \<noteq> None) =
    (case headers (ToLower MosnHeaderPathKey) of
       None \<Rightarrow> False
     | Some p \<Rightarrow> if m_Prefix (r_Match r) \<noteq> [] then prefix (m_Prefix (r_Match r)) p else EqualFold p (m_Path (r_Match r)))"
proof -
  from assms obtain b where b: "NewRouteRuleImplBase r = Inr b"
    and v: "routes v = [if m_Prefix (r_Match r) \<noteq> [] then PrefixRouteRuleImpl b (m_Prefix (r_Match r))
      else PathRouteRuleImpl b (m_Path (r_Match r))]"
    by (auto simp: NewVirtualHostImpl_def make_routes_def go_outcome Let_def split: if_splits)
  note z = NewRouteRuleImplBase_zero [OF b]
  show ?thesis by (auto simp: GetRouteFromEntries_def v z split: option.split)
qed

text \<open>
  C30 (equivalence). The match criteria of a route do not depend on the order in which the
  metadata of the configuration is iterated: they are the string entries, sorted by name.
\<close>

theorem criteria_order_independent:
  assumes "distinct (map fst ms)" and "mset ms = mset ms'"
  shows "NewMetadataMatchCriteriaImpl ms = NewMetadataMatchCriteriaImpl ms' \<and>
    sorted (map fst (NewMetadataMatchCriteriaImpl ms)) \<and>
    mset (NewMetadataMatchCriteriaImpl ms) = mset (string_entries ms)"
proof -
  have "set (string_entries ms) = set (string_entries ms')"
    using mset_eq_setD [OF assms(2)] by (auto simp: set_string_entries)
  moreover have "distinct (map fst ms')" using assms by (metis mset_eq_imp_distinct_iff mset_map)
  ultimately have eq: "sort_key fst (string_entries ms) = sort_key fst (string_entries ms')"
    using distinct_string_entries [OF assms(1)] distinct_string_entries [of ms']
    by (intro map_sorted_distinct_set_unique [where f = fst]) (auto simp: distinct_map inj_on_def)
  show ?thesis unfolding criteria_sorted_entries by (intro conjI eq sorted_sort_key mset_sort)
qed

theorem criteria_order_independent_witness:
  "NewMetadataMatchCriteriaImpl [(''zone'', MStr ''a''), (''label'', MStr ''gray'')] =
   NewMetadataMatchCriteriaImpl [(''label'', MStr ''gray''), (''zone'', MStr ''a'')]"
  using criteria_order_independent [of "[(''zone'', MStr ''a''), (''label'', MStr ''gray'')]"
    "[(''label'', MStr ''gray''), (''zone'', MStr ''a'')]"] by simp

end
