(* ===== verification/Subset_LB.thy ===== *)
theory Subset_LB
  imports Router Load_Balancer
begin

text \<open>
  Load balancing by host metadata: \<open>pkg/upstream/cluster/subsetlbimpl.go\<close>, with the sorted sets
  of \<open>pkg/types/upstream.go\<close>. Hosts are numbers; their addresses, metadata and health are
  arguments. The subsets form a trie over pairs of a metadata key and a value. Entries are
  pointers in the code and are reached by their path here. The counters are left out.
\<close>

section \<open>Keys\<close>

fun dedup :: "string list \<Rightarrow> string list \<Rightarrow> string list" where
  "dedup keys [] = keys"
| "dedup keys (k # ks) = dedup (if k \<in> set keys then keys else keys @ [k]) ks"

definition InitSet :: "string list \<Rightarrow> string list" where
  "InitSet input = sort (dedup [] input)"

definition InitSortedMap :: "(string \<times> string) list \<Rightarrow> (string \<times> string) list" where
  "InitSortedMap input = map (\<lambda>k. (k, the (map_of input k))) (sort (map fst input))"

fun GenerateSubsetKeys :: "string list list \<Rightarrow> string list list \<Rightarrow> string list list" where
  "GenerateSubsetKeys ssst [] = ssst"
| "GenerateSubsetKeys ssst (keys # keysArray) =
     (let s = InitSet keys in GenerateSubsetKeys (if s \<in> set ssst then ssst else ssst @ [s]) keysArray)"

type_synonym kvs = "(string \<times> string) list"

definition GenerateDftSubsetKeys :: "(string \<times> string) list \<Rightarrow> kvs" where
  "GenerateDftSubsetKeys dftkeys = map (\<lambda>(k, v). (k, GenerateHashedValue v)) dftkeys"

datatype FallBackPolicy = NoFallBack | AnyEndPoint | DefaultSubset | OtherPolicy

record LBSubsetInfo =
  lbsi_enabled :: bool
  lbsi_fallbackPolicy :: FallBackPolicy
  lbsi_defaultSubSet :: "(string \<times> string) list"
  lbsi_subSetKeys :: "string list list"

definition NewLBSubsetInfo :: "FallBackPolicy \<Rightarrow> (string \<times> string) list \<Rightarrow> string list list \<Rightarrow> LBSubsetInfo" where
  "NewLBSubsetInfo policy dflt selectors =
     \<lparr>lbsi_enabled = (length selectors \<noteq> 0), lbsi_fallbackPolicy = policy,
      lbsi_defaultSubSet = InitSortedMap dflt, lbsi_subSetKeys = GenerateSubsetKeys [] selectors\<rparr>"

section \<open>Hosts of a subset\<close>

record host_info =
  hi_addr :: "nat \<Rightarrow> string"
  hi_meta :: "nat \<Rightarrow> smap"
  hi_health :: "nat \<Rightarrow> bool"

fun HostMatches :: "kvs \<Rightarrow> smap \<Rightarrow> bool" where
  "HostMatches [] hostMetadata = True"
| "HostMatches ((k, v) # kvs) hostMetadata =
     (case hostMetadata k of
        Some value \<Rightarrow> if value \<noteq> v then False else HostMatches kvs hostMetadata
      | None \<Rightarrow> False)"

fun extract_loop :: "string list \<Rightarrow> smap \<Rightarrow> kvs" where
  "extract_loop [] metadata = []"
| "extract_loop (key # keys) metadata =
     (case metadata key of Some v \<Rightarrow> (key, v) # extract_loop keys metadata | None \<Rightarrow> [])"

definition ExtractSubsetMetadata :: "string list \<Rightarrow> smap \<Rightarrow> kvs" where
  "ExtractSubsetMetadata subsetKeys metadata =
     (let kvs = extract_loop subsetKeys metadata in if length kvs \<noteq> length subsetKeys then [] else kvs)"

text \<open>The predicate of the fallback subset stays nil for an unknown policy.\<close>

datatype predicate = AnyHost | Matching kvs | NilPredicate

fun holds :: "host_info \<Rightarrow> predicate \<Rightarrow> nat \<Rightarrow> bool outcome" where
  "holds hi AnyHost h = Inr True"
| "holds hi (Matching kvs) h = Inr (HostMatches kvs (hi_meta hi h))"
| "holds hi NilPredicate h = Inl NilDereference"

fun filter_hosts :: "host_info \<Rightarrow> predicate \<Rightarrow> nat list \<Rightarrow> nat list outcome" where
  "filter_hosts hi p [] = Inr []"
| "filter_hosts hi p (h # hs) =
     obind (holds hi p h) (\<lambda>b. obind (filter_hosts hi p hs) (\<lambda>r. Inr (if b then h # r else r)))"

fun add_final :: "host_info \<Rightarrow> nat list \<Rightarrow> nat list \<Rightarrow> nat list" where
  "add_final hi hosts [] = hosts"
| "add_final hi hosts (h # hs) =
     add_final hi (if list_ex (\<lambda>o'. hi_addr hi h = hi_addr hi o') hosts then hosts else hosts @ [h]) hs"

text \<open>
  Removing an address: the loop runs over the indices of the slice as it was, while each
  removal moves elements in the array and shortens the slice.
\<close>

fun remove_scan :: "host_info \<Rightarrow> string \<Rightarrow> nat list \<Rightarrow> nat list \<times> nat \<Rightarrow> (nat list \<times> nat) outcome" where
  "remove_scan hi a [] s = Inr s"
| "remove_scan hi a (i # js) (arr, len) =
     obind (go_index arr (int i)) (\<lambda>h.
       if a = hi_addr hi h then
         (if i + 1 \<le> len then remove_scan hi a js (take i arr @ drop (i + 1) (take len arr) @ drop (len - 1) arr, len - 1)
          else Inl SliceBoundsOutOfRange)
       else remove_scan hi a js (arr, len))"

fun remove_final :: "host_info \<Rightarrow> nat list \<Rightarrow> nat list \<Rightarrow> nat list outcome" where
  "remove_final hi hosts [] = Inr hosts"
| "remove_final hi hosts (h # hs) =
     obind (remove_scan hi (hi_addr hi h) [0..<length hosts] (hosts, length hosts)) (\<lambda>(arr, len).
       remove_final hi (take len arr) hs)"

definition GetFinalHosts :: "host_info \<Rightarrow> nat list \<Rightarrow> nat list \<Rightarrow> nat list \<Rightarrow> nat list outcome" where
  "GetFinalHosts hi hosts hostsAdded hostsRemoved = remove_final hi (add_final hi hosts hostsAdded) hostsRemoved"

record subset_set =
  hs_hosts :: "nat list"
  hs_healthy :: "nat list"

definition UpdateHostSubset :: "host_info \<Rightarrow> predicate \<Rightarrow> nat list \<Rightarrow> nat list \<Rightarrow> subset_set \<Rightarrow> subset_set outcome" where
  "UpdateHostSubset hi p hostsAdded hostsRemoved s =
     obind (filter_hosts hi p hostsAdded) (\<lambda>filteredAdded.
     obind (filter_hosts hi p hostsRemoved) (\<lambda>filteredRemoved.
     obind (GetFinalHosts hi (hs_hosts s) filteredAdded filteredRemoved) (\<lambda>finalhosts.
       Inr \<lparr>hs_hosts = finalhosts, hs_healthy = filter (hi_health hi) finalhosts\<rparr>)))"

section \<open>Priority subsets\<close>

record PrioritySubset =
  ps_sets :: "subset_set list"
  ps_empty :: bool
  ps_lb :: "LoadBalancer option"
  ps_pred :: predicate

definition ps_GetOrCreate :: "nat \<Rightarrow> subset_set list \<Rightarrow> subset_set list" where
  "ps_GetOrCreate priority sets = sets @ replicate (priority + 1 - length sets) \<lparr>hs_hosts = [], hs_healthy = []\<rparr>"

definition ps_Update ::
  "host_info \<Rightarrow> nat \<Rightarrow> nat list \<Rightarrow> nat list \<Rightarrow> PrioritySubset \<Rightarrow> PrioritySubset outcome" where
  "ps_Update hi priority hostsAdded hostsRemoved ps =
     (let sets = ps_GetOrCreate priority (ps_sets ps) in
      obind (UpdateHostSubset hi (ps_pred ps) hostsAdded hostsRemoved (sets ! priority)) (\<lambda>s.
        let sets = sets[priority := s]
        in Inr (ps\<lparr>ps_sets := sets, ps_empty := (if list_ex (\<lambda>s. length (hs_hosts s) > 0) sets then False else ps_empty ps)\<rparr>)))"

fun ps_fill :: "host_info \<Rightarrow> nat \<Rightarrow> nat list list \<Rightarrow> PrioritySubset \<Rightarrow> PrioritySubset outcome" where
  "ps_fill hi i [] ps = Inr ps"
| "ps_fill hi i (hosts # hss) ps = obind (ps_Update hi i hosts [] ps) (ps_fill hi (i + 1) hss)"

definition NewPrioritySubsetImpl ::
  "host_info \<Rightarrow> LoadBalancerType option \<Rightarrow> nat list list \<Rightarrow> predicate \<Rightarrow> PrioritySubset outcome" where
  "NewPrioritySubsetImpl hi lbType original p =
     obind (ps_fill hi 0 original
              \<lparr>ps_sets = [], ps_empty = \<not> list_ex (\<lambda>hs. length hs > 0) original, ps_lb = None, ps_pred = p\<rparr>)
       (\<lambda>ps. Inr (ps\<lparr>ps_lb := map_option NewLoadBalancer lbType\<rparr>))"

section \<open>The trie\<close>

datatype entry = Entry (entry_children: "(string \<times> (string \<times> entry) list) list")
  (entry_subset: "PrioritySubset option")

type_synonym trie = "(string \<times> (string \<times> entry) list) list"

fun FindSubset :: "trie \<Rightarrow> kvs \<Rightarrow> entry option" where
  "FindSubset subSets [] = None"
| "FindSubset subSets ((k, v) # cs) =
     (case map_of subSets k of
        Some vsMap \<Rightarrow>
          (case map_of vsMap v of
             Some vsEntry \<Rightarrow> if cs = [] then Some vsEntry else FindSubset (entry_children vsEntry) cs
           | None \<Rightarrow> None)
      | None \<Rightarrow> None)"

text \<open>
  The path to an entry, created where it is missing, and what the caller does to the entry at
  its end.
\<close>

fun at_entry :: "(PrioritySubset option \<Rightarrow> PrioritySubset option) \<Rightarrow> trie \<Rightarrow> kvs \<Rightarrow> trie" where
  "at_entry f subsets [] = subsets"
| "at_entry f subsets ((name, value) # kvs) =
     (let vsMap = (case map_of subsets name of Some m \<Rightarrow> m | None \<Rightarrow> []);
          e = (case map_of vsMap value of Some e \<Rightarrow> e | None \<Rightarrow> Entry [] None);
          e' = (if kvs = [] then Entry (entry_children e) (f (entry_subset e))
                else Entry (at_entry f (entry_children e) kvs) (entry_subset e))
      in AList.update name (AList.update value e' vsMap) subsets)"

definition FindOrCreateSubset :: "trie \<Rightarrow> kvs \<Rightarrow> trie" where
  "FindOrCreateSubset subsets kvs = at_entry (\<lambda>ps. ps) subsets kvs"

definition SetPrioritySubset :: "PrioritySubset \<Rightarrow> trie \<Rightarrow> kvs \<Rightarrow> trie" where
  "SetPrioritySubset ps subsets kvs = at_entry (\<lambda>_. Some ps) subsets kvs"

definition subset_at :: "trie \<Rightarrow> kvs \<Rightarrow> PrioritySubset option" where
  "subset_at subsets kvs = (case FindSubset subsets kvs of Some e \<Rightarrow> entry_subset e | None \<Rightarrow> None)"

section \<open>The balancer\<close>

record subSetLoadBalancer =
  sslb_lbType :: "LoadBalancerType option"
  fallBackPolicy :: FallBackPolicy
  defaultSubSetMetadata :: kvs
  subSetKeys :: "string list list"
  fallbackSubset :: "PrioritySubset option"
  subSets :: trie

definition UpdateFallbackSubset ::
  "host_info \<Rightarrow> nat list list \<Rightarrow> nat \<Rightarrow> nat list \<Rightarrow> nat list \<Rightarrow> subSetLoadBalancer \<Rightarrow> subSetLoadBalancer outcome" where
  "UpdateFallbackSubset hi original priority hostAdded hostsRemoved s =
     (if fallBackPolicy s = NoFallBack then Inr s
      else
        obind (case fallbackSubset s of
                 Some ps \<Rightarrow> Inr ps
               | None \<Rightarrow> NewPrioritySubsetImpl hi (sslb_lbType s) original
                   (case fallBackPolicy s of
                      AnyEndPoint \<Rightarrow> AnyHost
                    | DefaultSubset \<Rightarrow> Matching (defaultSubSetMetadata s)
                    | _ \<Rightarrow> NilPredicate)) (\<lambda>ps.
        obind (ps_Update hi priority hostAdded hostsRemoved ps) (\<lambda>ps'.
          Inr (s\<lparr>fallbackSubset := Some ps'\<rparr>))))"

definition process_key ::
  "host_info \<Rightarrow> nat list list \<Rightarrow> nat \<Rightarrow> nat list \<Rightarrow> nat list \<Rightarrow> bool \<Rightarrow> nat \<Rightarrow> string list \<Rightarrow>
     subSetLoadBalancer \<Rightarrow> subSetLoadBalancer outcome" where
  "process_key hi original priority hostAdded hostsRemoved addinghost h key s =
     (let kvs = ExtractSubsetMetadata key (hi_meta hi h) in
      if length kvs > 0 then
        (let t = FindOrCreateSubset (subSets s) kvs in
         case subset_at t kvs of
           Some ps \<Rightarrow>
             obind (ps_Update hi priority hostAdded hostsRemoved ps) (\<lambda>ps'.
               Inr (s\<lparr>subSets := SetPrioritySubset ps' t kvs\<rparr>))
         | None \<Rightarrow>
             if addinghost then
               obind (NewPrioritySubsetImpl hi (sslb_lbType s) original (Matching kvs)) (\<lambda>ps'.
                 Inr (s\<lparr>subSets := SetPrioritySubset ps' t kvs\<rparr>))
             else Inr (s\<lparr>subSets := t\<rparr>))
      else Inr s)"

fun process_keys ::
  "host_info \<Rightarrow> nat list list \<Rightarrow> nat \<Rightarrow> nat list \<Rightarrow> nat list \<Rightarrow> bool \<Rightarrow> nat \<Rightarrow> string list list \<Rightarrow>
     subSetLoadBalancer \<Rightarrow> subSetLoadBalancer outcome" where
  "process_keys hi original priority added removed adding h [] s = Inr s"
| "process_keys hi original priority added removed adding h (key # keys) s =
     obind (process_key hi original priority added removed adding h key s)
       (process_keys hi original priority added removed adding h keys)"

fun process_hosts ::
  "host_info \<Rightarrow> nat list list \<Rightarrow> nat \<Rightarrow> nat list \<Rightarrow> nat list \<Rightarrow> bool \<Rightarrow> nat list \<Rightarrow>
     subSetLoadBalancer \<Rightarrow> subSetLoadBalancer outcome" where
  "process_hosts hi original priority added removed adding [] s = Inr s"
| "process_hosts hi original priority added removed adding (h # hs) s =
     obind (process_keys hi original priority added removed adding h (subSetKeys s) s)
       (process_hosts hi original priority added removed adding hs)"

text \<open>The added and the removed hosts are the values of a map, so either may come first.\<close>

definition ProcessSubsets ::
  "bool \<Rightarrow> host_info \<Rightarrow> nat list list \<Rightarrow> nat \<Rightarrow> nat list \<Rightarrow> nat list \<Rightarrow> subSetLoadBalancer \<Rightarrow>
     subSetLoadBalancer outcome" where
  "ProcessSubsets addedFirst hi original priority added removed s =
     (let adds = process_hosts hi original priority added removed True added;
          dels = process_hosts hi original priority added removed False removed
      in if addedFirst then obind (adds s) dels else obind (dels s) adds)"

definition sslb_Update ::
  "bool \<Rightarrow> host_info \<Rightarrow> nat list list \<Rightarrow> nat \<Rightarrow> nat list \<Rightarrow> nat list \<Rightarrow> subSetLoadBalancer \<Rightarrow>
     subSetLoadBalancer outcome" where
  "sslb_Update addedFirst hi original priority added removed s =
     obind (UpdateFallbackSubset hi original priority added removed s)
       (ProcessSubsets addedFirst hi original priority added removed)"

fun update_all ::
  "host_info \<Rightarrow> nat list list \<Rightarrow> nat \<Rightarrow> nat list list \<Rightarrow> subSetLoadBalancer \<Rightarrow> subSetLoadBalancer outcome" where
  "update_all hi original i [] s = Inr s"
| "update_all hi original i (hosts # hss) s =
     obind (sslb_Update True hi original i hosts [] s) (update_all hi original (i + 1) hss)"

definition NewSubsetLoadBalancer ::
  "LoadBalancerType option \<Rightarrow> LBSubsetInfo \<Rightarrow> host_info \<Rightarrow> nat list list \<Rightarrow> subSetLoadBalancer outcome" where
  "NewSubsetLoadBalancer lbType subsets hi original =
     update_all hi original 0 original
       \<lparr>sslb_lbType = lbType, fallBackPolicy = lbsi_fallbackPolicy subsets,
        defaultSubSetMetadata = GenerateDftSubsetKeys (lbsi_defaultSubSet subsets),
        subSetKeys = lbsi_subSetKeys subsets, fallbackSubset = None, subSets = []\<rparr>"

definition ps_ChooseHost :: "nat \<times> nat \<Rightarrow> PrioritySubset \<Rightarrow> (PrioritySubset \<times> nat option) outcome" where
  "ps_ChooseHost draws ps =
     (case ps_lb ps of
        None \<Rightarrow> Inl NilDereference
      | Some l \<Rightarrow> obind (ChooseHost (map hs_healthy (ps_sets ps)) draws l) (\<lambda>(l', h).
          Inr (ps\<lparr>ps_lb := Some l'\<rparr>, h)))"

text \<open>Every entry is active; one without a subset of its own is used like any other.\<close>

definition TryChooseHostFromContext ::
  "nat \<times> nat \<Rightarrow> kvs option \<Rightarrow> subSetLoadBalancer \<Rightarrow> (subSetLoadBalancer \<times> nat option \<times> bool) outcome" where
  "TryChooseHostFromContext draws matchCriteria s =
     (case matchCriteria of
        None \<Rightarrow> Inr (s, None, False)
      | Some cs \<Rightarrow>
          (case FindSubset (subSets s) cs of
             None \<Rightarrow> Inr (s, None, False)
           | Some e \<Rightarrow>
               (case entry_subset e of
                  None \<Rightarrow> Inl NilDereference
                | Some ps \<Rightarrow> obind (ps_ChooseHost draws ps) (\<lambda>(ps', h).
                    Inr (s\<lparr>subSets := SetPrioritySubset ps' (subSets s) cs\<rparr>, h, True)))))"

text \<open>A host that was chosen is logged with its address, so no host at all ends in a panic.\<close>

definition sslb_ChooseHost ::
  "nat \<times> nat \<Rightarrow> kvs option option \<Rightarrow> subSetLoadBalancer \<Rightarrow> (subSetLoadBalancer \<times> nat option) outcome" where
  "sslb_ChooseHost draws ctx s =
     obind (case ctx of None \<Rightarrow> Inr (s, None, False) | Some c \<Rightarrow> TryChooseHostFromContext draws c s) (\<lambda>(s, host, chosen).
       if chosen then (case host of None \<Rightarrow> Inl NilDereference | Some h \<Rightarrow> Inr (s, Some h))
       else
         (case fallbackSubset s of
            None \<Rightarrow> Inr (s, None)
          | Some ps \<Rightarrow>
              (let sets = ps_GetOrCreate 0 (ps_sets ps); ps = ps\<lparr>ps_sets := sets\<rparr> in
               if length (hs_hosts (sets ! 0)) > 0
               then obind (ps_ChooseHost draws ps) (\<lambda>(ps', h). Inr (s\<lparr>fallbackSubset := Some ps'\<rparr>, h))
               else Inr (s\<lparr>fallbackSubset := Some ps\<rparr>, None))))"

section \<open>The trie as a map from paths\<close>

lemma subset_at_Nil [simp]: "subset_at t [] = None"
  by (simp add: subset_at_def)

lemma subset_at_Cons:
  "subset_at t ((k, v) # cs) =
     (let e = Option.bind (map_of t k) (\<lambda>m. map_of m v)
      in if cs = [] then Option.bind e entry_subset else Option.bind e (\<lambda>e. subset_at (entry_children e) cs))"
  by (auto simp: subset_at_def split: option.split bind_splits)

lemma subset_at_empty [simp]: "subset_at [] kvs = None"
  by (cases kvs) (auto simp: subset_at_Cons Let_def)

text \<open>A path and what is at it, after an entry was visited: \<open>at_entry\<close> is an update of this map.\<close>

lemma subset_at_at_entry:
  "kvs \<noteq> [] \<Longrightarrow> subset_at (at_entry f t kvs) p = (if p = kvs then f (subset_at t kvs) else subset_at t p)"
proof (induction kvs arbitrary: t p)
  case (Cons kv kvs)
  obtain k v where kv: "kv = (k, v)" by (cases kv)
  show ?case
  proof (cases p)
    case (Cons q cs)
    obtain k' v' where q: "q = (k', v')" by (cases q)
    show ?thesis using Cons.IH
      by (auto simp: Cons q kv subset_at_Cons update_conv' Let_def split: option.splits bind_splits)
  qed simp
qed simp

lemma subset_at_FindOrCreate [simp]: "kvs \<noteq> [] \<Longrightarrow> subset_at (FindOrCreateSubset t kvs) = subset_at t"
  by (rule ext) (simp add: FindOrCreateSubset_def subset_at_at_entry)

lemma subset_at_Set:
  "kvs \<noteq> [] \<Longrightarrow> subset_at (SetPrioritySubset ps t kvs) = (subset_at t)(kvs \<mapsto> ps)"
  by (rule ext) (simp add: SetPrioritySubset_def subset_at_at_entry)

section \<open>Subsets hold matching hosts only\<close>

lemma HostMatches_iff: "HostMatches kvs m \<longleftrightarrow> (\<forall>(k, v) \<in> set kvs. m k = Some v)"
  by (induction kvs m rule: HostMatches.induct) (auto split: option.splits)

definition ps_ok :: "(nat \<Rightarrow> smap) \<Rightarrow> kvs \<Rightarrow> PrioritySubset \<Rightarrow> bool" where
  "ps_ok M kvs ps \<longleftrightarrow> ps_pred ps = Matching kvs \<and>
     (\<forall>s \<in> set (ps_sets ps). \<forall>h \<in> set (hs_hosts s) \<union> set (hs_healthy s). HostMatches kvs (M h))"

definition subsets_ok :: "(nat \<Rightarrow> smap) \<Rightarrow> subSetLoadBalancer \<Rightarrow> bool" where
  "subsets_ok M s \<longleftrightarrow> (\<forall>kvs ps. subset_at (subSets s) kvs = Some ps \<longrightarrow> ps_ok M kvs ps)"

lemma filter_hosts_Matching:
  "filter_hosts hi (Matching kvs) hs = Inr (filter (\<lambda>h. HostMatches kvs (hi_meta hi h)) hs)"
  by (induction hs) auto

lemma set_add_final: "set (add_final hi hosts hs) \<subseteq> set hosts \<union> set hs"
  by (induction hi hosts hs rule: add_final.induct) (auto split: if_splits)

lemma set_remove_scan: "remove_scan hi a js (arr, len) = Inr (arr', len') \<Longrightarrow> set arr' \<subseteq> set arr"
proof (induction js arbitrary: arr len)
  case (Cons i js)
  let ?arr = "take i arr @ drop (i + 1) (take len arr) @ drop (len - 1) arr"
  have sub: "set ?arr \<subseteq> set arr" by (auto dest: in_set_takeD in_set_dropD)
  from Cons.prems have "remove_scan hi a js (?arr, len - 1) = Inr (arr', len') \<or>
      remove_scan hi a js (arr, len) = Inr (arr', len')"
    by (simp only: remove_scan.simps obind_eq_Inr) (elim exE conjE, simp split: if_splits)
  with Cons.IH sub show ?case by blast
qed simp

lemma set_remove_final: "remove_final hi hosts hs = Inr hosts' \<Longrightarrow> set hosts' \<subseteq> set hosts"
proof (induction hs arbitrary: hosts)
  case (Cons h hs)
  then obtain arr len where r: "remove_scan hi (hi_addr hi h) [0..<length hosts] (hosts, length hosts) = Inr (arr, len)"
    "remove_final hi (take len arr) hs = Inr hosts'" by (auto simp: go_outcome)
  from Cons.IH [OF r(2)] set_remove_scan [OF r(1)] show ?case by (auto dest: in_set_takeD)
qed simp

lemma ps_Update_ok:
  assumes "ps_ok (hi_meta hi) kvs ps" and "ps_Update hi priority added removed ps = Inr ps'"
  shows "ps_ok (hi_meta hi) kvs ps'"
proof -
  let ?sets = "ps_GetOrCreate priority (ps_sets ps)" and ?m = "\<lambda>h. HostMatches kvs (hi_meta hi h)"
  have sets: "\<forall>s \<in> set ?sets. \<forall>h \<in> set (hs_hosts s) \<union> set (hs_healthy s). ?m h"
    using assms(1) by (auto simp: ps_ok_def ps_GetOrCreate_def)
  have "priority < length ?sets" by (simp add: ps_GetOrCreate_def)
  then have old: "\<forall>h \<in> set (hs_hosts (?sets ! priority)). ?m h" using sets by auto
  from assms obtain final where
    f: "remove_final hi (add_final hi (hs_hosts (?sets ! priority)) (filter ?m added)) (filter ?m removed) = Inr final"
    and ps': "ps_sets ps' = ?sets[priority := \<lparr>hs_hosts = final, hs_healthy = filter (hi_health hi) final\<rparr>]"
      "ps_pred ps' = ps_pred ps"
    by (auto simp: ps_Update_def UpdateHostSubset_def GetFinalHosts_def ps_ok_def filter_hosts_Matching go_outcome Let_def)
  have "set final \<subseteq> set (hs_hosts (?sets ! priority)) \<union> set (filter ?m added)"
    using set_remove_final [OF f] set_add_final by (meson subset_trans)
  with old have "\<forall>h \<in> set final. ?m h" by auto
  with sets assms(1) ps' show ?thesis by (auto simp: ps_ok_def dest!: set_update_subset_insert [THEN subsetD])
qed

lemma ps_fill_ok:
  "ps_ok (hi_meta hi) kvs ps \<Longrightarrow> ps_fill hi i hss ps = Inr ps' \<Longrightarrow> ps_ok (hi_meta hi) kvs ps'"
proof (induction hss arbitrary: i ps)
  case (Cons hs hss)
  then obtain ps1 where "ps_Update hi i hs [] ps = Inr ps1" "ps_fill hi (i + 1) hss ps1 = Inr ps'"
    by (auto simp: go_outcome)
  with Cons.IH ps_Update_ok [OF Cons.prems(1)] show ?case by blast
qed simp

lemma NewPrioritySubsetImpl_ok:
  assumes "NewPrioritySubsetImpl hi t original (Matching kvs) = Inr ps"
  shows "ps_ok (hi_meta hi) kvs ps"
proof -
  from assms obtain ps0 where
    f: "ps_fill hi 0 original \<lparr>ps_sets = [], ps_empty = \<not> list_ex (\<lambda>hs. length hs > 0) original, ps_lb = None,
      ps_pred = Matching kvs\<rparr> = Inr ps0" and ps: "ps = ps0\<lparr>ps_lb := map_option NewLoadBalancer t\<rparr>"
    by (auto simp: NewPrioritySubsetImpl_def go_outcome)
  from ps_fill_ok [OF _ f, of kvs] have "ps_ok (hi_meta hi) kvs ps0" by (simp add: ps_ok_def)
  then show ?thesis by (simp add: ps ps_ok_def)
qed

lemma subsets_ok_Set:
  assumes "subsets_ok M s" and "ps_ok M kvs ps" and "kvs \<noteq> []" and "subset_at t = subset_at (subSets s)"
  shows "subsets_ok M (s\<lparr>subSets := SetPrioritySubset ps t kvs\<rparr>)"
  using assms by (auto simp: subsets_ok_def subset_at_Set)

lemma process_key_ok:
  assumes "subsets_ok (hi_meta hi) s" and "process_key hi original priority added removed adding h key s = Inr s'"
  shows "subsets_ok (hi_meta hi) s'"
proof -
  let ?kvs = "ExtractSubsetMetadata key (hi_meta hi h)"
  show ?thesis
  proof (cases "?kvs = []")
    case True
    with assms show ?thesis by (simp add: process_key_def)
  next
    case False
    note t = subset_at_FindOrCreate [OF False, of "subSets s"]
    show ?thesis
    proof (cases "subset_at (subSets s) ?kvs")
      case None
      then show ?thesis using assms False t
        by (auto simp: process_key_def Let_def go_outcome subsets_ok_def [of _ "s\<lparr>subSets := _\<rparr>"] subsets_ok_def [of _ s]
            subset_at_Set NewPrioritySubsetImpl_ok split: if_splits)
    next
      case (Some ps)
      then have "ps_ok (hi_meta hi) ?kvs ps" using assms(1) by (simp add: subsets_ok_def)
      then show ?thesis using assms False t Some
        by (auto simp: process_key_def Let_def go_outcome intro!: subsets_ok_Set dest: ps_Update_ok)
    qed
  qed
qed

lemma process_keys_ok:
  "subsets_ok (hi_meta hi) s \<Longrightarrow> process_keys hi original priority added removed adding h keys s = Inr s' \<Longrightarrow>
     subsets_ok (hi_meta hi) s'"
proof (induction keys arbitrary: s)
  case (Cons key keys)
  then obtain s1 where s1: "process_key hi original priority added removed adding h key s = Inr s1"
    "process_keys hi original priority added removed adding h keys s1 = Inr s'" by (auto simp: go_outcome)
  from Cons.IH [OF process_key_ok [OF Cons.prems(1) s1(1)] s1(2)] show ?case .
qed simp

lemma process_hosts_ok:
  "subsets_ok (hi_meta hi) s \<Longrightarrow> process_hosts hi original priority added removed adding hs s = Inr s' \<Longrightarrow>
     subsets_ok (hi_meta hi) s'"
proof (induction hs arbitrary: s)
  case (Cons h hs)
  then obtain s1 where s1: "process_keys hi original priority added removed adding h (subSetKeys s) s = Inr s1"
    "process_hosts hi original priority added removed adding hs s1 = Inr s'" by (auto simp: go_outcome)
  from Cons.IH [OF process_keys_ok [OF Cons.prems(1) s1(1)] s1(2)] show ?case .
qed simp

lemma sslb_Update_ok:
  assumes "subsets_ok (hi_meta hi) s" and "sslb_Update addedFirst hi original priority added removed s = Inr s'"
  shows "subsets_ok (hi_meta hi) s'"
proof -
  from assms(2) obtain s1 where s1: "UpdateFallbackSubset hi original priority added removed s = Inr s1"
    and p: "ProcessSubsets addedFirst hi original priority added removed s1 = Inr s'"
    by (auto simp: sslb_Update_def go_outcome)
  have "subSets s1 = subSets s" using s1 by (auto simp: UpdateFallbackSubset_def go_outcome split: if_splits)
  then have "subsets_ok (hi_meta hi) s1" using assms(1) by (simp add: subsets_ok_def)
  with p show ?thesis by (auto simp: ProcessSubsets_def Let_def go_outcome split: if_splits dest: process_hosts_ok)
qed

lemma update_all_ok:
  "subsets_ok (hi_meta hi) s \<Longrightarrow> update_all hi original i hss s = Inr s' \<Longrightarrow> subsets_ok (hi_meta hi) s'"
proof (induction hss arbitrary: i s)
  case (Cons hs hss)
  then obtain s1 where s1: "sslb_Update True hi original i hs [] s = Inr s1" "update_all hi original (i + 1) hss s1 = Inr s'"
    by (auto simp: go_outcome)
  from Cons.IH [OF sslb_Update_ok [OF Cons.prems(1) s1(1)] s1(2)] show ?case .
qed simp

lemma NewSubsetLoadBalancer_ok:
  "NewSubsetLoadBalancer lbType subsets hi original = Inr s \<Longrightarrow> subsets_ok (hi_meta hi) s"
  unfolding NewSubsetLoadBalancer_def by (rule update_all_ok) (simp_all add: subsets_ok_def)

lemma FindSubset_Nil: "FindSubset t cs = Some e \<Longrightarrow> cs \<noteq> []"
  by auto

lemma ps_ChooseHost_ok: "ps_ok M kvs ps \<Longrightarrow> ps_ChooseHost draws ps = Inr (ps', h) \<Longrightarrow> ps_ok M kvs ps'"
  by (auto simp: ps_ChooseHost_def go_outcome ps_ok_def split: option.splits)

lemma TryChoose_ok:
  assumes "subsets_ok M s" and "TryChooseHostFromContext draws c s = Inr (s', h, chosen)"
  shows "subsets_ok M s'"
proof (cases "\<exists>cs e ps. c = Some cs \<and> FindSubset (subSets s) cs = Some e \<and> entry_subset e = Some ps")
  case True
  then obtain cs e ps where c: "c = Some cs" "FindSubset (subSets s) cs = Some e" "entry_subset e = Some ps" by blast
  then have "ps_ok M cs ps" using assms(1) by (auto simp: subsets_ok_def subset_at_def)
  with assms c FindSubset_Nil [OF c(2)] show ?thesis
    by (auto simp: TryChooseHostFromContext_def go_outcome intro!: subsets_ok_Set dest: ps_ChooseHost_ok)
next
  case False
  with assms show ?thesis by (auto simp: TryChooseHostFromContext_def split: option.splits)
qed

lemma sslb_ChooseHost_ok:
  assumes "subsets_ok M s" and "sslb_ChooseHost draws c s = Inr (s', h)"
  shows "subsets_ok M s'"
proof -
  let ?tried = "case c of None \<Rightarrow> Inr (s, None, False) | Some c \<Rightarrow> TryChooseHostFromContext draws c s"
  from assms(2) obtain s1 host chosen where 1: "?tried = Inr (s1, host, chosen)"
    by (cases ?tried) (auto simp: sslb_ChooseHost_def)
  then have s': "subSets s' = subSets s1"
    using assms(2) unfolding sslb_ChooseHost_def
    by (simp add: go_outcome Let_def split: if_split_asm option.split_asm) (auto split: if_split_asm)
  have "subsets_ok M s1" using 1 assms(1) TryChoose_ok by (auto split: option.splits)
  with s' show ?thesis by (simp add: subsets_ok_def)
qed

text \<open>
  The balancers a cluster can have: a new one, and what host updates and choices make of it. The
  metadata of a host never changes; its health and the original host sets do.
\<close>

inductive sslb_reachable :: "(nat \<Rightarrow> smap) \<Rightarrow> subSetLoadBalancer \<Rightarrow> bool" for M where
  new: "hi_meta hi = M \<Longrightarrow> NewSubsetLoadBalancer lbType subsets hi original = Inr s \<Longrightarrow> sslb_reachable M s"
| update: "sslb_reachable M s \<Longrightarrow> hi_meta hi = M \<Longrightarrow>
    sslb_Update addedFirst hi original priority added removed s = Inr s' \<Longrightarrow> sslb_reachable M s'"
| choice: "sslb_reachable M s \<Longrightarrow> sslb_ChooseHost draws ctx s = Inr (s', h) \<Longrightarrow> sslb_reachable M s'"

lemma reachable_ok: "sslb_reachable M s \<Longrightarrow> subsets_ok M s"
proof (induction rule: sslb_reachable.induct)
  case (new hi lbType subsets original s)
  then show ?case using NewSubsetLoadBalancer_ok by blast
next
  case (update s hi addedFirst original priority added removed s')
  then show ?case using sslb_Update_ok by blast
next
  case (choice s draws ctx s' h)
  then show ?case using sslb_ChooseHost_ok by blast
qed

section \<open>Properties\<close>

text \<open>
  C13 (invariant). In every state a subset load balancer can reach by host updates and choices,
  a host it chooses for match criteria by way of a subset has all the metadata asked for: under
  every key of the criteria, the metadata of the host has the value of the criterion.
\<close>

theorem subset_choice_matches:
  assumes "sslb_reachable M s" and "TryChooseHostFromContext draws (Some cs) s = Inr (s', Some h, True)"
  shows "\<forall>(k, v) \<in> set cs. M h k = Some v"
proof -
  from assms(2) obtain e ps ps' where e: "FindSubset (subSets s) cs = Some e" "entry_subset e = Some ps"
    and c: "ps_ChooseHost draws ps = Inr (ps', Some h)"
    by (auto simp: TryChooseHostFromContext_def go_outcome split: option.splits)
  have ok: "ps_ok M cs ps" using reachable_ok [OF assms(1)] e by (simp add: subsets_ok_def subset_at_def)
  from c obtain l l' where "ChooseHost (map hs_healthy (ps_sets ps)) draws l = Inr (l', Some h)"
    by (auto simp: ps_ChooseHost_def go_outcome split: option.splits)
  from lb_choice.chosen [OF this] ok have "HostMatches cs (M h)" by (auto simp: ps_ok_def)
  then show ?thesis by (simp add: HostMatches_iff)
qed

definition sample_info :: host_info where
  "sample_info = \<lparr>hi_addr = (\<lambda>h. replicate h (CHR ''a'')),
     hi_meta = (\<lambda>h. if h = 1 then [''stage'' \<mapsto> ''prod'', ''zone'' \<mapsto> ''x''] else Map.empty), hi_health = (\<lambda>_. True)\<rparr>"

definition sample_subsets :: LBSubsetInfo where
  "sample_subsets = \<lparr>lbsi_enabled = True, lbsi_fallbackPolicy = NoFallBack, lbsi_defaultSubSet = [],
     lbsi_subSetKeys = [[''stage'', ''zone'']]\<rparr>"

lemmas subset_eval = NewSubsetLoadBalancer_def sslb_Update_def UpdateFallbackSubset_def ProcessSubsets_def
  process_key_def ExtractSubsetMetadata_def FindOrCreateSubset_def subset_at_def NewPrioritySubsetImpl_def
  ps_Update_def ps_GetOrCreate_def UpdateHostSubset_def GetFinalHosts_def SetPrioritySubset_def
  TryChooseHostFromContext_def ps_ChooseHost_def NewLoadBalancer_def random_ChooseHost_def Intn_def
  GenerateDftSubsetKeys_def

theorem subset_choice_matches_witness:
  "\<exists>s s'. NewSubsetLoadBalancer (Some Random) sample_subsets sample_info [[1, 2]] = Inr s \<and>
     TryChooseHostFromContext (0, 0) (Some [(''stage'', ''prod''), (''zone'', ''x'')]) s = Inr (s', Some 1, True) \<and>
     hi_meta sample_info 1 ''stage'' = Some ''prod'' \<and> hi_meta sample_info 1 ''zone'' = Some ''x''"
proof -
  obtain s where s: "NewSubsetLoadBalancer (Some Random) sample_subsets sample_info [[1, 2]] = Inr s"
    and c: "\<exists>s'. TryChooseHostFromContext (0, 0) (Some [(''stage'', ''prod''), (''zone'', ''x'')]) s = Inr (s', Some 1, True)"
    by (simp add: subset_eval sample_info_def sample_subsets_def)
  from c obtain s' where s': "TryChooseHostFromContext (0, 0) (Some [(''stage'', ''prod''), (''zone'', ''x'')]) s = Inr (s', Some 1, True)" ..
  from subset_choice_matches [OF sslb_reachable.new [OF refl s] s'] s s' show ?thesis by auto
qed

text \<open>
  A request whose match criteria are only the first part of a subset selector makes
  the balancer panic as soon as a host has the metadata of the whole selector: the criteria
  lead to an inner entry of the trie, which counts as active but has no subset.
\<close>

lemma partial_criteria_panic:
  assumes "hi_meta hi h k1 = Some v1" and "hi_meta hi h k2 = Some v2"
    and "lbsi_subSetKeys subsets = [[k1, k2]]" and "lbsi_fallbackPolicy subsets = NoFallBack"
  shows "\<exists>s. NewSubsetLoadBalancer lbType subsets hi [[h]] = Inr s \<and>
    sslb_ChooseHost draws (Some (Some [(k1, v1)])) s = Inl NilDereference"
  using assms by (simp add: subset_eval sslb_ChooseHost_def)

end
