(* ===== verification/Health_Check.thy ===== *)
theory Health_Check
  imports Cluster Sofa_Headers
begin

text \<open>
  Active health checking: \<open>healthchecker.go\<close>, \<open>sofarpchealthchecker.go\<close>,
  \<open>http2healthchecker.go\<close> and the timers of \<open>util.go\<close> in \<open>pkg/upstream/healthcheck\<close>. Time is not
  modelled: a started timer may fire at any moment. The outcome of connecting to a host is an
  argument. A callback of the checker is represented by the trace of its calls.
\<close>

section \<open>Timers\<close>

text \<open>
  A timer has a goroutine while it is started. The goroutine waits for the time to pass or for
  a token in the stop channel, which holds one token at most.
\<close>

record hc_timer =
  t_started :: bool
  t_stopped :: bool
  t_token :: bool

definition newTimer :: hc_timer where
  "newTimer = \<lparr>t_started = False, t_stopped = False, t_token = False\<rparr>"

definition timer_start :: "hc_timer option \<Rightarrow> hc_timer option outcome" where
  "timer_start t =
     (case t of
        None \<Rightarrow> Inl NilDereference
      | Some t \<Rightarrow> Inr (Some (if t_started t then t else t\<lparr>t_started := True\<rparr>)))"

text \<open>Sending to a full channel waits; the model ends the call there.\<close>

definition timer_stop :: "hc_timer option \<Rightarrow> hc_timer option outcome" where
  "timer_stop t =
     (case t of
        None \<Rightarrow> Inl NilDereference
      | Some t \<Rightarrow>
          if t_stopped t then Inr (Some t)
          else if t_token t then Inl (ExplicitPanic ''blocked'')
          else Inr (Some (t\<lparr>t_stopped := True, t_token := True\<rparr>)))"

text \<open>What the goroutine does when it ends, and ending it by a token.\<close>

definition timer_end :: "hc_timer option \<Rightarrow> hc_timer option" where
  "timer_end t = map_option (\<lambda>t. t\<lparr>t_started := False, t_stopped := False\<rparr>) t"

definition timer_cancel :: "hc_timer option \<Rightarrow> hc_timer option" where
  "timer_cancel t = timer_end (map_option (\<lambda>t. t\<lparr>t_token := False\<rparr>) t)"

definition is_started :: "hc_timer option \<Rightarrow> bool" where
  "is_started t = (case t of None \<Rightarrow> False | Some t \<Rightarrow> t_started t)"

definition has_token :: "hc_timer option \<Rightarrow> bool" where
  "has_token t = (case t of None \<Rightarrow> False | Some t \<Rightarrow> t_token t)"

section \<open>The checker\<close>

record healthChecker =
  hc_timeout :: "64 word"
  hc_interval :: "64 word"
  intervalJitter :: "64 word"
  localProcessHealthy :: "64 word"
  healthyThreshold :: "32 word"
  unhealthyThreshold :: "32 word"
  st_attempt :: nat
  st_success :: nat
  st_failure :: nat
  st_passiveFailure :: nat
  st_networkFailure :: nat
  st_healthy :: int
  callbacks :: "(string \<times> bool) list"

record healthcheck_config =
  hcc_Timeout :: "64 word"
  hcc_Interval :: "64 word"
  hcc_IntervalJitter :: "64 word"
  hcc_HealthyThreshold :: "32 word"
  hcc_UnhealthyThreshold :: "32 word"

definition newHealthChecker :: "healthcheck_config \<Rightarrow> healthChecker" where
  "newHealthChecker config =
     \<lparr>hc_timeout = hcc_Timeout config, hc_interval = hcc_Interval config, intervalJitter = hcc_IntervalJitter config,
      localProcessHealthy = 0, healthyThreshold = hcc_HealthyThreshold config,
      unhealthyThreshold = hcc_UnhealthyThreshold config, st_attempt = 0, st_success = 0, st_failure = 0,
      st_passiveFailure = 0, st_networkFailure = 0, st_healthy = 0, callbacks = []\<rparr>"

definition refreshHealthyStat :: "healthChecker \<Rightarrow> healthChecker" where
  "refreshHealthyStat c = c\<lparr>st_healthy := sint (localProcessHealthy c)\<rparr>"

definition decHealthy :: "healthChecker \<Rightarrow> healthChecker" where
  "decHealthy c = refreshHealthyStat (c\<lparr>localProcessHealthy := localProcessHealthy c - 1\<rparr>)"

definition incHealthy :: "healthChecker \<Rightarrow> healthChecker" where
  "incHealthy c = refreshHealthyStat (c\<lparr>localProcessHealthy := localProcessHealthy c + 1\<rparr>)"

definition runCallbacks :: "string \<Rightarrow> bool \<Rightarrow> healthChecker \<Rightarrow> healthChecker" where
  "runCallbacks address changed c =
     (refreshHealthyStat c)\<lparr>callbacks := callbacks c @ [(address, changed)]\<rparr>"

text \<open>The test against the largest unsigned value never succeeds. \<open>drawn\<close> is the random jitter.\<close>

definition getInterval :: "64 word \<Rightarrow> healthChecker \<Rightarrow> 64 word" where
  "getInterval drawn c =
     (let b = (if sint (intervalJitter c) > 0 then hc_interval c + drawn else hc_interval c);
          b = (if sint b < 0 then 0 else b)
      in if b > - 1 then - 1 else b)"

definition getTimeoutDuration :: "healthChecker \<Rightarrow> 64 word" where
  "getTimeoutDuration c =
     (let b = (if sint (hc_timeout c) < 0 then 0 else hc_timeout c) in if b > - 1 then - 1 else b)"

section \<open>Sessions\<close>

record session =
  s_host :: host
  numHealthy :: "32 word"
  numUnHealthy :: "32 word"
  intervalTimer :: "hc_timer option"
  timeoutTimer :: "hc_timer option"

type_synonym hc_state = "healthChecker \<times> session"

datatype FailureType = FailureActive | FailureNetwork | FailurePassive

definition newHealthCheckSession :: "host \<Rightarrow> healthChecker \<Rightarrow> hc_state" where
  "newHealthCheckSession h c =
     (if \<not> ContainHealthFlag FAILED_ACTIVE_HC h then decHealthy c else c,
      \<lparr>s_host = h, numHealthy = 0, numUnHealthy = 0, intervalTimer = None, timeoutTimer = None\<rparr>)"

definition mark_success :: "hc_state \<Rightarrow> hc_state" where
  "mark_success x = (case x of (c, s) \<Rightarrow>
     let s = s\<lparr>numUnHealthy := 0\<rparr>;
         (c, s, changed) =
           (if ContainHealthFlag FAILED_ACTIVE_HC (s_host s) then
              (let s = s\<lparr>numHealthy := numHealthy s + 1\<rparr> in
               if numHealthy s = healthyThreshold c
               then (incHealthy c, s\<lparr>s_host := ClearHealthFlag FAILED_ACTIVE_HC (s_host s)\<rparr>, True)
               else (c, s, False))
            else (c, s, False))
     in (runCallbacks (addressString (s_host s)) changed (c\<lparr>st_success := st_success c + 1\<rparr>), s))"

definition SetUnhealthy :: "FailureType \<Rightarrow> hc_state \<Rightarrow> hc_state" where
  "SetUnhealthy fType x = (case x of (c, s) \<Rightarrow>
     let s = s\<lparr>numHealthy := 0\<rparr>;
         (c, s, changed) =
           (if \<not> ContainHealthFlag FAILED_ACTIVE_HC (s_host s) then
              (let s = s\<lparr>numUnHealthy := numUnHealthy s + 1\<rparr> in
               if numUnHealthy s = unhealthyThreshold c
               then (decHealthy c, s\<lparr>s_host := SetHealthFlag FAILED_ACTIVE_HC (s_host s)\<rparr>, True)
               else (c, s, False))
            else (c, s, False));
         c = c\<lparr>st_failure := st_failure c + 1\<rparr>;
         c = (case fType of
                FailureNetwork \<Rightarrow> c\<lparr>st_networkFailure := st_networkFailure c + 1\<rparr>
              | FailurePassive \<Rightarrow> c\<lparr>st_passiveFailure := st_passiveFailure c + 1\<rparr>
              | FailureActive \<Rightarrow> c)
     in (runCallbacks (addressString (s_host s)) changed c, s))"

definition start_interval :: "hc_state \<Rightarrow> hc_state outcome" where
  "start_interval x = (case x of (c, s) \<Rightarrow>
     obind (timer_start (intervalTimer s)) (\<lambda>t. Inr (c, s\<lparr>intervalTimer := t\<rparr>)))"

definition stop_timeout :: "hc_state \<Rightarrow> hc_state outcome" where
  "stop_timeout x = (case x of (c, s) \<Rightarrow>
     obind (timer_stop (timeoutTimer s)) (\<lambda>t. Inr (c, s\<lparr>timeoutTimer := t\<rparr>)))"

definition handleSuccess :: "hc_state \<Rightarrow> hc_state outcome" where
  "handleSuccess x = obind (stop_timeout (mark_success x)) start_interval"

definition handleFailure :: "FailureType \<Rightarrow> hc_state \<Rightarrow> hc_state outcome" where
  "handleFailure fType x = obind (stop_timeout (SetUnhealthy fType x)) start_interval"

definition session_onInterval :: "hc_state \<Rightarrow> hc_state outcome" where
  "session_onInterval x = (case x of (c, s) \<Rightarrow>
     obind (timer_start (timeoutTimer s)) (\<lambda>t.
       Inr (c\<lparr>st_attempt := st_attempt c + 1\<rparr>, s\<lparr>timeoutTimer := t\<rparr>)))"

definition session_onTimeout :: "hc_state \<Rightarrow> hc_state outcome" where
  "session_onTimeout x = start_interval (SetUnhealthy FailureNetwork x)"

section \<open>SofaRPC\<close>

definition BOLT_V1 :: byte where "BOLT_V1 = 1"

text \<open>A protocol code that is configured is dropped; only a missing one becomes Bolt v1.\<close>

definition newSofaRPCHealthChecker :: "healthcheck_config \<Rightarrow> byte \<Rightarrow> healthChecker \<times> byte" where
  "newSofaRPCHealthChecker config protocolCode =
     (newHealthChecker config, if protocolCode = 0 then BOLT_V1 else 0)"

record sofaSession =
  base :: session
  has_client :: bool
  responseStatus :: "16 word"
  expectReset :: bool
  waiting :: bool

type_synonym sofa_state = "healthChecker \<times> sofaSession"

definition on_base :: "(hc_state \<Rightarrow> hc_state outcome) \<Rightarrow> sofa_state \<Rightarrow> sofa_state outcome" where
  "on_base f x = (case x of (c, s) \<Rightarrow> obind (f (c, base s)) (\<lambda>(c', b). Inr (c', s\<lparr>base := b\<rparr>)))"

definition sofa_newSession :: "host \<Rightarrow> healthChecker \<Rightarrow> sofa_state" where
  "sofa_newSession h c =
     (let (c, b) = newHealthCheckSession h c
      in (c, \<lparr>base = b\<lparr>intervalTimer := Some newTimer, timeoutTimer := Some newTimer\<rparr>, has_client = False,
              responseStatus = 0, expectReset = False, waiting = False\<rparr>))"

definition sofa_onInterval :: "byte \<Rightarrow> bool \<Rightarrow> sofa_state \<Rightarrow> sofa_state outcome" where
  "sofa_onInterval protocolCode connects x = (case x of (c, s) \<Rightarrow>
     if \<not> has_client s \<and> \<not> connects then on_base (handleFailure FailureActive) (c, s)
     else
       (let s = (if has_client s then s else s\<lparr>has_client := True, expectReset := False\<rparr>) in
        if protocolCode = BOLT_V1 then on_base session_onInterval (c, s\<lparr>waiting := True\<rparr>)
        else Inr (c, s)))"

definition sofa_onTimeout :: "sofa_state \<Rightarrow> sofa_state outcome" where
  "sofa_onTimeout x = (case x of (c, s) \<Rightarrow>
     if \<not> has_client s then Inl NilDereference
     else on_base session_onTimeout (c, s\<lparr>expectReset := True, has_client := False, waiting := False\<rparr>))"

definition isHealthCheckSucceeded :: "sofaSession \<Rightarrow> bool" where
  "isHealthCheckSucceeded s \<longleftrightarrow> responseStatus s = RESPONSE_STATUS_SUCCESS"

definition sofa_onResponseComplete :: "sofa_state \<Rightarrow> sofa_state outcome" where
  "sofa_onResponseComplete x = (case x of (c, s) \<Rightarrow>
     obind (on_base (if isHealthCheckSucceeded s then handleSuccess else handleFailure FailureActive)
              (c, s\<lparr>waiting := False\<rparr>)) (\<lambda>(c, s). Inr (c, s\<lparr>responseStatus := - 1\<rparr>)))"

definition sofa_OnReceiveHeaders :: "smap \<Rightarrow> bool \<Rightarrow> sofa_state \<Rightarrow> sofa_state outcome" where
  "sofa_OnReceiveHeaders headers endStream x = (case x of (c, s) \<Rightarrow>
     let s = (case headers (SofaPropertyHeader HeaderRespStatus) of
                Some statusStr \<Rightarrow>
                  (case ConvertPropertyValue statusStr KInt16 of PInt16 v \<Rightarrow> s\<lparr>responseStatus := v\<rparr> | _ \<Rightarrow> s)
              | None \<Rightarrow> s)
     in if endStream then sofa_onResponseComplete (c, s) else Inr (c, s))"

definition sofa_OnResetStream :: "sofa_state \<Rightarrow> sofa_state outcome" where
  "sofa_OnResetStream x = (case x of (c, s) \<Rightarrow>
     if expectReset s then Inr (c, s) else on_base (handleFailure FailureNetwork) (c, s))"

text \<open>
  What can happen to a session: its interval timer fires, its timeout timer fires, a timer
  goroutine finds a token, a response arrives, its stream is reset. A callback runs while its
  timer still counts as started, and the timer ends afterwards.
\<close>

datatype hc_event =
    IntervalFires bool
  | TimeoutFires
  | IntervalCancelled
  | TimeoutCancelled
  | Response smap
  | StreamReset

definition enabled :: "hc_event \<Rightarrow> sofaSession \<Rightarrow> bool" where
  "enabled e s =
     (case e of
        IntervalFires _ \<Rightarrow> is_started (intervalTimer (base s))
      | TimeoutFires \<Rightarrow> is_started (timeoutTimer (base s))
      | IntervalCancelled \<Rightarrow> is_started (intervalTimer (base s)) \<and> has_token (intervalTimer (base s))
      | TimeoutCancelled \<Rightarrow> is_started (timeoutTimer (base s)) \<and> has_token (timeoutTimer (base s))
      | Response _ \<Rightarrow> waiting s
      | StreamReset \<Rightarrow> has_client s \<and> waiting s)"

definition end_interval :: "sofa_state \<Rightarrow> sofa_state" where
  "end_interval x = (case x of (c, s) \<Rightarrow>
     (c, s\<lparr>base := (base s)\<lparr>intervalTimer := timer_end (intervalTimer (base s))\<rparr>\<rparr>))"

definition end_timeout :: "sofa_state \<Rightarrow> sofa_state" where
  "end_timeout x = (case x of (c, s) \<Rightarrow>
     (c, s\<lparr>base := (base s)\<lparr>timeoutTimer := timer_end (timeoutTimer (base s))\<rparr>\<rparr>))"

fun happens :: "byte \<Rightarrow> hc_event \<Rightarrow> sofa_state \<Rightarrow> sofa_state outcome" where
  "happens pc (IntervalFires connects) x = obind (sofa_onInterval pc connects x) (\<lambda>x. Inr (end_interval x))"
| "happens pc TimeoutFires x = obind (sofa_onTimeout x) (\<lambda>x. Inr (end_timeout x))"
| "happens pc IntervalCancelled (c, s) =
     Inr (c, s\<lparr>base := (base s)\<lparr>intervalTimer := timer_cancel (intervalTimer (base s))\<rparr>\<rparr>)"
| "happens pc TimeoutCancelled (c, s) =
     Inr (c, s\<lparr>base := (base s)\<lparr>timeoutTimer := timer_cancel (timeoutTimer (base s))\<rparr>\<rparr>)"
| "happens pc (Response headers) x = sofa_OnReceiveHeaders headers True x"
| "happens pc StreamReset x = sofa_OnResetStream x"

inductive hc_step :: "byte \<Rightarrow> sofa_state \<Rightarrow> sofa_state \<Rightarrow> bool" for pc where
  "enabled e (snd x) \<Longrightarrow> happens pc e x = Inr x' \<Longrightarrow> hc_step pc x x'"

inductive_simps hc_step_iff: "hc_step pc x x'"

section \<open>HTTP2\<close>

text \<open>
  The session factory of the HTTP2 checker is the base checker it was copied from, which has no
  factory of its own: \<open>newSession\<close> gives a bare session without timers.
\<close>

definition http2_newSession :: "host \<Rightarrow> healthChecker \<Rightarrow> hc_state" where
  "http2_newSession h c =
     (c, \<lparr>s_host = h, numHealthy = 0, numUnHealthy = 0, intervalTimer = None, timeoutTimer = None\<rparr>)"

definition session_Start :: "hc_state \<Rightarrow> hc_state outcome" where
  "session_Start x = session_onInterval x"

definition http2_isHealthCheckSucceeded :: "smap \<Rightarrow> bool" where
  "http2_isHealthCheckSucceeded headers =
     (case headers ''x-mosn-status'' of Some status \<Rightarrow> Atoi status = 200 | None \<Rightarrow> True)"

section \<open>Runs of results\<close>

fun run_results :: "bool list \<Rightarrow> hc_state \<Rightarrow> hc_state" where
  "run_results [] x = x"
| "run_results (ok # oks) x = run_results oks (if ok then mark_success x else SetUnhealthy FailureActive x)"

lemma run_results_append: "run_results (xs @ ys) x = run_results ys (run_results xs x)"
  by (induction xs arbitrary: x) auto

definition streak :: "bool \<Rightarrow> bool list \<Rightarrow> nat" where
  "streak b rs = length (takeWhile (\<lambda>x. x = b) (rev rs))"

text \<open>
  A host is down after some results when at some point the last \<open>u\<close> results had all been
  failures and since then there were never \<open>h\<close> successes in a row.
\<close>

definition down :: "nat \<Rightarrow> nat \<Rightarrow> bool list \<Rightarrow> bool" where
  "down h u rs \<longleftrightarrow> list_ex (\<lambda>i. u \<le> streak False (take i rs) \<and>
     list_all (\<lambda>j. streak True (take j rs) < h) [i + 1..<length rs + 1]) [0..<length rs + 1]"

lemma streak_Nil [simp]: "streak b [] = 0"
  by (simp add: streak_def)

lemma streak_snoc [simp]: "streak b (rs @ [r]) = (if r = b then Suc (streak b rs) else 0)"
  by (simp add: streak_def)

lemma down_Nil: "0 < u \<Longrightarrow> \<not> down h u []"
  by (simp add: down_def)

lemma down_iff:
  "down h u rs \<longleftrightarrow> (\<exists>i \<le> length rs. u \<le> streak False (take i rs) \<and>
     (\<forall>j. i < j \<and> j \<le> length rs \<longrightarrow> streak True (take j rs) < h))"
  by (auto simp: down_def list_ex_iff list_all_iff less_Suc_eq_le Suc_le_eq simp del: upt_Suc)

lemma down_snoc:
  "down h u (rs @ [r]) \<longleftrightarrow> u \<le> streak False (rs @ [r]) \<or> (down h u rs \<and> streak True (rs @ [r]) < h)"
proof -
  let ?n = "length rs" and ?rs = "rs @ [r]"
  have old: "(\<forall>j. i < j \<and> j \<le> length ?rs \<longrightarrow> streak True (take j ?rs) < h) \<longleftrightarrow>
      (\<forall>j. i < j \<and> j \<le> ?n \<longrightarrow> streak True (take j rs) < h) \<and> streak True ?rs < h" if "i \<le> ?n" for i
    using that by (auto simp: le_Suc_eq simp del: streak_snoc dest: spec [of _ "Suc ?n"])
  have "down h u ?rs \<longleftrightarrow> u \<le> streak False ?rs \<or> (\<exists>i \<le> ?n. u \<le> streak False (take i ?rs) \<and>
      (\<forall>j. i < j \<and> j \<le> length ?rs \<longrightarrow> streak True (take j ?rs) < h))"
    unfolding down_iff by (auto simp: le_Suc_eq simp del: streak_snoc)
  also have "(\<exists>i \<le> ?n. u \<le> streak False (take i ?rs) \<and>
      (\<forall>j. i < j \<and> j \<le> length ?rs \<longrightarrow> streak True (take j ?rs) < h)) \<longleftrightarrow> down h u rs \<and> streak True ?rs < h"
  proof -
    have "(u \<le> streak False (take i ?rs) \<and> (\<forall>j. i < j \<and> j \<le> length ?rs \<longrightarrow> streak True (take j ?rs) < h)) =
        (u \<le> streak False (take i rs) \<and> (\<forall>j. i < j \<and> j \<le> ?n \<longrightarrow> streak True (take j rs) < h) \<and> streak True ?rs < h)"
      if "i \<le> ?n" for i unfolding old [OF that] using that by simp
    then show ?thesis unfolding down_iff by meson
  qed
  finally show ?thesis .
qed

section \<open>Flags\<close>

lemma flag_set [simp]: "ContainHealthFlag FAILED_ACTIVE_HC (SetHealthFlag FAILED_ACTIVE_HC h)"
proof -
  have "bit (and (or (healthFlags h) 1) (1 :: 64 word)) 0" by (simp add: bit_simps)
  then have "and (or (healthFlags h) 1) (1 :: 64 word) \<noteq> 0" by (metis bit_0_eq bot_apply bot_bool_def)
  then show ?thesis by (simp add: ContainHealthFlag_def SetHealthFlag_def FAILED_ACTIVE_HC_def word_greater_zero_iff)
qed

lemma flag_cleared [simp]: "\<not> ContainHealthFlag FAILED_ACTIVE_HC (ClearHealthFlag FAILED_ACTIVE_HC h)"
proof -
  have "and (and (healthFlags h) (not 1)) (1 :: 64 word) = 0" by (rule bit_word_eqI) (auto simp: bit_simps)
  then show ?thesis by (simp add: ContainHealthFlag_def ClearHealthFlag_def FAILED_ACTIVE_HC_def)
qed

section \<open>The counters are the streaks\<close>

definition tracks :: "nat \<Rightarrow> nat \<Rightarrow> bool list \<Rightarrow> hc_state \<Rightarrow> bool" where
  "tracks h u rs x \<longleftrightarrow> (case x of (c, s) \<Rightarrow>
     unat (healthyThreshold c) = h \<and> unat (unhealthyThreshold c) = u \<and>
     ContainHealthFlag FAILED_ACTIVE_HC (s_host s) = down h u rs \<and>
     (if down h u rs then unat (numHealthy s) = streak True rs \<and> streak True rs < h
      else unat (numUnHealthy s) = streak False rs \<and> streak False rs < u))"

lemma thresholds_kept [simp]:
  "healthyThreshold (decHealthy c) = healthyThreshold c" "unhealthyThreshold (decHealthy c) = unhealthyThreshold c"
  "healthyThreshold (incHealthy c) = healthyThreshold c" "unhealthyThreshold (incHealthy c) = unhealthyThreshold c"
  "healthyThreshold (runCallbacks a b c) = healthyThreshold c" "unhealthyThreshold (runCallbacks a b c) = unhealthyThreshold c"
  by (simp_all add: decHealthy_def incHealthy_def runCallbacks_def refreshHealthyStat_def)

lemma unat_plus_1_small:
  fixes a t :: "32 word"
  assumes "unat a < unat t"
  shows "unat (a + 1) = Suc (unat a)" and "a + 1 = t \<longleftrightarrow> Suc (unat a) = unat t"
proof -
  have "unat t < 2 ^ 32" using unsigned_less [of t] by simp
  with assms have "Suc (unat a) < 2 ^ 32" by linarith
  then show 1: "unat (a + 1) = Suc (unat a)" by (simp add: unat_word_ariths)
  show "a + 1 = t \<longleftrightarrow> Suc (unat a) = unat t" using 1 by (simp add: word_unat_eq_iff)
qed

lemma tracks_success:
  assumes "tracks h u rs x" and "0 < u"
  shows "tracks h u (rs @ [True]) (mark_success x)"
proof -
  obtain c s where x: "x = (c, s)" by (cases x)
  show ?thesis
  proof (cases "down h u rs")
    case True
    then have n: "unat (numHealthy s) < unat (healthyThreshold c)" using assms(1) by (auto simp: tracks_def x)
    show ?thesis using assms True unat_plus_1_small [OF n]
      by (auto simp: tracks_def x mark_success_def down_snoc Let_def)
  next
    case False
    then show ?thesis using assms by (auto simp: tracks_def x mark_success_def down_snoc Let_def)
  qed
qed

lemma tracks_failure:
  assumes "tracks h u rs x" and "0 < h"
  shows "tracks h u (rs @ [False]) (SetUnhealthy f x)"
proof -
  obtain c s where x: "x = (c, s)" by (cases x)
  show ?thesis
  proof (cases "down h u rs")
    case True
    then show ?thesis using assms
      by (cases f) (auto simp: tracks_def x SetUnhealthy_def down_snoc Let_def)
  next
    case False
    then have n: "unat (numUnHealthy s) < unat (unhealthyThreshold c)" using assms(1) by (auto simp: tracks_def x)
    show ?thesis using assms False unat_plus_1_small [OF n]
      by (cases f) (auto simp: tracks_def x SetUnhealthy_def down_snoc Let_def)
  qed
qed

lemma tracks_run:
  assumes "tracks h u [] x" and "0 < h" and "0 < u"
  shows "tracks h u rs (run_results rs x)"
  using assms
proof (induction rs rule: rev_induct)
  case (snoc r rs)
  then show ?case using tracks_success [of h u rs "run_results rs x"] tracks_failure [of h u rs "run_results rs x"]
    by (cases r) (simp_all add: run_results_append)
qed simp

lemma tracks_new:
  assumes "\<not> ContainHealthFlag FAILED_ACTIVE_HC h" and "0 < unat (unhealthyThreshold c)"
  shows "tracks (unat (healthyThreshold c)) (unat (unhealthyThreshold c)) [] (newHealthCheckSession h c)"
  using assms by (simp add: tracks_def newHealthCheckSession_def down_Nil)

lemma dec_all:
  "st_healthy (fst (newHealthCheckSession h c)) = sint (localProcessHealthy c - 1) \<and>
     localProcessHealthy (fst (newHealthCheckSession h c)) = localProcessHealthy c - 1"
  if "\<not> ContainHealthFlag FAILED_ACTIVE_HC h"
  using that by (simp add: newHealthCheckSession_def decHealthy_def refreshHealthyStat_def)

fun add_sessions :: "host list \<Rightarrow> healthChecker \<Rightarrow> healthChecker" where
  "add_sessions [] c = c"
| "add_sessions (h # hs) c = add_sessions hs (fst (newHealthCheckSession h c))"

lemma add_sessions_count:
  assumes "list_all (\<lambda>h. \<not> ContainHealthFlag FAILED_ACTIVE_HC h) hs"
  shows "localProcessHealthy (add_sessions hs c) = localProcessHealthy c - word_of_nat (length hs) \<and>
    (hs \<noteq> [] \<longrightarrow> st_healthy (add_sessions hs c) = sint (localProcessHealthy c - word_of_nat (length hs)))"
  using assms
proof (induction hs arbitrary: c)
  case (Cons h hs)
  let ?c = "fst (newHealthCheckSession h c)"
  have h: "localProcessHealthy ?c = localProcessHealthy c - 1" "st_healthy ?c = sint (localProcessHealthy c - 1)"
    using dec_all [of h c] Cons.prems by simp_all
  from Cons.IH [of ?c] Cons.prems show ?case by (cases "hs = []") (simp_all add: h diff_diff_eq)
qed simp

section \<open>Properties\<close>

text \<open>
  C15 (equivalence). Whatever the results of its health checks, a host that starts out without
  the failure flag carries it exactly when the reference calls it down: the unhealthy threshold
  was reached by consecutive failures, and the healthy threshold was not reached by consecutive
  successes since. The 32-bit counters never wrap.
\<close>

theorem health_flag_follows_results:
  assumes "\<not> ContainHealthFlag FAILED_ACTIVE_HC h" and "0 < healthyThreshold c" and "0 < unhealthyThreshold c"
  shows "ContainHealthFlag FAILED_ACTIVE_HC (s_host (snd (run_results rs (newHealthCheckSession h c)))) =
    down (unat (healthyThreshold c)) (unat (unhealthyThreshold c)) rs"
proof -
  have pos: "0 < unat (healthyThreshold c)" "0 < unat (unhealthyThreshold c)"
    using assms(2,3) by (simp_all add: word_less_nat_alt)
  from tracks_run [OF tracks_new [OF assms(1) pos(2)] pos, of rs] show ?thesis
    by (auto simp: tracks_def split: prod.splits)
qed

definition sample_host :: host where
  "sample_host = \<lparr>hostname = ''h'', addressString = ''a'', weight = 1, used = False, healthFlags = 0\<rparr>"

definition sample_checker :: healthChecker where
  "sample_checker = newHealthChecker \<lparr>hcc_Timeout = 1, hcc_Interval = 1, hcc_IntervalJitter = 0,
     hcc_HealthyThreshold = 2, hcc_UnhealthyThreshold = 2\<rparr>"

lemma sample_not_failed: "\<not> ContainHealthFlag FAILED_ACTIVE_HC sample_host"
  by (simp add: ContainHealthFlag_def sample_host_def)

theorem health_flag_follows_results_witness:
  "ContainHealthFlag FAILED_ACTIVE_HC
     (s_host (snd (run_results [False, False, True, False] (newHealthCheckSession sample_host sample_checker))))"
proof -
  have t: "healthyThreshold sample_checker = 2" "unhealthyThreshold sample_checker = 2"
    by (simp_all add: sample_checker_def newHealthChecker_def)
  have "down 2 2 [False, False, True, False]" by (simp add: down_def streak_def upt_rec)
  with health_flag_follows_results [OF sample_not_failed, of sample_checker "[False, False, True, False]"]
  show ?thesis by (simp add: t)
qed

text \<open>
  The count of healthy hosts runs backwards: creating the session of a host that is
  not marked as failed decrements the counter, so after adding \<open>n\<close> such hosts to a new checker
  the reported number of healthy hosts is \<open>-n\<close>.
\<close>

lemma healthy_gauge_negative:
  assumes "list_all (\<lambda>h. \<not> ContainHealthFlag FAILED_ACTIVE_HC h) hs" and "0 < length hs" and "length hs < 2 ^ 63"
  shows "st_healthy (add_sessions hs (newHealthChecker config)) = - int (length hs)"
proof -
  have "sint (- word_of_nat (length hs) :: 64 word) = - int (length hs)"
  proof -
    have "(- word_of_nat (length hs) :: 64 word) = word_of_int (- int (length hs))" by simp
    then show ?thesis using assms(3) by (simp only: signed_of_int) (simp add: signed_take_bit_int_eq_self)
  qed
  then show ?thesis using add_sessions_count [OF assms(1), of "newHealthChecker config"] assms(2)
    by (simp add: newHealthChecker_def)
qed

text \<open>
  Two refused connections end the health check of a host for good. The first
  attempt fails and starts the interval timer; when the timer fires and the connection is
  refused again, the attempt to start the timer is ignored, because the timer still counts as
  started while its callback runs. Afterwards no event is possible any more.
\<close>

lemma refused_twice_never_checked_again:
  "\<exists>x1 x2. sofa_onInterval pc False (sofa_newSession h c) = Inr x1 \<and> enabled (IntervalFires False) (snd x1) \<and>
     happens pc (IntervalFires False) x1 = Inr x2 \<and> (\<forall>x3. \<not> hc_step pc x2 x3)"
  by (simp add: sofa_newSession_def newHealthCheckSession_def sofa_onInterval_def on_base_def handleFailure_def
    stop_timeout_def start_interval_def SetUnhealthy_def timer_stop_def timer_start_def newTimer_def enabled_def
    is_started_def end_interval_def timer_end_def hc_step_iff has_token_def Let_def split_def
    split: hc_event.split)

lemma http2_session_panics: "session_Start (http2_newSession h c) = Inl NilDereference"
  by (simp add: session_Start_def session_onInterval_def http2_newSession_def timer_start_def)

end
