(* ===== verification/Resource_Manager.thy ===== *)
theory Resource_Manager
  imports Mosn_Prelude
begin

text \<open>
  Circuit breaking: \<open>pkg/upstream/cluster/resourcemanager.go\<close>, and the SofaRPC connection pool
  of \<open>pkg/stream/sofarpc/connpool.go\<close>, which is its client. \<open>NewStream\<close> is called by many
  goroutines at once and holds its lock only while it creates the client, so it is given as a
  step relation: a pool has a list of calls, each at some point of \<open>NewStream\<close>, and a step moves
  one of them over the next access to shared data.
\<close>

section \<open>Resources\<close>

record resource =
  res_current :: "64 word"
  res_max :: "64 word"

definition CanCreate :: "resource \<Rightarrow> bool" where
  "CanCreate r = (if sint (res_current r) < 0 then True else res_current r < res_max r)"

definition Increase :: "resource \<Rightarrow> resource" where
  "Increase r = r\<lparr>res_current := res_current r + 1\<rparr>"

definition Decrease :: "resource \<Rightarrow> resource" where
  "Decrease r = r\<lparr>res_current := res_current r - 1\<rparr>"

record thresholds =
  MaxConnections :: "32 word"
  MaxPendingRequests :: "32 word"
  MaxRequests :: "32 word"
  MaxRetries :: "32 word"

record resourcemanager =
  connections :: resource
  pendingRequests :: resource
  requests :: resource
  retries :: resource

definition DefaultMaxConnections :: "64 word" where "DefaultMaxConnections = 10240"
definition DefaultMaxPendingRequests :: "64 word" where "DefaultMaxPendingRequests = 10240"
definition DefaultMaxRequests :: "64 word" where "DefaultMaxRequests = 10240"
definition DefaultMaxRetries :: "64 word" where "DefaultMaxRetries = 3"

fun NewResourceManager :: "thresholds list \<Rightarrow> resourcemanager" where
  "NewResourceManager [] =
     \<lparr>connections = \<lparr>res_current = 0, res_max = DefaultMaxConnections\<rparr>,
      pendingRequests = \<lparr>res_current = 0, res_max = DefaultMaxPendingRequests\<rparr>,
      requests = \<lparr>res_current = 0, res_max = DefaultMaxRequests\<rparr>,
      retries = \<lparr>res_current = 0, res_max = DefaultMaxRetries\<rparr>\<rparr>"
| "NewResourceManager (t # _) =
     \<lparr>connections = \<lparr>res_current = 0, res_max = ucast (MaxConnections t)\<rparr>,
      pendingRequests = \<lparr>res_current = 0, res_max = ucast (MaxPendingRequests t)\<rparr>,
      requests = \<lparr>res_current = 0, res_max = ucast (MaxRequests t)\<rparr>,
      retries = \<lparr>res_current = 0, res_max = ucast (MaxRetries t)\<rparr>\<rparr>"

section \<open>The connection pool\<close>

datatype failure = ConnectionFailure | Overflow

text \<open>
  Where a call of \<open>NewStream\<close> stands: the lock is released again, the client was seen, the
  circuit breaker has let the call pass, its stream is counted by the client, the request is
  counted by the circuit breaker, the stream is open, the stream is destroyed. A call that
  failed has reported so; one that panicked may have been counted before.
\<close>

datatype call =
    Unlocked
  | Connected
  | Admitted
  | Counted
  | Increased
  | Streaming
  | Destroyed
  | Refused failure
  | Panicked bool

record connPool =
  activeClient :: "64 word option"
  pool_requests :: resource
  calls :: "call list"

definition set_call :: "nat \<Rightarrow> call \<Rightarrow> connPool \<Rightarrow> connPool" where
  "set_call i c p = p\<lparr>calls := (calls p)[i := c]\<rparr>"

definition locked_part :: "bool \<Rightarrow> connPool \<Rightarrow> connPool" where
  "locked_part connects p =
     p\<lparr>activeClient := (case activeClient p of None \<Rightarrow> if connects then Some 0 else None | Some n \<Rightarrow> Some n),
       calls := calls p @ [Unlocked]\<rparr>"

fun call_step :: "nat \<Rightarrow> call \<Rightarrow> connPool \<Rightarrow> connPool option" where
  "call_step i Unlocked p =
     Some (set_call i (if activeClient p = None then Refused ConnectionFailure else Connected) p)"
| "call_step i Connected p =
     Some (set_call i (if \<not> CanCreate (pool_requests p) then Refused Overflow else Admitted) p)"
| "call_step i Admitted p =
     Some (case activeClient p of
             None \<Rightarrow> set_call i (Panicked False) p
           | Some n \<Rightarrow> set_call i Counted (p\<lparr>activeClient := Some (n + 1)\<rparr>))"
| "call_step i Counted p = Some (set_call i Increased (p\<lparr>pool_requests := Increase (pool_requests p)\<rparr>))"
| "call_step i Increased p = Some (set_call i (if activeClient p = None then Panicked True else Streaming) p)"
| "call_step i _ p = None"

text \<open>\<open>OnStreamDestroy\<close> of an open stream.\<close>

definition onStreamDestroy :: "nat \<Rightarrow> connPool \<Rightarrow> connPool" where
  "onStreamDestroy i p = set_call i Destroyed (p\<lparr>pool_requests := Decrease (pool_requests p)\<rparr>)"

text \<open>\<open>onConnectionEvent\<close> with a close or a failure to connect; it takes no lock.\<close>

definition onConnectionClosed :: "connPool \<Rightarrow> connPool" where
  "onConnectionClosed p = p\<lparr>activeClient := None\<rparr>"

definition in_progress :: "call \<Rightarrow> bool" where
  "in_progress c \<longleftrightarrow> c \<in> {Unlocked, Connected, Admitted, Counted, Increased}"

definition holding :: "call \<Rightarrow> bool" where
  "holding c \<longleftrightarrow> c \<in> {Increased, Streaming, Panicked True}"

definition passed :: "call \<Rightarrow> bool" where
  "passed c \<longleftrightarrow> c \<in> {Admitted, Counted}"

lemmas call_kinds = in_progress_def holding_def passed_def

definition cnt :: "(call \<Rightarrow> bool) \<Rightarrow> connPool \<Rightarrow> nat" where
  "cnt P p = length (filter P (calls p))"

text \<open>The steps of a pool with at most \<open>k\<close> calls of \<open>NewStream\<close> in progress.\<close>

inductive pool_step :: "nat \<Rightarrow> connPool \<Rightarrow> connPool \<Rightarrow> bool" for k where
  enter: "cnt in_progress p < k \<Longrightarrow> pool_step k p (locked_part connects p)"
| advance: "i < length (calls p) \<Longrightarrow> call_step i (calls p ! i) p = Some p' \<Longrightarrow> pool_step k p p'"
| destroy: "i < length (calls p) \<Longrightarrow> calls p ! i = Streaming \<Longrightarrow> pool_step k p (onStreamDestroy i p)"
| close: "pool_step k p (onConnectionClosed p)"

inductive_cases pool_stepE: "pool_step k p p'"

definition NewConnPool :: "64 word \<Rightarrow> connPool" where
  "NewConnPool m = \<lparr>activeClient = None, pool_requests = \<lparr>res_current = 0, res_max = m\<rparr>, calls = []\<rparr>"

text \<open>Schedules: the steps as moves that can be computed.\<close>

datatype move = Enter bool | Advance nat | Destroy nat | CloseConnection

fun do_move :: "nat \<Rightarrow> move \<Rightarrow> connPool \<Rightarrow> connPool option" where
  "do_move k (Enter connects) p = (if cnt in_progress p < k then Some (locked_part connects p) else None)"
| "do_move k (Advance i) p = (if i < length (calls p) then call_step i (calls p ! i) p else None)"
| "do_move k (Destroy i) p =
     (if i < length (calls p) \<and> calls p ! i = Streaming then Some (onStreamDestroy i p) else None)"
| "do_move k CloseConnection p = Some (onConnectionClosed p)"

fun do_moves :: "nat \<Rightarrow> move list \<Rightarrow> connPool \<Rightarrow> connPool option" where
  "do_moves k [] p = Some p"
| "do_moves k (m # ms) p = Option.bind (do_move k m p) (do_moves k ms)"

lemma do_move_step: "do_move k m p = Some p' \<Longrightarrow> pool_step k p p'"
  by (cases m) (auto intro: pool_step.intros split: if_splits)

lemma do_moves_reach: "do_moves k ms p = Some p' \<Longrightarrow> (pool_step k)\<^sup>*\<^sup>* p p'"
  by (induction ms arbitrary: p) (auto simp: bind_eq_Some_conv intro: converse_rtranclp_into_rtranclp do_move_step)

section \<open>Counting\<close>

lemma length_filter_update:
  assumes "i < length xs"
  shows "length (filter P (xs[i := x])) + of_bool (P (xs ! i)) = length (filter P xs) + of_bool (P x)"
proof -
  have "xs = take i xs @ xs ! i # drop (Suc i) xs" using assms by (rule id_take_nth_drop)
  then have "filter P xs = filter P (take i xs) @ filter P [xs ! i] @ filter P (drop (Suc i) xs)"
    by (metis append_Cons append_Nil filter_append)
  moreover have "filter P (xs[i := x]) = filter P (take i xs) @ filter P [x] @ filter P (drop (Suc i) xs)"
    using assms by (simp add: upd_conv_take_nth_drop)
  ultimately show ?thesis by simp
qed

lemma cnt_set_call:
  "i < length (calls p) \<Longrightarrow> cnt P (set_call i c p) + of_bool (P (calls p ! i)) = cnt P p + of_bool (P c)"
  by (simp add: cnt_def set_call_def length_filter_update)

lemma cnt_others [simp]:
  "cnt P (p\<lparr>activeClient := a\<rparr>) = cnt P p" "cnt P (p\<lparr>pool_requests := r\<rparr>) = cnt P p"
  by (simp_all add: cnt_def)

lemma cnt_pos: "i < length (calls p) \<Longrightarrow> P (calls p ! i) \<Longrightarrow> 0 < cnt P p"
  unfolding cnt_def by (metis length_greater_0_conv filter_empty_conv nth_mem)

lemma length_filter_split:
  "length (filter (\<lambda>x. P x \<and> Q x) xs) + length (filter (\<lambda>x. P x \<and> \<not> Q x) xs) = length (filter P xs)"
  by (induction xs) auto

lemma cnt_two:
  assumes "i < length (calls p)" and "P (calls p ! i)" and "\<not> Q (calls p ! i)" and "\<And>c. Q c \<Longrightarrow> P c"
  shows "cnt Q p < cnt P p"
proof -
  have "cnt Q p = cnt (\<lambda>c. P c \<and> Q c) p" using assms(4) by (auto simp: cnt_def intro!: arg_cong [where f = length] filter_cong)
  also have "\<dots> < cnt (\<lambda>c. P c \<and> Q c) p + cnt (\<lambda>c. P c \<and> \<not> Q c) p" using cnt_pos [of i p "\<lambda>c. P c \<and> \<not> Q c"] assms by simp
  also have "\<dots> = cnt P p" unfolding cnt_def by (rule length_filter_split)
  finally show ?thesis .
qed

section \<open>The circuit breaker\<close>

definition pool_inv :: "nat \<Rightarrow> 64 word \<Rightarrow> connPool \<Rightarrow> bool" where
  "pool_inv k m p \<longleftrightarrow> res_max (pool_requests p) = m \<and> res_current (pool_requests p) = word_of_nat (cnt holding p) \<and>
     cnt in_progress p \<le> k \<and> cnt holding p + cnt passed p \<le> unat m + k - 1"

lemma sint_small: "n < 2 ^ 63 \<Longrightarrow> sint (word_of_nat n :: 64 word) = int n"
  by (simp add: signed_of_nat signed_take_bit_int_eq_self)

lemma CanCreate_iff:
  assumes "res_current r = word_of_nat n" and "n < 2 ^ 63"
  shows "CanCreate r \<longleftrightarrow> n < unat (res_max r)"
  using assms by (simp add: CanCreate_def sint_small word_less_nat_alt unsigned_of_nat take_bit_nat_eq_self)

lemma call_step_cnt:
  assumes "i < length (calls p)" and "call_step i (calls p ! i) p = Some p'"
  shows "cnt P p' + of_bool (P (calls p ! i)) = cnt P p + of_bool (P (calls p' ! i))"
proof -
  obtain c where c: "calls p' = (calls p)[i := c]"
    using assms(2) by (cases "calls p ! i") (auto simp: set_call_def split: option.splits)
  then have "calls p' ! i = c" using assms(1) by simp
  with c length_filter_update [OF assms(1), of P c] show ?thesis by (simp add: cnt_def)
qed

lemma call_step_shape:
  assumes "i < length (calls p)" and "call_step i c p = Some p'"
  shows "in_progress c \<and> holding (calls p' ! i) = (holding c \<or> c = Counted) \<and>
    (passed (calls p' ! i) \<longrightarrow> passed c \<or> (c = Connected \<and> CanCreate (pool_requests p))) \<and>
    (c = Counted \<longrightarrow> \<not> passed (calls p' ! i)) \<and>
    pool_requests p' = (if c = Counted then Increase (pool_requests p) else pool_requests p)"
  using assms by (cases c) (auto simp: set_call_def call_kinds split: option.splits if_splits)

lemma call_step_counts:
  assumes i: "i < length (calls p)" and step: "call_step i (calls p ! i) p = Some p'"
  defines "c \<equiv> calls p ! i"
  shows "cnt holding p' = cnt holding p + of_bool (c = Counted)" and "cnt in_progress p' \<le> cnt in_progress p"
    and "cnt holding p' + cnt passed p' \<le>
      cnt holding p + cnt passed p + of_bool (c = Connected \<and> CanCreate (pool_requests p))"
proof -
  note s = call_step_shape [OF i step, folded c_def] and n = call_step_cnt [OF i step, folded c_def]
  show h: "cnt holding p' = cnt holding p + of_bool (c = Counted)"
    using n [of holding] s by (cases "c = Counted") (auto simp: holding_def [of Counted])
  show "cnt in_progress p' \<le> cnt in_progress p" using n [of in_progress] s by (cases "in_progress (calls p' ! i)") simp_all
  have "cnt passed p' + of_bool (c = Counted) \<le> cnt passed p + of_bool (c = Connected \<and> CanCreate (pool_requests p))"
    using n [of passed] s by (cases "passed (calls p' ! i)"; cases "c = Counted") (auto simp: passed_def [of Counted])
  with h show "cnt holding p' + cnt passed p' \<le>
      cnt holding p + cnt passed p + of_bool (c = Connected \<and> CanCreate (pool_requests p))" by simp
qed

lemma call_step_inv:
  assumes inv: "pool_inv k m p" and fits: "unat m + k \<le> 2 ^ 63" and i: "i < length (calls p)"
    and step: "call_step i (calls p ! i) p = Some p'"
  shows "pool_inv k m p'"
proof -
  note c = call_step_counts [OF i step]
  note s = call_step_shape [OF i step]
  have k: "cnt in_progress p \<le> k" "0 < k" using inv cnt_pos [of i p in_progress] i s unfolding pool_inv_def by auto
  have "cnt holding p < 2 ^ 63" using inv fits k unfolding pool_inv_def by linarith
  then have can: "CanCreate (pool_requests p) \<longleftrightarrow> cnt holding p < unat m"
    using CanCreate_iff [of "pool_requests p" "cnt holding p"] inv by (simp add: pool_inv_def)
  have less: "cnt passed p < cnt in_progress p" if "calls p ! i = Connected"
    using that i by (intro cnt_two [of i]) (auto simp: call_kinds)
  have "cnt holding p' + cnt passed p' \<le> unat m + k - 1"
  proof (cases "calls p ! i = Connected \<and> CanCreate (pool_requests p)")
    case True
    with less can k c(3) show ?thesis by simp
  next
    case False
    then have "cnt holding p' + cnt passed p' \<le> cnt holding p + cnt passed p" using c(3) by (simp only: of_bool_eq)
    with inv show ?thesis unfolding pool_inv_def by linarith
  qed
  with inv c(1,2) k s show ?thesis by (auto simp: pool_inv_def Increase_def)
qed

lemma pool_step_inv:
  assumes "pool_step k p p'" and "pool_inv k m p" and "unat m + k \<le> 2 ^ 63"
  shows "pool_inv k m p'"
  using assms(1)
proof cases
  case (enter connects)
  then show ?thesis using assms(2) by (auto simp: pool_inv_def locked_part_def cnt_def call_kinds)
next
  case (advance i)
  then show ?thesis using call_step_inv [OF assms(2,3)] by blast
next
  case (destroy i)
  let ?q = "p\<lparr>pool_requests := Decrease (pool_requests p)\<rparr>"
  have n: "cnt P p' + of_bool (P Streaming) = cnt P p + of_bool (P Destroyed)" for P
    using cnt_set_call [of i ?q P Destroyed] destroy by (simp add: onStreamDestroy_def)
  have h: "Suc (cnt holding p') = cnt holding p" "cnt passed p' = cnt passed p" "cnt in_progress p' = cnt in_progress p"
    using n [of holding] n [of passed] n [of in_progress] by (simp_all add: call_kinds)
  have "res_current (pool_requests p') = word_of_nat (cnt holding p) - 1" "res_max (pool_requests p') = res_max (pool_requests p)"
    using assms(2) destroy by (simp_all add: onStreamDestroy_def set_call_def Decrease_def pool_inv_def)
  with assms(2) h show ?thesis unfolding pool_inv_def h(1) [symmetric] by auto
next
  case close
  then show ?thesis using assms(2) by (simp add: pool_inv_def onConnectionClosed_def)
qed

lemma pool_inv_reachable:
  assumes "(pool_step k)\<^sup>*\<^sup>* (NewConnPool m) p" and "unat m + k \<le> 2 ^ 63"
  shows "pool_inv k m p"
  using assms(1)
proof (induction rule: rtranclp_induct)
  case base
  show ?case by (simp add: pool_inv_def NewConnPool_def cnt_def)
next
  case (step p p')
  then show ?case using pool_step_inv assms(2) by blast
qed

section \<open>Properties\<close>


lemmas pool_eval = NewConnPool_def locked_part_def set_call_def onConnectionClosed_def onStreamDestroy_def
  CanCreate_def Increase_def Decrease_def cnt_def call_kinds

text \<open>The bound is reached: two overlapping calls both pass a circuit breaker for one request.\<close>

lemma requests_exceed_maximum: "\<exists>p. (pool_step 2)\<^sup>*\<^sup>* (NewConnPool 1) p \<and> cnt holding p = 2"
proof -
  have "\<exists>p. do_moves 2 [Enter True, Enter True, Advance 0, Advance 1, Advance 0, Advance 1, Advance 0, Advance 1,
      Advance 0, Advance 1] (NewConnPool 1) = Some p \<and> cnt holding p = 2"
    by (simp add: pool_eval)
  then show ?thesis using do_moves_reach by blast
qed


text \<open>
  A connection that closes while a single call of \<open>NewStream\<close> is in progress can
  make the call panic: it tests the client once and then uses it again, while the close event
  sets it to nil without taking the lock.
\<close>

lemma closed_connection_panics:
  assumes "0 < m"
  shows "\<exists>p. (pool_step 1)\<^sup>*\<^sup>* (NewConnPool m) p \<and> calls p = [Panicked False]"
proof -
  have "\<exists>p. do_moves 1 [Enter True, Advance 0, Advance 0, CloseConnection, Advance 0] (NewConnPool m) = Some p \<and>
      calls p = [Panicked False]"
    using assms by (simp add: pool_eval)
  then show ?thesis using do_moves_reach by blast
qed

end
