(* ===== verification/Retry.thy ===== *)
theory Retry
  imports Resource_Manager Strconv
begin

text \<open>
  Retries and timeouts of a proxied request: \<open>pkg/proxy/retrystate.go\<close> and the timeouts of
  \<open>pkg/proxy/util.go\<close>. What a retry state shares with its cluster, the retry resource and the
  two retry counters, is passed along. A counter that was never registered is nil.
\<close>

section \<open>Timeouts\<close>

record Timeout =
  GlobalTimeout :: int
  TryTimeout :: int

definition parseProxyTimeout :: "int \<Rightarrow> int \<Rightarrow> (string \<rightharpoonup> string) \<Rightarrow> Timeout" where
  "parseProxyTimeout routeGlobal routeTry headers =
     (let try = (case headers ''x-mosn-try-timeout'' of
                   Some tto \<Rightarrow> if ParseInt_ok 64 tto then ParseInt 64 tto else routeTry | None \<Rightarrow> routeTry);
          global = (case headers ''x-mosn-global-timeout'' of
                   Some gto \<Rightarrow> if ParseInt_ok 64 gto then ParseInt 64 gto else routeGlobal | None \<Rightarrow> routeGlobal)
      in \<lparr>GlobalTimeout = global, TryTimeout = (if try \<ge> global then 0 else try)\<rparr>)"

section \<open>The retry state\<close>

record cluster_stats =
  UpstreamRequestRetry :: "nat option"
  UpstreamRequestRetryOverflow :: "nat option"

text \<open>The counters \<open>newClusterStats\<close> registers do not include these two.\<close>

definition newClusterStats :: cluster_stats where
  "newClusterStats = \<lparr>UpstreamRequestRetry = None, UpstreamRequestRetryOverflow = None\<rparr>"

definition Inc :: "nat option \<Rightarrow> nat option outcome" where
  "Inc c = (case c of None \<Rightarrow> Inl NilDereference | Some n \<Rightarrow> Inr (Some (n + 1)))"

record retry_cluster =
  rc_retries :: resource
  rc_stats :: cluster_stats

record retryState =
  retryOn :: bool
  retiesRemaining :: "32 word"
  retryFunc :: bool

datatype RetryCheckStatus = ShouldRetry | NoRetry | RetryOverflow

definition newRetryState :: "bool \<Rightarrow> 32 word \<Rightarrow> retryState" where
  "newRetryState on numRetries =
     \<lparr>retryOn = on, retiesRemaining = (if numRetries > 3 then numRetries else 3), retryFunc = False\<rparr>"

definition retry_reset :: "retryState \<times> retry_cluster \<Rightarrow> retryState \<times> retry_cluster" where
  "retry_reset s = (case s of (r, c) \<Rightarrow>
     if retryFunc r then (r\<lparr>retryFunc := False\<rparr>, c\<lparr>rc_retries := Decrease (rc_retries c)\<rparr>) else (r, c))"

definition doRetryCheck :: "(string \<rightharpoonup> string) \<Rightarrow> string \<Rightarrow> retryState \<Rightarrow> bool" where
  "doRetryCheck headers reason r =
     (if reason = ''StreamOverflow'' then False
      else if retryOn r then (case headers ''x-mosn-status'' of Some code \<Rightarrow> Atoi code \<ge> 500 | None \<Rightarrow> False)
      else False)"

definition shouldRetry ::
  "(string \<rightharpoonup> string) \<Rightarrow> string \<Rightarrow> retryState \<times> retry_cluster \<Rightarrow>
     ((retryState \<times> retry_cluster) \<times> RetryCheckStatus) outcome" where
  "shouldRetry headers reason s = (case s of (r, c) \<Rightarrow>
     if retiesRemaining r = 0 then Inr ((r, c), NoRetry)
     else
       (let r = r\<lparr>retiesRemaining := retiesRemaining r - 1\<rparr> in
        if \<not> doRetryCheck headers reason r then Inr ((r, c), NoRetry)
        else if CanCreate (rc_retries c) then
          obind (Inc (UpstreamRequestRetryOverflow (rc_stats c))) (\<lambda>n.
            Inr ((r, c\<lparr>rc_stats := (rc_stats c)\<lparr>UpstreamRequestRetryOverflow := n\<rparr>\<rparr>), RetryOverflow))
        else Inr ((r, c), ShouldRetry)))"

definition scheduleRetry :: "retryState \<times> retry_cluster \<Rightarrow> (retryState \<times> retry_cluster) outcome" where
  "scheduleRetry s = (case s of (r, c) \<Rightarrow>
     obind (Inc (UpstreamRequestRetry (rc_stats c))) (\<lambda>n.
       Inr (r\<lparr>retryFunc := True\<rparr>,
            c\<lparr>rc_retries := Increase (rc_retries c), rc_stats := (rc_stats c)\<lparr>UpstreamRequestRetry := n\<rparr>\<rparr>)))"

definition retry ::
  "(string \<rightharpoonup> string) \<Rightarrow> string \<Rightarrow> retryState \<times> retry_cluster \<Rightarrow>
     ((retryState \<times> retry_cluster) \<times> RetryCheckStatus) outcome" where
  "retry headers reason s =
     obind (shouldRetry headers reason (retry_reset s)) (\<lambda>(s', check).
       if check \<noteq> ShouldRetry then Inr (s', check)
       else obind (scheduleRetry s') (\<lambda>s''. Inr (s'', ShouldRetry)))"

lemmas retry_defs = retry_def shouldRetry_def scheduleRetry_def retry_reset_def Inc_def

section \<open>Lemmas\<close>

lemma doRetryCheck_upd [simp]:
  "doRetryCheck headers reason (r\<lparr>retiesRemaining := n\<rparr>) = doRetryCheck headers reason r"
  "doRetryCheck headers reason (r\<lparr>retryFunc := b\<rparr>) = doRetryCheck headers reason r"
  by (simp_all add: doRetryCheck_def)

text \<open>
  The circuit breaker for retries is asked the wrong way round: with the counters in place, a
  retry is scheduled just when the resource is exhausted.
\<close>

lemma retry_only_when_exhausted:
  assumes "retry headers reason (r, c) = Inr (s', status)" and "\<not> retryFunc r"
  shows "status = ShouldRetry \<longleftrightarrow>
    retiesRemaining r \<noteq> 0 \<and> doRetryCheck headers reason r \<and> \<not> CanCreate (rc_retries c)"
  using assms by (auto simp: retry_defs go_outcome Let_def split: if_splits option.splits)

section \<open>Properties\<close>

text \<open>
  On a cluster with the statistics \<open>newClusterStats\<close> sets up, a response that asks
  for a retry (retries are on and left, the status is 500 or more, the reason is not an
  overflow) makes the retry state panic, whether the circuit breaker is open or not: both
  branches increment a counter that does not exist. In every other case it answers \<open>NoRetry\<close>
  and no retry takes place.
\<close>

lemma retry_panics:
  assumes "rc_stats c = newClusterStats"
  shows "if retiesRemaining r \<noteq> 0 \<and> doRetryCheck headers reason r
    then retry headers reason (r, c) = Inl NilDereference
    else \<exists>s'. retry headers reason (r, c) = Inr (s', NoRetry)"
  using assms by (auto simp: retry_defs newClusterStats_def Let_def)

end
