(* ===== verification/Downstream.thy ===== *)
theory Downstream
  imports Retry Sofa_Headers
begin

text \<open>
  A proxied request: \<open>pkg/proxy/downstream.go\<close>, \<open>upstream.go\<close>, \<open>streamfilters.go\<close> and the
  event loop of \<open>event.go\<close>. The state is that of one stream, with the events waiting for it and
  everything it has sent so far. Routes, clusters, connection pools and filters are interfaces
  in the code; what they answer is given by an environment, which may change from one event to
  the next. Filters decide and reply, they do not change what they see.
\<close>

section \<open>Environment\<close>

datatype FilterHeadersStatus = HContinue | HStopIteration

datatype FilterDataStatus =
    DContinue
  | StopIterationAndBuffer
  | StopIterationAndWatermark
  | StopIterationNoBuffer

datatype FilterTrailersStatus = TContinue | TStopIteration

datatype resp_headers = RMap smap | RCmd bolt_cmd

text \<open>What a receiver filter does with its callbacks before it returns.\<close>

datatype reply =
    ReplyHeaders "resp_headers option" bool
  | ReplyData "byte list" bool
  | ReplyTrailers smap

record receiver_filter =
  OnDecodeHeaders :: "smap \<Rightarrow> bool \<Rightarrow> reply list \<times> FilterHeadersStatus"
  OnDecodeData :: "byte list \<Rightarrow> bool \<Rightarrow> reply list \<times> FilterDataStatus"
  OnDecodeTrailers :: "smap \<Rightarrow> reply list \<times> FilterTrailersStatus"

record sender_filter =
  f_AppendHeaders :: "resp_headers option \<Rightarrow> bool \<Rightarrow> FilterHeadersStatus"
  f_AppendData :: "byte list \<Rightarrow> bool \<Rightarrow> FilterDataStatus"
  f_AppendTrailers :: "smap option \<Rightarrow> FilterTrailersStatus"

record route_rule =
  rr_ClusterName :: string
  rr_GlobalTimeout :: int
  rr_TryTimeout :: int
  rr_RetryOn :: bool
  rr_NumRetries :: "32 word"

text \<open>
  \<open>e_newStream\<close> is the failure a connection pool reports for a new stream, if any, and
  \<open>e_sent\<close> what is left of a header map once a stream has encoded it.
\<close>

record stream_env =
  e_route :: "smap \<Rightarrow> route_rule option"
  e_cluster :: "string \<Rightarrow> retry_cluster option"
  e_pool :: "string \<Rightarrow> bool"
  e_newStream :: "failure option"
  e_sent :: "smap \<Rightarrow> smap"
  e_receivers :: "receiver_filter list"
  e_senders :: "sender_filter list"

section \<open>State\<close>

record filter_flags =
  stopped :: bool
  stoppedNoBuf :: bool
  headersContinued :: bool

definition new_flags :: filter_flags where
  "new_flags = \<lparr>stopped = False, stoppedNoBuf = False, headersContinued = False\<rparr>"

record upstreamRequest =
  requestSender :: bool
  sendComplete :: bool
  dataSent :: bool
  trailerSent :: bool

datatype direction = FromDownstream | FromUpstream

datatype event =
    StartEvent
  | StopEvent
  | ResetEvent direction string
  | ReceiveHeadersEvent direction smap bool
  | ReceiveDataEvent direction nat bool
  | ReceiveTrailerEvent direction smap

text \<open>What the stream does to the streams below it, and what it does when it is cleaned.\<close>

datatype act =
    DownHeaders "resp_headers option" bool
  | DownData "byte list" bool
  | DownTrailers "smap option"
  | DownReset
  | UpHeaders smap bool
  | UpData "byte list" bool
  | UpTrailers smap
  | UpReset
  | DestroySender nat
  | DestroyReceiver nat
  | ActiveDec
  | AccessLogged
  | Deleted

text \<open>
  Timers hold the duration they were started with while they run. Buffers are numbers, their
  contents are in \<open>buffers\<close>, since the code compares and shares them as pointers.
\<close>

record downStream =
  ds_cluster :: "(string \<times> retry_cluster) option"
  ds_timeout :: "Timeout option"
  ds_retryState :: "retryState option"
  upstreamReq :: "upstreamRequest option"
  perRetryTimer :: "int option"
  responseTimer :: "int option"
  retryTimer :: bool
  responseFlag :: "64 word"
  bytesSent :: "64 word"
  bytesReceived :: "64 word"
  reqHeaders :: "smap option"
  reqDataBuf :: "nat option"
  reqTrailers :: "smap option"
  respHeaders :: "resp_headers option"
  respDataBuf :: "nat option"
  respTrailers :: "smap option"
  responseStarted :: bool
  recvDone :: bool
  requestSent :: bool
  processDone :: bool
  senderStreaming :: bool
  receiverStreaming :: bool
  downstreamReset :: bool
  cleaned :: bool
  upstreamReset :: bool
  senderFlags :: "filter_flags list"
  receiverFlags :: "filter_flags list"
  buffers :: "nat \<Rightarrow> byte list"
  next_buffer :: nat
  ctrlChan :: "event list"
  jobChan :: "event list"
  streamMap :: "bool option"
  sent :: "act list"

definition emit :: "act \<Rightarrow> downStream \<Rightarrow> downStream" where
  "emit a s = s\<lparr>sent := sent s @ [a]\<rparr>"

definition offer :: "event \<Rightarrow> downStream \<Rightarrow> downStream" where
  "offer e s = (case e of
      StartEvent \<Rightarrow> s\<lparr>ctrlChan := ctrlChan s @ [e]\<rparr>
    | StopEvent \<Rightarrow> s\<lparr>ctrlChan := ctrlChan s @ [e]\<rparr>
    | ResetEvent _ _ \<Rightarrow> s\<lparr>ctrlChan := ctrlChan s @ [e]\<rparr>
    | _ \<Rightarrow> s\<lparr>jobChan := jobChan s @ [e]\<rparr>)"

definition new_buffer :: "byte list \<Rightarrow> downStream \<Rightarrow> downStream \<times> nat" where
  "new_buffer bs s =
     (s\<lparr>buffers := (buffers s)(next_buffer s := bs), next_buffer := next_buffer s + 1\<rparr>, next_buffer s)"

definition SetResponseFlag :: "64 word \<Rightarrow> downStream \<Rightarrow> downStream" where
  "SetResponseFlag f s = s\<lparr>responseFlag := or (responseFlag s) f\<rparr>"

definition upd_sender :: "nat \<Rightarrow> (filter_flags \<Rightarrow> filter_flags) \<Rightarrow> downStream \<Rightarrow> downStream" where
  "upd_sender i f s = s\<lparr>senderFlags := (senderFlags s)[i := f (senderFlags s ! i)]\<rparr>"

definition upd_receiver :: "nat \<Rightarrow> (filter_flags \<Rightarrow> filter_flags) \<Rightarrow> downStream \<Rightarrow> downStream" where
  "upd_receiver i f s = s\<lparr>receiverFlags := (receiverFlags s)[i := f (receiverFlags s ! i)]\<rparr>"

section \<open>The end of a stream\<close>

definition up_resetStream :: "downStream \<Rightarrow> downStream" where
  "up_resetStream s =
     (case upstreamReq s of Some r \<Rightarrow> if requestSender r then emit UpReset s else s | None \<Rightarrow> s)"

definition ds_retry_reset :: "downStream \<Rightarrow> downStream" where
  "ds_retry_reset s =
     (case (ds_retryState s, ds_cluster s) of
        (Some r, Some (n, c)) \<Rightarrow>
          (case retry_reset (r, c) of (r', c') \<Rightarrow> s\<lparr>ds_retryState := Some r', ds_cluster := Some (n, c')\<rparr>)
      | _ \<Rightarrow> s)"

definition cleanUp :: "downStream \<Rightarrow> downStream" where
  "cleanUp s =
     (let s = s\<lparr>upstreamReq := map_option (\<lambda>r. r\<lparr>requestSender := False\<rparr>) (upstreamReq s)\<rparr>
      in (ds_retry_reset s)\<lparr>perRetryTimer := None, responseTimer := None\<rparr>)"

definition clean_acts :: "nat \<Rightarrow> nat \<Rightarrow> act list" where
  "clean_acts ns nr =
     map DestroySender [0..<ns] @ map DestroyReceiver [0..<nr] @ [ActiveDec, AccessLogged, Deleted]"

definition cleanStream :: "downStream \<Rightarrow> downStream" where
  "cleanStream s =
     (if cleaned s then s
      else
        (let s = cleanUp (up_resetStream (s\<lparr>cleaned := True\<rparr>))
         in offer StopEvent (s\<lparr>sent := sent s @ clean_acts (length (senderFlags s)) (length (receiverFlags s))\<rparr>)))"

text \<open>
  Resetting the downstream stream tells its listeners, and the stream itself is one: a reset
  event is offered.
\<close>

definition endStream :: "downStream \<Rightarrow> downStream" where
  "endStream s =
     (if \<not> recvDone s \<or> \<not> processDone s
      then offer (ResetEvent FromDownstream ''StreamLocalReset'') (emit DownReset (s\<lparr>processDone := True\<rparr>))
      else cleanStream s)"

definition ds_ResetStream :: "downStream \<Rightarrow> downStream" where
  "ds_ResetStream s = (if downstreamReset s then s else cleanStream (s\<lparr>downstreamReset := True\<rparr>))"

section \<open>Sending the response\<close>

definition runAppendHeaderFilters ::
  "stream_env \<Rightarrow> nat \<Rightarrow> resp_headers option \<Rightarrow> bool \<Rightarrow> downStream \<Rightarrow> downStream \<times> bool" where
  "runAppendHeaderFilters env i headers e s =
     (if i < length (e_senders env) then
        (case f_AppendHeaders (e_senders env ! i) headers e of
           HStopIteration \<Rightarrow> (upd_sender i (\<lambda>f. f\<lparr>stopped := True\<rparr>) s, True)
         | HContinue \<Rightarrow> (upd_sender i (\<lambda>f. f\<lparr>headersContinued := True\<rparr>) s, False))
      else (s, False))"

definition doAppendHeaders :: "stream_env \<Rightarrow> nat \<Rightarrow> resp_headers option \<Rightarrow> bool \<Rightarrow> downStream \<Rightarrow> downStream" where
  "doAppendHeaders env i headers e s =
     (case runAppendHeaderFilters env i headers e s of (s, stop) \<Rightarrow>
        if stop then s
        else (let s = emit (DownHeaders headers e) s in if e then endStream s else s))"

text \<open>What follows the filters in \<open>doAppendData\<close> and \<open>doAppendTrailers\<close>.\<close>

definition send_data :: "nat \<Rightarrow> bool \<Rightarrow> downStream \<times> bool \<Rightarrow> downStream" where
  "send_data data e r = (case r of (s, stop) \<Rightarrow>
     if stop then s
     else
       (let bs = buffers s data; s = emit (DownData bs e) s; s = s\<lparr>bytesSent := bytesSent s + word_of_nat (length bs)\<rparr>
        in if e then endStream s else s))"

definition send_trailers :: "smap option \<Rightarrow> downStream \<times> bool \<Rightarrow> downStream" where
  "send_trailers trailers r = (case r of (s, stop) \<Rightarrow>
     if stop then s else endStream (emit (DownTrailers trailers) s))"

definition sender_handleBufferData :: "nat \<Rightarrow> downStream \<Rightarrow> downStream" where
  "sender_handleBufferData buf s =
     (if respDataBuf s = Some buf then s
      else
        (let s = (case respDataBuf s of
                    None \<Rightarrow> (case new_buffer [] s of (s, b) \<Rightarrow> s\<lparr>respDataBuf := Some b\<rparr>)
                  | Some _ \<Rightarrow> s);
             b = the (respDataBuf s)
         in s\<lparr>buffers := (buffers s)(b := buffers s b @ buffers s buf, buf := [])\<rparr>))"

text \<open>A filter that continues passes on what is held back, from the next filter on.\<close>

definition continue_headers :: "stream_env \<Rightarrow> nat \<Rightarrow> bool \<Rightarrow> downStream \<Rightarrow> downStream" where
  "continue_headers env i e s =
     (if headersContinued (senderFlags s ! i) then s
      else doAppendHeaders env (i + 1) (respHeaders s) e (upd_sender i (\<lambda>f. f\<lparr>headersContinued := True\<rparr>) s))"

definition held_response :: "nat \<Rightarrow> downStream \<Rightarrow> downStream" where
  "held_response i s =
     (if stoppedNoBuf (senderFlags s ! i) \<or> respDataBuf s = None
      then (case new_buffer [] s of (s, b) \<Rightarrow> s\<lparr>respDataBuf := Some b\<rparr>) else s)"

function runAppendDataFilters :: "stream_env \<Rightarrow> nat \<Rightarrow> nat \<Rightarrow> bool \<Rightarrow> downStream \<Rightarrow> downStream \<times> bool"
  and runAppendTrailersFilters :: "stream_env \<Rightarrow> nat \<Rightarrow> smap option \<Rightarrow> downStream \<Rightarrow> downStream \<times> bool"
  and sender_doContinue :: "stream_env \<Rightarrow> nat \<Rightarrow> downStream \<Rightarrow> downStream" where
  "runAppendDataFilters env i data e s =
     (if i < length (e_senders env) then
        (case f_AppendData (e_senders env ! i) (buffers s data) e of
           DContinue \<Rightarrow>
             if stopped (senderFlags s ! i)
             then (sender_doContinue env i (sender_handleBufferData data s), True)
             else runAppendDataFilters env (i + 1) data e s
         | StopIterationAndBuffer \<Rightarrow>
             (sender_handleBufferData data ((upd_sender i (\<lambda>f. f\<lparr>stopped := True\<rparr>) s)\<lparr>senderStreaming := False\<rparr>), True)
         | StopIterationAndWatermark \<Rightarrow>
             (sender_handleBufferData data ((upd_sender i (\<lambda>f. f\<lparr>stopped := True\<rparr>) s)\<lparr>senderStreaming := True\<rparr>), True)
         | StopIterationNoBuffer \<Rightarrow>
             ((upd_sender i (\<lambda>f. f\<lparr>stopped := True, stoppedNoBuf := True\<rparr>) s)\<lparr>buffers := (buffers s)(data := [])\<rparr>, True))
      else (s, False))"
| "runAppendTrailersFilters env i trailers s =
     (if i < length (e_senders env) then
        (case f_AppendTrailers (e_senders env ! i) trailers of
           TContinue \<Rightarrow>
             if stopped (senderFlags s ! i) then (sender_doContinue env i s, True)
             else runAppendTrailersFilters env (i + 1) trailers s
         | TStopIteration \<Rightarrow> (s, True))
      else (s, False))"
| "sender_doContinue env i s =
     (if i < length (e_senders env) then
        (let s = upd_sender i (\<lambda>f. f\<lparr>stopped := False\<rparr>) s;
             hasBuffedData = respDataBuf s \<noteq> None;
             hasTrailer = respTrailers s = None;
             s = continue_headers env i (processDone s \<and> \<not> hasBuffedData \<and> \<not> hasTrailer) s;
             s = (if hasBuffedData \<or> stoppedNoBuf (senderFlags s ! i) then
                    (let s = held_response i s; data = the (respDataBuf s); e = recvDone s \<and> \<not> hasTrailer
                     in send_data data e (runAppendDataFilters env (i + 1) data e s))
                  else s)
         in if hasTrailer then send_trailers (respTrailers s) (runAppendTrailersFilters env (i + 1) (respTrailers s) s)
            else s)
      else s)"
  by pat_completeness auto
termination
  by (relation "measure (\<lambda>x. case x of
      Inl (env, i, _) \<Rightarrow> 2 * (length (e_senders env) - i) + 1
    | Inr (Inl (env, i, _)) \<Rightarrow> 2 * (length (e_senders env) - i) + 1
    | Inr (Inr (env, i, _)) \<Rightarrow> 2 * (length (e_senders env) - i))") auto

declare runAppendDataFilters.simps [simp del] runAppendTrailersFilters.simps [simp del] sender_doContinue.simps [simp del]

definition doAppendData :: "stream_env \<Rightarrow> nat \<Rightarrow> bool \<Rightarrow> downStream \<Rightarrow> downStream" where
  "doAppendData env data e s = send_data data e (runAppendDataFilters env 0 data e s)"

definition doAppendTrailers :: "stream_env \<Rightarrow> smap option \<Rightarrow> downStream \<Rightarrow> downStream" where
  "doAppendTrailers env trailers s = send_trailers trailers (runAppendTrailersFilters env 0 trailers s)"

definition appendHeaders :: "stream_env \<Rightarrow> resp_headers option \<Rightarrow> bool \<Rightarrow> downStream \<Rightarrow> downStream" where
  "appendHeaders env headers e s = doAppendHeaders env 0 headers e (s\<lparr>processDone := e\<rparr>)"

definition appendData :: "stream_env \<Rightarrow> nat \<Rightarrow> bool \<Rightarrow> downStream \<Rightarrow> downStream" where
  "appendData env data e s = doAppendData env data e (s\<lparr>processDone := e\<rparr>)"

definition appendTrailers :: "stream_env \<Rightarrow> smap \<Rightarrow> downStream \<Rightarrow> downStream" where
  "appendTrailers env trailers s = doAppendTrailers env (Some trailers) (s\<lparr>processDone := True\<rparr>)"

text \<open>
  The reply to a request that cannot be proxied is made of its own header map, which the
  status is added to.
\<close>

definition HeaderStatus :: string where "HeaderStatus = ''x-mosn-status''"

definition sendHijackReply :: "stream_env \<Rightarrow> nat \<Rightarrow> downStream \<Rightarrow> downStream" where
  "sendHijackReply env code s =
     (case reqHeaders s of
        None \<Rightarrow> appendHeaders env (Some (RMap [HeaderStatus \<mapsto> FormatUint code])) True s
      | Some h \<Rightarrow>
          (let h' = h(HeaderStatus \<mapsto> FormatUint code)
           in appendHeaders env (Some (RMap h')) True (s\<lparr>reqHeaders := Some h'\<rparr>)))"

fun do_reply :: "stream_env \<Rightarrow> reply \<Rightarrow> downStream \<Rightarrow> downStream" where
  "do_reply env (ReplyHeaders h e) s = doAppendHeaders env 0 h e (s\<lparr>respHeaders := h\<rparr>)"
| "do_reply env (ReplyData bs e) s = (case new_buffer bs s of (s, b) \<Rightarrow> doAppendData env b e s)"
| "do_reply env (ReplyTrailers t) s = doAppendTrailers env (Some t) (s\<lparr>respTrailers := Some t\<rparr>)"

definition do_replies :: "stream_env \<Rightarrow> reply list \<Rightarrow> downStream \<Rightarrow> downStream" where
  "do_replies env rs s = fold (do_reply env) rs s"

section \<open>The upstream request\<close>

definition RouterUnavailableCode :: nat where "RouterUnavailableCode = 404"
definition NoHealthUpstreamCode :: nat where "NoHealthUpstreamCode = 500"
definition TimeoutExceptionCode :: nat where "TimeoutExceptionCode = 504"

definition initializeUpstreamConnectionPool :: "stream_env \<Rightarrow> string \<Rightarrow> downStream \<Rightarrow> downStream \<times> bool" where
  "initializeUpstreamConnectionPool env clusterName s =
     (case e_cluster env clusterName of
        None \<Rightarrow> (sendHijackReply env RouterUnavailableCode (SetResponseFlag NoRouteFound s), False)
      | Some c \<Rightarrow>
          (let s = s\<lparr>ds_cluster := Some (clusterName, c)\<rparr> in
           if e_pool env clusterName then (s, True)
           else (sendHijackReply env NoHealthUpstreamCode (SetResponseFlag NoHealthyUpstream s), False)))"

definition request_headers :: "downStream \<Rightarrow> smap" where
  "request_headers s = (case reqHeaders s of Some h \<Rightarrow> h | None \<Rightarrow> Map.empty)"

text \<open>
  A pool answers at once: it hands over a stream, on which the request headers are sent, or
  it reports a failure, which becomes a reset event.
\<close>

definition reset_reason :: "failure \<Rightarrow> string" where
  "reset_reason f = (case f of Overflow \<Rightarrow> ''StreamOverflow'' | ConnectionFailure \<Rightarrow> ''ConnectionFailed'')"

definition OnReady :: "stream_env \<Rightarrow> upstreamRequest \<Rightarrow> downStream \<Rightarrow> downStream" where
  "OnReady env r s =
     (let s = s\<lparr>upstreamReq := Some (r\<lparr>requestSender := True\<rparr>)\<rparr>;
          s = emit (UpHeaders (request_headers s) (sendComplete r \<and> \<not> dataSent r \<and> \<not> trailerSent r)) s
      in s\<lparr>reqHeaders := map_option (e_sent env) (reqHeaders s)\<rparr>)"

definition up_appendHeaders :: "stream_env \<Rightarrow> bool \<Rightarrow> upstreamRequest \<Rightarrow> downStream \<Rightarrow> downStream" where
  "up_appendHeaders env e r s =
     (let r = r\<lparr>sendComplete := e\<rparr>; s = s\<lparr>upstreamReq := Some r\<rparr> in
      case e_newStream env of
        None \<Rightarrow> OnReady env r s
      | Some f \<Rightarrow> offer (ResetEvent FromUpstream (reset_reason f)) s)"

definition up_appendData :: "byte list \<Rightarrow> bool \<Rightarrow> downStream \<Rightarrow> downStream outcome" where
  "up_appendData bs e s =
     (case upstreamReq s of
        None \<Rightarrow> Inl NilDereference
      | Some r \<Rightarrow>
          if requestSender r
          then Inr (emit (UpData bs e) (s\<lparr>upstreamReq := Some (r\<lparr>sendComplete := e, dataSent := True\<rparr>)\<rparr>))
          else Inl NilDereference)"

definition up_appendTrailers :: "smap \<Rightarrow> downStream \<Rightarrow> downStream outcome" where
  "up_appendTrailers trailers s =
     (case upstreamReq s of
        None \<Rightarrow> Inl NilDereference
      | Some r \<Rightarrow>
          if requestSender r
          then Inr (emit (UpTrailers trailers) (s\<lparr>upstreamReq := Some (r\<lparr>sendComplete := True, trailerSent := True\<rparr>)\<rparr>))
          else Inl NilDereference)"

text \<open>The duration of the timer for one try is multiplied by a second, in 64 bits.\<close>

definition try_duration :: "int \<Rightarrow> int" where
  "try_duration t = sint (word_of_int (t * 1000000000) :: 64 word)"

definition setupPerReqTimeout :: "downStream \<Rightarrow> downStream outcome" where
  "setupPerReqTimeout s =
     (case ds_timeout s of
        None \<Rightarrow> Inl NilDereference
      | Some t \<Rightarrow>
          Inr (if TryTimeout t > 0 then s\<lparr>perRetryTimer := Some (try_duration (TryTimeout t))\<rparr> else s))"

definition onUpstreamRequestSent :: "downStream \<Rightarrow> downStream outcome" where
  "onUpstreamRequestSent s =
     (let s = s\<lparr>requestSent := True\<rparr> in
      if upstreamReq s = None then Inr s
      else obind (setupPerReqTimeout s) (\<lambda>s.
        case ds_timeout s of
          None \<Rightarrow> Inl NilDereference
        | Some t \<Rightarrow> Inr (if GlobalTimeout t > 0 then s\<lparr>responseTimer := Some (GlobalTimeout t)\<rparr> else s)))"

section \<open>Receiving the request\<close>

definition runReceiveHeadersFilters :: "stream_env \<Rightarrow> nat \<Rightarrow> bool \<Rightarrow> downStream \<Rightarrow> downStream \<times> bool" where
  "runReceiveHeadersFilters env i e s =
     (if i < length (e_receivers env) then
        (case OnDecodeHeaders (e_receivers env ! i) (request_headers s) e of (rs, status) \<Rightarrow>
           let s = do_replies env rs s in
           case status of
             HStopIteration \<Rightarrow> (upd_receiver i (\<lambda>f. f\<lparr>stopped := True\<rparr>) s, True)
           | HContinue \<Rightarrow> (upd_receiver i (\<lambda>f. f\<lparr>headersContinued := True\<rparr>) s, False))
      else (s, False))"

definition new_request :: upstreamRequest where
  "new_request = \<lparr>requestSender = False, sendComplete = False, dataSent = False, trailerSent = False\<rparr>"

definition doReceiveHeaders :: "stream_env \<Rightarrow> nat \<Rightarrow> bool \<Rightarrow> downStream \<Rightarrow> downStream outcome" where
  "doReceiveHeaders env i e s =
     (case runReceiveHeadersFilters env i e s of (s, stop) \<Rightarrow>
        if stop then Inr s
        else
          (case e_route env (request_headers s) of
             None \<Rightarrow> Inr (sendHijackReply env RouterUnavailableCode (SetResponseFlag NoRouteFound s))
           | Some rt \<Rightarrow>
               (case initializeUpstreamConnectionPool env (rr_ClusterName rt) s of (s, ok) \<Rightarrow>
                  if \<not> ok then Inr s
                  else
                    (let s = s\<lparr>ds_timeout := Some (parseProxyTimeout (rr_GlobalTimeout rt) (rr_TryTimeout rt) (request_headers s)),
                               ds_retryState := Some (newRetryState (rr_RetryOn rt) (rr_NumRetries rt))\<rparr>;
                         s = up_appendHeaders env e new_request s
                     in if e then onUpstreamRequestSent s else Inr s))))"

text \<open>What follows the filters in \<open>doReceiveData\<close> and \<open>doReceiveTrailers\<close>.\<close>

definition forward_data :: "nat \<Rightarrow> bool \<Rightarrow> downStream \<times> bool \<Rightarrow> downStream outcome" where
  "forward_data data e r = (case r of (s, stop) \<Rightarrow>
     if stop then Inr s
     else
       obind (if e then onUpstreamRequestSent s else Inr s) (\<lambda>s.
       obind (up_appendData (buffers s data) e s) (\<lambda>s.
         Inr (if processDone s then cleanStream s else s))))"

definition forward_trailers :: "smap \<Rightarrow> downStream \<times> bool \<Rightarrow> downStream outcome" where
  "forward_trailers trailers r = (case r of (s, stop) \<Rightarrow>
     if stop then Inr s
     else
       obind (onUpstreamRequestSent (s\<lparr>reqTrailers := Some trailers\<rparr>)) (\<lambda>s.
       obind (up_appendTrailers trailers s) (\<lambda>s.
         Inr (if processDone s then cleanStream s else s))))"

definition receiver_handleBufferData :: "nat \<Rightarrow> downStream \<Rightarrow> downStream" where
  "receiver_handleBufferData buf s =
     (if reqDataBuf s = Some buf then s
      else
        (let s = (case reqDataBuf s of
                    None \<Rightarrow> (case new_buffer [] s of (s, b) \<Rightarrow> s\<lparr>reqDataBuf := Some b\<rparr>)
                  | Some _ \<Rightarrow> s);
             b = the (reqDataBuf s)
         in s\<lparr>buffers := (buffers s)(b := buffers s b @ buffers s buf, buf := [])\<rparr>))"

definition continue_request :: "stream_env \<Rightarrow> nat \<Rightarrow> bool \<Rightarrow> downStream \<Rightarrow> downStream outcome" where
  "continue_request env i e s =
     (if headersContinued (receiverFlags s ! i) then Inr s
      else doReceiveHeaders env (i + 1) e (upd_receiver i (\<lambda>f. f\<lparr>headersContinued := True\<rparr>) s))"

definition held_request :: "nat \<Rightarrow> downStream \<Rightarrow> downStream" where
  "held_request i s =
     (if stoppedNoBuf (receiverFlags s ! i) \<or> reqDataBuf s = None
      then (case new_buffer [] s of (s, b) \<Rightarrow> s\<lparr>reqDataBuf := Some b\<rparr>) else s)"

function receive_data_loop :: "stream_env \<Rightarrow> nat \<Rightarrow> nat \<Rightarrow> bool \<Rightarrow> downStream \<Rightarrow> (downStream \<times> bool) outcome"
  and receive_trailers_loop :: "stream_env \<Rightarrow> nat \<Rightarrow> smap \<Rightarrow> downStream \<Rightarrow> (downStream \<times> bool) outcome"
  and receiver_doContinue :: "stream_env \<Rightarrow> nat \<Rightarrow> downStream \<Rightarrow> downStream outcome" where
  "receive_data_loop env i data e s =
     (if i < length (e_receivers env) then
        (case OnDecodeData (e_receivers env ! i) (buffers s data) e of (rs, status) \<Rightarrow>
           let s = do_replies env rs s in
           case status of
             DContinue \<Rightarrow>
               if stopped (receiverFlags s ! i)
               then obind (receiver_doContinue env i (receiver_handleBufferData data s)) (\<lambda>s. Inr (s, False))
               else receive_data_loop env (i + 1) data e s
           | StopIterationAndBuffer \<Rightarrow>
               Inr (receiver_handleBufferData data ((upd_receiver i (\<lambda>f. f\<lparr>stopped := True\<rparr>) s)\<lparr>receiverStreaming := False\<rparr>), True)
           | StopIterationAndWatermark \<Rightarrow>
               Inr (receiver_handleBufferData data ((upd_receiver i (\<lambda>f. f\<lparr>stopped := True\<rparr>) s)\<lparr>receiverStreaming := True\<rparr>), True)
           | StopIterationNoBuffer \<Rightarrow>
               Inr ((upd_receiver i (\<lambda>f. f\<lparr>stopped := True, stoppedNoBuf := True\<rparr>) s)\<lparr>buffers := (buffers s)(data := [])\<rparr>, True))
      else Inr (s, False))"
| "receive_trailers_loop env i trailers s =
     (if i < length (e_receivers env) then
        (case OnDecodeTrailers (e_receivers env ! i) trailers of (rs, status) \<Rightarrow>
           let s = do_replies env rs s in
           case status of
             TContinue \<Rightarrow>
               if stopped (receiverFlags s ! i) then obind (receiver_doContinue env i s) (\<lambda>s. Inr (s, False))
               else receive_trailers_loop env (i + 1) trailers s
           | TStopIteration \<Rightarrow> Inr (s, True))
      else Inr (s, False))"
| "receiver_doContinue env i s =
     (if i < length (e_receivers env) \<and> \<not> processDone s then
        (let s = upd_receiver i (\<lambda>f. f\<lparr>stopped := False\<rparr>) s;
             hasBuffedData = reqDataBuf s \<noteq> None;
             hasTrailer = reqTrailers s \<noteq> None
         in
         obind (continue_request env i (recvDone s \<and> \<not> hasBuffedData \<and> \<not> hasTrailer) s) (\<lambda>s.
         obind (if hasBuffedData \<or> stoppedNoBuf (receiverFlags s ! i) then
                  (let s = held_request i s; data = the (reqDataBuf s); e = recvDone s \<and> \<not> hasTrailer
                   in obind (if processDone s then Inr (s, False) else receive_data_loop env (i + 1) data e s)
                        (forward_data data e))
                else Inr s) (\<lambda>s.
           if hasTrailer then
             (let t = the (reqTrailers s)
              in obind (if processDone s then Inr (s, False) else receive_trailers_loop env (i + 1) t s) (forward_trailers t))
           else Inr s)))
      else Inr s)"
  by pat_completeness auto
termination
  by (relation "measure (\<lambda>x. case x of
      Inl (env, i, _) \<Rightarrow> 2 * (length (e_receivers env) - i) + 1
    | Inr (Inl (env, i, _)) \<Rightarrow> 2 * (length (e_receivers env) - i) + 1
    | Inr (Inr (env, i, _)) \<Rightarrow> 2 * (length (e_receivers env) - i))") auto

declare receive_data_loop.simps [simp del] receive_trailers_loop.simps [simp del] receiver_doContinue.simps [simp del]

definition doReceiveData :: "stream_env \<Rightarrow> nat \<Rightarrow> bool \<Rightarrow> downStream \<Rightarrow> downStream outcome" where
  "doReceiveData env data e s =
     obind (if processDone s then Inr (s, False) else receive_data_loop env 0 data e s) (forward_data data e)"

definition doReceiveTrailers :: "stream_env \<Rightarrow> smap \<Rightarrow> downStream \<Rightarrow> downStream outcome" where
  "doReceiveTrailers env trailers s =
     obind (if processDone s then Inr (s, False) else receive_trailers_loop env 0 trailers s) (forward_trailers trailers)"

definition ReceiveHeaders :: "stream_env \<Rightarrow> smap \<Rightarrow> bool \<Rightarrow> downStream \<Rightarrow> downStream outcome" where
  "ReceiveHeaders env headers e s = doReceiveHeaders env 0 e (s\<lparr>recvDone := e, reqHeaders := Some headers\<rparr>)"

definition ReceiveData :: "stream_env \<Rightarrow> nat \<Rightarrow> bool \<Rightarrow> downStream \<Rightarrow> downStream outcome" where
  "ReceiveData env data e s =
     (if processDone s then Inr s
      else doReceiveData env data e
        (s\<lparr>bytesReceived := bytesReceived s + word_of_nat (length (buffers s data)), recvDone := e\<rparr>))"

definition ReceiveTrailers :: "stream_env \<Rightarrow> smap \<Rightarrow> downStream \<Rightarrow> downStream outcome" where
  "ReceiveTrailers env trailers s =
     (if processDone s then Inr s else doReceiveTrailers env trailers (s\<lparr>recvDone := True\<rparr>))"

section \<open>Events of the upstream stream\<close>

datatype UpstreamResetType = UpstreamReset | UpstreamGlobalTimeout | UpstreamPerTryTimeout

text \<open>\<open>retry\<close> of the retry state; a retry that is scheduled has its timer running.\<close>

definition ds_retry :: "smap \<Rightarrow> string \<Rightarrow> downStream \<Rightarrow> (downStream \<times> RetryCheckStatus) outcome" where
  "ds_retry headers reason s =
     (case (ds_retryState s, ds_cluster s) of
        (Some r, Some (n, c)) \<Rightarrow>
          obind (retry headers reason (r, c)) (\<lambda>((r', c'), check).
            Inr (s\<lparr>ds_retryState := Some r', ds_cluster := Some (n, c'),
                   retryTimer := retryTimer s \<or> check = ShouldRetry\<rparr>, check))
      | _ \<Rightarrow> Inl NilDereference)"

definition setupRetry :: "bool \<Rightarrow> downStream \<Rightarrow> (downStream \<times> bool) outcome" where
  "setupRetry e s =
     (if \<not> requestSent s then Inr (s, False)
      else
        (case upstreamReq s of
           None \<Rightarrow> Inl NilDereference
         | Some r \<Rightarrow>
             (let s = (if e then s else up_resetStream s)
              in Inr (s\<lparr>upstreamReq := Some (r\<lparr>requestSender := False\<rparr>), perRetryTimer := None\<rparr>, True))))"

definition streamResetReasonToResponseFlag :: "string \<Rightarrow> 64 word" where
  "streamResetReasonToResponseFlag reason =
     (if reason = ''ConnectionFailed'' then 0x20
      else if reason = ''ConnectionTermination'' then 0x40
      else if reason = ''StreamLocalReset'' then 0x8
      else if reason = ''StreamOverflow'' then 0x80
      else if reason = ''StreamRemoteReset'' then 0x10
      else 0)"

text \<open>The retry check of both upstream handlers; True when the handler returns for a retry.\<close>

definition check_retry :: "smap \<Rightarrow> string \<Rightarrow> bool \<Rightarrow> downStream \<Rightarrow> (downStream \<times> bool) outcome" where
  "check_retry headers reason e s =
     obind (ds_retry headers reason s) (\<lambda>(s, check).
       case check of
         ShouldRetry \<Rightarrow> setupRetry e s
       | RetryOverflow \<Rightarrow> Inr (SetResponseFlag UpstreamOverflow s, False)
       | NoRetry \<Rightarrow> Inr (s, False))"

definition onUpstreamReset :: "stream_env \<Rightarrow> UpstreamResetType \<Rightarrow> string \<Rightarrow> downStream \<Rightarrow> downStream outcome" where
  "onUpstreamReset env urtype reason s =
     (if upstreamReset s then Inr s
      else
        (let s = s\<lparr>upstreamReset := True\<rparr> in
         obind (if urtype \<noteq> UpstreamGlobalTimeout \<and> responseStarted s \<and> ds_retryState s \<noteq> None
                then check_retry Map.empty reason True s else Inr (s, False)) (\<lambda>(s, retrying).
           if retrying then Inr s
           else
             (let s = cleanUp s in
              if responseStarted s then Inr (endStream s)
              else if urtype = UpstreamGlobalTimeout \<or> urtype = UpstreamPerTryTimeout
              then Inr (sendHijackReply env TimeoutExceptionCode (SetResponseFlag UpstreamRequestTimeout s))
              else Inr (sendHijackReply env NoHealthUpstreamCode
                          (SetResponseFlag (streamResetReasonToResponseFlag reason) s))))))"

definition onUpstreamResponseRecvFinished :: "downStream \<Rightarrow> downStream outcome" where
  "onUpstreamResponseRecvFinished s =
     (if \<not> requestSent s \<and> upstreamReq s = None then Inl NilDereference
      else Inr (cleanUp (if \<not> requestSent s then up_resetStream s else s)))"

definition onUpstreamHeaders :: "stream_env \<Rightarrow> smap \<Rightarrow> bool \<Rightarrow> downStream \<Rightarrow> downStream outcome" where
  "onUpstreamHeaders env headers e s =
     (let s = s\<lparr>respHeaders := Some (RMap headers)\<rparr> in
      obind (if ds_retryState s \<noteq> None then check_retry headers [] e s else Inr (s, False)) (\<lambda>(s, retrying).
        if retrying then Inr s
        else
          (let s = (ds_retry_reset s)\<lparr>responseStarted := True\<rparr> in
           obind (if e then onUpstreamResponseRecvFinished s else Inr s) (\<lambda>s.
             Inr (appendHeaders env (Some (RMap headers)) e s)))))"

definition onUpstreamData :: "stream_env \<Rightarrow> nat \<Rightarrow> bool \<Rightarrow> downStream \<Rightarrow> downStream outcome" where
  "onUpstreamData env data e s =
     obind (if e then onUpstreamResponseRecvFinished s else Inr s) (\<lambda>s. Inr (appendData env data e s))"

definition onUpstreamTrailers :: "stream_env \<Rightarrow> smap \<Rightarrow> downStream \<Rightarrow> downStream outcome" where
  "onUpstreamTrailers env trailers s =
     obind (onUpstreamResponseRecvFinished s) (\<lambda>s. Inr (appendTrailers env trailers s))"

text \<open>The methods of the upstream request fail when there is none.\<close>

definition with_request :: "(downStream \<Rightarrow> downStream outcome) \<Rightarrow> downStream \<Rightarrow> downStream outcome" where
  "with_request f s = (if upstreamReq s = None then Inl NilDereference else f s)"

definition up_ResetStream :: "stream_env \<Rightarrow> string \<Rightarrow> downStream \<Rightarrow> downStream outcome" where
  "up_ResetStream env reason s =
     onUpstreamReset env UpstreamReset reason
       (s\<lparr>upstreamReq := map_option (\<lambda>r. r\<lparr>requestSender := False\<rparr>) (upstreamReq s)\<rparr>)"

section \<open>Timers\<close>

definition onResponseTimeout :: "stream_env \<Rightarrow> downStream \<Rightarrow> downStream outcome" where
  "onResponseTimeout env s =
     (let s = s\<lparr>responseTimer := None\<rparr> in
      if ds_cluster s = None then Inl NilDereference
      else onUpstreamReset env UpstreamGlobalTimeout ''StreamLocalReset'' (up_resetStream s))"

definition onPerReqTimeout :: "stream_env \<Rightarrow> downStream \<Rightarrow> downStream outcome" where
  "onPerReqTimeout env s =
     (let s = s\<lparr>perRetryTimer := None\<rparr> in
      if responseStarted s then Inr s
      else if ds_cluster s = None \<or> upstreamReq s = None then Inl NilDereference
      else onUpstreamReset env UpstreamPerTryTimeout ''StreamLocalReset''
             (SetResponseFlag UpstreamRequestTimeout (up_resetStream s)))"

text \<open>A retry sends a clone of the data buffer, and a clone has no contents.\<close>

definition doRetry :: "stream_env \<Rightarrow> downStream \<Rightarrow> downStream outcome" where
  "doRetry env s =
     (let s = s\<lparr>retryTimer := False\<rparr> in
      case ds_cluster s of
        None \<Rightarrow> Inl NilDereference
      | Some (name, _) \<Rightarrow>
          (case initializeUpstreamConnectionPool env name s of (s, ok) \<Rightarrow>
             if \<not> ok then Inr (cleanUp (sendHijackReply env NoHealthUpstreamCode s))
             else
               (let s = up_appendHeaders env (reqDataBuf s \<noteq> None \<and> reqTrailers s \<noteq> None) new_request s in
                obind (if reqDataBuf s \<noteq> None then up_appendData [] (reqTrailers s = None) s else Inr s) (\<lambda>s.
                obind (case reqTrailers s of Some t \<Rightarrow> up_appendTrailers t s | None \<Rightarrow> Inr s) setupPerReqTimeout))))"

section \<open>The event loop\<close>

definition handle :: "stream_env \<Rightarrow> event \<Rightarrow> downStream \<Rightarrow> downStream outcome" where
  "handle env ev s =
     (case ev of
        ResetEvent FromDownstream reason \<Rightarrow> Inr (ds_ResetStream s)
      | ResetEvent FromUpstream reason \<Rightarrow> with_request (up_ResetStream env reason) s
      | ReceiveHeadersEvent FromDownstream headers e \<Rightarrow> ReceiveHeaders env headers e s
      | ReceiveHeadersEvent FromUpstream headers e \<Rightarrow> with_request (onUpstreamHeaders env headers e) s
      | ReceiveDataEvent FromDownstream data e \<Rightarrow> ReceiveData env data e s
      | ReceiveDataEvent FromUpstream data e \<Rightarrow> with_request (onUpstreamData env data e) s
      | ReceiveTrailerEvent FromDownstream trailers \<Rightarrow> ReceiveTrailers env trailers s
      | ReceiveTrailerEvent FromUpstream trailers \<Rightarrow> with_request (onUpstreamTrailers env trailers) s
      | _ \<Rightarrow> Inr s)"

definition eventProcess :: "stream_env \<Rightarrow> event \<Rightarrow> downStream \<Rightarrow> downStream outcome" where
  "eventProcess env ev s =
     (case ev of
        StartEvent \<Rightarrow> Inr (s\<lparr>streamMap := Some False\<rparr>)
      | StopEvent \<Rightarrow> Inr (s\<lparr>streamMap := None\<rparr>)
      | _ \<Rightarrow>
          if streamMap s = Some False
          then obind (handle env ev s) (\<lambda>s. Inr (s\<lparr>streamMap := Some (processDone s)\<rparr>))
          else Inr s)"

text \<open>
  What can happen to a stream: the layers below deliver headers, data, trailers or a reset,
  which are queued; the event loop takes the next control event, or a job when it has found no
  control event waiting; a running timer fires; a filter continues later on. The loop looks at
  the control events first, but a control event that arrives after that look competes with the
  jobs, so a job may be taken while one waits.
\<close>

datatype input =
    Deliver direction smap bool
  | DeliverData direction "byte list" bool
  | DeliverTrailers direction smap
  | DeliverReset direction string
  | TakeCtrl
  | TakeJob
  | GlobalTimer
  | PerTryTimer
  | RetryTimer
  | ContinueDecoding nat
  | ContinueEncoding nat
  | AddDecodedData "byte list" bool
  | AddEncodedData "byte list" bool
  | FilterReply reply
  | FilterReset
  | DecodeError string smap

text \<open>A buffer is cloned and remembered when it is delivered, not when its event is taken.\<close>

definition deliver_data :: "direction \<Rightarrow> byte list \<Rightarrow> bool \<Rightarrow> downStream \<Rightarrow> downStream" where
  "deliver_data d bs e s =
     (case new_buffer bs s of (s, b) \<Rightarrow>
        offer (ReceiveDataEvent d b e)
          (case d of FromDownstream \<Rightarrow> s\<lparr>reqDataBuf := Some b\<rparr> | FromUpstream \<Rightarrow> s\<lparr>respDataBuf := Some b\<rparr>))"

text \<open>
  A message that cannot be decoded is answered at once, without an event. Data a filter adds
  between events, and its replies, take effect at once too.
\<close>

definition ds_OnDecodeError :: "stream_env \<Rightarrow> string \<Rightarrow> smap \<Rightarrow> downStream \<Rightarrow> downStream" where
  "ds_OnDecodeError env err headers s =
     (if processDone s then s
      else
        (let code = (if err = ''Codec exception occurs'' then 0
                     else if err = ''Deserial exception occurs'' then 3 else 2 :: nat)
         in offer (ResetEvent FromDownstream ''StreamLocalReset'')
              (appendHeaders env (Some (RMap (headers(HeaderStatus \<mapsto> FormatUint code)))) True s)))"

definition addDecodedData :: "byte list \<Rightarrow> bool \<Rightarrow> downStream \<Rightarrow> downStream" where
  "addDecodedData bs streaming s =
     (case new_buffer bs (s\<lparr>receiverStreaming := streaming\<rparr>) of (s, b) \<Rightarrow> receiver_handleBufferData b s)"

definition addEncodedData :: "byte list \<Rightarrow> bool \<Rightarrow> downStream \<Rightarrow> downStream" where
  "addEncodedData bs streaming s =
     (case new_buffer bs (s\<lparr>senderStreaming := streaming\<rparr>) of (s, b) \<Rightarrow> sender_handleBufferData b s)"

definition ds_input :: "stream_env \<Rightarrow> input \<Rightarrow> downStream \<Rightarrow> downStream outcome option" where
  "ds_input env inp s =
     (case inp of
        Deliver d h e \<Rightarrow> Some (Inr (offer (ReceiveHeadersEvent d h e) s))
      | DeliverData d bs e \<Rightarrow> Some (Inr (deliver_data d bs e s))
      | DeliverTrailers d t \<Rightarrow> Some (Inr (offer (ReceiveTrailerEvent d t) s))
      | DeliverReset d r \<Rightarrow> Some (Inr (offer (ResetEvent d r) s))
      | TakeCtrl \<Rightarrow> (case ctrlChan s of ev # evs \<Rightarrow> Some (eventProcess env ev (s\<lparr>ctrlChan := evs\<rparr>)) | [] \<Rightarrow> None)
      | TakeJob \<Rightarrow> (case jobChan s of ev # evs \<Rightarrow> Some (eventProcess env ev (s\<lparr>jobChan := evs\<rparr>)) | [] \<Rightarrow> None)
      | GlobalTimer \<Rightarrow> (if responseTimer s = None then None else Some (onResponseTimeout env s))
      | PerTryTimer \<Rightarrow> (if perRetryTimer s = None then None else Some (onPerReqTimeout env s))
      | RetryTimer \<Rightarrow> (if retryTimer s then Some (doRetry env s) else None)
      | ContinueDecoding i \<Rightarrow> Some (receiver_doContinue env i s)
      | ContinueEncoding i \<Rightarrow> Some (Inr (sender_doContinue env i s))
      | AddDecodedData bs streaming \<Rightarrow> Some (Inr (addDecodedData bs streaming s))
      | AddEncodedData bs streaming \<Rightarrow> Some (Inr (addEncodedData bs streaming s))
      | FilterReply r \<Rightarrow> Some (Inr (do_reply env r s))
      | FilterReset \<Rightarrow> Some (Inr (endStream s))
      | DecodeError err headers \<Rightarrow> Some (Inr (ds_OnDecodeError env err headers s)))"

definition newActiveStream :: "nat \<Rightarrow> nat \<Rightarrow> downStream" where
  "newActiveStream ns nr =
     \<lparr>ds_cluster = None, ds_timeout = None, ds_retryState = None, upstreamReq = None, perRetryTimer = None,
      responseTimer = None, retryTimer = False, responseFlag = 0, bytesSent = 0, bytesReceived = 0,
      reqHeaders = None, reqDataBuf = None, reqTrailers = None, respHeaders = None, respDataBuf = None,
      respTrailers = None, responseStarted = False, recvDone = False, requestSent = False, processDone = False,
      senderStreaming = False, receiverStreaming = False, downstreamReset = False, cleaned = False,
      upstreamReset = False, senderFlags = replicate ns new_flags, receiverFlags = replicate nr new_flags,
      buffers = (\<lambda>_. []), next_buffer = 0, ctrlChan = [StartEvent], jobChan = [], streamMap = None, sent = []\<rparr>"

inductive ds_step :: "downStream \<Rightarrow> downStream \<Rightarrow> bool" where
  "ds_input env inp s = Some (Inr s') \<Longrightarrow> ds_step s s'"

inductive_cases ds_stepE: "ds_step s s'"

fun ds_run :: "(stream_env \<times> input) list \<Rightarrow> downStream \<Rightarrow> downStream outcome option" where
  "ds_run [] s = Some (Inr s)"
| "ds_run ((env, inp) # es) s =
     (case ds_input env inp s of
        None \<Rightarrow> None
      | Some (Inl p) \<Rightarrow> Some (Inl p)
      | Some (Inr s') \<Rightarrow> ds_run es s')"

end
