(* ===== verification/Downstream_Properties.thy ===== *)
theory Downstream_Properties
  imports Downstream
begin

text \<open>
  Properties of a proxied request: what every operation keeps, by way of two interfaces for
  invariants, and what follows for whole runs of a stream.
\<close>

section \<open>Messages\<close>

definition down_msg :: "act \<Rightarrow> bool" where
  "down_msg a \<longleftrightarrow> (case a of DownHeaders _ _ \<Rightarrow> True | DownData _ _ \<Rightarrow> True | DownTrailers _ \<Rightarrow> True | _ \<Rightarrow> False)"

definition clean_act :: "act \<Rightarrow> bool" where
  "clean_act a \<longleftrightarrow> (case a of
      DestroySender _ \<Rightarrow> True | DestroyReceiver _ \<Rightarrow> True | ActiveDec \<Rightarrow> True | AccessLogged \<Rightarrow> True | Deleted \<Rightarrow> True
    | _ \<Rightarrow> False)"

lemma down_msg_simps [simp]:
  "down_msg (DownHeaders h e)" "down_msg (DownData bs e)" "down_msg (DownTrailers t)" "\<not> down_msg DownReset"
  "\<not> down_msg (UpHeaders m e)" "\<not> down_msg (UpData bs e)" "\<not> down_msg (UpTrailers m)" "\<not> down_msg UpReset"
  by (simp_all add: down_msg_def)

lemma down_msg_not_clean: "down_msg a \<Longrightarrow> \<not> clean_act a"
  by (auto simp: down_msg_def clean_act_def split: act.splits)

section \<open>Invariants of sending the response\<close>

text \<open>
  An invariant that does not depend on the filters, the buffers and the response, and that the
  end of a stream keeps, is kept by everything that sends a response.
\<close>

locale response_invariant =
  fixes P :: "downStream \<Rightarrow> bool"
  assumes flags: "P s \<Longrightarrow> P (upd_sender i f s)"
    and buffer: "P s \<Longrightarrow> P (s\<lparr>buffers := bs\<rparr>)" "P s \<Longrightarrow> P (s\<lparr>next_buffer := n\<rparr>)"
    and response: "P s \<Longrightarrow> P (s\<lparr>respDataBuf := b\<rparr>)" "P s \<Longrightarrow> P (s\<lparr>respHeaders := h\<rparr>)" "P s \<Longrightarrow> P (s\<lparr>respTrailers := t\<rparr>)"
    and progress: "P s \<Longrightarrow> P (s\<lparr>senderStreaming := x\<rparr>)" "P s \<Longrightarrow> P (s\<lparr>bytesSent := k\<rparr>)"
    and message: "down_msg a \<Longrightarrow> P s \<Longrightarrow> P (emit a s)"
    and ending: "P s \<Longrightarrow> P (endStream s)"
begin

lemma keeps_new_buffer: "P s \<Longrightarrow> new_buffer bs s = (s', b) \<Longrightarrow> P s'"
  using buffer(2) [OF buffer(1)] by (auto simp: new_buffer_def)

lemma keeps_doAppendHeaders: "P s \<Longrightarrow> P (doAppendHeaders env i h e s)"
  by (auto simp: doAppendHeaders_def runAppendHeaderFilters_def Let_def intro!: message ending flags
      split: FilterHeadersStatus.split)

lemma keeps_send_data: "P (fst r) \<Longrightarrow> P (send_data data e r)"
  by (auto simp: send_data_def Let_def intro!: message ending progress split: prod.split)

lemma keeps_send_trailers: "P (fst r) \<Longrightarrow> P (send_trailers t r)"
  by (auto simp: send_trailers_def intro!: message ending split: prod.split)

lemma keeps_handleBufferData: "P s \<Longrightarrow> P (sender_handleBufferData b s)"
  by (auto simp: sender_handleBufferData_def Let_def intro!: buffer response dest!: keeps_new_buffer [rotated]
      split: option.split prod.split)

lemma keeps_continue_headers: "P s \<Longrightarrow> P (continue_headers env i e s)"
  by (auto simp: continue_headers_def intro!: keeps_doAppendHeaders flags)

lemma keeps_held_response: "P s \<Longrightarrow> P (held_response i s)"
  by (auto simp: held_response_def intro!: response dest!: keeps_new_buffer [rotated] split: prod.split)

lemma keeps_sender_doContinue:
  assumes data: "\<And>data e s. P s \<Longrightarrow> P (fst (runAppendDataFilters env (Suc i) data e s))"
    and trailers: "\<And>t s. P s \<Longrightarrow> P (fst (runAppendTrailersFilters env (Suc i) t s))"
    and s: "P s"
  shows "P (sender_doContinue env i s)"
proof -
  define s1 where "s1 = upd_sender i (\<lambda>f. f\<lparr>stopped := False\<rparr>) s"
  define b where "b \<longleftrightarrow> respDataBuf s1 \<noteq> None"
  define t where "t \<longleftrightarrow> respTrailers s1 = None"
  define s2 where "s2 = continue_headers env i (processDone s1 \<and> \<not> b \<and> \<not> t) s1"
  define s3 where "s3 = held_response i s2"
  define s4 where "s4 = (if b \<or> stoppedNoBuf (senderFlags s2 ! i)
    then send_data (the (respDataBuf s3)) (recvDone s3 \<and> \<not> t)
      (runAppendDataFilters env (Suc i) (the (respDataBuf s3)) (recvDone s3 \<and> \<not> t) s3) else s2)"
  have 2: "P s2" using s by (simp add: s2_def s1_def keeps_continue_headers flags)
  then have "P s3" by (simp add: s3_def keeps_held_response)
  with 2 have 4: "P s4" by (auto simp: s4_def intro!: keeps_send_data data)
  have "sender_doContinue env i s = (if i < length (e_senders env) then if t then
      send_trailers (respTrailers s4) (runAppendTrailersFilters env (Suc i) (respTrailers s4) s4) else s4 else s)"
    by (simp only: sender_doContinue.simps[of env i s] Let_def s1_def b_def t_def s2_def s3_def s4_def Suc_eq_plus1)
  with s 4 show ?thesis by (auto intro!: keeps_send_trailers trailers)
qed

lemma keeps_sender_filters:
  "P s \<Longrightarrow> P (fst (runAppendDataFilters env i data e s))"
  "P s \<Longrightarrow> P (fst (runAppendTrailersFilters env i t s))"
proof (induction "length (e_senders env) - i" arbitrary: i s data e t)
  case 0
  { case 1 with 0 show ?case by (simp add: runAppendDataFilters.simps[of env i]) }
  { case 2 with 0 show ?case by (simp add: runAppendTrailersFilters.simps[of env i]) }
next
  case (Suc n)
  then have n: "n = length (e_senders env) - Suc i" by simp
  have cont: "P (sender_doContinue env i s)" if "P s" for s
    using Suc.hyps(1,2)[OF n] that by (intro keeps_sender_doContinue) auto
  { case 1 then show ?case using Suc.hyps(1)[OF n]
      by (subst runAppendDataFilters.simps)
        (auto intro!: buffer progress keeps_handleBufferData flags cont split: FilterDataStatus.split) }
  { case 2 then show ?case using Suc.hyps(2)[OF n] cont
      by (subst runAppendTrailersFilters.simps) (auto split: FilterTrailersStatus.split) }
qed

lemma keeps_sender_continue: "P s \<Longrightarrow> P (sender_doContinue env i s)"
  using keeps_sender_doContinue keeps_sender_filters by blast

lemma keeps_doAppend: "P s \<Longrightarrow> P (doAppendData env data e s)" "P s \<Longrightarrow> P (doAppendTrailers env t s)"
  by (simp_all add: doAppendData_def doAppendTrailers_def keeps_send_data keeps_send_trailers keeps_sender_filters)

lemma keeps_do_reply: "P s \<Longrightarrow> P (do_reply env r s)"
  by (cases r) (auto intro!: keeps_doAppendHeaders keeps_doAppend response dest!: keeps_new_buffer [rotated] split: prod.split)

lemma keeps_do_replies: "P s \<Longrightarrow> P (do_replies env rs s)"
  unfolding do_replies_def by (induction rs arbitrary: s) (auto intro: keeps_do_reply)

lemma keeps_addEncodedData: "P s \<Longrightarrow> P (addEncodedData bs x s)"
  by (auto simp: addEncodedData_def intro!: keeps_handleBufferData progress dest!: keeps_new_buffer [rotated] split: prod.split)

end

section \<open>What every operation keeps\<close>

text \<open>
  The part of the state that only sending and cleaning change, and an interface for invariants
  of it: whoever keeps them when something is sent and when the stream is cleaned keeps them
  in every operation.
\<close>

type_synonym core = "act list \<times> bool \<times> nat \<times> nat"

definition core :: "downStream \<Rightarrow> core" where
  "core s = (sent s, cleaned s, length (senderFlags s), length (receiverFlags s))"

definition add_act :: "act \<Rightarrow> core \<Rightarrow> core" where
  "add_act a c = (case c of (xs, d) \<Rightarrow> (xs @ [a], d))"

definition clean_core :: "core \<Rightarrow> core" where
  "clean_core c = (case c of (xs, d, ns, nr) \<Rightarrow> if d then c else (xs @ clean_acts ns nr, True, ns, nr))"

lemma clean_act_simps [simp]:
  "\<not> clean_act (DownHeaders h e)" "\<not> clean_act (DownData bs e)" "\<not> clean_act (DownTrailers t)" "\<not> clean_act DownReset"
  "\<not> clean_act (UpHeaders m e)" "\<not> clean_act (UpData bs e)" "\<not> clean_act (UpTrailers m)" "\<not> clean_act UpReset"
  by (simp_all add: clean_act_def)

lemma core_upd [simp]:
  "core (s\<lparr>ds_cluster := x1\<rparr>) = core s" "core (s\<lparr>ds_timeout := x2\<rparr>) = core s" "core (s\<lparr>ds_retryState := x3\<rparr>) = core s"
  "core (s\<lparr>upstreamReq := x4\<rparr>) = core s" "core (s\<lparr>perRetryTimer := x5\<rparr>) = core s" "core (s\<lparr>responseTimer := x6\<rparr>) = core s"
  "core (s\<lparr>retryTimer := x7\<rparr>) = core s" "core (s\<lparr>responseFlag := x8\<rparr>) = core s" "core (s\<lparr>bytesSent := x9\<rparr>) = core s"
  "core (s\<lparr>bytesReceived := x9\<rparr>) = core s" "core (s\<lparr>reqHeaders := y1\<rparr>) = core s" "core (s\<lparr>reqDataBuf := y2\<rparr>) = core s"
  "core (s\<lparr>reqTrailers := y3\<rparr>) = core s" "core (s\<lparr>respHeaders := y4\<rparr>) = core s" "core (s\<lparr>respDataBuf := y2\<rparr>) = core s"
  "core (s\<lparr>respTrailers := y3\<rparr>) = core s" "core (s\<lparr>responseStarted := b\<rparr>) = core s" "core (s\<lparr>recvDone := b\<rparr>) = core s"
  "core (s\<lparr>requestSent := b\<rparr>) = core s" "core (s\<lparr>processDone := b\<rparr>) = core s" "core (s\<lparr>senderStreaming := b\<rparr>) = core s"
  "core (s\<lparr>receiverStreaming := b\<rparr>) = core s" "core (s\<lparr>downstreamReset := b\<rparr>) = core s" "core (s\<lparr>upstreamReset := b\<rparr>) = core s"
  "core (s\<lparr>buffers := z\<rparr>) = core s" "core (s\<lparr>next_buffer := n\<rparr>) = core s" "core (s\<lparr>ctrlChan := evs\<rparr>) = core s"
  "core (s\<lparr>jobChan := evs\<rparr>) = core s" "core (s\<lparr>streamMap := m\<rparr>) = core s"
  by (simp_all add: core_def)

lemma core_pure [simp]:
  "core (offer ev s) = core s" "core (SetResponseFlag f s) = core s" "core (upd_sender i g s) = core s"
  "core (upd_receiver i g s) = core s" "core (fst (new_buffer bs s)) = core s" "core (ds_retry_reset s) = core s"
  by (simp_all add: offer_def SetResponseFlag_def upd_sender_def upd_receiver_def new_buffer_def ds_retry_reset_def
      core_def retry_reset_def split: event.split option.split prod.split)

lemma core_cleanUp [simp]: "core (cleanUp s) = core s"
  by (simp add: cleanUp_def Let_def)

lemma core_handleBufferData [simp]:
  "core (sender_handleBufferData b s) = core s" "core (receiver_handleBufferData b s) = core s"
  by (simp_all add: sender_handleBufferData_def receiver_handleBufferData_def new_buffer_def Let_def split: option.split)

lemma core_emit [simp]: "core (emit a s) = add_act a (core s)"
  by (simp add: core_def emit_def add_act_def)

lemma core_cleanStream: "core (cleanStream s) = (if cleaned s then core s else clean_core (core (up_resetStream s)))"
  by (simp add: cleanStream_def Let_def core_def clean_core_def offer_def cleanUp_def up_resetStream_def emit_def
      ds_retry_reset_def retry_reset_def split: option.split prod.split)

locale stream_invariant =
  fixes Q :: "core \<Rightarrow> bool"
  assumes acts: "\<not> clean_act a \<Longrightarrow> Q c \<Longrightarrow> Q (add_act a c)"
    and cleaning: "Q c \<Longrightarrow> Q (clean_core c)"
begin

lemma keeps_up_resetStream: "Q (core s) \<Longrightarrow> Q (core (up_resetStream s))"
  by (auto simp: up_resetStream_def intro: acts split: option.split)

lemma keeps_cleanStream: "Q (core s) \<Longrightarrow> Q (core (cleanStream s))"
  by (auto simp: core_cleanStream intro!: cleaning keeps_up_resetStream)

lemma keeps_endStream: "Q (core s) \<Longrightarrow> Q (core (endStream s))"
  by (auto simp: endStream_def intro!: acts keeps_cleanStream)

end

sublocale stream_invariant < response: response_invariant "\<lambda>s. Q (core s)"
  by unfold_locales (auto intro: acts keeps_endStream dest: down_msg_not_clean)

context stream_invariant
begin

lemma keeps_append:
  "Q (core s) \<Longrightarrow> Q (core (appendHeaders env h e s))" "Q (core s) \<Longrightarrow> Q (core (appendData env data e s))"
  "Q (core s) \<Longrightarrow> Q (core (appendTrailers env u s))"
  by (simp_all add: appendHeaders_def appendData_def appendTrailers_def response.keeps_doAppendHeaders response.keeps_doAppend)

lemma keeps_sendHijackReply: "Q (core s) \<Longrightarrow> Q (core (sendHijackReply env code s))"
  by (auto simp: sendHijackReply_def Let_def intro!: keeps_append split: option.split)

lemma keeps_initialize:
  "Q (core s) \<Longrightarrow> initializeUpstreamConnectionPool env n s = (s', ok) \<Longrightarrow> Q (core s')"
  by (auto simp: initializeUpstreamConnectionPool_def Let_def intro!: keeps_sendHijackReply split: option.splits if_splits)

lemma keeps_up_appendHeaders: "Q (core s) \<Longrightarrow> Q (core (up_appendHeaders env e r s))"
  by (auto simp: up_appendHeaders_def OnReady_def Let_def intro!: acts split: option.split)

lemma keeps_up_append:
  "Q (core s) \<Longrightarrow> up_appendData bs e s = Inr s' \<Longrightarrow> Q (core s')"
  "Q (core s) \<Longrightarrow> up_appendTrailers u s = Inr s' \<Longrightarrow> Q (core s')"
  by (auto simp: up_appendData_def up_appendTrailers_def intro!: acts split: option.splits if_splits)

lemma core_setupPerReqTimeout: "setupPerReqTimeout s = Inr s' \<Longrightarrow> core s' = core s"
  by (auto simp: setupPerReqTimeout_def split: option.splits if_splits)

lemma core_onUpstreamRequestSent: "onUpstreamRequestSent s = Inr s' \<Longrightarrow> core s' = core s"
  by (auto simp: onUpstreamRequestSent_def Let_def go_outcome dest!: core_setupPerReqTimeout split: option.splits if_splits)

lemma keeps_runReceiveHeadersFilters: "Q (core s) \<Longrightarrow> Q (core (fst (runReceiveHeadersFilters env i e s)))"
  by (auto simp: runReceiveHeadersFilters_def Let_def intro!: response.keeps_do_replies split: prod.split FilterHeadersStatus.split)

lemma keeps_doReceiveHeaders:
  assumes "Q (core s)" and "doReceiveHeaders env i e s = Inr s'"
  shows "Q (core s')"
proof -
  obtain s1 stop where 1: "runReceiveHeadersFilters env i e s = (s1, stop)" by (cases "runReceiveHeadersFilters env i e s")
  with keeps_runReceiveHeadersFilters [OF assms(1), of env i e] have "Q (core s1)" by simp
  with assms(2) 1 show ?thesis
    by (auto simp: doReceiveHeaders_def Let_def intro!: keeps_sendHijackReply keeps_up_appendHeaders
        dest!: core_onUpstreamRequestSent keeps_initialize [rotated] split: if_splits option.splits prod.splits)
qed

lemma keeps_forward:
  "Q (core (fst r)) \<Longrightarrow> forward_data data e r = Inr s' \<Longrightarrow> Q (core s')"
  "Q (core (fst r)) \<Longrightarrow> forward_trailers u r = Inr s' \<Longrightarrow> Q (core s')"
  by (auto simp: forward_data_def forward_trailers_def go_outcome intro!: keeps_cleanStream
      dest!: core_onUpstreamRequestSent keeps_up_append[rotated] split: prod.splits if_splits)

lemma keeps_continue_request: "Q (core s) \<Longrightarrow> continue_request env i e s = Inr s' \<Longrightarrow> Q (core s')"
  by (auto simp: continue_request_def dest!: keeps_doReceiveHeaders [rotated] split: if_splits)

lemma core_held_request: "core (held_request i s) = core s"
  by (simp add: held_request_def new_buffer_def)

lemma keeps_receiver_doContinue:
  assumes data: "\<And>data e s r. Q (core s) \<Longrightarrow> receive_data_loop env (Suc i) data e s = Inr r \<Longrightarrow> Q (core (fst r))"
    and trailers: "\<And>t s r. Q (core s) \<Longrightarrow> receive_trailers_loop env (Suc i) t s = Inr r \<Longrightarrow> Q (core (fst r))"
    and s: "Q (core s)" and run: "receiver_doContinue env i s = Inr s'"
  shows "Q (core s')"
proof (cases "i < length (e_receivers env) \<and> \<not> processDone s")
  case True
  define s1 where "s1 = upd_receiver i (\<lambda>f. f\<lparr>stopped := False\<rparr>) s"
  define b where "b \<longleftrightarrow> reqDataBuf s1 \<noteq> None"
  define t where "t \<longleftrightarrow> reqTrailers s1 \<noteq> None"
  from run obtain s2 s3 where 2: "continue_request env i (recvDone s1 \<and> \<not> b \<and> \<not> t) s1 = Inr s2"
    and 3: "(if b \<or> stoppedNoBuf (receiverFlags s2 ! i) then
       obind (if processDone (held_request i s2) then Inr (held_request i s2, False)
         else receive_data_loop env (Suc i) (the (reqDataBuf (held_request i s2))) (recvDone (held_request i s2) \<and> \<not> t) (held_request i s2))
         (forward_data (the (reqDataBuf (held_request i s2))) (recvDone (held_request i s2) \<and> \<not> t)) else Inr s2) = Inr s3"
    and 4: "(if t then obind (if processDone s3 then Inr (s3, False) else receive_trailers_loop env (Suc i) (the (reqTrailers s3)) s3)
         (forward_trailers (the (reqTrailers s3))) else Inr s3) = Inr s'"
    unfolding receiver_doContinue.simps [of env i s] if_P [OF True] Let_def obind_eq_Inr s1_def b_def t_def Suc_eq_plus1
    by blast
  have "Q (core s2)" using keeps_continue_request [OF _ 2] s by (simp add: s1_def)
  with 3 have "Q (core s3)"
    by (auto simp: go_outcome core_held_request split: if_splits dest!: data [rotated] keeps_forward(1) [rotated])
  with 4 show ?thesis
    by (auto simp: go_outcome split: if_splits dest!: trailers [rotated] keeps_forward(2) [rotated])
next
  case False
  with run s show ?thesis by (auto simp: receiver_doContinue.simps [of env i s])
qed

lemma keeps_receiver_filters:
  "Q (core s) \<Longrightarrow> receive_data_loop env i data e s = Inr r \<Longrightarrow> Q (core (fst r))"
  "Q (core s) \<Longrightarrow> receive_trailers_loop env i t s = Inr r \<Longrightarrow> Q (core (fst r))"
proof (induction "length (e_receivers env) - i" arbitrary: i s data e t r)
  case 0
  { case 1 with 0 show ?case by (auto simp: receive_data_loop.simps[of env i]) }
  { case 2 with 0 show ?case by (auto simp: receive_trailers_loop.simps[of env i]) }
next
  case (Suc n)
  then have n: "n = length (e_receivers env) - Suc i" by simp
  have cont: "Q (core s')" if "Q (core s)" "receiver_doContinue env i s = Inr s'" for s s'
    using Suc.hyps(1,2)[OF n] that by (intro keeps_receiver_doContinue[of env i s s']) auto
  { case 1 then show ?case using response.keeps_do_replies [of s env]
      by (subst (asm) receive_data_loop.simps)
        (auto simp: Let_def go_outcome intro: Suc.hyps(1)[OF n] dest!: cont [rotated] split: if_splits prod.splits FilterDataStatus.splits) }
  { case 2 then show ?case using response.keeps_do_replies [of s env]
      by (subst (asm) receive_trailers_loop.simps)
        (auto simp: Let_def go_outcome intro: Suc.hyps(2)[OF n] dest!: cont [rotated] split: if_splits prod.splits FilterTrailersStatus.splits) }
qed

lemma keeps_receiver_continue: "Q (core s) \<Longrightarrow> receiver_doContinue env i s = Inr s' \<Longrightarrow> Q (core s')"
  using keeps_receiver_doContinue keeps_receiver_filters by blast

lemma keeps_Receive:
  "Q (core s) \<Longrightarrow> ReceiveHeaders env h e s = Inr s' \<Longrightarrow> Q (core s')"
  "Q (core s) \<Longrightarrow> ReceiveData env data e s = Inr s' \<Longrightarrow> Q (core s')"
  "Q (core s) \<Longrightarrow> ReceiveTrailers env t s = Inr s' \<Longrightarrow> Q (core s')"
  by (auto simp: ReceiveHeaders_def ReceiveData_def ReceiveTrailers_def doReceiveData_def doReceiveTrailers_def go_outcome
      dest!: keeps_doReceiveHeaders [rotated] keeps_forward [rotated] keeps_receiver_filters [rotated] split: if_splits)

lemma core_ds_retry: "ds_retry h reason s = Inr (s', check) \<Longrightarrow> core s' = core s"
  by (auto simp: ds_retry_def go_outcome split: option.splits prod.splits)

lemma keeps_setupRetry: "Q (core s) \<Longrightarrow> setupRetry e s = Inr r \<Longrightarrow> Q (core (fst r))"
  by (auto simp: setupRetry_def Let_def intro!: keeps_up_resetStream split: if_splits option.splits)

lemma keeps_check_retry:
  assumes "Q (core s)" and "check_retry h reason e s = Inr r"
  shows "Q (core (fst r))"
proof -
  from assms(2) obtain s1 check where "ds_retry h reason s = Inr (s1, check)"
    and "(case check of ShouldRetry \<Rightarrow> setupRetry e s1 | RetryOverflow \<Rightarrow> Inr (SetResponseFlag UpstreamOverflow s1, False)
      | NoRetry \<Rightarrow> Inr (s1, False)) = Inr r" by (auto simp: check_retry_def go_outcome)
  with assms(1) show ?thesis by (cases check) (auto dest!: core_ds_retry keeps_setupRetry [rotated])
qed

lemma keeps_onUpstreamReset:
  assumes "Q (core s)" and "onUpstreamReset env u reason s = Inr s'"
  shows "Q (core s')"
  using assms
  by (auto simp: onUpstreamReset_def Let_def go_outcome intro!: keeps_endStream keeps_sendHijackReply
      dest!: keeps_check_retry [rotated] split: if_splits)

lemma keeps_recvFinished: "Q (core s) \<Longrightarrow> onUpstreamResponseRecvFinished s = Inr s' \<Longrightarrow> Q (core s')"
  by (auto simp: onUpstreamResponseRecvFinished_def intro!: keeps_up_resetStream split: if_splits)

lemma keeps_onUpstream:
  "Q (core s) \<Longrightarrow> onUpstreamHeaders env h e s = Inr s' \<Longrightarrow> Q (core s')"
  "Q (core s) \<Longrightarrow> onUpstreamData env data e s = Inr s' \<Longrightarrow> Q (core s')"
  "Q (core s) \<Longrightarrow> onUpstreamTrailers env t s = Inr s' \<Longrightarrow> Q (core s')"
  by (auto simp: onUpstreamHeaders_def onUpstreamData_def onUpstreamTrailers_def Let_def go_outcome intro!: keeps_append
      dest!: keeps_check_retry [rotated] keeps_recvFinished [rotated] split: if_splits)

lemma keeps_doRetry: "Q (core s) \<Longrightarrow> doRetry env s = Inr s' \<Longrightarrow> Q (core s')"
  by (auto simp: doRetry_def Let_def go_outcome intro!: keeps_sendHijackReply keeps_up_appendHeaders
      dest!: core_setupPerReqTimeout keeps_up_append [rotated] keeps_initialize [rotated] split: if_splits option.splits prod.splits)

lemma keeps_handle: "Q (core s) \<Longrightarrow> handle env ev s = Inr s' \<Longrightarrow> Q (core s')"
  by (auto simp: handle_def with_request_def up_ResetStream_def ds_ResetStream_def intro: keeps_Receive keeps_onUpstream
      intro!: keeps_cleanStream dest!: keeps_onUpstreamReset [rotated] split: event.splits direction.splits if_splits)

lemma keeps_eventProcess: "Q (core s) \<Longrightarrow> eventProcess env ev s = Inr s' \<Longrightarrow> Q (core s')"
  by (auto simp: eventProcess_def go_outcome dest!: keeps_handle [rotated] split: event.splits if_splits)

lemma keeps_input:
  assumes "Q (core s)" and "ds_input env inp s = Some (Inr s')"
  shows "Q (core s')"
proof (cases inp)
  case TakeCtrl
  with assms show ?thesis by (auto simp: ds_input_def dest!: keeps_eventProcess [rotated] split: list.splits)
next
  case TakeJob
  with assms show ?thesis by (auto simp: ds_input_def dest!: keeps_eventProcess [rotated] split: list.splits)
next
  case GlobalTimer
  with assms show ?thesis
    by (auto simp: ds_input_def onResponseTimeout_def Let_def intro!: keeps_up_resetStream dest!: keeps_onUpstreamReset [rotated]
        split: if_splits)
next
  case PerTryTimer
  with assms show ?thesis
    by (auto simp: ds_input_def onPerReqTimeout_def Let_def intro!: keeps_up_resetStream dest!: keeps_onUpstreamReset [rotated]
        split: if_splits)
next
  case (DecodeError err h)
  with assms show ?thesis by (auto simp: ds_input_def ds_OnDecodeError_def Let_def intro!: keeps_append)
qed (use assms in \<open>auto simp: ds_input_def deliver_data_def addDecodedData_def addEncodedData_def new_buffer_def
    intro: keeps_doRetry keeps_receiver_continue response.keeps_sender_continue response.keeps_do_reply keeps_endStream
    split: if_splits direction.splits\<close>)

lemma keeps_step: "ds_step s s' \<Longrightarrow> Q (core s) \<Longrightarrow> Q (core s')"
  by (auto elim!: ds_stepE intro: keeps_input)

lemma keeps_reachable: "ds_step\<^sup>*\<^sup>* s s' \<Longrightarrow> Q (core s) \<Longrightarrow> Q (core s')"
  by (induction rule: rtranclp_induct) (auto intro: keeps_step)

end

section \<open>Cleaning\<close>

definition cleaned_once :: "nat \<Rightarrow> nat \<Rightarrow> core \<Rightarrow> bool" where
  "cleaned_once ns nr c \<longleftrightarrow> (case c of (xs, d, m, n) \<Rightarrow>
     m = ns \<and> n = nr \<and> filter clean_act xs = (if d then clean_acts ns nr else []))"

lemma filter_clean_acts: "filter clean_act (clean_acts ns nr) = clean_acts ns nr"
  by (simp add: clean_acts_def clean_act_def filter_empty_conv comp_def)

interpretation once: stream_invariant "cleaned_once ns nr" for ns nr
  by unfold_locales (auto simp: cleaned_once_def add_act_def clean_core_def filter_clean_acts split: if_splits)

text \<open>Nothing that was sent is taken back.\<close>

interpretation history: stream_invariant "\<lambda>c. \<exists>ys. fst c = xs @ ys" for xs
  by unfold_locales (auto simp: add_act_def clean_core_def)

lemma sent_grows: "ds_step\<^sup>*\<^sup>* s s' \<Longrightarrow> \<exists>ys. sent s' = sent s @ ys"
  using history.keeps_reachable [of s s' "sent s"] by (simp add: core_def)

lemma ds_run_reach: "ds_run es s = Some (Inr s') \<Longrightarrow> ds_step\<^sup>*\<^sup>* s s'"
proof (induction es s rule: ds_run.induct)
  case (2 env inp es s)
  then obtain s1 where "ds_input env inp s = Some (Inr s1)" and "ds_run es s1 = Some (Inr s')"
    by (auto split: option.splits sum.splits)
  from ds_step.intros [OF this(1)] "2.IH" [OF this(1) refl this(2)] show ?case by (rule converse_rtranclp_into_rtranclp)
qed simp

section \<open>Abandoned streams\<close>

definition abandoned :: "downStream \<Rightarrow> bool" where
  "abandoned s \<longleftrightarrow> streamMap s = Some True \<and> processDone s \<and> \<not> recvDone s \<and> \<not> cleaned s \<and>
     perRetryTimer s = None \<and> responseTimer s = None \<and> \<not> retryTimer s \<and>
     {StartEvent, StopEvent} \<inter> set (ctrlChan s @ jobChan s) = {}"

interpretation abandoned: response_invariant abandoned
  by unfold_locales (auto simp: abandoned_def emit_def upd_sender_def endStream_def offer_def)

lemma abandoned_eventProcess:
  "abandoned s \<Longrightarrow> ev \<noteq> StartEvent \<Longrightarrow> ev \<noteq> StopEvent \<Longrightarrow> eventProcess env ev s = Inr s"
  by (auto simp: abandoned_def eventProcess_def split: event.split)

lemma abandoned_input:
  assumes "abandoned s" and "ds_input env inp s = Some (Inr s')"
  shows "abandoned s'"
proof (cases inp)
  case TakeCtrl
  with assms obtain ev evs where c: "ctrlChan s = ev # evs" and e: "eventProcess env ev (s\<lparr>ctrlChan := evs\<rparr>) = Inr s'"
    by (auto simp: ds_input_def split: list.splits)
  have "abandoned (s\<lparr>ctrlChan := evs\<rparr>)" "ev \<noteq> StartEvent" "ev \<noteq> StopEvent" using assms(1) c by (auto simp: abandoned_def)
  with e show ?thesis by (simp add: abandoned_eventProcess)
next
  case TakeJob
  with assms obtain ev evs where c: "jobChan s = ev # evs" and e: "eventProcess env ev (s\<lparr>jobChan := evs\<rparr>) = Inr s'"
    by (auto simp: ds_input_def split: list.splits)
  have "abandoned (s\<lparr>jobChan := evs\<rparr>)" "ev \<noteq> StartEvent" "ev \<noteq> StopEvent" using assms(1) c by (auto simp: abandoned_def)
  with e show ?thesis by (simp add: abandoned_eventProcess)
next
  case (ContinueDecoding i)
  with assms show ?thesis by (auto simp: ds_input_def receiver_doContinue.simps [of env i] abandoned_def)
next
  case (AddDecodedData bs x)
  with assms show ?thesis
    by (auto simp: ds_input_def addDecodedData_def receiver_handleBufferData_def new_buffer_def abandoned_def Let_def
        split: option.splits if_splits)
qed (use assms in \<open>auto simp: ds_input_def intro: abandoned.keeps_sender_continue abandoned.keeps_addEncodedData
    abandoned.keeps_do_reply abandoned.ending,
    auto simp: abandoned_def ds_OnDecodeError_def offer_def deliver_data_def new_buffer_def split: direction.splits\<close>)

lemma abandoned_forever: "ds_step\<^sup>*\<^sup>* s s' \<Longrightarrow> abandoned s \<Longrightarrow> abandoned s'"
  by (induction rule: rtranclp_induct) (auto elim!: ds_stepE intro: abandoned_input)

section \<open>Forwarding without filters\<close>

definition unfiltered :: "stream_env \<Rightarrow> bool" where
  "unfiltered env \<longleftrightarrow> e_receivers env = [] \<and> e_senders env = []"

lemma unfiltered_append:
  assumes "unfiltered env"
  shows "doAppendHeaders env i h e s = (let s = emit (DownHeaders h e) s in if e then endStream s else s)"
    "doAppendData env data e s = send_data data e (s, False)"
    "doAppendTrailers env t s = send_trailers t (s, False)"
    "receive_data_loop env i data e s = Inr (s, False)"
    "receive_trailers_loop env i m s = Inr (s, False)"
    "runReceiveHeadersFilters env i e s = (s, False)"
  using assms
  by (simp_all add: unfiltered_def doAppendHeaders_def runAppendHeaderFilters_def doAppendData_def doAppendTrailers_def
      runAppendDataFilters.simps [of env] runAppendTrailersFilters.simps [of env] receive_data_loop.simps [of env]
      receive_trailers_loop.simps [of env] runReceiveHeadersFilters_def)

lemmas receive_defs = ReceiveHeaders_def ReceiveData_def ReceiveTrailers_def doReceiveHeaders_def doReceiveData_def
  doReceiveTrailers_def forward_data_def forward_trailers_def initializeUpstreamConnectionPool_def up_appendHeaders_def
  OnReady_def up_appendData_def up_appendTrailers_def onUpstreamRequestSent_def setupPerReqTimeout_def

lemmas respond_defs = onUpstreamHeaders_def onUpstreamData_def onUpstreamTrailers_def check_retry_def ds_retry_def
  onUpstreamResponseRecvFinished_def appendHeaders_def appendData_def appendTrailers_def send_data_def send_trailers_def
  endStream_def cleanStream_def up_resetStream_def cleanUp_def ds_retry_reset_def

lemmas loop_defs = ds_input_def eventProcess_def handle_def with_request_def offer_def emit_def deliver_data_def new_buffer_def

text \<open>A stream whose request is under way, with nothing waiting for it.\<close>

definition under_way :: "downStream \<Rightarrow> bool" where
  "under_way s \<longleftrightarrow> streamMap s = Some False \<and> \<not> processDone s \<and> ctrlChan s = [] \<and> jobChan s = [] \<and> \<not> cleaned s \<and>
     senderFlags s = [] \<and> receiverFlags s = [] \<and> ds_timeout s \<noteq> None \<and> (\<exists>r. upstreamReq s = Some r \<and> requestSender r)"

lemma request_chunk:
  assumes "unfiltered env" and "under_way s"
  shows "\<exists>s'. ds_run [(env, DeliverData FromDownstream bs e), (env, TakeJob)] s = Some (Inr s') \<and> under_way s' \<and>
    sent s' = sent s @ [UpData bs e] \<and> recvDone s' = e \<and> (requestSent s \<or> e \<longrightarrow> requestSent s') \<and>
    ds_retryState s' = ds_retryState s \<and> ds_cluster s' = ds_cluster s"
  using assms by (auto simp: under_way_def loop_defs receive_defs unfiltered_append Let_def)

text \<open>The state between request and response, and while the response is under way.\<close>

definition no_retry :: "downStream \<Rightarrow> bool" where
  "no_retry s \<longleftrightarrow> (\<exists>r n c. ds_retryState s = Some r \<and> \<not> retryOn r \<and> ds_cluster s = Some (n, c))"

lemma request_head:
  assumes "unfiltered env" and "e_route env h = Some rt" and "e_cluster env (rr_ClusterName rt) = Some c"
    and "e_pool env (rr_ClusterName rt)" and "e_newStream env = None" and "\<not> rr_RetryOn rt"
  shows "\<exists>s. ds_run [(env, TakeCtrl), (env, Deliver FromDownstream h False), (env, TakeJob)] (newActiveStream 0 0) = Some (Inr s) \<and>
    under_way s \<and> no_retry s \<and> sent s = [UpHeaders h False]"
  using assms
  by (auto simp: under_way_def no_retry_def loop_defs receive_defs unfiltered_append Let_def newActiveStream_def request_headers_def
      new_request_def newRetryState_def)

lemma response_head:
  assumes "unfiltered env" and "under_way s" and "no_retry s"
  shows "\<exists>s'. ds_run [(env, Deliver FromUpstream h False), (env, TakeJob)] s = Some (Inr s') \<and> under_way s' \<and>
    sent s' = sent s @ [DownHeaders (Some (RMap h)) False] \<and> recvDone s' = recvDone s \<and> requestSent s' = requestSent s"
proof -
  obtain r n c where r: "ds_retryState s = Some r" "\<not> retryOn r" "ds_cluster s = Some (n, c)"
    using assms(3) by (auto simp: no_retry_def)
  obtain r' c' where rr: "retry_reset (r, c) = (r', c')" "\<not> retryOn r'"
    using r(2) by (cases "retry_reset (r, c)") (auto simp: retry_reset_def split: if_splits)
  have "\<exists>r'' c''. retry h [] (r, c) = Inr ((r'', c''), NoRetry)"
    using rr by (auto simp: retry_def shouldRetry_def doRetryCheck_def Let_def)
  with assms r show ?thesis
    by (auto simp: under_way_def loop_defs respond_defs unfiltered_append Let_def split: prod.split)
qed

lemma response_chunk:
  assumes "unfiltered env" and "under_way s"
  shows "\<exists>s'. ds_run [(env, DeliverData FromUpstream bs False), (env, TakeJob)] s = Some (Inr s') \<and> under_way s' \<and>
    sent s' = sent s @ [DownData bs False] \<and> recvDone s' = recvDone s \<and> requestSent s' = requestSent s"
  using assms by (auto simp: under_way_def loop_defs respond_defs unfiltered_append Let_def)

lemma retry_reset_keeps [simp]:
  "sent (ds_retry_reset s) = sent s" "cleaned (ds_retry_reset s) = cleaned s" "recvDone (ds_retry_reset s) = recvDone s"
  "processDone (ds_retry_reset s) = processDone s" "senderFlags (ds_retry_reset s) = senderFlags s"
  "receiverFlags (ds_retry_reset s) = receiverFlags s" "buffers (ds_retry_reset s) = buffers s"
  "upstreamReq (ds_retry_reset s) = upstreamReq s" "bytesSent (ds_retry_reset s) = bytesSent s"
  by (simp_all add: ds_retry_reset_def retry_reset_def split: option.split prod.split)

lemma cleanUp_keeps [simp]:
  "sent (cleanUp s) = sent s" "cleaned (cleanUp s) = cleaned s" "recvDone (cleanUp s) = recvDone s"
  "processDone (cleanUp s) = processDone s" "senderFlags (cleanUp s) = senderFlags s" "receiverFlags (cleanUp s) = receiverFlags s"
  "buffers (cleanUp s) = buffers s" "bytesSent (cleanUp s) = bytesSent s"
  "upstreamReq (cleanUp s) = map_option (\<lambda>r. r\<lparr>requestSender := False\<rparr>) (upstreamReq s)"
  by (simp_all add: cleanUp_def Let_def)

lemma response_end:
  assumes "unfiltered env" and "under_way s" and "recvDone s" and "requestSent s"
  shows "\<exists>s'. ds_run [(env, DeliverData FromUpstream bs True), (env, TakeJob)] s = Some (Inr s') \<and>
    sent s' = sent s @ DownData bs True # clean_acts 0 0"
  using assms
  by (auto simp: under_way_def loop_defs onUpstreamData_def onUpstreamResponseRecvFinished_def appendData_def send_data_def
      endStream_def cleanStream_def up_resetStream_def unfiltered_append Let_def)

lemma ds_run_append:
  "ds_run (es @ es') s = (case ds_run es s of Some (Inr s') \<Rightarrow> ds_run es' s' | r \<Rightarrow> r)"
  by (induction es s rule: ds_run.induct) (auto split: option.split sum.split)

definition chunks :: "stream_env \<Rightarrow> direction \<Rightarrow> byte list list \<Rightarrow> (stream_env \<times> input) list" where
  "chunks env d bss = concat (map (\<lambda>bs. [(env, DeliverData d bs False), (env, TakeJob)]) bss)"

lemma run_chunks:
  assumes "ds_run [(env, DeliverData d bs False), (env, TakeJob)] s = Some (Inr s1)"
  shows "ds_run (chunks env d (bs # bss)) s = ds_run (chunks env d bss) s1"
proof -
  have "chunks env d (bs # bss) = [(env, DeliverData d bs False), (env, TakeJob)] @ chunks env d bss" by (simp add: chunks_def)
  then show ?thesis by (simp only: ds_run_append assms option.case sum.case)
qed

lemma request_chunks:
  assumes "unfiltered env" and "under_way s" and "no_retry s"
  shows "\<exists>s'. ds_run (chunks env FromDownstream bss) s = Some (Inr s') \<and> under_way s' \<and> no_retry s' \<and>
    sent s' = sent s @ map (\<lambda>bs. UpData bs False) bss"
  using assms
proof (induction bss arbitrary: s)
  case (Cons bs bss)
  from request_chunk [OF Cons.prems(1,2), of bs False] obtain s1 where
    1: "ds_run [(env, DeliverData FromDownstream bs False), (env, TakeJob)] s = Some (Inr s1)" "under_way s1"
      "sent s1 = sent s @ [UpData bs False]" "no_retry s1" using Cons.prems(3) by (auto simp: no_retry_def)
  from Cons.IH [OF Cons.prems(1) 1(2,4)] 1(3) run_chunks [OF 1(1)] show ?case by auto
qed (simp add: chunks_def)

lemma response_chunks:
  assumes "unfiltered env" and "under_way s"
  shows "\<exists>s'. ds_run (chunks env FromUpstream bss) s = Some (Inr s') \<and> under_way s' \<and>
    sent s' = sent s @ map (\<lambda>bs. DownData bs False) bss \<and> recvDone s' = recvDone s \<and> requestSent s' = requestSent s"
  using assms
proof (induction bss arbitrary: s)
  case (Cons bs bss)
  from response_chunk [OF Cons.prems, of bs] obtain s1 where
    1: "ds_run [(env, DeliverData FromUpstream bs False), (env, TakeJob)] s = Some (Inr s1)" "under_way s1"
      "sent s1 = sent s @ [DownData bs False]" "recvDone s1 = recvDone s" "requestSent s1 = requestSent s" by auto
  from Cons.IH [OF Cons.prems(1) 1(2)] 1(3-5) run_chunks [OF 1(1)] show ?case by auto
qed (simp add: chunks_def)

section \<open>Responses of the event loop\<close>

definition final_msg :: "act \<Rightarrow> bool" where
  "final_msg a \<longleftrightarrow> (case a of DownHeaders _ e \<Rightarrow> e | DownData _ e \<Rightarrow> e | DownTrailers _ \<Rightarrow> True | _ \<Rightarrow> False)"

lemma final_msg_simps [simp]:
  "final_msg (DownHeaders h e) = e" "final_msg (DownData bs e) = e" "final_msg (DownTrailers t)" "\<not> final_msg DownReset"
  "\<not> final_msg (UpHeaders m e)" "\<not> final_msg (UpData bs e)" "\<not> final_msg (UpTrailers m)" "\<not> final_msg UpReset"
  by (simp_all add: final_msg_def)

lemma final_msg_down: "final_msg a \<Longrightarrow> down_msg a"
  by (auto simp: final_msg_def down_msg_def split: act.splits)

text \<open>
  A part of an event that sends \<open>n\<close> messages downstream at most, is done when one of them is
  final, and announces no new stream.
\<close>

definition answers :: "nat \<Rightarrow> downStream \<Rightarrow> downStream \<Rightarrow> bool" where
  "answers n s s' \<longleftrightarrow> (\<exists>ys. sent s' = sent s @ ys \<and> length (filter down_msg ys) \<le> n \<and>
       (list_ex final_msg ys \<or> processDone s \<and> n = 0 \<longrightarrow> processDone s')) \<and>
     streamMap s' = streamMap s \<and>
     (StartEvent \<in> set (ctrlChan s') \<longrightarrow> StartEvent \<in> set (ctrlChan s)) \<and>
     (StartEvent \<in> set (jobChan s') \<longrightarrow> StartEvent \<in> set (jobChan s))"

lemma answers_trans: "answers m s s' \<Longrightarrow> answers 0 s' s'' \<Longrightarrow> answers m s s''"
  unfolding answers_def
  apply (elim conjE exE)
  subgoal for ys zs
    apply (intro conjI exI [of _ "ys @ zs"])
    apply (auto simp: list_ex_iff filter_empty_conv dest: final_msg_down)
    done
  done

lemma answers_pre: "answers 0 s s' \<Longrightarrow> answers m s' s'' \<Longrightarrow> answers m s s''"
  unfolding answers_def
  apply (elim conjE exE)
  subgoal for ys zs
    apply (intro conjI exI [of _ "ys @ zs"])
    apply (auto simp: list_ex_iff filter_empty_conv dest: final_msg_down)
    done
  done

lemma answers_mono: "answers 0 s s' \<Longrightarrow> answers 1 s s'"
  by (auto simp: answers_def list_ex_iff filter_empty_conv dest: final_msg_down)

lemma answers_same:
  "sent s' = sent s \<Longrightarrow> processDone s' = processDone s \<Longrightarrow> streamMap s' = streamMap s \<Longrightarrow> ctrlChan s' = ctrlChan s \<Longrightarrow>
   jobChan s' = jobChan s \<Longrightarrow> answers 0 s s'"
  by (simp add: answers_def)

lemma answers_offer: "ev \<noteq> StartEvent \<Longrightarrow> answers 0 s (offer ev s)"
  by (auto simp: answers_def offer_def split: event.split)

lemma answers_quiet: "\<not> down_msg a \<Longrightarrow> answers 0 s (emit a s)"
  by (auto simp: answers_def emit_def dest: final_msg_down)

lemma retry_reset_chans [simp]:
  "streamMap (ds_retry_reset s) = streamMap s" "ctrlChan (ds_retry_reset s) = ctrlChan s" "jobChan (ds_retry_reset s) = jobChan s"
  by (simp_all add: ds_retry_reset_def retry_reset_def split: option.split prod.split)

lemma answers_up_resetStream: "answers 0 s (up_resetStream s)"
  by (auto simp: up_resetStream_def intro: answers_quiet answers_same split: option.split)

lemma answers_cleanUp: "answers 0 s (cleanUp s)"
  by (rule answers_same) (simp_all add: cleanUp_def Let_def)

lemma answers_cleanStream: "answers 0 s (cleanStream s)"
proof (cases "cleaned s")
  case False
  define s1 where "s1 = cleanUp (up_resetStream (s\<lparr>cleaned := True\<rparr>))"
  have "answers 0 s (s\<lparr>cleaned := True\<rparr>)" by (rule answers_same) simp_all
  from answers_trans [OF answers_trans [OF this answers_up_resetStream] answers_cleanUp] have 1: "answers 0 s s1" by (simp add: s1_def)
  have 2: "answers 0 s1 (s1\<lparr>sent := sent s1 @ clean_acts m n\<rparr>)" for m n
    by (auto simp: answers_def clean_acts_def down_msg_def final_msg_def list_ex_iff)
  from answers_trans [OF answers_trans [OF 1 2] answers_offer] False show ?thesis
    by (simp add: cleanStream_def Let_def s1_def)
qed (simp add: cleanStream_def answers_same)

lemma answers_endStream: "answers 0 s (endStream s) \<and> (processDone (endStream s) \<or> processDone s)"
proof (cases "\<not> recvDone s \<or> \<not> processDone s")
  case True
  then show ?thesis by (auto simp: endStream_def answers_def emit_def offer_def)
next
  case False
  then show ?thesis using answers_cleanStream [of s] by (auto simp: endStream_def)
qed

text \<open>A message, and the end of the stream when it is final.\<close>

lemma answers_message:
  assumes "final_msg a \<longleftrightarrow> e" and "e \<longrightarrow> processDone s"
  shows "answers 1 s (let s = emit a s in if e then endStream s else s)"
proof -
  have 1: "answers 1 s (emit a s)" using assms by (auto simp: answers_def emit_def dest: final_msg_down)
  show ?thesis using answers_trans [OF 1] answers_endStream 1 by (simp add: Let_def)
qed

lemma answers_from:
  "answers 1 s s' \<Longrightarrow> sent s0 = sent s \<Longrightarrow> streamMap s0 = streamMap s \<Longrightarrow> ctrlChan s0 = ctrlChan s \<Longrightarrow>
   jobChan s0 = jobChan s \<Longrightarrow> answers 1 s0 s'"
  by (auto simp: answers_def)

lemma emit_bytesSent: "(emit a s)\<lparr>bytesSent := k\<rparr> = emit a (s\<lparr>bytesSent := k\<rparr>)"
  by (simp add: emit_def)

lemma answers_append:
  assumes "unfiltered env"
  shows "answers 1 s (appendHeaders env h e s)" "answers 1 s (appendData env data e s)" "answers 1 s (appendTrailers env t s)"
proof -
  show "answers 1 s (appendHeaders env h e s)" unfolding appendHeaders_def unfiltered_append(1) [OF assms]
    by (rule answers_from [OF answers_message]) simp_all
  have "appendData env data e s = (let s = emit (DownData (buffers s data) e)
      (s\<lparr>processDone := e, bytesSent := bytesSent s + word_of_nat (length (buffers s data))\<rparr>) in if e then endStream s else s)"
    by (simp add: appendData_def unfiltered_append [OF assms] send_data_def emit_bytesSent emit_def [of _ s] Let_def)
      (simp add: emit_def)
  then show "answers 1 s (appendData env data e s)" by (simp only:) (rule answers_from [OF answers_message]; simp)
  have "appendTrailers env t s =
      (let s = emit (DownTrailers (Some t)) (s\<lparr>processDone := True\<rparr>) in if True then endStream s else s)"
    by (simp add: appendTrailers_def unfiltered_append [OF assms] send_trailers_def)
  then show "answers 1 s (appendTrailers env t s)" by (simp only:) (rule answers_from [OF answers_message]; simp)
qed

lemma answers_sendHijackReply:
  assumes "unfiltered env" shows "answers 1 s (sendHijackReply env code s)"
proof (cases "reqHeaders s")
  case (Some h)
  show ?thesis using answers_from [OF answers_append(1) [OF assms]] Some by (simp add: sendHijackReply_def Let_def)
qed (use answers_append(1) [OF assms] in \<open>simp add: sendHijackReply_def\<close>)

lemma answers_initialize:
  assumes "unfiltered env" and "initializeUpstreamConnectionPool env n s = (s', ok)"
  shows "if ok then answers 0 s s' else answers 1 s s'"
  using assms(2) answers_from [OF answers_sendHijackReply [OF assms(1)]]
  by (auto simp: initializeUpstreamConnectionPool_def SetResponseFlag_def Let_def intro!: answers_same split: option.splits if_splits)

lemma answers_request:
  "answers 0 s (up_appendHeaders env e r s)"
  "up_appendData bs e s = Inr s' \<Longrightarrow> answers 0 s s'"
  "up_appendTrailers t s = Inr s' \<Longrightarrow> answers 0 s s'"
  "setupPerReqTimeout s = Inr s' \<Longrightarrow> answers 0 s s'"
  by (auto simp: up_appendHeaders_def OnReady_def up_appendData_def up_appendTrailers_def setupPerReqTimeout_def Let_def
      answers_def emit_def offer_def split: option.splits if_splits)

lemma answers_onUpstreamRequestSent: "onUpstreamRequestSent s = Inr s' \<Longrightarrow> answers 0 s s'"
  by (auto simp: onUpstreamRequestSent_def setupPerReqTimeout_def Let_def go_outcome answers_def split: option.splits if_splits)


lemma answers_SetResponseFlag: "answers 0 s (SetResponseFlag f s)"
  by (simp add: SetResponseFlag_def answers_same)

lemma answers_doReceiveHeaders:
  assumes p: "unfiltered env" and run: "doReceiveHeaders env i e s = Inr s'"
  shows "answers 1 s s'"
proof (cases "e_route env (request_headers s)")
  case None
  with run p have "s' = sendHijackReply env RouterUnavailableCode (SetResponseFlag NoRouteFound s)"
    by (simp add: doReceiveHeaders_def unfiltered_append)
  then show ?thesis using answers_pre [OF answers_SetResponseFlag answers_sendHijackReply [OF p]] by simp
next
  case (Some rt)
  obtain s1 ok where 1: "initializeUpstreamConnectionPool env (rr_ClusterName rt) s = (s1, ok)"
    by (cases "initializeUpstreamConnectionPool env (rr_ClusterName rt) s")
  note a1 = answers_initialize [OF p 1]
  show ?thesis
  proof (cases ok)
    case True
    then obtain t r where s': "(if e then onUpstreamRequestSent (up_appendHeaders env e new_request (s1\<lparr>ds_timeout := t, ds_retryState := r\<rparr>))
        else Inr (up_appendHeaders env e new_request (s1\<lparr>ds_timeout := t, ds_retryState := r\<rparr>))) = Inr s'"
      using run Some 1 p by (auto simp: doReceiveHeaders_def unfiltered_append Let_def)
    have "answers 0 s1 (s1\<lparr>ds_timeout := t, ds_retryState := r\<rparr>)" by (rule answers_same) simp_all
    from answers_trans [OF answers_trans [OF _ this] answers_request(1)] a1 True
    have "answers 0 s (up_appendHeaders env e new_request (s1\<lparr>ds_timeout := t, ds_retryState := r\<rparr>))" by simp
    then have "answers 0 s s'" using s' by (auto split: if_splits dest: answers_trans [OF _ answers_onUpstreamRequestSent])
    then show ?thesis by (rule answers_mono)
  next
    case False
    with a1 run Some 1 p show ?thesis by (simp add: doReceiveHeaders_def unfiltered_append)
  qed
qed

lemma answers_forward:
  "forward_data data e (s, False) = Inr s' \<Longrightarrow> answers 0 s s'"
  "forward_trailers t (s, False) = Inr s' \<Longrightarrow> answers 0 s s'"
proof -
  assume "forward_data data e (s, False) = Inr s'"
  then obtain s1 s2 where "(if e then onUpstreamRequestSent s else Inr s) = Inr s1"
    and 2: "up_appendData (buffers s1 data) e s1 = Inr s2" and 3: "s' = (if processDone s2 then cleanStream s2 else s2)"
    by (auto simp: forward_data_def go_outcome)
  then have "answers 0 s s1" by (auto split: if_splits intro: answers_same answers_onUpstreamRequestSent)
  from answers_trans [OF this answers_request(2) [OF 2]] show "answers 0 s s'"
    using answers_trans [OF _ answers_cleanStream] 3 by simp
next
  assume "forward_trailers t (s, False) = Inr s'"
  then obtain s1 s2 where 1: "onUpstreamRequestSent (s\<lparr>reqTrailers := Some t\<rparr>) = Inr s1"
    and 2: "up_appendTrailers t s1 = Inr s2" and 3: "s' = (if processDone s2 then cleanStream s2 else s2)"
    by (auto simp: forward_trailers_def go_outcome)
  have "answers 0 s (s\<lparr>reqTrailers := Some t\<rparr>)" by (rule answers_same) simp_all
  from answers_trans [OF answers_trans [OF this answers_onUpstreamRequestSent [OF 1]] answers_request(3) [OF 2]]
  show "answers 0 s s'" using answers_trans [OF _ answers_cleanStream] 3 by simp
qed

lemma answers_Receive:
  assumes "unfiltered env"
  shows "ReceiveHeaders env h e s = Inr s' \<Longrightarrow> answers 1 s s'"
    "ReceiveData env data e s = Inr s' \<Longrightarrow> answers 1 s s'" "ReceiveTrailers env t s = Inr s' \<Longrightarrow> answers 1 s s'"
proof -
  have same: "answers 0 s (s\<lparr>recvDone := a, reqHeaders := b\<rparr>)" "answers 0 s (s\<lparr>bytesReceived := k, recvDone := a\<rparr>)"
    "answers 0 s (s\<lparr>recvDone := a\<rparr>)" for a b k by (auto intro: answers_same)
  show "answers 1 s s'" if "ReceiveHeaders env h e s = Inr s'"
    using answers_pre [OF same(1)] answers_doReceiveHeaders [OF assms] that unfolding ReceiveHeaders_def by blast
  show "answers 1 s s'" if "ReceiveData env data e s = Inr s'"
    using answers_mono [OF answers_pre [OF same(2) answers_forward(1)]] answers_mono [OF answers_same [of s s]] that
    by (auto simp: ReceiveData_def doReceiveData_def unfiltered_append [OF assms] split: if_splits)
  show "answers 1 s s'" if "ReceiveTrailers env t s = Inr s'"
    using answers_mono [OF answers_pre [OF same(3) answers_forward(2)]] answers_mono [OF answers_same [of s s]] that
    by (auto simp: ReceiveTrailers_def doReceiveTrailers_def unfiltered_append [OF assms] split: if_splits)
qed

lemma answers_check_retry: "check_retry h reason e s = Inr (s', b) \<Longrightarrow> answers 0 s s'"
proof -
  assume "check_retry h reason e s = Inr (s', b)"
  then obtain s1 check where 1: "ds_retry h reason s = Inr (s1, check)"
    and c: "(case check of ShouldRetry \<Rightarrow> setupRetry e s1 | RetryOverflow \<Rightarrow> Inr (SetResponseFlag UpstreamOverflow s1, False)
      | NoRetry \<Rightarrow> Inr (s1, False)) = Inr (s', b)" by (auto simp: check_retry_def go_outcome)
  have a: "answers 0 s s1" using 1 by (intro answers_same) (auto simp: ds_retry_def go_outcome split: option.splits prod.splits)
  have u: "answers 0 s1 ((up_resetStream s1)\<lparr>upstreamReq := r, perRetryTimer := None\<rparr>)"
    "answers 0 s1 (s1\<lparr>upstreamReq := r, perRetryTimer := None\<rparr>)" for r
    using answers_up_resetStream [of s1] by (auto simp: answers_def)
  have "answers 0 s1 s'"
    using c u answers_SetResponseFlag by (cases check) (auto simp: setupRetry_def Let_def intro: answers_same split: if_splits option.splits)
  with a show ?thesis by (rule answers_trans)
qed

lemma answers_onUpstreamReset:
  assumes p: "unfiltered env" and run: "onUpstreamReset env u reason s = Inr s'"
  shows "answers 1 s s'"
proof (cases "upstreamReset s")
  case False
  let ?s0 = "s\<lparr>upstreamReset := True\<rparr>"
  from run False obtain s1 b where 1: "(if u \<noteq> UpstreamGlobalTimeout \<and> responseStarted ?s0 \<and> ds_retryState ?s0 \<noteq> None
      then check_retry Map.empty reason True ?s0 else Inr (?s0, False)) = Inr (s1, b)"
    and 2: "(if b then s1 else let s = cleanUp s1 in if responseStarted s then endStream s
      else if u = UpstreamGlobalTimeout \<or> u = UpstreamPerTryTimeout
      then sendHijackReply env TimeoutExceptionCode (SetResponseFlag UpstreamRequestTimeout s)
      else sendHijackReply env NoHealthUpstreamCode (SetResponseFlag (streamResetReasonToResponseFlag reason) s)) = s'"
    by (auto simp: onUpstreamReset_def Let_def go_outcome split: if_splits)
  have "answers 0 s ?s0" by (rule answers_same) simp_all
  moreover have "answers 0 ?s0 s1" using 1 by (auto split: if_splits intro: answers_check_retry answers_same)
  ultimately have a: "answers 0 s s1" by (rule answers_trans)
  note c = answers_trans [OF a answers_cleanUp]
  show ?thesis using 2 a answers_mono [OF a] answers_mono [OF answers_trans [OF c conjunct1 [OF answers_endStream]]]
      answers_pre [OF answers_trans [OF c answers_SetResponseFlag] answers_sendHijackReply [OF p]]
    by (auto simp: Let_def split: if_splits)
qed (use run answers_mono [OF answers_same [of s s]] in \<open>simp add: onUpstreamReset_def\<close>)

lemma answers_recvFinished: "onUpstreamResponseRecvFinished s = Inr s' \<Longrightarrow> answers 0 s s'"
  using answers_trans [OF answers_up_resetStream answers_cleanUp, of s] answers_cleanUp [of s]
  by (auto simp: onUpstreamResponseRecvFinished_def split: if_splits)

lemma answers_onUpstream:
  assumes p: "unfiltered env"
  shows "onUpstreamHeaders env h e s = Inr s' \<Longrightarrow> answers 1 s s'"
    "onUpstreamData env data e s = Inr s' \<Longrightarrow> answers 1 s s'" "onUpstreamTrailers env t s = Inr s' \<Longrightarrow> answers 1 s s'"
proof -
  have fin: "answers 0 s s1" if "(if e then onUpstreamResponseRecvFinished s else Inr s) = Inr s1" for e s s1
    using that by (auto split: if_splits intro: answers_recvFinished answers_same)
  show "answers 1 s s'" if "onUpstreamData env data e s = Inr s'"
    using that answers_pre [OF fin answers_append(2) [OF p]] unfolding onUpstreamData_def by (auto simp: go_outcome)
  show "answers 1 s s'" if "onUpstreamTrailers env t s = Inr s'"
    using that answers_pre [OF answers_recvFinished answers_append(3) [OF p]] unfolding onUpstreamTrailers_def
    by (auto simp: go_outcome)
  show "answers 1 s s'" if run: "onUpstreamHeaders env h e s = Inr s'"
  proof -
    let ?s0 = "s\<lparr>respHeaders := Some (RMap h)\<rparr>"
    from run obtain s1 b where 1: "(if ds_retryState ?s0 \<noteq> None then check_retry h [] e ?s0 else Inr (?s0, False)) = Inr (s1, b)"
      and 2: "(if b then Inr s1 else obind (if e then onUpstreamResponseRecvFinished ((ds_retry_reset s1)\<lparr>responseStarted := True\<rparr>)
        else Inr ((ds_retry_reset s1)\<lparr>responseStarted := True\<rparr>)) (\<lambda>s. Inr (appendHeaders env (Some (RMap h)) e s))) = Inr s'"
      unfolding onUpstreamHeaders_def Let_def obind_eq_Inr by fast
    have "answers 0 s ?s0" by (rule answers_same) simp_all
    moreover have "answers 0 ?s0 s1" using 1 by (auto split: if_splits intro: answers_check_retry answers_same)
    ultimately have a: "answers 0 s s1" by (rule answers_trans)
    have "answers 0 s1 ((ds_retry_reset s1)\<lparr>responseStarted := True\<rparr>)" by (rule answers_same) simp_all
    note c = answers_trans [OF a this]
    show ?thesis
    proof (cases b)
      case False
      with 2 obtain s2 where "(if e then onUpstreamResponseRecvFinished ((ds_retry_reset s1)\<lparr>responseStarted := True\<rparr>)
        else Inr ((ds_retry_reset s1)\<lparr>responseStarted := True\<rparr>)) = Inr s2" and s': "s' = appendHeaders env (Some (RMap h)) e s2"
        by (auto simp only: obind_eq_Inr if_False)
      from answers_trans [OF c fin [OF this(1)]] show ?thesis unfolding s' by (rule answers_pre) (rule answers_append(1) [OF p])
    next
      case True
      with 2 answers_mono [OF a] show ?thesis by simp
    qed
  qed
qed

lemma answers_handle: "unfiltered env \<Longrightarrow> handle env ev s = Inr s' \<Longrightarrow> answers 1 s s'"
proof -
  assume p: "unfiltered env" and run: "handle env ev s = Inr s'"
  have d: "answers 0 s (s\<lparr>downstreamReset := True\<rparr>)"
    "answers 0 s (s\<lparr>upstreamReq := map_option (\<lambda>r. r\<lparr>requestSender := False\<rparr>) (upstreamReq s)\<rparr>)" by (auto intro: answers_same)
  show ?thesis
    using run answers_mono [OF answers_pre [OF d(1) answers_cleanStream]] answers_mono [OF answers_same [of s s]]
      answers_pre [OF d(2) answers_onUpstreamReset [OF p]]
    by (auto simp: handle_def with_request_def ds_ResetStream_def up_ResetStream_def simp del: One_nat_def
        intro: answers_Receive [OF p] answers_onUpstream [OF p] split: event.splits direction.splits if_splits)
qed

text \<open>
  The event loop on its own: no filters, no timer fires, and the layer below reports no message
  that cannot be decoded.
\<close>

definition loop_input :: "input \<Rightarrow> bool" where
  "loop_input inp \<longleftrightarrow> (case inp of
      Deliver _ _ _ \<Rightarrow> True | DeliverData _ _ _ \<Rightarrow> True | DeliverTrailers _ _ \<Rightarrow> True | DeliverReset _ _ \<Rightarrow> True
    | TakeCtrl \<Rightarrow> True | TakeJob \<Rightarrow> True | _ \<Rightarrow> False)"

inductive loop_step :: "downStream \<Rightarrow> downStream \<Rightarrow> bool" where
  "unfiltered env \<Longrightarrow> loop_input inp \<Longrightarrow> ds_input env inp s = Some (Inr s') \<Longrightarrow> loop_step s s'"

fun ends_once :: "act list \<Rightarrow> bool" where
  "ends_once [] = True"
| "ends_once (a # as) = ((final_msg a \<longrightarrow> \<not> list_ex down_msg as) \<and> ends_once as)"

definition loop_inv :: "downStream \<Rightarrow> bool" where
  "loop_inv s \<longleftrightarrow> ends_once (sent s) \<and> (\<not> processDone s \<longrightarrow> \<not> list_ex final_msg (sent s)) \<and>
     (streamMap s = Some False \<longrightarrow> \<not> processDone s) \<and> StartEvent \<notin> set (jobChan s) \<and>
     (StartEvent \<in> set (ctrlChan s) \<longrightarrow> \<not> processDone s \<and> streamMap s = None) \<and> StartEvent \<notin> set (tl (ctrlChan s))"

lemma ends_once_append:
  "ends_once xs \<Longrightarrow> \<not> list_ex final_msg xs \<Longrightarrow> length (filter down_msg ys) \<le> 1 \<Longrightarrow> ends_once (xs @ ys)"
proof (induction xs)
  case Nil
  have "ends_once ys" if "length (filter down_msg ys) \<le> 1" for ys
    using that by (induction ys) (auto simp: list_ex_iff filter_empty_conv dest: final_msg_down split: if_splits)
  with Nil show ?case by simp
qed auto

lemma loop_inv_event:
  assumes "loop_inv s" and "unfiltered env" and "eventProcess env ev s = Inr s'"
    and start: "ev = StartEvent \<Longrightarrow> \<not> processDone s \<and> StartEvent \<notin> set (ctrlChan s)"
  shows "loop_inv s'"
proof (cases "ev = StartEvent \<or> ev = StopEvent \<or> streamMap s \<noteq> Some False")
  case True
  with assms show ?thesis by (auto simp: eventProcess_def loop_inv_def split: event.splits)
next
  case False
  with assms(3) obtain s1 where h: "handle env ev s = Inr s1" and s': "s' = s1\<lparr>streamMap := Some (processDone s1)\<rparr>"
    by (auto simp: eventProcess_def go_outcome split: event.splits)
  have nd: "\<not> processDone s" "\<not> list_ex final_msg (sent s)" "StartEvent \<notin> set (jobChan s)" "ends_once (sent s)"
    "StartEvent \<notin> set (ctrlChan s)"
    using assms(1) False by (auto simp: loop_inv_def)
  from answers_handle [OF assms(2) h] obtain ys where ys: "sent s1 = sent s @ ys" "length (filter down_msg ys) \<le> 1"
    "list_ex final_msg ys \<Longrightarrow> processDone s1" "StartEvent \<in> set (ctrlChan s1) \<Longrightarrow> StartEvent \<in> set (ctrlChan s)"
    "StartEvent \<in> set (jobChan s1) \<Longrightarrow> StartEvent \<in> set (jobChan s)" by (auto simp: answers_def)
  then show ?thesis using nd ends_once_append [OF nd(4,2) ys(2)] by (cases "ctrlChan s1") (auto simp: loop_inv_def s')
qed

lemma loop_inv_offer: "loop_inv s \<Longrightarrow> ev \<noteq> StartEvent \<Longrightarrow> loop_inv (offer ev s)"
  by (cases "ctrlChan s") (auto simp: loop_inv_def offer_def split: event.split)

lemma loop_inv_step: "loop_step s s' \<Longrightarrow> loop_inv s \<Longrightarrow> loop_inv s'"
proof (induction rule: loop_step.induct)
  case (1 env inp s s')
  show ?case
  proof (cases inp)
    case TakeCtrl
    with 1 obtain ev evs where c: "ctrlChan s = ev # evs" and e: "eventProcess env ev (s\<lparr>ctrlChan := evs\<rparr>) = Inr s'"
      by (auto simp: ds_input_def split: list.splits)
    have "loop_inv (s\<lparr>ctrlChan := evs\<rparr>)" using 1(4) c by (cases evs) (auto simp: loop_inv_def)
    from loop_inv_event [OF this 1(1) e] show ?thesis using 1(4) c by (auto simp: loop_inv_def)
  next
    case TakeJob
    with 1 obtain ev evs where c: "jobChan s = ev # evs" and e: "eventProcess env ev (s\<lparr>jobChan := evs\<rparr>) = Inr s'"
      by (auto simp: ds_input_def split: list.splits)
    have "loop_inv (s\<lparr>jobChan := evs\<rparr>)" using 1(4) c by (auto simp: loop_inv_def)
    from loop_inv_event [OF this 1(1) e] show ?thesis using 1(4) c by (auto simp: loop_inv_def)
  next
    case (DeliverData d bs e)
    have "loop_inv (s\<lparr>buffers := b, next_buffer := n, reqDataBuf := r\<rparr>)" "loop_inv (s\<lparr>buffers := b, next_buffer := n, respDataBuf := r\<rparr>)"
      for b n r using 1(4) by (auto simp: loop_inv_def)
    with DeliverData 1 show ?thesis
      by (auto simp: ds_input_def deliver_data_def new_buffer_def intro!: loop_inv_offer split: direction.splits)
  qed (use 1 in \<open>auto simp: ds_input_def loop_input_def intro: loop_inv_offer\<close>)
qed

lemma loop_inv_reachable: "loop_step\<^sup>*\<^sup>* (newActiveStream ns nr) s \<Longrightarrow> loop_inv s"
proof (induction rule: rtranclp_induct)
  case base
  show ?case by (simp add: loop_inv_def newActiveStream_def)
next
  case (step s s')
  then show ?case using loop_inv_step by blast
qed

lemma loop_run_reach:
  "ds_run es s = Some (Inr s') \<Longrightarrow> list_all (\<lambda>(env, inp). unfiltered env \<and> loop_input inp) es \<Longrightarrow> loop_step\<^sup>*\<^sup>* s s'"
proof (induction es s rule: ds_run.induct)
  case (2 env inp es s)
  then obtain s1 where 1: "ds_input env inp s = Some (Inr s1)" "ds_run es s1 = Some (Inr s')"
    by (auto split: option.splits sum.splits)
  have "loop_step s s1" using 1(1) 2(3) by (auto intro: loop_step.intros)
  moreover have "loop_step\<^sup>*\<^sup>* s1 s'" using "2.IH" [OF 1(1) refl 1(2)] 2(3) by simp
  ultimately show ?case by (rule converse_rtranclp_into_rtranclp)
qed simp

lemma ends_once_split: "ends_once (xs @ a # ys) \<Longrightarrow> final_msg a \<Longrightarrow> \<not> list_ex down_msg ys"
  by (induction xs) auto

section \<open>Properties\<close>

definition exchange ::
  "stream_env \<Rightarrow> smap \<Rightarrow> byte list list \<Rightarrow> byte list \<Rightarrow> smap \<Rightarrow> byte list list \<Rightarrow> byte list \<Rightarrow> (stream_env \<times> input) list" where
  "exchange env h bss bs h' bss' bs' =
     [(env, TakeCtrl), (env, Deliver FromDownstream h False), (env, TakeJob)] @ chunks env FromDownstream bss @
     [(env, DeliverData FromDownstream bs True), (env, TakeJob)] @
     [(env, Deliver FromUpstream h' False), (env, TakeJob)] @ chunks env FromUpstream bss' @
     [(env, DeliverData FromUpstream bs' True), (env, TakeJob)]"

text \<open>
  C7 (functional). Without filters, with a route to a cluster that has a pool and no retries, the
  proxy forwards a request and its response in order and unchanged, each in any number of
  pieces, and then cleans up the stream, once.
\<close>

theorem request_and_response_forwarded:
  assumes "unfiltered env" and "e_route env h = Some rt" and "e_cluster env (rr_ClusterName rt) = Some c"
    and "e_pool env (rr_ClusterName rt)" and "e_newStream env = None" and "\<not> rr_RetryOn rt"
  shows "\<exists>s. ds_run (exchange env h bss bs h' bss' bs') (newActiveStream 0 0) = Some (Inr s) \<and>
    sent s = UpHeaders h False # map (\<lambda>b. UpData b False) bss @ [UpData bs True] @
      DownHeaders (Some (RMap h')) False # map (\<lambda>b. DownData b False) bss' @ DownData bs' True # clean_acts 0 0"
proof -
  note p = assms(1)
  from request_head [OF assms] obtain s1 where 1: "under_way s1" "no_retry s1" "sent s1 = [UpHeaders h False]"
    "ds_run [(env, TakeCtrl), (env, Deliver FromDownstream h False), (env, TakeJob)] (newActiveStream 0 0) = Some (Inr s1)"
    by blast
  from request_chunks [OF p 1(1,2), of bss] obtain s2 where 2: "under_way s2" "no_retry s2"
    "sent s2 = sent s1 @ map (\<lambda>bs. UpData bs False) bss" "ds_run (chunks env FromDownstream bss) s1 = Some (Inr s2)" by blast
  from request_chunk [OF p 2(1), of bs True] 2(2) obtain s3 where 3: "under_way s3" "no_retry s3"
    "recvDone s3" "requestSent s3" "sent s3 = sent s2 @ [UpData bs True]"
    "ds_run [(env, DeliverData FromDownstream bs True), (env, TakeJob)] s2 = Some (Inr s3)" unfolding no_retry_def by metis
  from response_head [OF p 3(1,2), of h'] 3(3,4) obtain s4 where 4: "under_way s4" "recvDone s4" "requestSent s4"
    "sent s4 = sent s3 @ [DownHeaders (Some (RMap h')) False]"
    "ds_run [(env, Deliver FromUpstream h' False), (env, TakeJob)] s3 = Some (Inr s4)" by metis
  from response_chunks [OF p 4(1), of bss'] 4(2,3) obtain s5 where 5: "under_way s5" "recvDone s5" "requestSent s5"
    "sent s5 = sent s4 @ map (\<lambda>bs. DownData bs False) bss'" "ds_run (chunks env FromUpstream bss') s4 = Some (Inr s5)" by metis
  from response_end [OF p 5(1-3), of bs'] obtain s6 where 6: "sent s6 = sent s5 @ DownData bs' True # clean_acts 0 0"
    "ds_run [(env, DeliverData FromUpstream bs' True), (env, TakeJob)] s5 = Some (Inr s6)" by blast
  have "ds_run (exchange env h bss bs h' bss' bs') (newActiveStream 0 0) = Some (Inr s6)"
    unfolding exchange_def by (simp only: ds_run_append 1(4) 2(4) 3(6) 4(5) 5(5) 6(2) option.case sum.case)
  with 1(3) 2(3) 3(5) 4(4) 5(4) 6(1) show ?thesis by simp
qed

definition sample_env :: stream_env where
  "sample_env = \<lparr>e_route = (\<lambda>h. if h ''service'' = Some ''a''
       then Some \<lparr>rr_ClusterName = ''c'', rr_GlobalTimeout = 60000000000, rr_TryTimeout = 0, rr_RetryOn = False, rr_NumRetries = 0\<rparr>
       else None),
     e_cluster = (\<lambda>_. Some \<lparr>rc_retries = retries (NewResourceManager []), rc_stats = newClusterStats\<rparr>),
     e_pool = (\<lambda>_. True), e_newStream = None, e_sent = (\<lambda>h. h), e_receivers = [], e_senders = []\<rparr>"

theorem request_and_response_forwarded_witness:
  "\<exists>s. ds_run (exchange sample_env [''service'' \<mapsto> ''a''] [[1], [2]] [3] Map.empty [] [4]) (newActiveStream 0 0) = Some (Inr s) \<and>
     sent s = [UpHeaders [''service'' \<mapsto> ''a''] False, UpData [1] False, UpData [2] False, UpData [3] True,
       DownHeaders (Some (RMap Map.empty)) False, DownData [4] True] @ clean_acts 0 0"
  using request_and_response_forwarded [of sample_env "[''service'' \<mapsto> ''a'']" _ _ "[[1], [2]]" "[3]" Map.empty "[]" "[4]"]
  by (simp add: sample_env_def unfiltered_def)

text \<open>
  C11 (invariant). Whatever happens to a stream, in any order, with any filters, its filters are
  told to destroy themselves, the number of active requests is decremented, the request is
  logged and the stream is deleted at most once, and all of it exactly when the stream has been
  cleaned.
\<close>

theorem stream_cleaned_once:
  assumes "ds_step\<^sup>*\<^sup>* (newActiveStream ns nr) s"
  shows "filter clean_act (sent s) = (if cleaned s then clean_acts ns nr else [])"
  using once.keeps_reachable [OF assms, of ns nr] by (simp add: core_def cleaned_once_def newActiveStream_def)

theorem stream_cleaned_once_witness:
  "\<exists>s. ds_step\<^sup>*\<^sup>* (newActiveStream 1 2) s \<and> cleaned s \<and>
     filter clean_act (sent s) = [DestroySender 0, DestroyReceiver 0, DestroyReceiver 1, ActiveDec, AccessLogged, Deleted]"
proof -
  have "\<exists>s. ds_run [(sample_env, TakeCtrl), (sample_env, DeliverReset FromDownstream ''ConnectionTermination''),
      (sample_env, TakeCtrl)] (newActiveStream 1 2) = Some (Inr s) \<and> cleaned s"
    by (simp add: loop_defs newActiveStream_def ds_ResetStream_def cleanStream_def up_resetStream_def Let_def)
  then obtain s where s: "ds_step\<^sup>*\<^sup>* (newActiveStream 1 2) s" "cleaned s" using ds_run_reach by blast
  from stream_cleaned_once [OF s(1)] s show ?thesis by (auto simp: clean_acts_def upt_rec numeral_2_eq_2)
qed





text \<open>
  Why an error of decoding has to be left out. The reply to it goes out without an event, so the
  event loop does not learn that the stream is done: a response of the upstream host that arrives
  afterwards is sent as well, and the client gets two complete answers.
\<close>

lemma decode_error_answered_twice:
  "\<exists>s h1. ds_run [(sample_env, TakeCtrl), (sample_env, Deliver FromDownstream [''service'' \<mapsto> ''a''] False), (sample_env, TakeJob),
      (sample_env, DecodeError ''Codec exception occurs'' Map.empty),
      (sample_env, Deliver FromUpstream h' True), (sample_env, TakeJob)] (newActiveStream 0 0) = Some (Inr s) \<and>
    filter down_msg (sent s) = [DownHeaders h1 True, DownHeaders (Some (RMap h')) True]"
proof -
  have "\<exists>s. ds_run [(sample_env, TakeCtrl), (sample_env, Deliver FromDownstream [''service'' \<mapsto> ''a''] False), (sample_env, TakeJob),
      (sample_env, DecodeError ''Codec exception occurs'' Map.empty),
      (sample_env, Deliver FromUpstream h' True), (sample_env, TakeJob)] (newActiveStream 0 0) = Some (Inr s) \<and>
    sent s = [UpHeaders [''service'' \<mapsto> ''a''] False, DownHeaders (Some (RMap [HeaderStatus \<mapsto> FormatUint 0])) True, DownReset,
      UpReset, DownHeaders (Some (RMap h')) True, DownReset]"
    by (simp add: loop_defs receive_defs respond_defs retry_defs unfiltered_append unfiltered_def
        doRetryCheck_def ds_OnDecodeError_def newActiveStream_def new_request_def newRetryState_def
        request_headers_def sample_env_def Let_def)
  then show ?thesis by fastforce
qed

end
