(* ===== verification/Proxy_Filters.thy ===== *)
theory Proxy_Filters
  imports Downstream_Properties
begin

text \<open>
  The two stream filters of the repository, fault injection
  (\<open>pkg/filter/stream/faultinject\<close>) and the answer to heartbeats
  (\<open>pkg/filter/stream/healthcheck/sofarpc\<close>), and what they do to a stream. A filter has a state;
  its view as a receiver filter is what it answers in that state.
\<close>

section \<open>Fault injection\<close>

record faultInjectFilter =
  delayPercent :: "32 word"
  delayDuration :: "64 word"
  delaying :: bool

definition NewFaultInjectFilter :: "32 word \<Rightarrow> 64 word \<Rightarrow> faultInjectFilter" where
  "NewFaultInjectFilter p d = \<lparr>delayPercent = p, delayDuration = d, delaying = False\<rparr>"

text \<open>\<open>draw\<close> is the random number below 100.\<close>

definition getDelayDuration :: "nat \<Rightarrow> faultInjectFilter \<Rightarrow> 64 word" where
  "getDelayDuration draw f =
     (if delayPercent f = 0 then 0
      else if word_of_nat draw + 1 > delayPercent f then 0
      else delayDuration f)"

definition tryInjectDelay :: "nat \<Rightarrow> faultInjectFilter \<Rightarrow> faultInjectFilter" where
  "tryInjectDelay draw f =
     (if delaying f then f else if getDelayDuration draw f > 0 then f\<lparr>delaying := True\<rparr> else f)"

text \<open>When the delay is over, the flag is cleared before decoding is continued.\<close>

definition delay_over :: "faultInjectFilter \<Rightarrow> faultInjectFilter" where
  "delay_over f = f\<lparr>delaying := False\<rparr>"

definition fault_filter :: "nat \<Rightarrow> faultInjectFilter \<Rightarrow> receiver_filter" where
  "fault_filter draw f =
     (let d = delaying (tryInjectDelay draw f) in
      \<lparr>OnDecodeHeaders = (\<lambda>_ _. ([], if d then HStopIteration else HContinue)),
       OnDecodeData = (\<lambda>_ _. ([], if d then StopIterationAndBuffer else DContinue)),
       OnDecodeTrailers = (\<lambda>_. ([], if d then TStopIteration else TContinue))\<rparr>)"

section \<open>Answering heartbeats\<close>

record healthCheckFilter =
  passThrough :: bool
  intercept :: bool
  hf_protocol :: byte
  hf_requestID :: "32 word"
  healthCheckReq :: bool

definition NewHealthCheckFilter :: "bool \<Rightarrow> healthCheckFilter" where
  "NewHealthCheckFilter p = \<lparr>passThrough = p, intercept = False, hf_protocol = 0, hf_requestID = 0, healthCheckReq = False\<rparr>"

definition handleIntercept :: "healthCheckFilter \<Rightarrow> reply list" where
  "handleIntercept f =
     [ReplyHeaders (if hf_protocol f = PROTOCOL_CODE_V1 \<or> hf_protocol f = PROTOCOL_CODE_V2
                    then Some (RCmd (RespV1 (NewBoltHeartbeatAck (hf_requestID f)))) else None) True]"

definition header_or_empty :: "smap \<Rightarrow> string \<Rightarrow> string" where
  "header_or_empty headers name = (case headers (SofaPropertyHeader name) of Some v \<Rightarrow> v | None \<Rightarrow> [])"

definition is_heartbeat :: "smap \<Rightarrow> bool" where
  "is_heartbeat headers =
     (case headers (SofaPropertyHeader HeaderCmdCode) of
        Some cmdCodeStr \<Rightarrow> ConvertPropertyValue cmdCodeStr KInt16 = PInt16 HEARTBEAT
      | None \<Rightarrow> False)"

definition see_headers :: "smap \<Rightarrow> healthCheckFilter \<Rightarrow> healthCheckFilter" where
  "see_headers headers f =
     (if is_heartbeat headers
      then f\<lparr>hf_protocol := word_of_nat (ParseUint 8 (header_or_empty headers HeaderProtocolCode)),
             hf_requestID := word_of_nat (ParseUint 32 (header_or_empty headers HeaderReqID)),
             healthCheckReq := True, intercept := intercept f \<or> \<not> passThrough f\<rparr>
      else f)"

definition health_filter :: "healthCheckFilter \<Rightarrow> receiver_filter" where
  "health_filter f =
     \<lparr>OnDecodeHeaders = (\<lambda>headers e.
        let e = e \<or> is_heartbeat headers; f = see_headers headers f
        in (if e \<and> intercept f then handleIntercept f else [], if intercept f then HStopIteration else HContinue)),
      OnDecodeData = (\<lambda>_ e. (if e \<and> intercept f then handleIntercept f else [],
        if intercept f then StopIterationNoBuffer else DContinue)),
      OnDecodeTrailers = (\<lambda>_. (if intercept f then handleIntercept f else [],
        if intercept f then TStopIteration else TContinue))\<rparr>"

section \<open>Lemmas\<close>

lemma fault_filter_delays:
  "delaying (tryInjectDelay draw f) \<Longrightarrow> OnDecodeHeaders (fault_filter draw f) h e = ([], HStopIteration)"
  "delaying (tryInjectDelay draw f) \<Longrightarrow> OnDecodeData (fault_filter draw f) bs e = ([], StopIterationAndBuffer)"
  by (simp_all add: fault_filter_def)

lemma fault_filter_passes:
  "\<not> delaying (tryInjectDelay draw f) \<Longrightarrow> OnDecodeData (fault_filter draw f) bs e = ([], DContinue)"
  by (simp add: fault_filter_def)

text \<open>With a positive duration, a percentage of 100 delays every request and 0 none.\<close>

lemma delay_certain: "draw < 100 \<Longrightarrow> 0 < delayDuration f \<Longrightarrow> delayPercent f = 100 \<Longrightarrow> delaying (tryInjectDelay draw f)"
proof -
  assume "draw < 100" and d: "0 < delayDuration f" "delayPercent f = 100"
  then have "unat (word_of_nat draw + 1 :: 32 word) = draw + 1"
    by (simp add: unat_word_ariths unsigned_of_nat take_bit_nat_eq_self)
  then have "\<not> word_of_nat draw + 1 > (100 :: 32 word)" using \<open>draw < 100\<close> by (simp add: word_less_nat_alt)
  with d show ?thesis by (simp add: tryInjectDelay_def getDelayDuration_def)
qed

lemma delay_never: "delayPercent f = 0 \<Longrightarrow> \<not> delaying f \<Longrightarrow> \<not> delaying (tryInjectDelay draw f)"
  by (simp add: tryInjectDelay_def getDelayDuration_def)

lemma one_filter_no_senders:
  assumes "e_senders env = []"
  shows "doAppendHeaders env i h e s = (let s = emit (DownHeaders h e) s in if e then endStream s else s)"
  using assms by (simp add: doAppendHeaders_def runAppendHeaderFilters_def)

lemma upd_receiver_simps [simp]:
  "receiverFlags (upd_receiver i g s) = (receiverFlags s)[i := g (receiverFlags s ! i)]"
  by (simp add: upd_receiver_def)

lemmas filter_run_defs = loop_defs newActiveStream_def ReceiveHeaders_def ReceiveData_def doReceiveHeaders_def doReceiveData_def
  runReceiveHeadersFilters_def do_replies_def request_headers_def upd_receiver_def new_flags_def receiver_handleBufferData_def

section \<open>Properties\<close>

text \<open>
  A request that fault injection holds back together with its body makes the proxy
  panic when the delay is over and there is no route for it: the request is answered, and
  then its body is sent on an upstream request that does not exist.
\<close>

lemma delayed_request_panics:
  assumes "e_receivers env = [fault_filter draw f]" and "e_senders env = []" and "delaying (tryInjectDelay draw f)"
    and "e_route env h = None"
  shows "ds_run [(env, TakeCtrl), (env, Deliver FromDownstream h False), (env, DeliverData FromDownstream bs True),
      (env, TakeJob), (env, TakeJob), (env, ContinueDecoding 0)] (newActiveStream 0 1) = Some (Inl NilDereference)"
  using assms
  by (simp add: filter_run_defs fault_filter_delays Let_def receive_data_loop.simps [of env] receiver_doContinue.simps [of env]
      forward_data_def continue_request_def held_request_def sendHijackReply_def appendHeaders_def one_filter_no_senders
      endStream_def SetResponseFlag_def up_appendData_def onUpstreamRequestSent_def cleanStream_def cleanUp_def ds_retry_reset_def
      up_resetStream_def)

definition sample_fault :: faultInjectFilter where
  "sample_fault = NewFaultInjectFilter 100 500"

lemma sample_fault_delays: "delaying (tryInjectDelay 7 sample_fault)"
  by (rule delay_certain) (simp_all add: sample_fault_def NewFaultInjectFilter_def)

text \<open>
  When fault injection holds back the headers of a request but not its body, the
  body is sent upstream twice.
\<close>

lemma delayed_body_sent_twice:
  assumes "e_receivers env = [fault_filter draw f]" and "e_senders env = []" and "delaying (tryInjectDelay draw f)"
    and "\<not> delaying (tryInjectDelay draw' f')" and "e_route env h = Some rt" and "e_cluster env (rr_ClusterName rt) = Some c"
    and "e_pool env (rr_ClusterName rt)" and "e_newStream env = None"
  shows "\<exists>s. ds_run [(env, TakeCtrl), (env, Deliver FromDownstream h False), (env, DeliverData FromDownstream bs True),
      (env, TakeJob), (env\<lparr>e_receivers := [fault_filter draw' f']\<rparr>, TakeJob)] (newActiveStream 0 1) = Some (Inr s) \<and>
    sent s = [UpHeaders h False, UpData bs True, UpData bs True]"
  using assms
  by (simp add: filter_run_defs fault_filter_delays fault_filter_passes Let_def receive_data_loop.simps receiver_doContinue.simps
      forward_data_def continue_request_def held_request_def initializeUpstreamConnectionPool_def up_appendHeaders_def OnReady_def
      up_appendData_def onUpstreamRequestSent_def setupPerReqTimeout_def new_request_def)

text \<open>
  A heartbeat for the proxy itself is answered with an acknowledgement that has
  the request id of the heartbeat, and nothing is sent upstream.
\<close>

lemma heartbeat_answered:
  assumes "e_receivers env = [health_filter (NewHealthCheckFilter False)]" and "e_senders env = []"
    and "h HeaderCmdCode = Some (FormatUint (unat HEARTBEAT))" and "h HeaderReqID = Some (FormatUint (unat rid))"
    and "h HeaderProtocolCode = Some (FormatUint (unat p))" and "p = PROTOCOL_CODE_V1 \<or> p = PROTOCOL_CODE_V2"
  shows "\<exists>s. ds_run [(env, TakeCtrl), (env, Deliver FromDownstream h e), (env, TakeJob)] (newActiveStream 0 1) = Some (Inr s) \<and>
    sent s = [DownHeaders (Some (RCmd (RespV1 (NewBoltHeartbeatAck rid)))) True, DownReset] \<and> processDone s"
proof -
  have beat: "is_heartbeat h" using assms(3) by (simp add: is_heartbeat_def SofaPropertyHeader_def HEARTBEAT_def)
  have "unat rid < 2 ^ 32" "unat p < 2 ^ 8" using unsigned_less [of rid] unsigned_less [of p] by simp_all
  with beat assms(4,5) have "see_headers h (NewHealthCheckFilter False) =
      \<lparr>passThrough = False, intercept = True, hf_protocol = p, hf_requestID = rid, healthCheckReq = True\<rparr>"
    by (simp add: see_headers_def NewHealthCheckFilter_def header_or_empty_def SofaPropertyHeader_def)
  with beat assms(6) have "OnDecodeHeaders (health_filter (NewHealthCheckFilter False)) h e =
      ([ReplyHeaders (Some (RCmd (RespV1 (NewBoltHeartbeatAck rid)))) True], HStopIteration)"
    by (auto simp: health_filter_def handleIntercept_def)
  with assms(1,2) show ?thesis
    by (simp add: filter_run_defs one_filter_no_senders endStream_def Let_def)
qed

end
