(* ===== verification/Sofa_Stream.thy ===== *)
theory Sofa_Stream
  imports Downstream Bolt_Protocols
begin

text \<open>
  Streams on a SofaRPC connection: \<open>pkg/stream/sofarpc/stream.go\<close> and \<open>streamhelper.go\<close>. A
  stream connection decodes the bytes that arrive (it is the filter of the protocol dispatch),
  finds the stream a message belongs to and hands the message to its receiver; a stream
  encodes what is sent on it and writes it out at its end. The connection's map holds copies of
  the stream values, the callers hold pointers: \<open>streams\<close> lists the objects by address. All
  that a connection does to the outside, in the order it does it, is in \<open>calls\<close>.
\<close>

section \<open>Streams and connections\<close>

datatype StreamDirection = ClientStream | ServerStream

record 'd stream =
  streamID :: string
  requestID :: string
  stream_direction :: StreamDirection
  decoder :: 'd
  streamCbs :: "'d list"
  encodedHeaders :: "iobuffer option"
  encodedData :: "byte list option"

datatype 'd call =
    CallNewStream string
  | CallReceiveHeaders 'd smap bool
  | CallReceiveData 'd "byte list" bool
  | CallDecodeError 'd string smap
  | CallResetStream 'd string
  | Write string "byte list"
  | SetReadDisable bool
  | CloseConnection

record 'd streamConnection =
  activeStreams :: "string \<rightharpoonup> 'd stream"
  serverCallbacks :: "(string \<Rightarrow> 'd) option"
  streams :: "'d stream list"
  calls :: "'d call list"

definition newStreamConnection :: "(string \<Rightarrow> 'd) option \<Rightarrow> 'd streamConnection" where
  "newStreamConnection cb = \<lparr>activeStreams = Map.empty, serverCallbacks = cb, streams = [], calls = []\<rparr>"

definition log_call :: "'d call \<Rightarrow> 'd streamConnection \<Rightarrow> 'd streamConnection" where
  "log_call a c = c\<lparr>calls := calls c @ [a]\<rparr>"

text \<open>\<open>Has\<close>, \<open>Get\<close>, \<open>Set\<close> and \<open>Remove\<close> of the stream map are those of a map.\<close>

definition Remove :: "string \<Rightarrow> 'd streamConnection \<Rightarrow> 'd streamConnection" where
  "Remove i c = c\<lparr>activeStreams := (activeStreams c)(i := None)\<rparr>"

definition conn_NewStream :: "string \<Rightarrow> 'd \<Rightarrow> 'd streamConnection \<Rightarrow> 'd streamConnection \<times> nat" where
  "conn_NewStream i d c =
     (let s = \<lparr>streamID = i, requestID = i, stream_direction = ClientStream, decoder = d, streamCbs = [],
               encodedHeaders = None, encodedData = None\<rparr>
      in (c\<lparr>activeStreams := (activeStreams c)(i \<mapsto> s), streams := streams c @ [s]\<rparr>, length (streams c)))"

section \<open>Decoding\<close>

definition HeaderStreamID :: string where "HeaderStreamID = ''x-mosn-streamid''"
definition HeaderGlobalTimeout :: string where "HeaderGlobalTimeout = ''x-mosn-global-timeout''"
definition HeaderTryTimeout :: string where "HeaderTryTimeout = ''x-mosn-try-timeout''"

text \<open>
  A new request makes a server stream. The request id of the message is remembered and
  replaced by the stream's own id; the receiver, which also listens for resets, is made by the
  server callbacks, which a client connection does not have.
\<close>

definition onNewStreamDetected :: "string \<Rightarrow> smap \<Rightarrow> 'd streamConnection \<Rightarrow> ('d streamConnection \<times> smap) outcome" where
  "onNewStreamDetected i headers c =
     (if activeStreams c i \<noteq> None then Inr (c, headers)
      else
        (let rid = (case headers (SofaPropertyHeader HeaderReqID) of Some v \<Rightarrow> v | None \<Rightarrow> i);
             headers = headers(SofaPropertyHeader HeaderReqID \<mapsto> i)
         in case serverCallbacks c of
              None \<Rightarrow> Inl NilDereference
            | Some new \<Rightarrow>
                (let s = \<lparr>streamID = i, requestID = rid, stream_direction = ServerStream, decoder = new i,
                          streamCbs = [new i], encodedHeaders = None, encodedData = None\<rparr>;
                     c = log_call (CallNewStream i) c
                 in Inr (c\<lparr>activeStreams := (activeStreams c)(i \<mapsto> s), streams := streams c @ [s]\<rparr>, headers))))"

definition decodeSterilize :: "string \<Rightarrow> smap \<Rightarrow> smap \<times> bool" where
  "decodeSterilize i headers =
     (let headers = headers(HeaderStreamID \<mapsto> i);
          headers = (case headers (SofaPropertyHeader HeaderTimeout) of
                       Some v \<Rightarrow> headers(HeaderTryTimeout \<mapsto> v) | None \<Rightarrow> headers);
          heartbeat = (case headers (SofaPropertyHeader HeaderCmdCode) of
                         Some v \<Rightarrow> ConvertPropertyValue v KInt16 = PInt16 HEARTBEAT | None \<Rightarrow> False)
      in (headers, heartbeat \<or> headers HeaderStremEnd \<noteq> None))"

definition receive_headers :: "string \<Rightarrow> 'd streamConnection \<times> smap \<Rightarrow> 'd streamConnection \<times> bool" where
  "receive_headers i r = (case r of (c, headers) \<Rightarrow>
     let (headers, e) = decodeSterilize i headers in
     (case activeStreams c i of
        Some s \<Rightarrow> (log_call (CallReceiveHeaders (decoder s) headers e) c, e)
      | None \<Rightarrow> (c, False)))"

definition conn_OnDecodeHeader :: "string \<Rightarrow> smap \<Rightarrow> 'd streamConnection \<Rightarrow> ('d streamConnection \<times> bool) outcome" where
  "conn_OnDecodeHeader i headers c =
     obind (if IsSofaRequest headers then onNewStreamDetected i headers c else Inr (c, headers))
       (\<lambda>r. Inr (receive_headers i r))"

text \<open>A client stream is removed from the map once its response has been read.\<close>

definition conn_OnDecodeData :: "string \<Rightarrow> iobuffer \<Rightarrow> 'd streamConnection \<Rightarrow> 'd streamConnection \<times> bool" where
  "conn_OnDecodeData i data c =
     (case activeStreams c i of
        Some s \<Rightarrow>
          (let c = log_call (CallReceiveData (decoder s) (contents data) True) c
           in (if stream_direction s = ClientStream then Remove (streamID s) c else c, True))
      | None \<Rightarrow> (c, True))"

definition CodecException :: string where "CodecException = ''Codec exception occurs''"

text \<open>The text of an error; that of a bad command type is made up of more than its name.\<close>

fun err_text :: "handle_err \<Rightarrow> string" where
  "err_text UnKnownCmdcode = ''Unknown cmd code''"
| "err_text UnKnownCmd = ''Unknown Command''"
| "err_text UnSupportedCode = ''Protocol Code not supported''"
| "err_text (DecodeError (UnKnownReqtype b)) =
     ''Decode Error, type = Unknown request type, value = '' @ FormatUint (unat b)"

definition closes :: "string \<Rightarrow> bool" where
  "closes err \<longleftrightarrow> err = ''Protocol Code not supported'' \<or> err = ''Unknown cmd code'' \<or> err = ''Unknown request type''"

definition receive_error :: "string \<Rightarrow> string \<Rightarrow> 'd streamConnection \<times> smap \<Rightarrow> 'd streamConnection" where
  "receive_error i err r = (case r of (c, h) \<Rightarrow>
     (case activeStreams c i of
        None \<Rightarrow> c
      | Some s \<Rightarrow>
          (let c = log_call (CallDecodeError (decoder s) err h) c
           in if stream_direction s = ClientStream then Remove (streamID s) c else c)))"

definition conn_OnDecodeError :: "string \<Rightarrow> smap option \<Rightarrow> 'd streamConnection \<Rightarrow> 'd streamConnection outcome" where
  "conn_OnDecodeError err header c =
     (if closes err then Inr (log_call CloseConnection c)
      else if err = CodecException then
        (case header of
           None \<Rightarrow> Inr (log_call CloseConnection c)
         | Some h \<Rightarrow>
             (case h (SofaPropertyHeader HeaderReqID) of
                None \<Rightarrow> Inr (log_call CloseConnection c)
              | Some v \<Rightarrow> obind (onNewStreamDetected v h c) (\<lambda>r. Inr (receive_error v err r))))
      else Inr c)"

text \<open>The connection as the filter of the protocol dispatch; after a panic nothing happens any more.\<close>

definition stream_filter :: "'d streamConnection outcome DecodeFilter" where
  "stream_filter =
     \<lparr>OnDecodeHeader = (\<lambda>i h f. case obind f (conn_OnDecodeHeader i h) of
        Inl p \<Rightarrow> (Inl p, True) | Inr (c, stop) \<Rightarrow> (Inr c, stop)),
      OnDecodeData = (\<lambda>i b f. case f of
        Inl p \<Rightarrow> (Inl p, True) | Inr c \<Rightarrow> (case conn_OnDecodeData i b c of (c, stop) \<Rightarrow> (Inr c, stop))),
      OnDecodeError = (\<lambda>e f. obind f (conn_OnDecodeError (err_text e) None))\<rparr>"

definition Dispatch ::
  "smap option \<times> smap option \<Rightarrow> (nat \<Rightarrow> 64 word) \<Rightarrow> iobuffer \<Rightarrow> IDGenerator \<times> 'd streamConnection outcome \<Rightarrow>
     (iobuffer \<times> (IDGenerator \<times> 'd streamConnection outcome)) outcome option" where
  "Dispatch pools clk data st = protocols_Decode stream_filter pools clk 0 defaultProtocols data st"

section \<open>Encoding\<close>

definition status_of :: "int \<Rightarrow> 16 word" where
  "status_of code =
     (if code = int RouterUnavailableCode \<or> code = int NoHealthUpstreamCode \<or> code = 503 then 8
      else if code = 0 then 9
      else if code = 3 then 18
      else if code = int TimeoutExceptionCode then 7
      else 3)"

text \<open>
  The headers as they are after the call, which changes a map in place, and what is to be
  encoded: the map itself, or the answer that is made up for a status other than success. When
  no answer can be made up it stays with the map.
\<close>

definition remove_proxy_headers :: "smap \<Rightarrow> smap" where
  "remove_proxy_headers m =
     m(HeaderStreamID := None, HeaderGlobalTimeout := None, HeaderTryTimeout := None, HeaderStremEnd := None)"

definition encodeSterilize :: "'d stream \<Rightarrow> hdrs \<Rightarrow> hdrs \<times> hdrs" where
  "encodeSterilize s headers =
     (case headers of
        HdrMap m \<Rightarrow>
          (let m = (if stream_direction s = ServerStream then m(SofaPropertyHeader HeaderReqID \<mapsto> requestID s) else m);
               m = remove_proxy_headers m
           in case m HeaderStatus of
                None \<Rightarrow> (HdrMap m, HdrMap m)
              | Some status \<Rightarrow>
                  (let m = m(HeaderStatus := None); statusCode = Atoi status in
                   if statusCode = 200 then (HdrMap m, HdrMap m)
                   else
                     (case BuildSofaRespMsg m (status_of statusCode) of
                        (resp, None) \<Rightarrow> (HdrMap m, resp)
                      | (_, Some err) \<Rightarrow> (HdrMap m, HdrMap m))))
      | _ \<Rightarrow> (headers, headers))"

definition set_stream :: "nat \<Rightarrow> ('d stream \<Rightarrow> 'd stream) \<Rightarrow> 'd streamConnection \<Rightarrow> 'd streamConnection" where
  "set_stream p f c = c\<lparr>streams := (streams c)[p := f (streams c ! p)]\<rparr>"

text \<open>What has been encoded is written out if the stream is still known; a server stream is then done.\<close>

definition stream_endStream :: "nat \<Rightarrow> 'd streamConnection \<Rightarrow> 'd streamConnection" where
  "stream_endStream p c =
     (let s = streams c ! p;
          c = (case encodedHeaders s of
                 None \<Rightarrow> c
               | Some h \<Rightarrow>
                   (case activeStreams c (streamID s) of
                      None \<Rightarrow> c
                    | Some _ \<Rightarrow>
                        log_call (Write (streamID s)
                          (contents h @ (case encodedData s of Some d \<Rightarrow> d | None \<Rightarrow> []))) c))
      in if stream_direction s = ServerStream then Remove (streamID s) c else c)"

text \<open>
  \<open>AppendHeaders\<close> leaves the headers it was given changed; they are returned with the error.
  \<open>ord\<close> is the order in which a header map is visited, \<open>pooled\<close> the buffer the pool gives.
\<close>

definition stream_AppendHeaders ::
  "(smap \<Rightarrow> (string \<times> string) list) \<Rightarrow> iobuffer option \<Rightarrow> nat \<Rightarrow> hdrs \<Rightarrow> bool \<Rightarrow> 'd streamConnection \<Rightarrow>
     ('d streamConnection \<times> hdrs \<times> enc_err option) outcome" where
  "stream_AppendHeaders ord pooled p headers e c =
     (case encodeSterilize (streams c ! p) headers of (headers, toEncode) \<Rightarrow>
        obind (protocols_EncodeHeaders defaultProtocols ord pooled toEncode) (\<lambda>(encoded, r).
          let headers = (if toEncode = headers then encoded else headers) in
          case r of
            Inl err \<Rightarrow> Inr (set_stream p (\<lambda>s. s\<lparr>encodedHeaders := None\<rparr>) c, headers, Some err)
          | Inr b \<Rightarrow>
              (let c = set_stream p (\<lambda>s. s\<lparr>encodedHeaders := Some b\<rparr>) c
               in Inr (if e then stream_endStream p c else c, headers, None))))"

definition stream_AppendData :: "nat \<Rightarrow> byte list \<Rightarrow> bool \<Rightarrow> 'd streamConnection \<Rightarrow> 'd streamConnection" where
  "stream_AppendData p bs e c =
     (let c = set_stream p (\<lambda>s. s\<lparr>encodedData := Some bs\<rparr>) c in if e then stream_endStream p c else c)"

definition stream_AppendTrailers :: "nat \<Rightarrow> 'd streamConnection \<Rightarrow> 'd streamConnection" where
  "stream_AppendTrailers p c = stream_endStream p c"

section \<open>Listeners\<close>

definition AddEventListener :: "nat \<Rightarrow> 'd \<Rightarrow> 'd streamConnection \<Rightarrow> 'd streamConnection" where
  "AddEventListener p cb c = set_stream p (\<lambda>s. s\<lparr>streamCbs := streamCbs s @ [cb]\<rparr>) c"

definition RemoveEventListener :: "nat \<Rightarrow> 'd \<Rightarrow> 'd streamConnection \<Rightarrow> 'd streamConnection" where
  "RemoveEventListener p cb c = set_stream p (\<lambda>s. s\<lparr>streamCbs := remove1 cb (streamCbs s)\<rparr>) c"

definition stream_ResetStream :: "nat \<Rightarrow> string \<Rightarrow> 'd streamConnection \<Rightarrow> 'd streamConnection" where
  "stream_ResetStream p reason c = fold (\<lambda>cb. log_call (CallResetStream cb reason)) (streamCbs (streams c ! p)) c"

definition stream_ReadDisable :: "nat \<Rightarrow> bool \<Rightarrow> 'd streamConnection \<Rightarrow> 'd streamConnection" where
  "stream_ReadDisable p disable c = log_call (SetReadDisable disable) c"

section \<open>Steps\<close>

datatype 'd stream_input =
    InHeader string smap
  | InData string iobuffer
  | InError string "smap option"
  | InNewStream string 'd
  | InAppendHeaders "smap \<Rightarrow> (string \<times> string) list" "iobuffer option" nat hdrs bool
  | InAppendData nat "byte list" bool
  | InAppendTrailers nat
  | InAddListener nat 'd
  | InRemoveListener nat 'd
  | InReset nat string
  | InReadDisable nat bool

fun do_stream_input :: "'d stream_input \<Rightarrow> 'd streamConnection \<Rightarrow> 'd streamConnection outcome" where
  "do_stream_input (InHeader i h) c = obind (conn_OnDecodeHeader i h c) (\<lambda>(c, _). Inr c)"
| "do_stream_input (InData i b) c = Inr (fst (conn_OnDecodeData i b c))"
| "do_stream_input (InError err h) c = conn_OnDecodeError err h c"
| "do_stream_input (InNewStream i d) c = Inr (fst (conn_NewStream i d c))"
| "do_stream_input (InAppendHeaders ord pooled p h e) c =
     obind (stream_AppendHeaders ord pooled p h e c) (\<lambda>(c, _). Inr c)"
| "do_stream_input (InAppendData p bs e) c = Inr (stream_AppendData p bs e c)"
| "do_stream_input (InAppendTrailers p) c = Inr (stream_AppendTrailers p c)"
| "do_stream_input (InAddListener p cb) c = Inr (AddEventListener p cb c)"
| "do_stream_input (InRemoveListener p cb) c = Inr (RemoveEventListener p cb c)"
| "do_stream_input (InReset p reason) c = Inr (stream_ResetStream p reason c)"
| "do_stream_input (InReadDisable p disable) c = Inr (stream_ReadDisable p disable c)"

text \<open>The stream object an input is about.\<close>

fun input_stream :: "'d stream_input \<Rightarrow> nat option" where
  "input_stream (InAppendHeaders ord pooled p h e) = Some p"
| "input_stream (InAppendData p bs e) = Some p"
| "input_stream (InAppendTrailers p) = Some p"
| "input_stream (InAddListener p cb) = Some p"
| "input_stream (InRemoveListener p cb) = Some p"
| "input_stream (InReset p reason) = Some p"
| "input_stream (InReadDisable p disable) = Some p"
| "input_stream _ = None"

text \<open>What can happen on a server connection: everything but a stream of its own.\<close>

inductive server_step :: "'d streamConnection \<Rightarrow> 'd streamConnection \<Rightarrow> bool" where
  "do_stream_input inp c = Inr c' \<Longrightarrow> (\<And>p. input_stream inp = Some p \<Longrightarrow> p < length (streams c)) \<Longrightarrow>
     (\<And>i d. inp \<noteq> InNewStream i d) \<Longrightarrow> server_step c c'"

inductive_cases server_stepE: "server_step c c'"

section \<open>One response per request\<close>

fun writes_to :: "string \<Rightarrow> 'd call \<Rightarrow> bool" where
  "writes_to i (Write j bs) \<longleftrightarrow> i = j"
| "writes_to i _ \<longleftrightarrow> False"

fun makes :: "string \<Rightarrow> 'd call \<Rightarrow> bool" where
  "makes i (CallNewStream j) \<longleftrightarrow> i = j"
| "makes i _ \<longleftrightarrow> False"

definition written :: "string \<Rightarrow> 'd streamConnection \<Rightarrow> nat" where
  "written i c = length (filter (writes_to i) (calls c))"

definition made :: "string \<Rightarrow> 'd streamConnection \<Rightarrow> nat" where
  "made i c = length (filter (makes i) (calls c))"

definition server_ok :: "'d streamConnection \<Rightarrow> bool" where
  "server_ok c \<longleftrightarrow>
     list_all (\<lambda>s. stream_direction s = ServerStream) (streams c) \<and>
     (\<forall>i s. activeStreams c i = Some s \<longrightarrow> stream_direction s = ServerStream) \<and>
     (\<forall>i. written i c + (if activeStreams c i = None then 0 else 1) \<le> made i c)"

lemma server_okI:
  assumes "\<And>s. s \<in> set (streams c) \<Longrightarrow> stream_direction s = ServerStream"
    and "\<And>i s. activeStreams c i = Some s \<Longrightarrow> stream_direction s = ServerStream"
    and "\<And>i. written i c + (if activeStreams c i = None then 0 else 1) \<le> made i c"
  shows "server_ok c"
  using assms by (simp add: server_ok_def list_all_iff)

lemma server_okD:
  assumes "server_ok c"
  shows "s \<in> set (streams c) \<Longrightarrow> stream_direction s = ServerStream"
    and "activeStreams c i = Some s \<Longrightarrow> stream_direction s = ServerStream"
    and "written i c + (if activeStreams c i = None then 0 else 1) \<le> made i c"
  using assms by (auto simp only: server_ok_def list_all_iff)

lemma log_call_simps [simp]:
  "activeStreams (log_call a c) = activeStreams c" "streams (log_call a c) = streams c"
  "calls (log_call a c) = calls c @ [a]" "serverCallbacks (log_call a c) = serverCallbacks c"
  by (simp_all add: log_call_def)

lemma Remove_simps [simp]:
  "activeStreams (Remove i c) = (activeStreams c)(i := None)" "streams (Remove i c) = streams c"
  "calls (Remove i c) = calls c" "serverCallbacks (Remove i c) = serverCallbacks c"
  by (simp_all add: Remove_def)

lemma set_stream_simps [simp]:
  "activeStreams (set_stream p f c) = activeStreams c" "calls (set_stream p f c) = calls c"
  "serverCallbacks (set_stream p f c) = serverCallbacks c"
  "streams (set_stream p f c) = (streams c)[p := f (streams c ! p)]"
  by (simp_all add: set_stream_def)

lemma server_ok_log:
  assumes "server_ok c" and "\<And>i. \<not> writes_to i a" and "\<And>i. \<not> makes i a"
  shows "server_ok (log_call a c)"
  using assms by (simp add: server_ok_def written_def made_def)

lemma server_ok_detect:
  assumes "server_ok c" and "onNewStreamDetected i h c = Inr (c', h')"
  shows "server_ok c'"
proof (cases "activeStreams c i")
  case None
  show ?thesis
  proof (rule server_okI)
    fix j
    show "written j c' + (if activeStreams c' j = None then 0 else 1) \<le> made j c'"
      using assms(2) None server_okD(3) [OF assms(1), of j]
      by (auto simp: onNewStreamDetected_def written_def made_def Let_def split: option.splits if_splits)
  qed (use assms(2) None server_okD(1,2) [OF assms(1)] in
      \<open>auto simp: onNewStreamDetected_def Let_def split: option.splits if_splits\<close>)
qed (use assms in \<open>simp add: onNewStreamDetected_def\<close>)

lemma server_ok_set_stream:
  assumes "server_ok c" and "\<And>s. stream_direction (f s) = stream_direction s"
  shows "server_ok (set_stream p f c)"
proof (cases "p < length (streams c)")
  case True
  with assms show ?thesis by (auto simp: server_ok_def written_def made_def list_all_length nth_list_update)
qed (use assms in \<open>simp add: server_ok_def written_def made_def list_update_beyond\<close>)

lemma server_ok_Remove:
  assumes "server_ok c"
  shows "server_ok (Remove i c)"
proof (rule server_okI)
  fix j
  show "written j (Remove i c) + (if activeStreams (Remove i c) j = None then 0 else 1) \<le> made j (Remove i c)"
    using server_okD(3) [OF assms, of j] by (auto simp: written_def made_def split: if_splits)
qed (use server_okD(1,2) [OF assms] in \<open>auto split: if_splits\<close>)

lemma server_ok_write:
  assumes "server_ok c" and "activeStreams c i \<noteq> None"
  shows "server_ok (Remove i (log_call (Write i bs) c))"
proof (rule server_okI)
  fix j
  show "written j (Remove i (log_call (Write i bs) c)) +
      (if activeStreams (Remove i (log_call (Write i bs) c)) j = None then 0 else 1) \<le>
    made j (Remove i (log_call (Write i bs) c))"
    using server_okD(3) [OF assms(1), of j] assms(2) by (auto simp: written_def made_def split: if_splits)
qed (use server_okD(1,2) [OF assms(1)] in \<open>auto split: if_splits\<close>)

lemma server_ok_endStream:
  assumes "server_ok c" and "p < length (streams c)"
  shows "server_ok (stream_endStream p c)"
  using server_ok_write [OF assms(1)] server_ok_Remove [OF assms(1)] server_okD(1) [OF assms(1) nth_mem [OF assms(2)]]
  by (auto simp: stream_endStream_def Let_def split: option.splits)

lemma server_ok_reset: "server_ok c \<Longrightarrow> server_ok (stream_ResetStream p r c)"
proof -
  have "server_ok c \<Longrightarrow> server_ok (fold (\<lambda>cb. log_call (CallResetStream cb r)) cbs c)" for cbs
    by (induction cbs arbitrary: c) (simp_all add: server_ok_log)
  then show "server_ok c \<Longrightarrow> server_ok (stream_ResetStream p r c)" by (simp add: stream_ResetStream_def)
qed

lemma server_ok_receive:
  assumes "server_ok c"
  shows "server_ok (fst (receive_headers i (c, h)))" and "server_ok (receive_error i err (c, h))"
  using assms by (auto simp: receive_headers_def receive_error_def Let_def case_prod_unfold intro!: server_ok_Remove server_ok_log
      split: option.splits)

lemma server_ok_OnDecodeHeader:
  assumes "server_ok c" and "conn_OnDecodeHeader i h c = Inr (c', b)"
  shows "server_ok c'"
  using assms server_ok_receive(1) server_ok_detect
  by (fastforce simp: conn_OnDecodeHeader_def obind_eq_Inr split: if_splits dest: arg_cong [of _ _ fst])

lemma server_ok_OnDecodeError:
  assumes "server_ok c" and "conn_OnDecodeError err h c = Inr c'"
  shows "server_ok c'"
proof -
  have "server_ok c'" if "obind (onNewStreamDetected v m c) (\<lambda>r. Inr (receive_error v err r)) = Inr c'" for v m
    using that by (auto simp: obind_eq_Inr intro: server_ok_receive(2) server_ok_detect [OF assms(1)])
  moreover have "server_ok (log_call CloseConnection c)" using assms(1) by (simp add: server_ok_log)
  ultimately show ?thesis using assms
    by (auto simp: conn_OnDecodeError_def split: if_split_asm option.split_asm)
qed

lemma server_ok_OnDecodeData: "server_ok c \<Longrightarrow> server_ok (fst (conn_OnDecodeData i d c))"
  by (auto simp: conn_OnDecodeData_def Let_def server_ok_log intro: server_ok_Remove split: option.splits)

lemma AppendHeaders_result:
  assumes "stream_AppendHeaders ord pooled p h e c = Inr (c', h', err)"
  shows "\<exists>x. c' = set_stream p (\<lambda>s. s\<lparr>encodedHeaders := x\<rparr>) c \<or>
    c' = stream_endStream p (set_stream p (\<lambda>s. s\<lparr>encodedHeaders := x\<rparr>) c)"
proof -
  obtain h1 h2 where h: "encodeSterilize (streams c ! p) h = (h1, h2)" by (cases "encodeSterilize (streams c ! p) h")
  with assms obtain h3 r where "protocols_EncodeHeaders defaultProtocols ord pooled h2 = Inr (h3, r)"
    by (auto simp: stream_AppendHeaders_def go_outcome)
  with assms h show ?thesis by (cases r) (auto simp: stream_AppendHeaders_def Let_def split: if_splits)
qed

lemma server_ok_append:
  assumes "server_ok c" and "p < length (streams c)"
  shows "stream_AppendHeaders ord pooled p h e c = Inr (c', h', err) \<Longrightarrow> server_ok c'"
    and "server_ok (stream_AppendData p bs e c)" and "server_ok (stream_AppendTrailers p c)"
  using assms
  by (auto simp: stream_AppendData_def stream_AppendTrailers_def Let_def intro!: server_ok_endStream server_ok_set_stream
      dest!: AppendHeaders_result)

lemma server_ok_step: "server_step c c' \<Longrightarrow> server_ok c \<Longrightarrow> server_ok c'"
proof (erule server_stepE)
  fix inp
  assume "server_ok c" "do_stream_input inp c = Inr c'"
    "\<And>p. input_stream inp = Some p \<Longrightarrow> p < length (streams c)" "\<And>i d. inp \<noteq> InNewStream i d"
  then show "server_ok c'"
    by (cases inp) (auto simp: go_outcome AddEventListener_def RemoveEventListener_def stream_ReadDisable_def
        intro: server_ok_log server_ok_OnDecodeHeader server_ok_OnDecodeData server_ok_OnDecodeError server_ok_append server_ok_set_stream server_ok_reset)
qed

lemma server_ok_new: "server_ok (newStreamConnection cb)"
  by (simp add: server_ok_def newStreamConnection_def written_def made_def)

lemma server_ok_reachable:
  assumes "server_step\<^sup>*\<^sup>* (newStreamConnection cb) c"
  shows "server_ok c"
  using assms by (induction) (auto intro: server_ok_new server_ok_step)

section \<open>Properties\<close>

text \<open>
  C5 (invariant). On a server connection, whatever is decoded and whatever is sent on its
  streams in whatever order, the frames written for a stream id are at most as many as the
  requests that made a stream of that id, and fewer while such a stream is still active: no
  request is answered twice.
\<close>

theorem one_response_per_request:
  assumes "server_step\<^sup>*\<^sup>* (newStreamConnection cb) c"
  shows "written i c + (if activeStreams c i = None then 0 else 1) \<le> made i c"
  using server_okD(3) [OF server_ok_reachable [OF assms]] .


definition first_request :: smap where
  "first_request = [SofaPropertyHeader HeaderReqID \<mapsto> ''9'', SofaPropertyHeader HeaderProtocolCode \<mapsto> ''1'',
     SofaPropertyHeader HeaderCmdType \<mapsto> ''1'']"

definition first_connection :: "nat streamConnection" where
  "first_connection = (case conn_OnDecodeHeader ''1'' first_request (newStreamConnection (Some (\<lambda>_. 0))) of Inr (c, _) \<Rightarrow> c)"

lemma first_request_decoded:
  "\<exists>b. conn_OnDecodeHeader ''1'' first_request (newStreamConnection (Some (\<lambda>_. 0 :: nat))) = Inr (first_connection, b) \<and>
     activeStreams first_connection ''1'' \<noteq> None"
proof -
  have "case conn_OnDecodeHeader ''1'' first_request (newStreamConnection (Some (\<lambda>_. 0 :: nat))) of
      Inr (c, _) \<Rightarrow> \<not> Option.is_none (activeStreams c ''1'') | Inl _ \<Rightarrow> False" by code_simp
  then show ?thesis
    by (auto simp: first_connection_def Option.is_none_def split: sum.splits prod.splits)
qed

theorem one_response_per_request_witness:
  "server_step\<^sup>*\<^sup>* (newStreamConnection (Some (\<lambda>_. 0 :: nat))) first_connection \<and>
   activeStreams first_connection ''1'' \<noteq> None \<and> written ''1'' first_connection + 1 \<le> made ''1'' first_connection"
proof -
  from first_request_decoded obtain b where
    first: "conn_OnDecodeHeader ''1'' first_request (newStreamConnection (Some (\<lambda>_. 0 :: nat))) = Inr (first_connection, b)"
    "activeStreams first_connection ''1'' \<noteq> None" by blast
  have "server_step (newStreamConnection (Some (\<lambda>_. 0 :: nat))) first_connection"
    by (rule server_step.intros [of "InHeader ''1'' first_request"]) (simp_all add: first)
  then have "server_step\<^sup>*\<^sup>* (newStreamConnection (Some (\<lambda>_. 0 :: nat))) first_connection" by simp
  with one_response_per_request [OF this, of "''1''"] first(2) show ?thesis by simp
qed

text \<open>
  A frame of Bolt version 1 with a command type that is none of the three known
  ones stops its connection: however much has arrived behind it, dispatching the read buffer
  takes no byte from it, makes no call and does not close the connection. The error
  reported carries the value of the type, the handler compares it with the bare text.
\<close>

lemma unknown_type_wedges_connection:
  assumes "iob_wf b" and "contents b = PROTOCOL_CODE_V1 # t # r" and "t \<noteq> REQUEST" and "t \<noteq> REQUEST_ONEWAY" and "t \<noteq> RESPONSE"
  shows "Dispatch pools clk b (g, Inr c) = Some (Inr (b, g, Inr c))"
proof -
  note two = first_two_bytes [OF assms(1,2)]
  note p = defaultProtocols_at(1)
  have d: "v1_Decode now b = Inr (b, Inr None) \<or> v1_Decode now b = Inr (b, Inl (UnKnownReqtype t))" for now
    using assms(3-5) length_contents [OF assms(1)] assms(2) by (simp add: v1_Decode_def BytesSlice_wf [OF assms(1)] byte_at_def)
  have "conn_OnDecodeError (err_text (DecodeError (UnKnownReqtype t))) None c = Inr c"
    by (simp add: conn_OnDecodeError_def closes_def CodecException_def)
  with d [of "clk 0"] show ?thesis unfolding Dispatch_def
    by (subst protocols_Decode.simps) (auto simp add: two [simplified] p BoltV1_def stream_filter_def)
qed

end
