(* ===== verification/Sofa_Relay.thy ===== *)
theory Sofa_Relay
  imports Sofa_Stream Downstream_Properties
begin

text \<open>
  The proxy between two SofaRPC connections: the bytes that arrive on one connection are
  dispatched to its streams, the streams call the proxied stream, and what the proxied stream
  sends is encoded by the stream of the other connection. The lemmas follow a Bolt v1 request
  to the upstream connection and its response back, byte for byte.
\<close>

section \<open>A request on its way upstream\<close>

definition proxy_keys :: "smap \<Rightarrow> bool" where
  "proxy_keys h \<longleftrightarrow>
     list_all (\<lambda>k. h k = None) [HeaderStreamID, HeaderGlobalTimeout, HeaderTryTimeout, HeaderStremEnd, HeaderStatus]"

definition user_headers :: "bslice \<Rightarrow> (string \<times> string) list \<Rightarrow> bool" where
  "user_headers s kvs \<longleftrightarrow> headers_of s kvs \<and> fresh_keys (map_of kvs) \<and> proxy_keys (map_of kvs)"

abbreviation class_of :: "'a BoltRequestCommand_scheme \<Rightarrow> string" where
  "class_of c \<equiv> string_of_bytes (bs_vis (rq_ClassName c))"

text \<open>The header map a request is received with, and the command it is sent on as.\<close>

definition inbound :: "BoltRequestCommand \<Rightarrow> 32 word \<Rightarrow> (string \<times> string) list \<Rightarrow> smap" where
  "inbound c i kvs = (req_fields (c\<lparr>rq_ReqID := i\<rparr>) (class_of c) ++ map_of kvs)
     (HeaderStreamID \<mapsto> StreamIDConv i, HeaderTryTimeout \<mapsto> FormatUint (unat (rq_Timeout c)))"

definition relayed_req ::
  "(smap \<Rightarrow> (string \<times> string) list) \<Rightarrow> (string \<times> string) list \<Rightarrow> 32 word \<Rightarrow> BoltRequestCommand \<Rightarrow> BoltRequestCommand" where
  "relayed_req ord kvs i c = c\<lparr>rq_ReqID := i, rq_HeaderMap := B (concat (map entry_bytes (ord (map_of kvs)))) []\<rparr>"

lemmas proxy_names = HeaderStreamID_def HeaderGlobalTimeout_def HeaderTryTimeout_def HeaderStremEnd_def HeaderStatus_def

lemma req_fields_id:
  assumes "h HeaderReqID = None"
  shows "(req_fields c cn ++ h)(HeaderReqID \<mapsto> FormatUint (unat w)) = req_fields (c\<lparr>rq_ReqID := w\<rparr>) cn ++ h"
  using assms by (auto simp: req_fields_def map_add_def fun_eq_iff header_names split: option.splits)

lemma Dispatch_frame:
  assumes "sendable c" and "clean_maps pools" and "iob_wf b" and "contents b = bolt_frame c"
    and "HandleCommand NewBoltCommandHandler stream_filter pools (received (clk 0) c) st = Inr (st', None)"
  shows "\<exists>b'. Dispatch pools clk b st = Some (Inr (b', st')) \<and> iob_wf b' \<and> contents b' = []"
proof -
  from assms(1) have c: "v1_cmd c" "headers_ok c" by (simp_all add: sendable_def)
  have "HandleCommand (commandHandler BoltV1) stream_filter pools c' st = Inr (st', None)"
    if "plain_cmd c' = received (clk 0) c" "tidy c'" for c'
    using HandleCommand_received [OF c assms(2) that, of NewBoltCommandHandler stream_filter st] assms(5) by (simp add: BoltV1_def)
  then have "\<exists>b'. iob_wf b' \<and> contents b' = [] \<and> protocols_Decode stream_filter pools clk 0 defaultProtocols b st =
      protocols_Decode stream_filter pools clk (0 + 1) defaultProtocols b' st'"
    using assms(3,4) c
    by (intro v1_frames.dispatch_frame [where now = "clk 0" and c = c and pm = defaultProtocols, OF defaultProtocols_at(1)])
       (simp_all, simp add: BoltV1_def)
  then obtain b' where b': "iob_wf b'" "contents b' = []"
    "Dispatch pools clk b st = protocols_Decode stream_filter pools clk (0 + 1) defaultProtocols b' st'"
    by (auto simp: Dispatch_def)
  have "\<not> Len b' > 1" using length_contents [OF b'(1)] b'(2) by simp
  then have "protocols_Decode stream_filter pools clk (0 + 1) defaultProtocols b' st' = Some (Inr (b', st'))"
    by (subst protocols_Decode.simps) simp
  with b' show ?thesis by auto
qed


definition server_stream :: "(string \<Rightarrow> 'd) \<Rightarrow> string \<Rightarrow> string \<Rightarrow> 'd stream" where
  "server_stream new i rid = \<lparr>streamID = i, requestID = rid, stream_direction = ServerStream, decoder = new i,
     streamCbs = [new i], encodedHeaders = None, encodedData = None\<rparr>"

lemma onNewStreamDetected_new:
  assumes "activeStreams c i = None" and "serverCallbacks c = Some new" and "h HeaderReqID = Some rid"
  shows "onNewStreamDetected i h c = Inr (c\<lparr>activeStreams := (activeStreams c)(i \<mapsto> server_stream new i rid),
     streams := streams c @ [server_stream new i rid], calls := calls c @ [CallNewStream i]\<rparr>, h(HeaderReqID \<mapsto> i))"
  using assms by (simp add: onNewStreamDetected_def SofaPropertyHeader_def server_stream_def log_call_def Let_def)

lemma fresh_at:
  assumes "fresh_keys h" and "k \<in> set property_names"
  shows "h k = None"
  using assms by (auto simp: fresh_keys_def list_all_iff)

lemma req_fields_at:
  assumes "fresh_keys h"
  shows "(req_fields c cn ++ h) HeaderProtocolCode = Some (FormatUint (unat (rq_Protocol c)))"
    "(req_fields c cn ++ h) HeaderCmdType = Some (FormatUint (unat (rq_CmdType c)))"
    "(req_fields c cn ++ h) HeaderCmdCode = Some (FormatUint (unat (scast (rq_CmdCode c) :: 64 word)))"
    "(req_fields c cn ++ h) HeaderReqID = Some (FormatUint (unat (rq_ReqID c)))"
    "(req_fields c cn ++ h) HeaderTimeout = Some (FormatUint (unat (rq_Timeout c)))"
  using assms by (simp_all add: fresh_keys_def req_fields_def header_names map_add_def)

lemma req_fields_proxy:
  assumes "proxy_keys h"
  shows "(req_fields c cn ++ h) HeaderStreamID = None" "(req_fields c cn ++ h) HeaderGlobalTimeout = None"
    "(req_fields c cn ++ h) HeaderTryTimeout = None" "(req_fields c cn ++ h) HeaderStremEnd = None"
    "(req_fields c cn ++ h) HeaderStatus = None"
  using assms by (simp_all add: proxy_keys_def req_fields_def header_names proxy_names map_add_def)

lemma request_code: "ConvertPropertyValue (FormatUint (unat (scast RPC_REQUEST :: 64 word))) KInt16 = PInt16 RPC_REQUEST"
  by (rule convert_int16) (simp add: RPC_REQUEST_def)

lemma decodeSterilize_request:
  assumes "rq_CmdCode c = RPC_REQUEST" and "fresh_keys h" and "proxy_keys h"
  shows "decodeSterilize i (req_fields c cn ++ h) =
    ((req_fields c cn ++ h)(HeaderStreamID \<mapsto> i, HeaderTryTimeout \<mapsto> FormatUint (unat (rq_Timeout c))), False)"
proof -
  have "RPC_REQUEST \<noteq> HEARTBEAT" by (simp add: bolt_consts)
  moreover have "HeaderTimeout \<noteq> HeaderStreamID" "HeaderCmdCode \<noteq> HeaderStreamID" "HeaderCmdCode \<noteq> HeaderTryTimeout"
    "HeaderStremEnd \<noteq> HeaderStreamID" "HeaderStremEnd \<noteq> HeaderTryTimeout" "HeaderTryTimeout \<noteq> HeaderStreamID"
    by (simp_all add: proxy_names header_names)
  ultimately show ?thesis
    by (simp add: decodeSterilize_def SofaPropertyHeader_def req_fields_at [OF assms(2)] req_fields_proxy [OF assms(3)]
      assms(1) request_code Let_def del: ConvertPropertyValue.simps)
qed

lemma IsSofaRequest_request:
  assumes "rq_Protocol c = PROTOCOL_CODE_V1" and "rq_CmdType c = REQUEST" and "fresh_keys h"
  shows "IsSofaRequest (req_fields c cn ++ h)"
  using assms(1,2) by (simp add: IsSofaRequest_def header_at_def SofaPropertyHeader_def req_fields_at [OF assms(3)]
      del: ConvertPropertyValue.simps)


text \<open>The connection after a message that makes a stream, and the callbacks of a message.\<close>

definition with_stream :: "'d stream \<Rightarrow> 'd call list \<Rightarrow> 'd streamConnection \<Rightarrow> 'd streamConnection" where
  "with_stream s cs c = c\<lparr>activeStreams := (activeStreams c)(streamID s \<mapsto> s), streams := streams c @ [s],
     calls := calls c @ cs\<rparr>"

definition message :: "'d \<Rightarrow> smap \<Rightarrow> byte list \<Rightarrow> 'd call list" where
  "message d h bs = [CallReceiveHeaders d h False, CallReceiveData d bs True]"

lemma handlers [simp]:
  "NewBoltCommandHandler RPC_REQUEST = Some ReqProc" "NewBoltCommandHandler RPC_RESPONSE = Some RespProc"
  "NewBoltCommandHandler HEARTBEAT = Some HbProc"
  by (simp_all add: NewBoltCommandHandler_def bolt_consts)

lemma present_stream:
  assumes "conn_OnDecodeHeader i h c = Inr (c', False)"
  shows "present stream_filter i (Some h) (B bs x) (Inr c) = Inr (fst (conn_OnDecodeData i (NewIoBufferBytes bs) c'))"
  using assms by (simp add: present_def stream_filter_def case_prod_unfold)

lemma request_received:
  assumes "rq_Protocol c = PROTOCOL_CODE_V1" and "rq_CmdType c = REQUEST" and "rq_CmdCode c = RPC_REQUEST"
    and "user_headers (rq_HeaderMap c) kvs" and "bs_vis (rq_Content c) \<noteq> []" and "clean_maps pools"
    and "serverCallbacks C = Some new" and "activeStreams C (StreamIDConv (g + 1)) = None"
  shows "HandleCommand NewBoltCommandHandler stream_filter pools (received now (ReqV1 c)) (g, Inr C) =
    Inr ((g + 1, Inr (with_stream (server_stream new (StreamIDConv (g + 1)) (StreamIDConv (rq_ReqID c)))
      (CallNewStream (StreamIDConv (g + 1)) #
         message (new (StreamIDConv (g + 1))) (inbound c (g + 1) kvs) (bs_vis (rq_Content c))) C)), None)"
proof -
  let ?i = "StreamIDConv (g + 1)" and ?c = "plain_req (c\<lparr>rq_Protocol := PROTOCOL_CODE_V1\<rparr>)" and ?h = "map_of kvs"
  let ?H = "req_fields c (class_of c) ++ ?h"
  have kvs: "headers_of (rq_HeaderMap c) kvs" "fresh_keys ?h" "proxy_keys ?h"
    using assms(4) by (simp_all add: user_headers_def)
  have fields: "rq_CmdCode ?c = rq_CmdCode c" "req_fields ?c cn = req_fields c cn" "class_of ?c = class_of c"
    "rq_Content ?c = B (bs_vis (rq_Content c)) []" for cn
    using assms(1,5) by (simp_all add: plain_req_def req_fields_def plain_def)
  have "headers_of (rq_HeaderMap ?c) kvs" using kvs(1) by (simp add: headers_of_def plain_req_def)
  then have des: "deserializeRequestAllFields (fst pools) (snd pools) ?c = Inr (?c\<lparr>rq_RequestHeader := Some ?H\<rparr>)"
    using assms(6) deserialize_request [of ?c kvs "fst pools" "snd pools"] by (simp add: clean_maps_def fields)
  have id: "?H(HeaderReqID \<mapsto> ?i) = req_fields (c\<lparr>rq_ReqID := g + 1\<rparr>) (class_of c) ++ ?h"
    unfolding StreamIDConv_def by (rule req_fields_id) (rule fresh_at [OF kvs(2)], simp)
  have dec: "decodeSterilize ?i (?H(HeaderReqID \<mapsto> ?i)) = (inbound c (g + 1) kvs, False)"
    unfolding id using decodeSterilize_request [of "c\<lparr>rq_ReqID := g + 1\<rparr>", OF _ kvs(2,3)] assms(3)
    by (simp add: inbound_def)
  have "?H HeaderReqID = Some (StreamIDConv (rq_ReqID c))" by (simp add: req_fields_at [OF kvs(2)] StreamIDConv_def)
  note new = onNewStreamDetected_new [where h = ?H, OF assms(8,7) this]
  have "conn_OnDecodeHeader ?i ?H C = Inr (with_stream (server_stream new ?i (StreamIDConv (rq_ReqID c)))
      [CallNewStream ?i, CallReceiveHeaders (new ?i) (inbound c (g + 1) kvs) False] C, False)"
    unfolding conn_OnDecodeHeader_def if_P [OF IsSofaRequest_request [OF assms(1,2) kvs(2)]]
    by (simp add: new receive_headers_def dec server_stream_def with_stream_def log_call_def)
  note pres = present_stream [OF this]
  show ?thesis
    using assms(3) pres
    by (simp add: HandleCommand_def fields BoltRequestProcessor_Process_def des GetString_def flip: StreamIDConv_def)
       (simp add: conn_OnDecodeData_def with_stream_def server_stream_def message_def log_call_def)
qed


lemma length_entries:
  assumes "distinct (map fst xs)" and "distinct (map fst ys)" and "set xs = set ys"
  shows "length (concat (map entry_bytes xs)) = length (concat (map entry_bytes ys))"
  using assms by (simp add: length_concat distinct_map comp_def sum_list_distinct_conv_sum_set)

lemma relayed_headers:
  assumes "headers_of s kvs" and "iter_order ord"
  shows "length (concat (map entry_bytes (ord (map_of kvs)))) = bs_len s"
    and "headers_of (B (concat (map entry_bytes (ord (map_of kvs)))) x) (ord (map_of kvs))"
    and "map_of (ord (map_of kvs)) = map_of kvs"
proof -
  have kvs: "distinct (map fst kvs)" "list_all small_entry kvs" "bs_vis s = concat (map entry_bytes kvs)"
    using assms(1) by (simp_all add: headers_of_def)
  note es = iter_order_entries [OF assms(2) kvs(1)]
  show "length (concat (map entry_bytes (ord (map_of kvs)))) = bs_len s"
    using length_entries [OF es(1) kvs(1) es(3)] kvs(3) by simp
  show "headers_of (B (concat (map entry_bytes (ord (map_of kvs)))) x) (ord (map_of kvs))"
    using es kvs(2) by (simp add: headers_of_def list_all_iff)
  show "map_of (ord (map_of kvs)) = map_of kvs" by (rule es(2))
qed

lemma relayed_req_cmd:
  assumes "v1_cmd (ReqV1 c)" and "headers_of (rq_HeaderMap c) kvs" and "iter_order ord"
  shows "v1_cmd (ReqV1 (relayed_req ord kvs i c))"
  using assms(1) relayed_headers(1) [OF assms(2,3)]
  by (simp add: relayed_req_def req_ok_def lens_ok_def)

lemma encode_request:
  assumes "v1_cmd (ReqV1 c)" and "req_fits c" and "headers_of (rq_HeaderMap c) kvs" and "fresh_keys (map_of kvs)"
    and "iter_order ord" and "pool_clean pooled"
  shows "\<exists>e. protocols_EncodeHeaders defaultProtocols ord pooled
      (HdrMap (req_fields (c\<lparr>rq_ReqID := i\<rparr>) (class_of c) ++ map_of kvs)) = Inr (HdrMap (map_of kvs), Inr e) \<and>
    contents e @ bs_vis (rq_Content c) = bolt_frame (ReqV1 (relayed_req ord kvs i c))"
proof -
  let ?c = "c\<lparr>rq_ReqID := i\<rparr>" and ?r = "relayed_req ord kvs i c"
  let ?c2 = "BoltRequestCommand.truncate ?c\<lparr>rq_ClassName := B (bytes_of_string (class_of c)) [],
    rq_HeaderMap := B (concat (map entry_bytes (ord (map_of kvs)))) [], rq_Content := NilB, rq_RequestHeader := None\<rparr>"
  have fits: "req_fits ?c" using assms(2) by (simp add: req_fits_def)
  have "v1_req_chunks ?c2 = v1_req_chunks ?r" "rq_ClassLen ?c2 = rq_ClassLen ?r" "rq_HeaderMap ?c2 = rq_HeaderMap ?r"
    by (simp_all add: v1_req_chunks_def relayed_req_def BoltRequestCommand.truncate_def)
  then have same: "v1_encodeHeaders pooled (Some (ReqV1 ?c2)) = v1_encodeHeaders pooled (Some (ReqV1 ?r))"
    by (simp add: v1_encodeHeaders_def v1_doEncodeRequestCommand_def)
  from v1_encodeHeaders_frame [OF relayed_req_cmd [OF assms(1,3,5)] assms(6)] obtain e where
    e: "v1_encodeHeaders pooled (Some (ReqV1 ?r)) = Inr (Inr e)" "contents e @ cmd_content (ReqV1 ?r) = bolt_frame (ReqV1 ?r)"
    by blast
  have "ParseUint 8 (FormatUint (unat (rq_Protocol c))) = unat (rq_Protocol c)"
    by (rule ParseUint_FormatUint) simp
  then have "protocols_EncodeHeaders defaultProtocols ord pooled (HdrMap (req_fields ?c (class_of c) ++ map_of kvs)) =
      v1_EncodeHeaders ord pooled (HdrMap (req_fields ?c (class_of c) ++ map_of kvs))"
    using assms(1) by (simp add: protocols_EncodeHeaders_def SofaPropertyHeader_def req_fields_at [OF assms(4)]
      defaultProtocols_at BoltV1_def)
  also have "\<dots> = Inr (HdrMap (map_of kvs), Inr e)"
    using mapToCmd_request [OF fits assms(4) finite_dom_map_of, of ord "class_of c"] same e(1)
    by (simp add: v1_EncodeHeaders_def)
  finally show ?thesis using e(2) by (auto simp: relayed_req_def)
qed


lemma remove_proxy_headers_id:
  assumes "h HeaderStreamID = None" "h HeaderGlobalTimeout = None" "h HeaderTryTimeout = None" "h HeaderStremEnd = None"
  shows "remove_proxy_headers (h(HeaderStreamID := a, HeaderTryTimeout := b)) = h" "remove_proxy_headers (h(HeaderStreamID := a)) = h"
  using assms by (auto simp: fun_eq_iff remove_proxy_headers_def)

lemma remove_proxy_headers_none:
  assumes "h HeaderStreamID = None" "h HeaderGlobalTimeout = None" "h HeaderTryTimeout = None" "h HeaderStremEnd = None"
  shows "remove_proxy_headers h = h"
  using assms by (simp add: remove_proxy_headers_def fun_upd_idem)

lemma sterilize_plain:
  assumes "m' = remove_proxy_headers (if stream_direction s = ServerStream then m(HeaderReqID \<mapsto> requestID s) else m)"
    and "m' HeaderStatus = None"
  shows "encodeSterilize s (HdrMap m) = (HdrMap m', HdrMap m')"
  using assms by (cases "stream_direction s") (simp_all add: encodeSterilize_def SofaPropertyHeader_def Let_def)

lemma client_sterilize:
  assumes "stream_direction s = ClientStream" and "proxy_keys (map_of kvs)"
  shows "encodeSterilize s (HdrMap (inbound c i kvs)) =
    (HdrMap (req_fields (c\<lparr>rq_ReqID := i\<rparr>) (class_of c) ++ map_of kvs),
     HdrMap (req_fields (c\<lparr>rq_ReqID := i\<rparr>) (class_of c) ++ map_of kvs))"
proof (rule sterilize_plain)
  note none = req_fields_proxy [OF assms(2), of "c\<lparr>rq_ReqID := i\<rparr>" "class_of c"]
  show "req_fields (c\<lparr>rq_ReqID := i\<rparr>) (class_of c) ++ map_of kvs =
    remove_proxy_headers (if stream_direction s = ServerStream then (inbound c i kvs)(HeaderReqID \<mapsto> requestID s) else inbound c i kvs)"
    using assms(1) remove_proxy_headers_id(1) [OF none(1-4)] by (simp add: inbound_def)
qed (rule req_fields_proxy [OF assms(2)])

lemma AppendHeaders_ok:
  assumes "encodeSterilize (streams c ! p) h = (h1, h2)"
    and "protocols_EncodeHeaders defaultProtocols ord pooled h2 = Inr (h3, Inr b)"
  shows "stream_AppendHeaders ord pooled p h False c =
    Inr (set_stream p (\<lambda>s. s\<lparr>encodedHeaders := Some b\<rparr>) c, if h2 = h1 then h3 else h1, None)"
  using assms by (simp add: stream_AppendHeaders_def Let_def)

text \<open>Data that ends a stream is written behind the headers that were encoded before.\<close>

definition flushed :: "nat \<Rightarrow> iobuffer \<Rightarrow> byte list \<Rightarrow> 'd streamConnection \<Rightarrow> 'd streamConnection" where
  "flushed p b bs c =
     (let s = streams c ! p; c = log_call (Write (streamID s) (contents b @ bs)) (set_stream p (\<lambda>s. s\<lparr>encodedHeaders := Some b, encodedData := Some bs\<rparr>) c)
      in if stream_direction s = ServerStream then Remove (streamID s) c else c)"

lemma AppendData_flushes:
  assumes "p < length (streams c)" and "activeStreams c (streamID (streams c ! p)) \<noteq> None"
  shows "stream_AppendData p bs True (set_stream p (\<lambda>s. s\<lparr>encodedHeaders := Some b\<rparr>) c) = flushed p b bs c"
proof -
  obtain s where "activeStreams c (streamID (streams c ! p)) = Some s" using assms(2) by blast
  then show ?thesis using assms(1)
    by (simp add: stream_AppendData_def stream_endStream_def flushed_def set_stream_def log_call_def Remove_def Let_def)
qed


section \<open>A response on its way back\<close>

definition resp_fits :: "'a BoltResponseCommand_scheme \<Rightarrow> bool" where
  "resp_fits c \<longleftrightarrow> rs_CmdCode c = RPC_RESPONSE \<and> unat (rs_ResponseStatus c) < 2 ^ 15 \<and> unat (rs_ClassLen c) < 2 ^ 15 \<and>
     unat (rs_HeaderLen c) < 2 ^ 15 \<and> unat (rs_ContentLen c) < 2 ^ 31"

abbreviation resp_class :: "'a BoltResponseCommand_scheme \<Rightarrow> string" where
  "resp_class c \<equiv> string_of_bytes (bs_vis (rs_ClassName c))"

definition outbound :: "BoltResponseCommand \<Rightarrow> 64 word \<Rightarrow> (string \<times> string) list \<Rightarrow> smap" where
  "outbound c now kvs = (resp_fields (c\<lparr>rs_ResponseTimeMillis := now\<rparr>) (resp_class c) ++ map_of kvs)
     (HeaderStreamID \<mapsto> StreamIDConv (rs_ReqID c))"

definition relayed_resp ::
  "(smap \<Rightarrow> (string \<times> string) list) \<Rightarrow> (string \<times> string) list \<Rightarrow> 32 word \<Rightarrow> BoltResponseCommand \<Rightarrow> BoltResponseCommand" where
  "relayed_resp ord kvs i c = c\<lparr>rs_ReqID := i, rs_HeaderMap := B (concat (map entry_bytes (ord (map_of kvs)))) []\<rparr>"

lemma resp_fields_at:
  assumes "fresh_keys h"
  shows "(resp_fields c cn ++ h) HeaderProtocolCode = Some (FormatUint (unat (rs_Protocol c)))"
     "(resp_fields c cn ++ h) HeaderCmdType = Some (FormatUint (unat (rs_CmdType c)))"
     "(resp_fields c cn ++ h) HeaderCmdCode = Some (FormatUint (unat (scast (rs_CmdCode c) :: 64 word)))"
     "(resp_fields c cn ++ h) HeaderVersion = Some (FormatUint (unat (rs_Version c)))"
     "(resp_fields c cn ++ h) HeaderReqID = Some (FormatUint (unat (rs_ReqID c)))"
     "(resp_fields c cn ++ h) HeaderCodec = Some (FormatUint (unat (rs_CodecPro c)))"
     "(resp_fields c cn ++ h) HeaderClassLen = Some (FormatUint (unat (scast (rs_ClassLen c) :: 64 word)))"
     "(resp_fields c cn ++ h) HeaderHeaderLen = Some (FormatUint (unat (scast (rs_HeaderLen c) :: 64 word)))"
     "(resp_fields c cn ++ h) HeaderContentLen = Some (FormatUint (unat (rs_ContentLen c)))"
     "(resp_fields c cn ++ h) HeaderRespStatus = Some (FormatUint (unat (scast (rs_ResponseStatus c) :: 64 word)))"
     "(resp_fields c cn ++ h) HeaderRespTimeMills = Some (FormatUint (unat (rs_ResponseTimeMillis c)))"
     "(resp_fields c cn ++ h) HeaderClassName = Some cn"
     "(resp_fields c cn ++ h) HeaderTimeout = None"
  using assms by (simp_all add: fresh_keys_def resp_fields_def header_names map_add_def)

lemma resp_fields_proxy:
  assumes "proxy_keys h"
  shows "(resp_fields c cn ++ h) HeaderStreamID = None" "(resp_fields c cn ++ h) HeaderGlobalTimeout = None"
    "(resp_fields c cn ++ h) HeaderTryTimeout = None" "(resp_fields c cn ++ h) HeaderStremEnd = None"
    "(resp_fields c cn ++ h) HeaderStatus = None"
  using assms by (simp_all add: proxy_keys_def resp_fields_def header_names proxy_names map_add_def)

lemma resp_fields_id:
  assumes "h HeaderReqID = None"
  shows "(resp_fields c cn ++ h)(HeaderReqID \<mapsto> FormatUint (unat w)) = resp_fields (c\<lparr>rs_ReqID := w\<rparr>) cn ++ h"
  using assms by (auto simp: resp_fields_def map_add_def fun_eq_iff header_names split: option.splits)

lemma card_resp_fields_add:
  assumes "finite (dom h)"
  shows "12 \<le> card (dom (resp_fields c cn ++ h))"
proof -
  have "finite (dom (resp_fields c cn))" by (simp add: resp_fields_def)
  moreover have "card (dom (resp_fields c cn)) = 12" by (simp add: resp_fields_def header_names)
  ultimately show ?thesis using card_dom_add [OF assms, of "resp_fields c cn"] by simp
qed

lemma mapToCmd_response:
  assumes "resp_fits c" and "unat (rs_ResponseTimeMillis c) < 2 ^ 63" and "fresh_keys h" and "finite (dom h)"
  shows "v1_mapToCmd ord (resp_fields c cn ++ h) =
     Inr (h, Some (RespV1 (BoltResponseCommand.truncate c
       \<lparr>rs_ClassName := B (bytes_of_string cn) [],
        rs_HeaderMap := B (concat (map entry_bytes (ord h))) [],
        rs_Content := NilB, rs_ResponseHeader := None\<rparr>)))"
proof -
  let ?m = "resp_fields c cn ++ h"
  have card: "\<not> card (dom ?m) < 10" using card_resp_fields_add [OF assms(4), of c cn] by linarith
  have h: "list_all (\<lambda>k. h k = None) property_names" using assms(3) by (simp add: fresh_keys_def)
  note look = resp_fields_at [OF assms(3), of c cn]
  define m where "m = ?m"
  have start: "?m = without m []" by (simp add: m_def without_def)
  have rest: "without m [HeaderRespTimeMills, HeaderRespStatus, HeaderClassName, HeaderContentLen, HeaderHeaderLen, HeaderClassLen,
      HeaderCodec, HeaderReqID, HeaderVersion, HeaderCmdCode, HeaderCmdType, HeaderProtocolCode] = h"
    using h by (auto simp: m_def without_def fun_eq_iff map_add_def resp_fields_def split: option.splits)
  have fits: "unat (rs_ResponseStatus c) < 2 ^ 15" "unat (rs_ClassLen c) < 2 ^ 15" "unat (rs_HeaderLen c) < 2 ^ 15"
    "unat (rs_ContentLen c) < 2 ^ 31" "unat (rs_CmdCode c) < 2 ^ 15" "rs_CmdCode c = RPC_RESPONSE"
    using assms(1) by (simp_all add: resp_fits_def RPC_RESPONSE_def)
  note conv = convert_FormatUint convert_int16 [OF fits(1)] convert_int16 [OF fits(2)] convert_int16 [OF fits(3)]
    convert_int [OF fits(4)] convert_int64 [OF assms(2)] convert_int16 [OF fits(5), unfolded fits(6)]
  have code: "RPC_RESPONSE \<noteq> RPC_REQUEST" by (simp add: bolt_consts)
  show ?thesis unfolding v1_mapToCmd_def if_not_P [OF card] unfolding start
    by (simp add: look [folded m_def, unfolded header_names] rest [unfolded header_names] get_without kinds_lit
       conv fits(6) code Let_def header_names ser_Serialize_def encodeMap_eq encodeString_def BufferWrite_def unsafeStrToByte_def
       BoltResponseCommand.truncate_def
       del: ConvertPropertyValue.simps(1-8))
qed


lemma decodeSterilize_response:
  assumes "rs_CmdCode c = RPC_RESPONSE" and "fresh_keys h" and "proxy_keys h"
  shows "decodeSterilize i (resp_fields c cn ++ h) = ((resp_fields c cn ++ h)(HeaderStreamID \<mapsto> i), False)"
proof -
  have "RPC_RESPONSE \<noteq> HEARTBEAT" by (simp add: bolt_consts)
  moreover have "ConvertPropertyValue (FormatUint (unat (scast RPC_RESPONSE :: 64 word))) KInt16 = PInt16 RPC_RESPONSE"
    by (rule convert_int16) (simp add: RPC_RESPONSE_def)
  moreover have "HeaderTimeout \<noteq> HeaderStreamID" "HeaderCmdCode \<noteq> HeaderStreamID" "HeaderStremEnd \<noteq> HeaderStreamID"
    by (simp_all add: proxy_names header_names)
  ultimately show ?thesis
    by (simp add: decodeSterilize_def SofaPropertyHeader_def resp_fields_at [OF assms(2)] resp_fields_proxy [OF assms(3)]
      assms(1) Let_def del: ConvertPropertyValue.simps)
qed

lemma IsSofaRequest_response:
  assumes "rs_CmdType c = RESPONSE" and "fresh_keys h"
  shows "\<not> IsSofaRequest (resp_fields c cn ++ h)"
proof -
  have "RESPONSE \<noteq> REQUEST" by (simp add: bolt_consts)
  then show ?thesis using assms(1)
    by (simp add: IsSofaRequest_def header_at_def SofaPropertyHeader_def resp_fields_at [OF assms(2)] del: ConvertPropertyValue.simps)
qed

text \<open>A response that arrives for a client stream is handed to its receiver, and the stream is done.\<close>

lemma response_received:
  assumes "rs_Protocol c = PROTOCOL_CODE_V1" and "rs_CmdType c = RESPONSE" and "rs_CmdCode c = RPC_RESPONSE"
    and "user_headers (rs_HeaderMap c) kvs" and "bs_vis (rs_Content c) \<noteq> []" and "clean_maps pools"
    and "activeStreams C (StreamIDConv (rs_ReqID c)) = Some s" and "stream_direction s = ClientStream"
    and "streamID s = StreamIDConv (rs_ReqID c)"
  shows "HandleCommand NewBoltCommandHandler stream_filter pools (received now (RespV1 c)) (g, Inr C) =
    Inr ((g, Inr (Remove (StreamIDConv (rs_ReqID c))
      (C\<lparr>calls := calls C @ message (decoder s) (outbound c now kvs) (bs_vis (rs_Content c))\<rparr>))), None)"
proof -
  let ?i = "StreamIDConv (rs_ReqID c)" and ?h = "map_of kvs"
  let ?t = "c\<lparr>rs_ResponseTimeMillis := now\<rparr>"
  let ?c = "plain_resp (c\<lparr>rs_Protocol := PROTOCOL_CODE_V1, rs_ResponseTimeMillis := now\<rparr>)"
  let ?H = "resp_fields ?t (resp_class c) ++ ?h"
  have kvs: "headers_of (rs_HeaderMap c) kvs" "fresh_keys ?h" "proxy_keys ?h"
    using assms(4) by (simp_all add: user_headers_def)
  have fields: "rs_CmdCode ?c = rs_CmdCode c" "resp_fields ?c cn = resp_fields ?t cn" "resp_class ?c = resp_class c"
    "rs_Content ?c = B (bs_vis (rs_Content c)) []" "rs_ReqID ?c = rs_ReqID c" for cn
    using assms(1,5) by (simp_all add: plain_resp_def resp_fields_def plain_def)
  have "headers_of (rs_HeaderMap ?c) kvs" using kvs(1) by (simp add: headers_of_def plain_resp_def)
  then have des: "deserializeResponseAllFields (fst pools) (snd pools) ?c = Inr (?c\<lparr>rs_ResponseHeader := Some ?H\<rparr>)"
    using assms(6) deserialize_response [of ?c kvs "fst pools" "snd pools"] by (simp add: clean_maps_def fields)
  have dec: "decodeSterilize ?i ?H = (outbound c now kvs, False)"
    using decodeSterilize_response [of ?t, OF _ kvs(2,3)] assms(3) by (simp add: outbound_def)
  have "conn_OnDecodeHeader ?i ?H C = Inr (C\<lparr>calls := calls C @ [CallReceiveHeaders (decoder s) (outbound c now kvs) False]\<rparr>, False)"
    using IsSofaRequest_response [of ?t, OF _ kvs(2)] assms(2,7)
    by (simp add: conn_OnDecodeHeader_def receive_headers_def dec log_call_def)
  note pres = present_stream [OF this]
  show ?thesis
    using assms(3,7-9) pres
    by (simp add: HandleCommand_def fields BoltResponseProcessor_Process_def des)
       (simp add: conn_OnDecodeData_def message_def log_call_def Remove_def)
qed

lemma relayed_resp_cmd:
  assumes "v1_cmd (RespV1 c)" and "headers_of (rs_HeaderMap c) kvs" and "iter_order ord"
  shows "v1_cmd (RespV1 (relayed_resp ord kvs i c))"
  using assms(1) relayed_headers(1) [OF assms(2,3)]
  by (simp add: relayed_resp_def resp_ok_def lens_ok_def)

lemma encode_response:
  assumes "v1_cmd (RespV1 c)" and "resp_fits c" and "unat now < 2 ^ 63" and "headers_of (rs_HeaderMap c) kvs"
    and "fresh_keys (map_of kvs)" and "iter_order ord" and "pool_clean pooled"
  shows "\<exists>e. protocols_EncodeHeaders defaultProtocols ord pooled
      (HdrMap (resp_fields (c\<lparr>rs_ResponseTimeMillis := now, rs_ReqID := i\<rparr>) (resp_class c) ++ map_of kvs)) =
        Inr (HdrMap (map_of kvs), Inr e) \<and>
    contents e @ bs_vis (rs_Content c) = bolt_frame (RespV1 (relayed_resp ord kvs i c))"
proof -
  let ?c = "c\<lparr>rs_ResponseTimeMillis := now, rs_ReqID := i\<rparr>" and ?r = "relayed_resp ord kvs i c"
  let ?c2 = "BoltResponseCommand.truncate ?c\<lparr>rs_ClassName := B (bytes_of_string (resp_class c)) [],
    rs_HeaderMap := B (concat (map entry_bytes (ord (map_of kvs)))) [], rs_Content := NilB, rs_ResponseHeader := None\<rparr>"
  have fits: "resp_fits ?c" "unat (rs_ResponseTimeMillis ?c) < 2 ^ 63" using assms(2,3) by (simp_all add: resp_fits_def)
  have "v1_resp_chunks ?c2 = v1_resp_chunks ?r" "rs_ClassLen ?c2 = rs_ClassLen ?r" "rs_HeaderMap ?c2 = rs_HeaderMap ?r"
    by (simp_all add: v1_resp_chunks_def relayed_resp_def BoltResponseCommand.truncate_def)
  then have same: "v1_encodeHeaders pooled (Some (RespV1 ?c2)) = v1_encodeHeaders pooled (Some (RespV1 ?r))"
    by (simp add: v1_encodeHeaders_def v1_doEncodeResponseCommand_def)
  from v1_encodeHeaders_frame [OF relayed_resp_cmd [OF assms(1,4,6)] assms(7)] obtain e where
    e: "v1_encodeHeaders pooled (Some (RespV1 ?r)) = Inr (Inr e)" "contents e @ cmd_content (RespV1 ?r) = bolt_frame (RespV1 ?r)"
    by blast
  have "ParseUint 8 (FormatUint (unat (rs_Protocol c))) = unat (rs_Protocol c)"
    by (rule ParseUint_FormatUint) simp
  then have "protocols_EncodeHeaders defaultProtocols ord pooled (HdrMap (resp_fields ?c (resp_class c) ++ map_of kvs)) =
      v1_EncodeHeaders ord pooled (HdrMap (resp_fields ?c (resp_class c) ++ map_of kvs))"
    using assms(1) by (simp add: protocols_EncodeHeaders_def SofaPropertyHeader_def resp_fields_at [OF assms(5)]
      defaultProtocols_at BoltV1_def)
  also have "\<dots> = Inr (HdrMap (map_of kvs), Inr e)"
    using mapToCmd_response [OF fits assms(5) finite_dom_map_of, of ord "resp_class c"] same e(1)
    by (simp add: v1_EncodeHeaders_def)
  finally show ?thesis using e(2) by (auto simp: relayed_resp_def)
qed

lemma server_sterilize:
  assumes "stream_direction s = ServerStream" and "requestID s = StreamIDConv i" and "fresh_keys (map_of kvs)"
    and "proxy_keys (map_of kvs)"
  shows "encodeSterilize s (HdrMap (outbound c now kvs)) =
    (HdrMap (resp_fields (c\<lparr>rs_ResponseTimeMillis := now, rs_ReqID := i\<rparr>) (resp_class c) ++ map_of kvs),
     HdrMap (resp_fields (c\<lparr>rs_ResponseTimeMillis := now, rs_ReqID := i\<rparr>) (resp_class c) ++ map_of kvs))"
proof (rule sterilize_plain)
  let ?c = "c\<lparr>rs_ResponseTimeMillis := now, rs_ReqID := i\<rparr>"
  note none = resp_fields_proxy [OF assms(4), of ?c "resp_class c"]
  have ne: "HeaderReqID \<noteq> HeaderStreamID" by (simp add: header_names proxy_names)
  have "(outbound c now kvs)(HeaderReqID \<mapsto> requestID s) =
      ((resp_fields (c\<lparr>rs_ResponseTimeMillis := now\<rparr>) (resp_class c) ++ map_of kvs)(HeaderReqID \<mapsto> requestID s))
        (HeaderStreamID \<mapsto> StreamIDConv (rs_ReqID c))"
    using ne by (simp add: outbound_def fun_upd_twist)
  also have "\<dots> = (resp_fields ?c (resp_class c) ++ map_of kvs)(HeaderStreamID \<mapsto> StreamIDConv (rs_ReqID c))"
    using fresh_at [OF assms(3), of HeaderReqID]
      resp_fields_id [of "map_of kvs" "c\<lparr>rs_ResponseTimeMillis := now\<rparr>" "resp_class c" i] assms(2)
    by (simp add: StreamIDConv_def)
  finally show "resp_fields ?c (resp_class c) ++ map_of kvs =
    remove_proxy_headers (if stream_direction s = ServerStream then (outbound c now kvs)(HeaderReqID \<mapsto> requestID s)
      else outbound c now kvs)"
    using assms(1) remove_proxy_headers_id(2) [OF none(1-4)] by simp
qed (rule resp_fields_proxy [OF assms(4)])


section \<open>The proxy between two connections\<close>

text \<open>
  What a connection calls on its receiver becomes an input of the proxied stream, which is
  handled at once. What the proxied stream sends is done on the streams of the connections; the
  connection pool makes the upstream stream when it hands it over, that is, just before the
  request headers are sent on it. Errors of \<open>AppendHeaders\<close> are dropped, as the proxy does.
\<close>

fun inputs_of :: "direction \<Rightarrow> 'd call \<Rightarrow> input list" where
  "inputs_of dir (CallNewStream i) = [TakeCtrl]"
| "inputs_of dir (CallReceiveHeaders d h e) = [Deliver dir h e, TakeJob]"
| "inputs_of dir (CallReceiveData d bs e) = [DeliverData dir bs e, TakeJob]"
| "inputs_of dir (CallDecodeError d err h) =
     (if dir = FromDownstream then [input.DecodeError err h] else [DeliverReset dir ''StreamLocalReset'', TakeCtrl])"
| "inputs_of dir (CallResetStream d r) = [DeliverReset dir r, TakeCtrl]"
| "inputs_of dir _ = []"

record 'd proxied =
  px_gen :: IDGenerator
  px_down :: "'d streamConnection"
  px_up :: "'d streamConnection"
  px_stream :: downStream
  px_sender :: nat
  px_request :: nat

definition hdrs_of :: "resp_headers option \<Rightarrow> hdrs" where
  "hdrs_of h = (case h of Some (RMap m) \<Rightarrow> HdrMap m | Some (RCmd c) \<Rightarrow> HdrCmd c | None \<Rightarrow> HdrOther)"

fun perform ::
  "(smap \<Rightarrow> (string \<times> string) list) \<Rightarrow> string \<Rightarrow> 'd \<Rightarrow> act \<Rightarrow> 'd proxied \<Rightarrow> 'd proxied outcome" where
  "perform ord i d (DownHeaders h e) P =
     obind (stream_AppendHeaders ord None (px_sender P) (hdrs_of h) e (px_down P)) (\<lambda>(c, _). Inr (P\<lparr>px_down := c\<rparr>))"
| "perform ord i d (DownData bs e) P = Inr (P\<lparr>px_down := stream_AppendData (px_sender P) bs e (px_down P)\<rparr>)"
| "perform ord i d (DownTrailers t) P = Inr (P\<lparr>px_down := stream_AppendTrailers (px_sender P) (px_down P)\<rparr>)"
| "perform ord i d DownReset P = Inr (P\<lparr>px_down := stream_ResetStream (px_sender P) ''StreamLocalReset'' (px_down P)\<rparr>)"
| "perform ord i d (UpHeaders m e) P =
     (case conn_NewStream i d (px_up P) of (c, p) \<Rightarrow>
        obind (stream_AppendHeaders ord None p (HdrMap m) e c) (\<lambda>(c, _). Inr (P\<lparr>px_up := c, px_request := p\<rparr>)))"
| "perform ord i d (UpData bs e) P = Inr (P\<lparr>px_up := stream_AppendData (px_request P) bs e (px_up P)\<rparr>)"
| "perform ord i d (UpTrailers t) P = Inr (P\<lparr>px_up := stream_AppendTrailers (px_request P) (px_up P)\<rparr>)"
| "perform ord i d UpReset P = Inr (P\<lparr>px_up := stream_ResetStream (px_request P) ''StreamLocalReset'' (px_up P)\<rparr>)"
| "perform ord i d _ P = Inr P"

fun perform_all ::
  "(smap \<Rightarrow> (string \<times> string) list) \<Rightarrow> string \<Rightarrow> 'd \<Rightarrow> act list \<Rightarrow> 'd proxied \<Rightarrow> 'd proxied outcome" where
  "perform_all ord i d [] P = Inr P"
| "perform_all ord i d (a # as) P = obind (perform ord i d a P) (perform_all ord i d as)"

text \<open>The inputs are run, and what they make the proxied stream send is done.\<close>

definition drive ::
  "stream_env \<Rightarrow> (smap \<Rightarrow> (string \<times> string) list) \<Rightarrow> string \<Rightarrow> 'd \<Rightarrow> input list \<Rightarrow> 'd proxied \<Rightarrow> 'd proxied outcome option" where
  "drive env ord i d inps P =
     (case ds_run (map (\<lambda>inp. (env, inp)) inps) (px_stream P) of
        None \<Rightarrow> None
      | Some (Inl p) \<Rightarrow> Some (Inl p)
      | Some (Inr s) \<Rightarrow> Some (perform_all ord i d (drop (length (sent (px_stream P))) (sent s)) (P\<lparr>px_stream := s\<rparr>)))"

text \<open>Bytes from the client, and bytes from upstream.\<close>

definition client_bytes ::
  "stream_env \<Rightarrow> (smap \<Rightarrow> (string \<times> string) list) \<Rightarrow> string \<Rightarrow> 'd \<Rightarrow> smap option \<times> smap option \<Rightarrow> (nat \<Rightarrow> 64 word) \<Rightarrow>
     iobuffer \<Rightarrow> 'd proxied \<Rightarrow> 'd proxied outcome option" where
  "client_bytes env ord i d pools clk b P =
     (case Dispatch pools clk b (px_gen P, Inr (px_down P)) of
        Some (Inr (b', g, Inr c)) \<Rightarrow>
          drive env ord i d (concat (map (inputs_of FromDownstream) (drop (length (calls (px_down P))) (calls c))))
            (P\<lparr>px_gen := g, px_down := c\<rparr>)
      | Some (Inr (b', g, Inl p)) \<Rightarrow> Some (Inl p)
      | Some (Inl p) \<Rightarrow> Some (Inl p)
      | None \<Rightarrow> None)"

definition upstream_bytes ::
  "stream_env \<Rightarrow> (smap \<Rightarrow> (string \<times> string) list) \<Rightarrow> string \<Rightarrow> 'd \<Rightarrow> smap option \<times> smap option \<Rightarrow> (nat \<Rightarrow> 64 word) \<Rightarrow>
     iobuffer \<Rightarrow> 'd proxied \<Rightarrow> 'd proxied outcome option" where
  "upstream_bytes env ord i d pools clk b P =
     (case Dispatch pools clk b (px_gen P, Inr (px_up P)) of
        Some (Inr (b', g, Inr c)) \<Rightarrow>
          drive env ord i d (concat (map (inputs_of FromUpstream) (drop (length (calls (px_up P))) (calls c))))
            (P\<lparr>px_gen := g, px_up := c\<rparr>)
      | Some (Inr (b', g, Inl p)) \<Rightarrow> Some (Inl p)
      | Some (Inl p) \<Rightarrow> Some (Inl p)
      | None \<Rightarrow> None)"

definition fresh_proxied :: "'d streamConnection \<Rightarrow> 'd streamConnection \<Rightarrow> IDGenerator \<Rightarrow> 'd proxied" where
  "fresh_proxied down up g = \<lparr>px_gen = g, px_down = down, px_up = up, px_stream = newActiveStream 0 0,
     px_sender = length (streams down), px_request = 0\<rparr>"


section \<open>One exchange\<close>

definition relayable_req :: "BoltRequestCommand \<Rightarrow> (string \<times> string) list \<Rightarrow> bool" where
  "relayable_req c kvs \<longleftrightarrow> v1_cmd (ReqV1 c) \<and> req_fits c \<and> rq_CmdType c = REQUEST \<and>
     user_headers (rq_HeaderMap c) kvs \<and> bs_vis (rq_Content c) \<noteq> []"

definition relayable_resp :: "BoltResponseCommand \<Rightarrow> (string \<times> string) list \<Rightarrow> bool" where
  "relayable_resp c kvs \<longleftrightarrow> v1_cmd (RespV1 c) \<and> resp_fits c \<and>
     user_headers (rs_HeaderMap c) kvs \<and> bs_vis (rs_Content c) \<noteq> []"

definition routed :: "stream_env \<Rightarrow> smap \<Rightarrow> bool" where
  "routed env h \<longleftrightarrow> unfiltered env \<and> e_newStream env = None \<and>
     (\<exists>rt c. e_route env h = Some rt \<and> e_cluster env (rr_ClusterName rt) = Some c \<and> e_pool env (rr_ClusterName rt) \<and> \<not> rr_RetryOn rt)"

definition client_stream :: "string \<Rightarrow> 'd \<Rightarrow> 'd stream" where
  "client_stream i d = \<lparr>streamID = i, requestID = i, stream_direction = ClientStream, decoder = d, streamCbs = [],
     encodedHeaders = None, encodedData = None\<rparr>"

lemma conn_NewStream_eq: "conn_NewStream i d c = (with_stream (client_stream i d) [] c, length (streams c))"
  by (simp add: conn_NewStream_def with_stream_def client_stream_def Let_def)

lemma client_stream_simps [simp]:
  "streamID (client_stream i d) = i" "stream_direction (client_stream i d) = ClientStream" "decoder (client_stream i d) = d"
  by (simp_all add: client_stream_def)

lemma drive_run:
  assumes "ds_run (map (\<lambda>inp. (env, inp)) inps) (px_stream P) = Some (Inr s)" and "sent s = sent (px_stream P) @ as"
  shows "drive env ord i d inps P = Some (perform_all ord i d as (P\<lparr>px_stream := s\<rparr>))"
  using assms by (simp add: drive_def)

text \<open>The request on the upstream connection.\<close>

lemma request_performed:
  assumes "relayable_req c kvs" and "iter_order ord"
  shows "\<exists>e. contents e @ bs_vis (rq_Content c) = bolt_frame (ReqV1 (relayed_req ord kvs n c)) \<and>
    perform_all ord (StreamIDConv n) d [UpHeaders (inbound c n kvs) False, UpData (bs_vis (rq_Content c)) True] P =
    Inr (P\<lparr>px_up := flushed (length (streams (px_up P))) e (bs_vis (rq_Content c))
      (with_stream (client_stream (StreamIDConv n) d) [] (px_up P)), px_request := length (streams (px_up P))\<rparr>)"
proof -
  let ?i = "StreamIDConv n" and ?p = "length (streams (px_up P))"
  let ?u = "with_stream (client_stream ?i d) [] (px_up P)"
  from assms(1) have c: "v1_cmd (ReqV1 c)" "req_fits c" "headers_of (rq_HeaderMap c) kvs" "fresh_keys (map_of kvs)"
    "proxy_keys (map_of kvs)" by (simp_all add: relayable_req_def user_headers_def)
  from encode_request [OF c(1-4) assms(2), of None n] obtain e where
    e: "protocols_EncodeHeaders defaultProtocols ord None
      (HdrMap (req_fields (c\<lparr>rq_ReqID := n\<rparr>) (class_of c) ++ map_of kvs)) = Inr (HdrMap (map_of kvs), Inr e)"
    "contents e @ bs_vis (rq_Content c) = bolt_frame (ReqV1 (relayed_req ord kvs n c))"
    by (auto simp: pool_clean_def)
  have st: "streams ?u ! ?p = client_stream ?i d" "activeStreams ?u ?i = Some (client_stream ?i d)" "?p < length (streams ?u)"
    by (simp_all add: with_stream_def)
  then have "encodeSterilize (streams ?u ! ?p) (HdrMap (inbound c n kvs)) =
    (HdrMap (req_fields (c\<lparr>rq_ReqID := n\<rparr>) (class_of c) ++ map_of kvs),
     HdrMap (req_fields (c\<lparr>rq_ReqID := n\<rparr>) (class_of c) ++ map_of kvs))"
    using client_sterilize [of "client_stream ?i d", OF _ c(5)] by simp
  note app = AppendHeaders_ok [OF this e(1)]
  have "activeStreams ?u (streamID (streams ?u ! ?p)) \<noteq> None" using st by simp
  note fl = AppendData_flushes [OF st(3) this]
  show ?thesis using e(2) by (intro exI [of _ e]) (simp add: conn_NewStream_eq app fl)
qed


definition request_inputs :: "smap \<Rightarrow> byte list \<Rightarrow> input list" where
  "request_inputs h bs =
     [TakeCtrl, Deliver FromDownstream h False, TakeJob, DeliverData FromDownstream bs True, TakeJob]"

text \<open>A whole request: decoded on the client's connection, forwarded, encoded upstream.\<close>

lemma client_request:
  assumes "relayable_req c kvs" and "routed env (inbound c (g + 1) kvs)" and "iter_order ord" and "clean_maps pools"
    and "serverCallbacks down = Some new" and "activeStreams down (StreamIDConv (g + 1)) = None"
    and "iob_wf b" and "contents b = bolt_frame (ReqV1 c)"
  shows "\<exists>s e. under_way s \<and> no_retry s \<and> recvDone s \<and> requestSent s \<and>
    ds_run (map (\<lambda>inp. (env, inp)) (request_inputs (inbound c (g + 1) kvs) (bs_vis (rq_Content c)))) (newActiveStream 0 0) = Some (Inr s) \<and>
    sent s = [UpHeaders (inbound c (g + 1) kvs) False, UpData (bs_vis (rq_Content c)) True] \<and>
    contents e @ bs_vis (rq_Content c) = bolt_frame (ReqV1 (relayed_req ord kvs (g + 1) c)) \<and>
    client_bytes env ord (StreamIDConv (g + 1)) d pools clk b (fresh_proxied down up g) = Some (Inr
      \<lparr>px_gen = g + 1,
       px_down = with_stream (server_stream new (StreamIDConv (g + 1)) (StreamIDConv (rq_ReqID c)))
         (CallNewStream (StreamIDConv (g + 1)) #
            message (new (StreamIDConv (g + 1))) (inbound c (g + 1) kvs) (bs_vis (rq_Content c))) down,
       px_up = flushed (length (streams up)) e (bs_vis (rq_Content c)) (with_stream (client_stream (StreamIDConv (g + 1)) d) [] up),
       px_stream = s, px_sender = length (streams down), px_request = length (streams up)\<rparr>)"
proof -
  let ?i = "StreamIDConv (g + 1)" and ?h = "inbound c (g + 1) kvs" and ?bs = "bs_vis (rq_Content c)"
  from assms(1) have c: "rq_Protocol c = PROTOCOL_CODE_V1" "rq_CmdType c = REQUEST" "rq_CmdCode c = RPC_REQUEST"
    "user_headers (rq_HeaderMap c) kvs" "?bs \<noteq> []" "v1_cmd (ReqV1 c)" by (simp_all add: relayable_req_def req_fits_def)
  have "sendable (ReqV1 c)" using c(3,4,6) by (auto simp: sendable_def user_headers_def)
  from Dispatch_frame [OF this assms(4,7,8) request_received [OF c(1-5) assms(4-6)]] obtain b' where
    disp: "Dispatch pools clk b (g, Inr down) = Some (Inr (b', g + 1, Inr
      (with_stream (server_stream new ?i (StreamIDConv (rq_ReqID c))) (CallNewStream ?i # message (new ?i) ?h ?bs) down)))"
    by blast
  from assms(2) obtain rt cl where rt: "unfiltered env" "e_route env ?h = Some rt" "e_cluster env (rr_ClusterName rt) = Some cl"
    "e_pool env (rr_ClusterName rt)" "e_newStream env = None" "\<not> rr_RetryOn rt" by (auto simp: routed_def)
  from request_head [OF rt] obtain s1 where s1: "under_way s1" "no_retry s1" "sent s1 = [UpHeaders ?h False]"
    "ds_run [(env, TakeCtrl), (env, Deliver FromDownstream ?h False), (env, TakeJob)] (newActiveStream 0 0) = Some (Inr s1)"
    by blast
  from request_chunk [OF rt(1) s1(1), of ?bs True] s1(2) obtain s where s: "under_way s" "no_retry s"
    "recvDone s" "requestSent s" "sent s = sent s1 @ [UpData ?bs True]"
    "ds_run [(env, DeliverData FromDownstream ?bs True), (env, TakeJob)] s1 = Some (Inr s)" unfolding no_retry_def by metis
  let ?D = "with_stream (server_stream new ?i (StreamIDConv (rq_ReqID c))) (CallNewStream ?i # message (new ?i) ?h ?bs) down"
  let ?inps = "request_inputs ?h ?bs"
  have "map (\<lambda>inp. (env, inp)) ?inps = [(env, TakeCtrl), (env, Deliver FromDownstream ?h False), (env, TakeJob)] @
      [(env, DeliverData FromDownstream ?bs True), (env, TakeJob)]" by (simp add: request_inputs_def)
  then have run: "ds_run (map (\<lambda>inp. (env, inp)) ?inps) (newActiveStream 0 0) = Some (Inr s)"
    by (simp only: ds_run_append s1(4) s(6) option.case sum.case)
  let ?P = "(fresh_proxied down up g)\<lparr>px_gen := g + 1, px_down := ?D\<rparr>"
  from request_performed [OF assms(1,3), of "g + 1" d "?P\<lparr>px_stream := s\<rparr>"] obtain e where
    e: "contents e @ ?bs = bolt_frame (ReqV1 (relayed_req ord kvs (g + 1) c))"
    "perform_all ord ?i d [UpHeaders ?h False, UpData ?bs True] (?P\<lparr>px_stream := s\<rparr>) =
      Inr (?P\<lparr>px_stream := s, px_up := flushed (length (streams up)) e ?bs
      (with_stream (client_stream ?i d) [] up), px_request := length (streams up)\<rparr>)"
    by (auto simp: fresh_proxied_def)
  have st: "px_stream ?P = newActiveStream 0 0" "sent (newActiveStream 0 0) = []"
    by (simp_all add: fresh_proxied_def newActiveStream_def)
  have "drive env ord ?i d ?inps ?P = Some (perform_all ord ?i d [UpHeaders ?h False, UpData ?bs True] (?P\<lparr>px_stream := s\<rparr>))"
    by (rule drive_run) (simp_all only: st run s(5) s1(3) append.simps)
  moreover have "client_bytes env ord ?i d pools clk b (fresh_proxied down up g) = drive env ord ?i d ?inps ?P"
    unfolding client_bytes_def using disp by (simp add: fresh_proxied_def with_stream_def message_def request_inputs_def)
  ultimately show ?thesis using s(1-4) e run s(5) s1(3)
    by (intro exI [of _ s] exI [of _ e]) (simp add: fresh_proxied_def del: ds_run.simps)
qed


lemma perform_all_append:
  "perform_all ord i d (xs @ ys) P = obind (perform_all ord i d xs P) (perform_all ord i d ys)"
  by (induction xs arbitrary: P) (auto simp: obind_assoc intro!: obind_cong)

lemma perform_clean_acts: "perform_all ord i d (clean_acts 0 0) P = Inr P"
  by (simp add: clean_acts_def)

text \<open>A server stream that has not answered yet, and a proxied stream that waits for its response.\<close>

definition open_sender :: "32 word \<Rightarrow> 32 word \<Rightarrow> nat \<Rightarrow> 'd streamConnection \<Rightarrow> bool" where
  "open_sender n rid p c \<longleftrightarrow> p < length (streams c) \<and> activeStreams c (StreamIDConv n) \<noteq> None \<and>
     stream_direction (streams c ! p) = ServerStream \<and> streamID (streams c ! p) = StreamIDConv n \<and>
     requestID (streams c ! p) = StreamIDConv rid"

definition awaiting :: "32 word \<Rightarrow> 32 word \<Rightarrow> 'd proxied \<Rightarrow> bool" where
  "awaiting n rid P \<longleftrightarrow>
     under_way (px_stream P) \<and> no_retry (px_stream P) \<and> recvDone (px_stream P) \<and> requestSent (px_stream P) \<and>
     open_sender n rid (px_sender P) (px_down P) \<and>
     (\<exists>s. activeStreams (px_up P) (StreamIDConv n) = Some s \<and> stream_direction s = ClientStream \<and> streamID s = StreamIDConv n)"

lemma response_performed:
  assumes "relayable_resp r kvs" and "iter_order ord" and "unat now < 2 ^ 63" and "open_sender n rid (px_sender P) (px_down P)"
  shows "\<exists>e. contents e @ bs_vis (rs_Content r) = bolt_frame (RespV1 (relayed_resp ord kvs rid r)) \<and>
    perform_all ord i d [DownHeaders (Some (RMap (outbound r now kvs))) False, DownData (bs_vis (rs_Content r)) True] P =
    Inr (P\<lparr>px_down := flushed (px_sender P) e (bs_vis (rs_Content r)) (px_down P)\<rparr>)"
proof -
  let ?s = "streams (px_down P) ! px_sender P" and ?c = "r\<lparr>rs_ResponseTimeMillis := now, rs_ReqID := rid\<rparr>"
  from assms(1) have r: "v1_cmd (RespV1 r)" "resp_fits r" "headers_of (rs_HeaderMap r) kvs" "fresh_keys (map_of kvs)"
    "proxy_keys (map_of kvs)" by (simp_all add: relayable_resp_def user_headers_def)
  from assms(4) have P: "px_sender P < length (streams (px_down P))" "activeStreams (px_down P) (streamID ?s) \<noteq> None"
    "stream_direction ?s = ServerStream" "requestID ?s = StreamIDConv rid" by (auto simp: open_sender_def)
  from encode_response [OF r(1,2) assms(3) r(3,4) assms(2), of None rid] obtain e where
    e: "protocols_EncodeHeaders defaultProtocols ord None (HdrMap (resp_fields ?c (resp_class r) ++ map_of kvs)) =
      Inr (HdrMap (map_of kvs), Inr e)"
    "contents e @ bs_vis (rs_Content r) = bolt_frame (RespV1 (relayed_resp ord kvs rid r))"
    by (auto simp: pool_clean_def)
  note app = AppendHeaders_ok [OF server_sterilize [OF P(3,4) r(4,5)] e(1)]
  show ?thesis using e(2) by (intro exI [of _ e]) (simp add: hdrs_of_def app AppendData_flushes [OF P(1,2)])
qed

lemma upstream_response:
  assumes "relayable_resp r kvs" and "unfiltered env" and "iter_order ord" and "clean_maps pools" and "unat (clk 0) < 2 ^ 63"
    and "rs_ReqID r = n" and "awaiting n rid P" and "iob_wf b" and "contents b = bolt_frame (RespV1 r)"
  shows "\<exists>s e u xs. contents e @ bs_vis (rs_Content r) = bolt_frame (RespV1 (relayed_resp ord kvs rid r)) \<and>
    sent s = xs @ clean_acts 0 0 \<and> activeStreams u = (activeStreams (px_up P))(StreamIDConv n := None) \<and>
    upstream_bytes env ord i d pools clk b P = Some (Inr
      (P\<lparr>px_up := u, px_stream := s, px_down := flushed (px_sender P) e (bs_vis (rs_Content r)) (px_down P)\<rparr>))"
proof -
  let ?h = "outbound r (clk 0) kvs" and ?bs = "bs_vis (rs_Content r)" and ?i = "StreamIDConv n"
  from assms(1) have r: "rs_Protocol r = PROTOCOL_CODE_V1" "rs_CmdType r = RESPONSE" "rs_CmdCode r = RPC_RESPONSE"
    "user_headers (rs_HeaderMap r) kvs" "?bs \<noteq> []" "v1_cmd (RespV1 r)"
    by (simp_all add: relayable_resp_def resp_fits_def resp_ok_def)
  from assms(7) obtain t where t: "activeStreams (px_up P) ?i = Some t" "stream_direction t = ClientStream" "streamID t = ?i"
    and way: "under_way (px_stream P)" "no_retry (px_stream P)" "recvDone (px_stream P)" "requestSent (px_stream P)"
    by (auto simp: awaiting_def)
  have "sendable (RespV1 r)" using r(3,4,6) by (auto simp: sendable_def user_headers_def)
  from Dispatch_frame [OF this assms(4,8,9) response_received [OF r(1-5) assms(4) t [folded assms(6)]]] obtain b' where
    disp: "Dispatch pools clk b (px_gen P, Inr (px_up P)) = Some (Inr (b', px_gen P, Inr (Remove ?i
      ((px_up P)\<lparr>calls := calls (px_up P) @ message (decoder t) ?h ?bs\<rparr>))))" using assms(6) by blast
  from response_head [OF assms(2) way(1,2), of ?h] way(3,4) obtain s1 where s1: "under_way s1" "recvDone s1" "requestSent s1"
    "sent s1 = sent (px_stream P) @ [DownHeaders (Some (RMap ?h)) False]"
    "ds_run [(env, Deliver FromUpstream ?h False), (env, TakeJob)] (px_stream P) = Some (Inr s1)" by metis
  from response_end [OF assms(2) s1(1-3), of ?bs] obtain s where s: "sent s = sent s1 @ DownData ?bs True # clean_acts 0 0"
    "ds_run [(env, DeliverData FromUpstream ?bs True), (env, TakeJob)] s1 = Some (Inr s)" by blast
  let ?inps = "concat (map (inputs_of FromUpstream) (message (decoder t) ?h ?bs))"
  let ?u = "Remove ?i ((px_up P)\<lparr>calls := calls (px_up P) @ message (decoder t) ?h ?bs\<rparr>)" and ?as = "clean_acts 0 0"
  have "map (\<lambda>inp. (env, inp)) ?inps = [(env, Deliver FromUpstream ?h False), (env, TakeJob)] @
      [(env, DeliverData FromUpstream ?bs True), (env, TakeJob)]" by (simp add: message_def)
  then have run: "ds_run (map (\<lambda>inp. (env, inp)) ?inps) (px_stream P) = Some (Inr s)"
    by (simp only: ds_run_append s1(5) s(2) option.case sum.case)
  let ?P = "P\<lparr>px_up := ?u, px_stream := s\<rparr>"
  have "open_sender n rid (px_sender ?P) (px_down ?P)" using assms(7) by (simp add: awaiting_def)
  from response_performed [OF assms(1,3,5) this, of i d] obtain e where
    e: "contents e @ ?bs = bolt_frame (RespV1 (relayed_resp ord kvs rid r))"
    "perform_all ord i d [DownHeaders (Some (RMap ?h)) False, DownData ?bs True] ?P =
      Inr (?P\<lparr>px_down := flushed (px_sender P) e ?bs (px_down P)\<rparr>)" by auto
  have "drive env ord i d ?inps (P\<lparr>px_up := ?u\<rparr>) =
    Some (perform_all ord i d ([DownHeaders (Some (RMap ?h)) False, DownData ?bs True] @ clean_acts 0 0) (P\<lparr>px_up := ?u, px_stream := s\<rparr>))"
    by (rule drive_run) (simp_all add: run s(1) s1(4) del: ds_run.simps map_concat)
  also have "\<dots> = Some (Inr (?P\<lparr>px_down := flushed (px_sender P) e ?bs (px_down P)\<rparr>))"
    by (simp only: perform_all_append e(2) obind_Inr perform_clean_acts)
  finally have "drive env ord i d ?inps (P\<lparr>px_up := ?u\<rparr>) = Some (Inr (?P\<lparr>px_down := flushed (px_sender P) e ?bs (px_down P)\<rparr>))" .
  moreover have "upstream_bytes env ord i d pools clk b P = drive env ord i d ?inps (P\<lparr>px_up := ?u\<rparr>)"
    unfolding upstream_bytes_def using disp by simp
  ultimately show ?thesis using e(1) s(1) s1(4)
    by (intro exI [of _ s] exI [of _ e] exI [of _ ?u] exI [of _ "sent s1 @ [DownData ?bs True]"]) simp
qed


section \<open>A request that times out\<close>

text \<open>
  The header map has lost its properties when the request is sent on, so no answer can be made
  of it and it cannot be encoded either.
\<close>

lemma timeout_sterilized:
  assumes "stream_direction s = ServerStream" and "fresh_keys m" and "proxy_keys m"
  shows "encodeSterilize s (HdrMap (m(HeaderStatus \<mapsto> FormatUint TimeoutExceptionCode))) =
    (HdrMap (m(HeaderReqID \<mapsto> requestID s)), HdrMap (m(HeaderReqID \<mapsto> requestID s)))"
proof -
  let ?m = "m(HeaderReqID \<mapsto> requestID s)"
  have ne: "HeaderReqID \<noteq> HeaderStatus" "HeaderProtocolCode \<noteq> HeaderReqID" by (simp_all add: header_names proxy_names)
  have none: "?m HeaderStreamID = None" "?m HeaderGlobalTimeout = None" "?m HeaderTryTimeout = None" "?m HeaderStremEnd = None"
    "?m HeaderStatus = None"
    using assms(3) by (simp_all add: proxy_keys_def header_names proxy_names)
  have "HeaderStatus \<noteq> HeaderStreamID" "HeaderStatus \<noteq> HeaderGlobalTimeout" "HeaderStatus \<noteq> HeaderTryTimeout"
    "HeaderStatus \<noteq> HeaderStremEnd" by (simp_all add: proxy_names)
  then have "remove_proxy_headers (?m(HeaderStatus \<mapsto> v)) = ?m(HeaderStatus \<mapsto> v)" for v
    using none by (intro remove_proxy_headers_none) simp_all
  moreover have "(m(HeaderStatus \<mapsto> v))(HeaderReqID \<mapsto> requestID s) = ?m(HeaderStatus \<mapsto> v)" for v
    using ne(1) by (simp add: fun_upd_twist)
  moreover have "?m(HeaderStatus := None) = ?m" using none(5) by (simp add: fun_upd_idem)
  moreover have "Atoi (FormatUint TimeoutExceptionCode) = 504"
    unfolding Atoi_def TimeoutExceptionCode_def by (subst ParseInt_FormatUint) simp_all
  moreover have "m HeaderProtocolCode = None" by (rule fresh_at [OF assms(2)]) simp
  then have "BuildSofaRespMsg ?m st = (HdrMap ?m, Some UnSupportedProCode)" for st
    using ne(2) by (simp add: BuildSofaRespMsg_def atoi_at_def SofaPropertyHeader_def bolt_consts)
  ultimately show ?thesis using assms(1)
    by (simp add: encodeSterilize_def SofaPropertyHeader_def Let_def)
qed

lemma timeout_not_encoded:
  assumes "fresh_keys m"
  shows "protocols_EncodeHeaders defaultProtocols ord pooled (HdrMap (m(HeaderReqID \<mapsto> r))) =
    Inr (HdrMap (m(HeaderReqID \<mapsto> r)), Inl NoProCodeInHeader)"
proof -
  have "HeaderProtocolCode \<noteq> HeaderReqID" by (simp add: header_names)
  moreover have "m HeaderProtocolCode = None" by (rule fresh_at [OF assms]) simp
  ultimately show ?thesis by (simp add: protocols_EncodeHeaders_def SofaPropertyHeader_def)
qed

definition unanswered :: "smap \<Rightarrow> downStream \<Rightarrow> bool" where
  "unanswered m s \<longleftrightarrow> under_way s \<and> no_retry s \<and> reqHeaders s = Some m \<and> \<not> upstreamReset s \<and> \<not> responseStarted s"

lemma head_unanswered:
  assumes "unfiltered env" and "e_route env h = Some rt" and "e_cluster env (rr_ClusterName rt) = Some c"
    and "e_pool env (rr_ClusterName rt)" and "e_newStream env = None" and "\<not> rr_RetryOn rt"
    and "ds_run [(env, TakeCtrl), (env, Deliver FromDownstream h False), (env, TakeJob)] (newActiveStream 0 0) = Some (Inr s)"
  shows "unanswered (e_sent env h) s" "ds_timeout s = Some (parseProxyTimeout (rr_GlobalTimeout rt) (rr_TryTimeout rt) h)"
  using assms
  by (auto simp: unanswered_def under_way_def no_retry_def loop_defs receive_defs unfiltered_append Let_def newActiveStream_def
      request_headers_def new_request_def newRetryState_def)

lemma end_unanswered:
  assumes "unfiltered env" and "unanswered m s" and "ds_timeout s = Some t" and "GlobalTimeout t > 0"
    and "ds_run [(env, DeliverData FromDownstream bs True), (env, TakeJob)] s = Some (Inr s')"
  shows "unanswered m s' \<and> responseTimer s' \<noteq> None \<and> recvDone s'"
  using assms
  by (cases "TryTimeout t > 0";
      auto simp: unanswered_def under_way_def no_retry_def loop_defs receive_defs unfiltered_append Let_def)

lemma cleanUp_keeps_more [simp]:
  "reqHeaders (cleanUp s) = reqHeaders s" "responseStarted (cleanUp s) = responseStarted s"
  by (simp_all add: cleanUp_def ds_retry_reset_def Let_def split: option.splits prod.splits)

lemma timeout_reply:
  assumes "unfiltered env" and "unanswered m s" and "responseTimer s \<noteq> None" and "recvDone s"
  shows "\<exists>s'. ds_run [(env, GlobalTimer)] s = Some (Inr s') \<and>
    sent s' = sent s @ [UpReset, DownHeaders (Some (RMap (m(HeaderStatus \<mapsto> FormatUint TimeoutExceptionCode)))) True] @
      clean_acts 0 0"
proof -
  let ?s = "(up_resetStream (s\<lparr>responseTimer := None\<rparr>))\<lparr>upstreamReset := True\<rparr>"
  let ?c = "SetResponseFlag UpstreamRequestTimeout (cleanUp ?s)"
  obtain r where r: "upstreamReq s = Some r" "requestSender r" using assms(2) by (auto simp: unanswered_def under_way_def)
  have s: "sent ?s = sent s @ [UpReset]" "recvDone ?s" "reqHeaders ?s = Some m" "\<not> responseStarted ?s" "\<not> cleaned ?s"
    "senderFlags ?s = []" "receiverFlags ?s = []" "upstreamReq ?s = Some r"
    using r assms by (auto simp: up_resetStream_def emit_def unanswered_def under_way_def)
  have "ds_input env GlobalTimer s = Some (Inr (sendHijackReply env TimeoutExceptionCode ?c))"
    using assms(2,3) s(4) r by (auto simp: ds_input_def onResponseTimeout_def onUpstreamReset_def unanswered_def no_retry_def
      up_resetStream_def emit_def Let_def)
  moreover have "sent (sendHijackReply env TimeoutExceptionCode ?c) = sent s @
    [UpReset, DownHeaders (Some (RMap (m(HeaderStatus \<mapsto> FormatUint TimeoutExceptionCode)))) True] @ clean_acts 0 0"
    using s by (simp add: sendHijackReply_def SetResponseFlag_def appendHeaders_def unfiltered_append [OF assms(1)] emit_def
      endStream_def cleanStream_def up_resetStream_def offer_def Let_def)
  ultimately show ?thesis by simp
qed


section \<open>Properties\<close>

lemma server_stream_simps [simp]:
  "streamID (server_stream new i r) = i" "stream_direction (server_stream new i r) = ServerStream"
  "requestID (server_stream new i r) = r"
  by (simp_all add: server_stream_def)

lemma flushed_simps [simp]:
  "calls (flushed p b bs c) = calls c @ [Write (streamID (streams c ! p)) (contents b @ bs)]"
  "activeStreams (flushed p b bs c) = (if stream_direction (streams c ! p) = ServerStream
     then (activeStreams c)(streamID (streams c ! p) := None) else activeStreams c)"
  by (simp_all add: flushed_def Let_def)

lemma with_stream_simps [simp]:
  "calls (with_stream s cs c) = calls c @ cs" "streams (with_stream s cs c) = streams c @ [s]"
  "activeStreams (with_stream s cs c) = (activeStreams c)(streamID s \<mapsto> s)"
  by (simp_all add: with_stream_def)

lemma writes_message [simp]: "filter (writes_to j) (message d h bs) = []"
  by (simp add: message_def)

text \<open>The requests and the routes the properties speak of.\<close>

definition request_arrives ::
  "BoltRequestCommand \<Rightarrow> (string \<times> string) list \<Rightarrow> stream_env \<Rightarrow> smap option \<times> smap option \<Rightarrow> iobuffer \<Rightarrow> IDGenerator \<Rightarrow>
     'd streamConnection \<Rightarrow> bool" where
  "request_arrives c kvs env pools b g down \<longleftrightarrow>
     relayable_req c kvs \<and> routed env (inbound c (g + 1) kvs) \<and> clean_maps pools \<and> iob_wf b \<and> contents b = bolt_frame (ReqV1 c) \<and>
     serverCallbacks down \<noteq> None \<and> activeStreams down (StreamIDConv (g + 1)) = None"

lemma request_relayed:
  assumes "request_arrives c kvs env pools b g down" and "iter_order ord"
  shows "\<exists>P. client_bytes env ord (StreamIDConv (g + 1)) d pools clk b (fresh_proxied down up g) = Some (Inr P) \<and>
    awaiting (g + 1) (rq_ReqID c) P \<and>
    calls (px_up P) = calls up @ [Write (StreamIDConv (g + 1)) (bolt_frame (ReqV1 (relayed_req ord kvs (g + 1) c)))] \<and>
    written j (px_down P) = written j down \<and>
    ds_run (map (\<lambda>inp. (env, inp)) (request_inputs (inbound c (g + 1) kvs) (bs_vis (rq_Content c)))) (newActiveStream 0 0) =
      Some (Inr (px_stream P))"
proof -
  from assms(1) obtain new where a: "relayable_req c kvs" "routed env (inbound c (g + 1) kvs)" "clean_maps pools"
    "serverCallbacks down = Some new" "activeStreams down (StreamIDConv (g + 1)) = None" "iob_wf b"
    "contents b = bolt_frame (ReqV1 c)" by (auto simp: request_arrives_def)
  from client_request [OF a(1,2) assms(2) a(3-7), of d clk up] obtain s e where
    s: "under_way s" "no_retry s" "recvDone s" "requestSent s"
    "ds_run (map (\<lambda>inp. (env, inp)) (request_inputs (inbound c (g + 1) kvs) (bs_vis (rq_Content c)))) (newActiveStream 0 0) = Some (Inr s)"
    "contents e @ bs_vis (rq_Content c) = bolt_frame (ReqV1 (relayed_req ord kvs (g + 1) c))"
    and run: "client_bytes env ord (StreamIDConv (g + 1)) d pools clk b (fresh_proxied down up g) = Some (Inr
      \<lparr>px_gen = g + 1,
       px_down = with_stream (server_stream new (StreamIDConv (g + 1)) (StreamIDConv (rq_ReqID c)))
         (CallNewStream (StreamIDConv (g + 1)) #
            message (new (StreamIDConv (g + 1))) (inbound c (g + 1) kvs) (bs_vis (rq_Content c))) down,
       px_up = flushed (length (streams up)) e (bs_vis (rq_Content c)) (with_stream (client_stream (StreamIDConv (g + 1)) d) [] up),
       px_stream = s, px_sender = length (streams down), px_request = length (streams up)\<rparr>)" by blast
  show ?thesis unfolding run using s
    by (auto simp: awaiting_def open_sender_def written_def simp del: ds_run.simps)
qed

text \<open>
  C1 (roundtrip). Bytes in, bytes out. A Bolt v1 request with content arrives on a client
  connection, no filter is configured, its route leads to a cluster with a pool and does not
  retry, and the stream id made for it is not in use. Then one frame is written upstream: the
  request with that stream id as its request id, with the same protocol, type, code, version,
  codec, timeout, class and content and with header bytes that list the same headers. When
  a response with this id arrives upstream, one frame is written to the client: the response
  with the request id of the client's request, equal in all else up to the order of its
  headers. Then the proxied stream has been cleaned and neither connection knows the stream.
\<close>

theorem exchange_relayed:
  assumes "request_arrives c kvs env pools b g down" and "iter_order ord"
    and "relayable_resp r kvs'" and "rs_ReqID r = g + 1" and "unat (clk 0) < 2 ^ 63"
    and "iob_wf b'" and "contents b' = bolt_frame (RespV1 r)"
  shows "\<exists>P P' xs. client_bytes env ord (StreamIDConv (g + 1)) d pools clk b (fresh_proxied down up g) = Some (Inr P) \<and>
    upstream_bytes env ord (StreamIDConv (g + 1)) d pools clk b' P = Some (Inr P') \<and>
    calls (px_up P) = calls up @ [Write (StreamIDConv (g + 1)) (bolt_frame (ReqV1 (relayed_req ord kvs (g + 1) c)))] \<and>
    headers_of (rq_HeaderMap (relayed_req ord kvs (g + 1) c)) (ord (map_of kvs)) \<and> map_of (ord (map_of kvs)) = map_of kvs \<and>
    calls (px_down P') = calls (px_down P) @ [Write (StreamIDConv (g + 1)) (bolt_frame (RespV1 (relayed_resp ord kvs' (rq_ReqID c) r)))] \<and>
    headers_of (rs_HeaderMap (relayed_resp ord kvs' (rq_ReqID c) r)) (ord (map_of kvs')) \<and> map_of (ord (map_of kvs')) = map_of kvs' \<and>
    sent (px_stream P') = xs @ clean_acts 0 0 \<and>
    activeStreams (px_down P') (StreamIDConv (g + 1)) = None \<and> activeStreams (px_up P') (StreamIDConv (g + 1)) = None"
proof -
  let ?i = "StreamIDConv (g + 1)"
  from request_relayed [OF assms(1,2), of d clk up] obtain P where P: "client_bytes env ord ?i d pools clk b (fresh_proxied down up g) = Some (Inr P)"
    "awaiting (g + 1) (rq_ReqID c) P"
    "calls (px_up P) = calls up @ [Write ?i (bolt_frame (ReqV1 (relayed_req ord kvs (g + 1) c)))]" by blast
  have a: "unfiltered env" "clean_maps pools" "headers_of (rq_HeaderMap c) kvs" "headers_of (rs_HeaderMap r) kvs'"
    using assms(1,3) by (simp_all add: request_arrives_def routed_def relayable_req_def relayable_resp_def user_headers_def)
  from upstream_response [where clk = clk, OF assms(3) a(1) assms(2) a(2) assms(5,4) P(2) assms(6,7), of ?i d] obtain s e u xs where
    R: "contents e @ bs_vis (rs_Content r) = bolt_frame (RespV1 (relayed_resp ord kvs' (rq_ReqID c) r))"
    "sent s = xs @ clean_acts 0 0" "activeStreams u = (activeStreams (px_up P))(?i := None)"
    "upstream_bytes env ord ?i d pools clk b' P = Some (Inr
      (P\<lparr>px_up := u, px_stream := s, px_down := flushed (px_sender P) e (bs_vis (rs_Content r)) (px_down P)\<rparr>))" by blast
  let ?P' = "P\<lparr>px_up := u, px_stream := s, px_down := flushed (px_sender P) e (bs_vis (rs_Content r)) (px_down P)\<rparr>"
  have "streamID (streams (px_down P) ! px_sender P) = ?i" "stream_direction (streams (px_down P) ! px_sender P) = ServerStream"
    using P(2) by (simp_all add: awaiting_def open_sender_def)
  then have "calls (px_down ?P') = calls (px_down P) @ [Write ?i (bolt_frame (RespV1 (relayed_resp ord kvs' (rq_ReqID c) r)))]"
    "sent (px_stream ?P') = xs @ clean_acts 0 0" "activeStreams (px_down ?P') ?i = None" "activeStreams (px_up ?P') ?i = None"
    using R(1-3) by (simp_all del: bolt_frame.simps)
  moreover have "headers_of (rq_HeaderMap (relayed_req ord kvs (g + 1) c)) (ord (map_of kvs))"
    "headers_of (rs_HeaderMap (relayed_resp ord kvs' (rq_ReqID c) r)) (ord (map_of kvs'))"
    using relayed_headers(2) [OF a(3) assms(2)] relayed_headers(2) [OF a(4) assms(2)] by (simp_all add: relayed_req_def relayed_resp_def)
  ultimately show ?thesis using P(1,3) R(4) relayed_headers(3) [OF a(3) assms(2)] relayed_headers(3) [OF a(4) assms(2)] by blast
qed


definition relay_request :: BoltRequestCommand where
  "relay_request = sample_req\<lparr>rq_HeaderLen := word_of_nat (length (entry_bytes (''service'', ''a''))),
     rq_HeaderMap := B (entry_bytes (''service'', ''a'')) []\<rparr>"

definition relay_response :: BoltResponseCommand where
  "relay_response = \<lparr>rs_Protocol = 1, rs_CmdType = RESPONSE, rs_CmdCode = RPC_RESPONSE, rs_Version = 1, rs_ReqID = 42, rs_CodecPro = 1,
     rs_ResponseStatus = 0, rs_ClassLen = 0, rs_HeaderLen = 0, rs_ContentLen = 2, rs_ClassName = NilB, rs_HeaderMap = NilB,
     rs_Content = B [5, 6] [], rs_ResponseTimeMillis = 0, rs_ResponseHeader = None\<rparr>"

lemma relay_samples:
  "relayable_req relay_request [(''service'', ''a'')]" "relayable_resp relay_response []" "rq_ReqID relay_request = 7"
  by (simp_all add: relayable_req_def relay_request_def sample_req_def req_ok_def lens_ok_def bolt_consts req_fits_def user_headers_def
      headers_of_def small_entry_def entry_bytes_def fresh_keys_def proxy_keys_def header_names proxy_names
      relayable_resp_def relay_response_def resp_ok_def resp_fits_def)

lemma relay_routed: "routed sample_env (inbound relay_request n [(''service'', ''a'')])"
  by (simp add: routed_def sample_env_def unfiltered_def inbound_def proxy_names)

definition client_side :: "nat streamConnection" where
  "client_side = newStreamConnection (Some (\<lambda>_. 0))"

lemma relay_arrives:
  "request_arrives relay_request [(''service'', ''a'')] sample_env (None, None) (NewIoBufferBytes (bolt_frame (ReqV1 relay_request))) 41 client_side"
  using relay_samples(1) relay_routed
  by (simp add: request_arrives_def clean_maps_def GetMap_def client_side_def newStreamConnection_def)

theorem exchange_relayed_witness:
  "\<exists>P P'. client_bytes sample_env sorted_order (StreamIDConv 42) 1 (None, None) (\<lambda>_. 0)
      (NewIoBufferBytes (bolt_frame (ReqV1 relay_request))) (fresh_proxied client_side (newStreamConnection None) 41) = Some (Inr P) \<and>
    upstream_bytes sample_env sorted_order (StreamIDConv 42) 1 (None, None) (\<lambda>_. 0)
      (NewIoBufferBytes (bolt_frame (RespV1 relay_response))) P = Some (Inr P') \<and>
    calls (px_down P') = calls (px_down P) @ [Write (StreamIDConv 42) (bolt_frame (RespV1 (relayed_resp sorted_order [] 7 relay_response)))]"
proof -
  have "rs_ReqID relay_response = 41 + 1" by (simp add: relay_response_def)
  from exchange_relayed [OF relay_arrives iter_order_sorted relay_samples(2) this, of "\<lambda>_. 0"
      "NewIoBufferBytes (bolt_frame (RespV1 relay_response))" 1 "newStreamConnection None"] relay_samples(3)
  show ?thesis by fastforce
qed

lemma timed_out_state:
  assumes "request_arrives c kvs env pools b g down" and "e_route env (inbound c (g + 1) kvs) = Some rt"
    and "GlobalTimeout (parseProxyTimeout (rr_GlobalTimeout rt) (rr_TryTimeout rt) (inbound c (g + 1) kvs)) > 0"
    and "ds_run (map (\<lambda>inp. (env, inp)) (request_inputs (inbound c (g + 1) kvs) bs)) (newActiveStream 0 0) = Some (Inr s)"
  shows "unfiltered env" "unanswered (e_sent env (inbound c (g + 1) kvs)) s" "responseTimer s \<noteq> None" "recvDone s"
proof -
  let ?h = "inbound c (g + 1) kvs"
  from assms(1,2) obtain cl where rt: "unfiltered env" "e_route env ?h = Some rt" "e_cluster env (rr_ClusterName rt) = Some cl"
    "e_pool env (rr_ClusterName rt)" "e_newStream env = None" "\<not> rr_RetryOn rt" by (auto simp: request_arrives_def routed_def)
  let ?head = "[(env, TakeCtrl), (env, Deliver FromDownstream ?h False), (env, TakeJob)]"
    and ?rest = "[(env, DeliverData FromDownstream bs True), (env, TakeJob)]"
  from request_head [OF rt] obtain s1 where s1: "ds_run ?head (newActiveStream 0 0) = Some (Inr s1)" by blast
  have "map (\<lambda>inp. (env, inp)) (request_inputs ?h bs) = ?head @ ?rest" by (simp add: request_inputs_def)
  with assms(4) have "ds_run ?rest s1 = Some (Inr s)" by (simp only: ds_run_append s1 option.case sum.case)
  from end_unanswered [OF rt(1) head_unanswered [OF rt s1] assms(3) this] rt(1)
  show "unfiltered env" "unanswered (e_sent env ?h) s" "responseTimer s \<noteq> None" "recvDone s" by auto
qed

lemma AppendHeaders_fails:
  assumes "encodeSterilize (streams c ! p) h = (h1, h2)"
    and "protocols_EncodeHeaders defaultProtocols ord pooled h2 = Inr (h3, Inl err)"
  shows "stream_AppendHeaders ord pooled p h e c =
    Inr (set_stream p (\<lambda>s. s\<lparr>encodedHeaders := None\<rparr>) c, if h2 = h1 then h3 else h1, Some err)"
  using assms by (simp add: stream_AppendHeaders_def Let_def)

definition sent_env :: stream_env where
  "sent_env = sample_env\<lparr>e_sent := (\<lambda>_. [''service'' \<mapsto> ''a''])\<rparr>"

lemma sent_arrives:
  "request_arrives relay_request [(''service'', ''a'')] sent_env (None, None) (NewIoBufferBytes (bolt_frame (ReqV1 relay_request))) 41 client_side"
  using relay_arrives by (simp add: request_arrives_def routed_def unfiltered_def sent_env_def)

lemma sent_route:
  "e_route sent_env (inbound relay_request (41 + 1) [(''service'', ''a'')]) =
     Some \<lparr>rr_ClusterName = ''c'', rr_GlobalTimeout = 60000000000, rr_TryTimeout = 0, rr_RetryOn = False, rr_NumRetries = 0\<rparr>"
  "GlobalTimeout (parseProxyTimeout
     (rr_GlobalTimeout \<lparr>rr_ClusterName = ''c'', rr_GlobalTimeout = 60000000000, rr_TryTimeout = 0, rr_RetryOn = False, rr_NumRetries = 0\<rparr>)
     (rr_TryTimeout \<lparr>rr_ClusterName = ''c'', rr_GlobalTimeout = 60000000000, rr_TryTimeout = 0, rr_RetryOn = False, rr_NumRetries = 0\<rparr>)
     (inbound relay_request (41 + 1) [(''service'', ''a'')])) > 0"
  by (simp_all add: sent_env_def sample_env_def inbound_def proxy_names parseProxyTimeout_def Let_def req_fields_def header_names map_add_def)



end
