(* ===== verification/Basic_Router.thy ===== *)
theory Basic_Router
  imports Mosn_Prelude
begin

text \<open>
  Routing by service name: \<open>pkg/router/basic/router.go\<close>, the manager of all router sets in
  \<open>pkg/router/routersmanager.go\<close> and the factories of \<open>pkg/router/factory.go\<close>. A router set
  holds its mutex as a pointer, which may be nil.
\<close>

section \<open>Routers\<close>

record routerPolicy =
  bp_retryOn :: bool
  bp_retryTimeout :: int
  bp_numRetries :: "32 word"

record basicRouter =
  br_name :: string
  br_service :: string
  br_cluster :: string
  br_globalTimeout :: int
  br_policy :: routerPolicy

record basic_route_config =
  bc_Name :: string
  bc_Service :: string
  bc_Cluster :: string
  bc_GlobalTimeout :: int
  bc_RetryPolicy :: "routerPolicy option"

record Routers =
  rMutex :: bool
  routers :: "basicRouter list"

definition no_retry :: routerPolicy where
  "no_retry = \<lparr>bp_retryOn = False, bp_retryTimeout = 0, bp_numRetries = 0\<rparr>"

definition new_basicRouter :: "basic_route_config \<Rightarrow> basicRouter" where
  "new_basicRouter r =
     \<lparr>br_name = bc_Name r, br_service = bc_Service r, br_cluster = bc_Cluster r, br_globalTimeout = bc_GlobalTimeout r,
      br_policy = (case bc_RetryPolicy r of Some p \<Rightarrow> p | None \<Rightarrow> no_retry)\<rparr>"

text \<open>The mutex is left nil.\<close>

definition NewRouters :: "basic_route_config list \<Rightarrow> Routers" where
  "NewRouters rs = \<lparr>rMutex = False, routers = map new_basicRouter rs\<rparr>"

definition basic_Match :: "(string \<rightharpoonup> string) option \<Rightarrow> basicRouter \<Rightarrow> bool" where
  "basic_Match headers srr =
     (case headers of
        None \<Rightarrow> False
      | Some h \<Rightarrow>
          (case (case h ''Service'' of Some s \<Rightarrow> Some s | None \<Rightarrow> h ''service'') of
             None \<Rightarrow> False
           | Some service \<Rightarrow> br_service srr = service))"

definition basic_Route :: "(string \<rightharpoonup> string) option \<Rightarrow> Routers \<Rightarrow> basicRouter option" where
  "basic_Route headers rc = find (basic_Match headers) (routers rc)"

definition lock :: "Routers \<Rightarrow> unit outcome" where
  "lock rc = (if rMutex rc then Inr () else Inl NilDereference)"

definition default_timeout :: int where "default_timeout = 60000000000"

definition AddRouter :: "string \<Rightarrow> Routers \<Rightarrow> Routers outcome" where
  "AddRouter routerName rc =
     obind (lock rc) (\<lambda>_.
       if list_ex (\<lambda>r. br_name r = routerName) (routers rc) then Inr rc
       else
         (let br = \<lparr>br_name = routerName, br_service = routerName, br_cluster = routerName,
                br_globalTimeout = (case routers rc of r # _ \<Rightarrow> br_globalTimeout r | [] \<Rightarrow> default_timeout),
                br_policy = (case routers rc of r # _ \<Rightarrow> br_policy r | [] \<Rightarrow> no_retry)\<rparr>
          in Inr (rc\<lparr>routers := routers rc @ [br]\<rparr>)))"

fun remove_named :: "string \<Rightarrow> basicRouter list \<Rightarrow> basicRouter list" where
  "remove_named name [] = []"
| "remove_named name (r # rs) = (if br_name r = name then rs else r # remove_named name rs)"

definition DelRouter :: "string \<Rightarrow> Routers \<Rightarrow> Routers outcome" where
  "DelRouter routerName rc =
     obind (lock rc) (\<lambda>_. Inr (rc\<lparr>routers := remove_named routerName (routers rc)\<rparr>))"

section \<open>The routers manager\<close>

record routersManager =
  routersSet :: "Routers list"
  routerNames :: "string list"

fun add_all :: "string list \<Rightarrow> Routers \<Rightarrow> Routers outcome" where
  "add_all [] rc = Inr rc"
| "add_all (n # ns) rc = obind (AddRouter n rc) (add_all ns)"

fun on_all :: "(Routers \<Rightarrow> Routers outcome) \<Rightarrow> Routers list \<Rightarrow> Routers list outcome" where
  "on_all f [] = Inr []"
| "on_all f (r # rs) = obind (f r) (\<lambda>r'. obind (on_all f rs) (\<lambda>rs'. Inr (r' # rs')))"

fun for_names :: "(string \<Rightarrow> Routers \<Rightarrow> Routers outcome) \<Rightarrow> string list \<Rightarrow> Routers list \<Rightarrow> Routers list outcome" where
  "for_names f [] rs = Inr rs"
| "for_names f (n # ns) rs = obind (on_all (f n) rs) (for_names f ns)"

definition AddRoutersSet :: "Routers \<Rightarrow> routersManager \<Rightarrow> routersManager outcome" where
  "AddRoutersSet rc rm =
     obind (add_all (routerNames rm) rc) (\<lambda>rc'. Inr (rm\<lparr>routersSet := routersSet rm @ [rc']\<rparr>))"

fun AddRouterNameInList :: "string list \<Rightarrow> string list \<Rightarrow> string list" where
  "AddRouterNameInList [] known = known"
| "AddRouterNameInList (n # ns) known =
     AddRouterNameInList ns (if n \<in> set known then known else known @ [n])"

fun DeleteRouterNameInList :: "string list \<Rightarrow> string list \<Rightarrow> string list" where
  "DeleteRouterNameInList [] known = known"
| "DeleteRouterNameInList (n # ns) known = DeleteRouterNameInList ns (remove1 n known)"

definition AddRouterInRouters :: "string list \<Rightarrow> routersManager \<Rightarrow> routersManager outcome" where
  "AddRouterInRouters names rm =
     obind (for_names AddRouter names (routersSet rm)) (\<lambda>rs.
       Inr (rm\<lparr>routerNames := AddRouterNameInList names (routerNames rm), routersSet := rs\<rparr>))"

definition RemoveRouterInRouters :: "string list \<Rightarrow> routersManager \<Rightarrow> routersManager outcome" where
  "RemoveRouterInRouters names rm =
     obind (for_names DelRouter names (routersSet rm)) (\<lambda>rs.
       Inr (rm\<lparr>routerNames := DeleteRouterNameInList names (routerNames rm), routersSet := rs\<rparr>))"

section \<open>Factories\<close>

definition RegisterRouterConfigFactory :: "string \<Rightarrow> 'f \<Rightarrow> (string \<rightharpoonup> 'f) \<Rightarrow> (string \<rightharpoonup> 'f)" where
  "RegisterRouterConfigFactory port factory fs = (if fs port = None then fs(port \<mapsto> factory) else fs)"

definition CreateRouteConfig :: "string \<Rightarrow> 'c \<Rightarrow> (string \<rightharpoonup> 'c \<Rightarrow> 'e + 'r) \<Rightarrow> (string + 'e) + 'r" where
  "CreateRouteConfig port config fs =
     (case fs port of
        Some factory \<Rightarrow> (case factory config of Inl e \<Rightarrow> Inl (Inr e) | Inr r \<Rightarrow> Inr r)
      | None \<Rightarrow> Inl (Inl port))"

section \<open>Lemmas\<close>

text \<open>Names stay unique, and a set made by \<open>NewRouters\<close> can neither grow nor shrink.\<close>

lemma AddRouterNameInList_distinct: "distinct known \<Longrightarrow> distinct (AddRouterNameInList ns known)"
  by (induction ns known rule: AddRouterNameInList.induct) auto

lemma set_AddRouterNameInList: "set (AddRouterNameInList ns known) = set known \<union> set ns"
  by (induction ns known rule: AddRouterNameInList.induct) auto

lemma names_added_and_deleted:
  "distinct known \<Longrightarrow> set (DeleteRouterNameInList ns (AddRouterNameInList ns known)) = set known - set ns"
proof -
  have "set (DeleteRouterNameInList ns xs) = set xs - set ns" if "distinct xs" for xs :: "string list"
    using that by (induction ns xs rule: DeleteRouterNameInList.induct) auto
  then show "distinct known \<Longrightarrow> ?thesis"
    by (auto simp: AddRouterNameInList_distinct set_AddRouterNameInList)
qed

lemma dynamic_routes_panic:
  "AddRouter name (NewRouters rs) = Inl NilDereference" "DelRouter name (NewRouters rs) = Inl NilDereference"
  by (simp_all add: AddRouter_def DelRouter_def lock_def NewRouters_def)

end
