(* ===== verification/Filter_Manager.thy ===== *)
theory Filter_Manager
  imports IoBuffer
begin

text \<open>
  The network filters of a connection: \<open>pkg/network/filtermanager.go\<close>. What a filter does to
  the connection is given by functions on the connection's state \<open>'c\<close>; the calls that are made
  on the read filters are kept in the order they are made, each with the place of its filter.
\<close>

datatype FilterStatus = Continue | StopIteration

datatype filter_call = CallNewConnection nat | CallData nat

record 'f activeReadFilter =
  arf_index :: nat
  arf_filter :: 'f
  initialized :: bool

record ('f, 'w, 'h) filterManager =
  upstreamFilters :: "'f activeReadFilter list"
  downstreamFilters :: "'w list"
  fm_host :: "'h option"
  filter_calls :: "filter_call list"

record ('f, 'c) ReadFilter =
  InitializeReadFilterCallbacks :: "'f \<Rightarrow> 'c \<Rightarrow> 'c"
  OnNewConnection :: "'f \<Rightarrow> 'c \<Rightarrow> ('c \<times> FilterStatus) outcome"
  OnData :: "'f \<Rightarrow> 'c \<Rightarrow> ('c \<times> FilterStatus) outcome"

section \<open>Operations\<close>

definition newFilterManager :: "('f, 'w, 'h) filterManager" where
  "newFilterManager = \<lparr>upstreamFilters = [], downstreamFilters = [], fm_host = None, filter_calls = []\<rparr>"

definition AddReadFilter ::
  "('f, 'c) ReadFilter \<Rightarrow> 'f \<Rightarrow> ('f, 'w, 'h) filterManager \<Rightarrow> 'c \<Rightarrow> ('f, 'w, 'h) filterManager \<times> 'c" where
  "AddReadFilter F rf fm c =
     (fm\<lparr>upstreamFilters := upstreamFilters fm @ [\<lparr>arf_index = 0, arf_filter = rf, initialized = False\<rparr>]\<rparr>,
      InitializeReadFilterCallbacks F rf c)"

definition AddWriteFilter :: "'w \<Rightarrow> ('f, 'w, 'h) filterManager \<Rightarrow> ('f, 'w, 'h) filterManager" where
  "AddWriteFilter f fm = fm\<lparr>downstreamFilters := downstreamFilters fm @ [f]\<rparr>"

definition ListReadFilter :: "('f, 'w, 'h) filterManager \<Rightarrow> 'f list" where
  "ListReadFilter fm = map arf_filter (upstreamFilters fm)"

definition ListWriteFilters :: "('f, 'w, 'h) filterManager \<Rightarrow> 'w list" where
  "ListWriteFilters fm = downstreamFilters fm"

definition SetUpstreamHost :: "'h option \<Rightarrow> ('f, 'w, 'h) filterManager \<Rightarrow> ('f, 'w, 'h) filterManager" where
  "SetUpstreamHost h fm = fm\<lparr>fm_host := h\<rparr>"

text \<open>
  The loop over the filters from place \<open>i\<close> on: a filter is told about the connection the first
  time it is reached, and gets the read buffer when there is something in it. Either call may
  stop the loop. \<open>buf\<close> is \<open>GetReadBuffer\<close> of the connection.
\<close>

definition filter_new ::
  "('f, 'c) ReadFilter \<Rightarrow> nat \<Rightarrow> 'f activeReadFilter \<Rightarrow> 'c \<times> filter_call list \<Rightarrow>
     (('c \<times> filter_call list) \<times> FilterStatus) outcome" where
  "filter_new F i uf cl =
     (if initialized uf then Inr (cl, Continue)
      else obind (OnNewConnection F (arf_filter uf) (fst cl)) (\<lambda>(c, st). Inr ((c, snd cl @ [CallNewConnection i]), st)))"

definition filter_data ::
  "('f, 'c) ReadFilter \<Rightarrow> ('c \<Rightarrow> iobuffer option) \<Rightarrow> nat \<Rightarrow> 'f activeReadFilter \<Rightarrow> 'c \<times> filter_call list \<Rightarrow>
     (('c \<times> filter_call list) \<times> FilterStatus) outcome" where
  "filter_data F buf i uf cl =
     (case buf (fst cl) of
        Some b \<Rightarrow>
          (if Len b > 0
           then obind (OnData F (arf_filter uf) (fst cl)) (\<lambda>(c, st). Inr ((c, snd cl @ [CallData i]), st))
           else Inr (cl, Continue))
      | None \<Rightarrow> Inr (cl, Continue))"

fun read_filters ::
  "('f, 'c) ReadFilter \<Rightarrow> ('c \<Rightarrow> iobuffer option) \<Rightarrow> nat \<Rightarrow> 'f activeReadFilter list \<Rightarrow> 'c \<times> filter_call list \<Rightarrow>
     ('f activeReadFilter list \<times> 'c \<times> filter_call list) outcome" where
  "read_filters F buf i [] cl = Inr ([], cl)"
| "read_filters F buf i (uf # ufs) cl =
     obind (filter_new F i uf cl) (\<lambda>(cl, st).
       let uf = uf\<lparr>arf_index := i, initialized := True\<rparr> in
       if st = StopIteration then Inr (uf # ufs, cl)
       else obind (filter_data F buf i uf cl) (\<lambda>(cl, st).
         if st = StopIteration then Inr (uf # ufs, cl)
         else obind (read_filters F buf (i + 1) ufs cl) (\<lambda>(ufs, cl). Inr (uf # ufs, cl))))"

definition onContinueReading ::
  "('f, 'c) ReadFilter \<Rightarrow> ('c \<Rightarrow> iobuffer option) \<Rightarrow> nat option \<Rightarrow> ('f, 'w, 'h) filterManager \<Rightarrow> 'c \<Rightarrow>
     (('f, 'w, 'h) filterManager \<times> 'c) outcome" where
  "onContinueReading F buf from fm c =
     (let i = (case from of None \<Rightarrow> 0 | Some k \<Rightarrow> arf_index (upstreamFilters fm ! k) + 1)
      in obind (read_filters F buf i (drop i (upstreamFilters fm)) (c, filter_calls fm)) (\<lambda>(ufs, c, l).
        Inr (fm\<lparr>upstreamFilters := take i (upstreamFilters fm) @ ufs, filter_calls := l\<rparr>, c)))"

definition fm_OnRead ::
  "('f, 'c) ReadFilter \<Rightarrow> ('c \<Rightarrow> iobuffer option) \<Rightarrow> ('f, 'w, 'h) filterManager \<Rightarrow> 'c \<Rightarrow>
     (('f, 'w, 'h) filterManager \<times> 'c) outcome" where
  "fm_OnRead F buf fm c = onContinueReading F buf None fm c"

definition ContinueReading ::
  "('f, 'c) ReadFilter \<Rightarrow> ('c \<Rightarrow> iobuffer option) \<Rightarrow> nat \<Rightarrow> ('f, 'w, 'h) filterManager \<Rightarrow> 'c \<Rightarrow>
     (('f, 'w, 'h) filterManager \<times> 'c) outcome" where
  "ContinueReading F buf k fm c = onContinueReading F buf (Some k) fm c"

definition InitializeReadFilters ::
  "('f, 'c) ReadFilter \<Rightarrow> ('c \<Rightarrow> iobuffer option) \<Rightarrow> ('f, 'w, 'h) filterManager \<Rightarrow> 'c \<Rightarrow>
     ((('f, 'w, 'h) filterManager \<times> 'c) \<times> bool) outcome" where
  "InitializeReadFilters F buf fm c =
     (if upstreamFilters fm = [] then Inr ((fm, c), False)
      else obind (onContinueReading F buf None fm c) (\<lambda>s. Inr (s, True)))"

text \<open>The write filters are handed the buffers that are being written, which they may change.\<close>

fun write_filters ::
  "('w \<Rightarrow> iobuffer list \<Rightarrow> iobuffer list \<times> FilterStatus) \<Rightarrow> 'w list \<Rightarrow> iobuffer list \<Rightarrow> iobuffer list \<times> FilterStatus" where
  "write_filters W [] bufs = (bufs, Continue)"
| "write_filters W (df # dfs) bufs =
     (case W df bufs of (bufs, st) \<Rightarrow> if st = StopIteration then (bufs, StopIteration) else write_filters W dfs bufs)"

definition fm_OnWrite ::
  "('w \<Rightarrow> iobuffer list \<Rightarrow> iobuffer list \<times> FilterStatus) \<Rightarrow> ('f, 'w, 'h) filterManager \<Rightarrow> iobuffer list \<Rightarrow>
     iobuffer list \<times> FilterStatus" where
  "fm_OnWrite W fm bufs = write_filters W (downstreamFilters fm) bufs"

section \<open>Filters are started in order\<close>

fun new_calls :: "filter_call list \<Rightarrow> nat list" where
  "new_calls [] = []"
| "new_calls (CallNewConnection i # l) = i # new_calls l"
| "new_calls (CallData i # l) = new_calls l"

text \<open>Data goes to a filter only after the filter has been told about the connection.\<close>

fun data_after_new :: "nat \<Rightarrow> filter_call list \<Rightarrow> bool" where
  "data_after_new k [] \<longleftrightarrow> True"
| "data_after_new k (CallNewConnection i # l) \<longleftrightarrow> i = k \<and> data_after_new (k + 1) l"
| "data_after_new k (CallData i # l) \<longleftrightarrow> i < k \<and> data_after_new k l"

lemma new_calls_append [simp]: "new_calls (l @ l') = new_calls l @ new_calls l'"
  by (induction l rule: new_calls.induct) simp_all

lemma data_after_new_append:
  "data_after_new k (l @ l') \<longleftrightarrow> data_after_new k l \<and> data_after_new (k + length (new_calls l)) l'"
  by (induction k l rule: data_after_new.induct) auto

lemma new_calls_consecutive: "data_after_new k l \<Longrightarrow> new_calls l = [k..<k + length (new_calls l)]"
proof (induction k l rule: data_after_new.induct)
  case (2 k i l)
  then have "new_calls l = [k + 1..<k + 1 + length (new_calls l)]" "i = k" by simp_all
  moreover have "[k..<k + Suc m] = k # [k + 1..<k + 1 + m]" for m by (simp add: upt_conv_Cons del: upt_Suc)
  ultimately show ?case by (simp del: upt_Suc)
qed simp_all

text \<open>The filters from place \<open>i\<close> on, of which those before place \<open>n\<close> have been reached.\<close>

definition reached :: "nat \<Rightarrow> 'f activeReadFilter list \<Rightarrow> nat \<Rightarrow> bool" where
  "reached i ufs n \<longleftrightarrow> i \<le> n \<and> n \<le> i + length ufs \<and>
     (\<forall>j < length ufs. initialized (ufs ! j) = (i + j < n) \<and> (i + j < n \<longrightarrow> arf_index (ufs ! j) = i + j))"

lemma reached_Cons:
  "reached i (uf # ufs) n \<longleftrightarrow>
     (if n = i then \<not> initialized uf \<and> list_all (\<lambda>f. \<not> initialized f) ufs
      else initialized uf \<and> arf_index uf = i \<and> reached (i + 1) ufs n)"
  by (cases "n = i") (auto simp: reached_def nth_Cons list_all_length split: nat.splits)

lemma reached_none: "reached i ufs i \<longleftrightarrow> list_all (\<lambda>f. \<not> initialized f) ufs"
  by (auto simp: reached_def list_all_length)

lemma filter_new_calls:
  assumes "filter_new F i uf (c, l) = Inr ((c', l'), st)"
  shows "l' = l @ (if initialized uf then [] else [CallNewConnection i])"
  using assms by (auto simp: filter_new_def go_outcome split: if_splits)

lemma filter_data_calls:
  assumes "filter_data F buf i uf (c, l) = Inr ((c', l'), st)"
  shows "l' = l \<or> l' = l @ [CallData i]"
  using assms by (auto simp: filter_data_def go_outcome split: if_splits option.splits)

lemma read_filters_reached:
  assumes "read_filters F buf i ufs (c, l) = Inr (ufs', c', l')" and "reached i ufs n"
    and "length (new_calls l) = n" and "data_after_new 0 l"
  shows "\<exists>n'. reached i ufs' n' \<and> length (new_calls l') = n' \<and> data_after_new 0 l' \<and> map arf_filter ufs' = map arf_filter ufs"
  using assms
proof (induction ufs arbitrary: i c l n ufs')
  case (Cons uf ufs)
  let ?uf = "uf\<lparr>arf_index := i, initialized := True\<rparr>"
  from Cons.prems(1) obtain c1 l1 st1 where new: "filter_new F i uf (c, l) = Inr ((c1, l1), st1)"
    by (auto simp: go_outcome Let_def)
  note l1 = filter_new_calls [OF new]
  define m where "m = (if n = i then i + 1 else n)"
  have m: "reached i (?uf # ufs) m" "length (new_calls l1) = m" "data_after_new 0 l1" "reached (i + 1) ufs m"
    using Cons.prems(2-4) l1 reached_none [of "i + 1" ufs]
    by (simp_all add: reached_Cons m_def data_after_new_append split: if_splits)
  show ?case
  proof (cases "st1 = StopIteration")
    case True
    with Cons.prems(1) new m show ?thesis by (auto simp: go_outcome Let_def)
  next
    case False
    with Cons.prems(1) new obtain c2 l2 st2 where data: "filter_data F buf i ?uf (c1, l1) = Inr ((c2, l2), st2)"
      by (auto simp: go_outcome Let_def)
    have "i < m" using Cons.prems(2) by (auto simp: m_def reached_def)
    with filter_data_calls [OF data] m have l2: "length (new_calls l2) = m" "data_after_new 0 l2"
      by (auto simp: data_after_new_append)
    show ?thesis
    proof (cases "st2 = StopIteration")
      case True
      with Cons.prems(1) new data False m l2 show ?thesis by (auto simp: go_outcome Let_def)
    next
      case go: False
      with Cons.prems(1) new data False obtain ufs2 where
        rest: "read_filters F buf (i + 1) ufs (c2, l2) = Inr (ufs2, c', l')" "ufs' = ?uf # ufs2"
        by (auto simp: go_outcome Let_def)
      from Cons.IH [OF rest(1) m(4) l2] obtain n' where n':
        "reached (i + 1) ufs2 n'" "length (new_calls l') = n'" "data_after_new 0 l'" "map arf_filter ufs2 = map arf_filter ufs" by blast
      moreover have "i + 1 \<le> n'" using n'(1) by (simp only: reached_def)
      ultimately have "reached i (?uf # ufs2) n'" by (simp add: reached_Cons)
      with n' rest(2) show ?thesis by auto
    qed
  qed
qed auto

text \<open>Reading goes on from a filter that has been reached, or from the start.\<close>

definition fm_ok :: "('f, 'w, 'h) filterManager \<Rightarrow> bool" where
  "fm_ok fm \<longleftrightarrow> reached 0 (upstreamFilters fm) (length (new_calls (filter_calls fm))) \<and> data_after_new 0 (filter_calls fm)"

lemma reached_split:
  assumes "reached 0 ufs n" and "i \<le> n"
  shows "reached i (drop i ufs) n" and "reached i ufs' n' \<Longrightarrow> reached 0 (take i ufs @ ufs') n'"
  using assms by (auto simp: reached_def nth_append)

lemma onContinueReading_ok:
  assumes "fm_ok fm" and "onContinueReading F buf from fm c = Inr (fm', c')"
    and "\<And>k. from = Some k \<Longrightarrow> k < length (new_calls (filter_calls fm))"
  shows "fm_ok fm' \<and> ListReadFilter fm' = ListReadFilter fm"
proof -
  let ?n = "length (new_calls (filter_calls fm))"
  let ?i = "case from of None \<Rightarrow> 0 | Some k \<Rightarrow> arf_index (upstreamFilters fm ! k) + 1"
  have ok: "reached 0 (upstreamFilters fm) ?n" "data_after_new 0 (filter_calls fm)" using assms(1) by (simp_all add: fm_ok_def)
  then have "?i \<le> ?n" using assms(3) by (auto simp: reached_def split: option.splits)
  note split = reached_split [OF ok(1) this]
  from assms(2) obtain ufs l where r: "read_filters F buf ?i (drop ?i (upstreamFilters fm)) (c, filter_calls fm) = Inr (ufs, c', l)"
    "fm' = fm\<lparr>upstreamFilters := take ?i (upstreamFilters fm) @ ufs, filter_calls := l\<rparr>"
    by (auto simp: onContinueReading_def Let_def go_outcome)
  from read_filters_reached [OF r(1) split(1) refl ok(2)] obtain n' where
    "reached ?i ufs n'" "length (new_calls l) = n'" "data_after_new 0 l"
    "map arf_filter ufs = map arf_filter (drop ?i (upstreamFilters fm))" by blast
  then show ?thesis using split(2) r(2)
    by (simp add: fm_ok_def ListReadFilter_def take_map [symmetric] drop_map [symmetric])
qed

inductive fm_step :: "('f, 'c) ReadFilter \<Rightarrow> ('c \<Rightarrow> iobuffer option) \<Rightarrow>
    ('f, 'w, 'h) filterManager \<times> 'c \<Rightarrow> ('f, 'w, 'h) filterManager \<times> 'c \<Rightarrow> bool"
  for F buf where
  "fm_step F buf (fm, c) (AddReadFilter F rf fm c)"
| "fm_step F buf (fm, c) (AddWriteFilter w fm, c)"
| "fm_step F buf (fm, c) (SetUpstreamHost h fm, c)"
| "InitializeReadFilters F buf fm c = Inr (s, b) \<Longrightarrow> fm_step F buf (fm, c) s"
| "fm_OnRead F buf fm c = Inr s \<Longrightarrow> fm_step F buf (fm, c) s"
| "k < length (upstreamFilters fm) \<Longrightarrow> initialized (upstreamFilters fm ! k) \<Longrightarrow>
     ContinueReading F buf k fm c = Inr s \<Longrightarrow> fm_step F buf (fm, c) s"
| "fm_step F buf (fm, c) (fm, c')"

lemma reached_snoc: "reached i ufs n \<Longrightarrow> reached i (ufs @ [\<lparr>arf_index = 0, arf_filter = f, initialized = False\<rparr>]) n"
  by (auto simp: reached_def nth_append less_Suc_eq)

lemma fm_step_ok:
  assumes "fm_step F buf s s'" and "fm_ok (fst s)"
  shows "fm_ok (fst s')"
  using assms
proof (induction rule: fm_step.induct)
  case (4 fm c s b)
  then show ?case
    by (cases s) (auto simp: InitializeReadFilters_def go_outcome dest: onContinueReading_ok split: if_splits)
next
  case (5 fm c s)
  then show ?case by (cases s) (auto simp: fm_OnRead_def dest: onContinueReading_ok)
next
  case (6 k fm c s)
  then have "k < length (new_calls (filter_calls fm))" by (auto simp: fm_ok_def reached_def)
  with 6 show ?case by (cases s) (auto simp: ContinueReading_def dest: onContinueReading_ok)
qed (auto simp: fm_ok_def AddReadFilter_def AddWriteFilter_def SetUpstreamHost_def reached_snoc)

lemma fm_ok_new: "fm_ok newFilterManager"
  by (simp add: fm_ok_def newFilterManager_def reached_def)

lemma fm_reachable_ok:
  assumes "(fm_step F buf)\<^sup>*\<^sup>* (newFilterManager, c) s"
  shows "fm_ok (fst s)"
  using assms by induction (simp_all add: fm_ok_new fm_step_ok)

section \<open>Properties\<close>

text \<open>
  C21 (invariant). Whatever the read filters answer, whenever data arrives and whichever
  filter that has been reached lets reading go on, the filters of a connection are told about
  it in the order they were added, each once, and none is given data before.
\<close>

theorem filters_started_in_order:
  assumes "(fm_step F buf)\<^sup>*\<^sup>* (newFilterManager, c) (fm, c')"
  shows "\<exists>n \<le> length (upstreamFilters fm). new_calls (filter_calls fm) = [0..<n] \<and> data_after_new 0 (filter_calls fm) \<and>
    (\<forall>i < length (upstreamFilters fm). initialized (upstreamFilters fm ! i) = (i < n))"
proof -
  from fm_reachable_ok [OF assms] have "fm_ok fm" by simp
  then have "reached 0 (upstreamFilters fm) (length (new_calls (filter_calls fm)))" "data_after_new 0 (filter_calls fm)"
    by (simp_all add: fm_ok_def)
  with new_calls_consecutive [OF this(2)] show ?thesis
    by (intro exI [of _ "length (new_calls (filter_calls fm))"]) (auto simp: reached_def)
qed

text \<open>Two filters of which the first holds back its first data.\<close>

definition two_filters :: "(nat, iobuffer) ReadFilter" where
  "two_filters = \<lparr>InitializeReadFilterCallbacks = (\<lambda>f c. c), OnNewConnection = (\<lambda>f c. Inr (c, Continue)),
     OnData = (\<lambda>f c. Inr (c, if f = 0 then StopIteration else Continue))\<rparr>"

definition two_added :: "(nat, unit, unit) filterManager" where
  "two_added = fst (AddReadFilter two_filters 1 (fst (AddReadFilter two_filters 0 newFilterManager (NewIoBufferBytes [7]))) (NewIoBufferBytes [7]))"

theorem filters_started_in_order_witness:
  "\<exists>fm. fm_OnRead two_filters Some two_added (NewIoBufferBytes [7]) = Inr (fm, NewIoBufferBytes [7]) \<and>
     new_calls (filter_calls fm) = [0] \<and> data_after_new 0 (filter_calls fm)"
proof -
  let ?c = "NewIoBufferBytes [7]"
  have "Len ?c > 0" by (simp add: NewIoBufferBytes_def Len_def)
  then obtain fm where fm: "fm_OnRead two_filters Some two_added ?c = Inr (fm, ?c)" "filter_calls fm = [CallNewConnection 0, CallData 0]"
    by (simp add: fm_OnRead_def onContinueReading_def two_added_def two_filters_def AddReadFilter_def newFilterManager_def
        filter_new_def filter_data_def)
  have "fm_step two_filters Some (newFilterManager, ?c) (fst (AddReadFilter two_filters 0 newFilterManager ?c), ?c)"
    using fm_step.intros(1) [of two_filters Some newFilterManager ?c 0] by (simp add: AddReadFilter_def two_filters_def)
  moreover have "fm_step two_filters Some (fst (AddReadFilter two_filters 0 newFilterManager ?c), ?c) (two_added, ?c)"
    using fm_step.intros(1) [of two_filters Some "fst (AddReadFilter two_filters 0 newFilterManager ?c)" ?c 1]
    by (simp add: AddReadFilter_def two_filters_def two_added_def)
  moreover have "fm_step two_filters Some (two_added, ?c) (fm, ?c)" by (rule fm_step.intros(5) [OF fm(1)])
  ultimately have "(fm_step two_filters Some)\<^sup>*\<^sup>* (newFilterManager, ?c) (fm, ?c)"
    by (meson converse_rtranclp_into_rtranclp rtranclp.rtrancl_refl)
  from filters_started_in_order [OF this] fm show ?thesis by auto
qed

end
