(* ===== verification/Net_Connection.thy ===== *)
theory Net_Connection
  imports Filter_Manager
begin

text \<open>
  Network connections: \<open>pkg/network/connection.go\<close> and the entries of
  \<open>pkg/network/buffer/iobufferpool.go\<close>. The socket is a state \<open>'s\<close> with functions that read
  from it and write to it. Listeners are named by values of a type \<open>'l\<close>; what is called on them
  and on the socket is kept in \<open>conn_calls\<close>. A channel of capacity one is the truth value
  that it is filled, the stop channel the truth value that it is closed. The transfer of a
  connection to another process and the recovery of a loop from its first panic are left out.
\<close>

section \<open>Events\<close>

datatype ConnectionEvent =
    RemoteClose | LocalClose | OnReadErrClose | OnWriteErrClose | OnConnect | Connected | ConnectTimeout | ConnectFailed

definition IsClose :: "ConnectionEvent \<Rightarrow> bool" where
  "IsClose ce \<longleftrightarrow> ce = LocalClose \<or> ce = RemoteClose \<or> ce = OnReadErrClose \<or> ce = OnWriteErrClose"

definition ConnectFailure :: "ConnectionEvent \<Rightarrow> bool" where
  "ConnectFailure ce \<longleftrightarrow> ce = ConnectFailed \<or> ce = ConnectTimeout"

datatype ConnectionCloseType = FlushWrite | NoFlush

section \<open>State\<close>

record ConnectionStats =
  ReadTotal :: int
  ReadCurrent :: int
  WriteTotal :: int
  WriteCurrent :: int

datatype 'l conn_call =
    CallEvent 'l ConnectionEvent
  | CallBytesRead 'l nat
  | CallBytesSent 'l nat
  | CloseRead
  | CloseRaw

record ('s, 'l) connection =
  conn_id :: "64 word"
  readEnabled :: bool
  readEnabledChan :: bool
  readDisableCount :: nat
  localAddressRestored :: bool
  aboveHighWatermark :: bool
  bufferLimit :: "32 word"
  rawConnection :: "'s option"
  isTCPConn :: bool
  rawNil :: bool
  closeWithFlush :: bool
  connCallbacks :: "'l list"
  bytesReadCallbacks :: "'l list"
  bytesSendCallbacks :: "'l list"
  readBuffer :: "iobuffer option"
  writeBuffer :: "iobuffer option"
  writeBufferChan :: bool
  internalLoopStarted :: bool
  internalStopChan :: bool
  conn_stats :: "ConnectionStats option"
  lastBytesSizeRead :: int
  lastWriteSizeWrite :: int
  conn_closed :: bool
  conn_calls :: "'l conn_call list"

definition DefaultBufferCapacity :: nat where "DefaultBufferCapacity = 2 ^ 12"

text \<open>The pool hands out a buffer that was reset when it was given back, or a new one.\<close>

definition Take :: "iobuffer option \<Rightarrow> iobuffer" where
  "Take pooled = (case pooled of Some b \<Rightarrow> b | None \<Rightarrow> NewIoBuffer DefaultBufferCapacity)"

definition Give :: "iobuffer \<Rightarrow> iobuffer" where "Give b = Reset b"

definition new_stats :: ConnectionStats where
  "new_stats = \<lparr>ReadTotal = 0, ReadCurrent = 0, WriteTotal = 0, WriteCurrent = 0\<rparr>"

definition new_connection :: "64 word \<Rightarrow> 's option \<Rightarrow> bool \<Rightarrow> ('s, 'l) connection" where
  "new_connection i raw tcp =
     \<lparr>conn_id = i, readEnabled = True, readEnabledChan = False, readDisableCount = 0, localAddressRestored = False,
      aboveHighWatermark = False, bufferLimit = 0, rawConnection = raw, isTCPConn = tcp, rawNil = False, closeWithFlush = False,
      connCallbacks = [], bytesReadCallbacks = [], bytesSendCallbacks = [], readBuffer = None, writeBuffer = None,
      writeBufferChan = False, internalLoopStarted = False, internalStopChan = False, conn_stats = Some new_stats,
      lastBytesSizeRead = 0, lastWriteSizeWrite = 0, conn_closed = False, conn_calls = []\<rparr>"

text \<open>
  \<open>accepted\<close> is what an old process handed over: nothing, or the bytes it had read but not
  dispatched. In a context that has the channel for the connection and not the bytes, there is
  no read buffer, whose length is logged all the same.
\<close>

definition NewServerConnection ::
  "iobuffer option \<Rightarrow> byte list option option \<Rightarrow> 's \<Rightarrow> bool \<Rightarrow> 64 word \<Rightarrow> (64 word \<times> ('s, 'l) connection) outcome" where
  "NewServerConnection pooled accepted raw tcp idCounter =
     (let i = idCounter + 1; conn = new_connection i (Some raw) tcp in
      case accepted of
        None \<Rightarrow> Inr (i, conn)
      | Some None \<Rightarrow> Inl NilDereference
      | Some (Some buf) \<Rightarrow> obind (Write (Take pooled) buf) (\<lambda>(b, _). Inr (i, conn\<lparr>readBuffer := Some b\<rparr>)))"

definition NewClientConnection :: "64 word \<Rightarrow> 64 word \<times> ('s, 'l) connection" where
  "NewClientConnection idCounter = (let i = idCounter + 1 in (i, new_connection i None True))"

definition log_conn :: "'l conn_call \<Rightarrow> ('s, 'l) connection \<Rightarrow> ('s, 'l) connection" where
  "log_conn a c = c\<lparr>conn_calls := conn_calls c @ [a]\<rparr>"

section \<open>Simple operations\<close>

definition OnHighWatermark :: "('s, 'l) connection \<Rightarrow> ('s, 'l) connection" where
  "OnHighWatermark c = c\<lparr>aboveHighWatermark := True\<rparr>"

definition OnLowWatermark :: "('s, 'l) connection \<Rightarrow> ('s, 'l) connection" where
  "OnLowWatermark c = c\<lparr>aboveHighWatermark := False\<rparr>"

definition Start :: "('s, 'l) connection \<Rightarrow> ('s, 'l) connection" where
  "Start c = c\<lparr>internalLoopStarted := True\<rparr>"

text \<open>
  The three lists of listeners compare the address of a loop variable with the address of the
  argument, which are never the same: every listener is added.
\<close>

definition AddConnectionEventListener :: "'l \<Rightarrow> ('s, 'l) connection \<Rightarrow> ('s, 'l) connection" where
  "AddConnectionEventListener cb c = c\<lparr>connCallbacks := connCallbacks c @ [cb]\<rparr>"

definition AddBytesReadListener :: "'l \<Rightarrow> ('s, 'l) connection \<Rightarrow> ('s, 'l) connection" where
  "AddBytesReadListener cb c = c\<lparr>bytesReadCallbacks := bytesReadCallbacks c @ [cb]\<rparr>"

definition AddBytesSentListener :: "'l \<Rightarrow> ('s, 'l) connection \<Rightarrow> ('s, 'l) connection" where
  "AddBytesSentListener cb c = c\<lparr>bytesSendCallbacks := bytesSendCallbacks c @ [cb]\<rparr>"

text \<open>\<open>None\<close> is a send on a full channel, which blocks.\<close>

definition SetReadDisable :: "bool \<Rightarrow> ('s, 'l) connection \<Rightarrow> ('s, 'l) connection option" where
  "SetReadDisable disable c =
     (if disable then
        (if \<not> readEnabled c then Some (c\<lparr>readDisableCount := readDisableCount c + 1\<rparr>)
         else Some (c\<lparr>readEnabled := False\<rparr>))
      else if readDisableCount c > 0 then Some (c\<lparr>readDisableCount := readDisableCount c - 1\<rparr>)
      else
        (let c = c\<lparr>readEnabled := True\<rparr>
         in if readEnabledChan c then None else Some (c\<lparr>readEnabledChan := True\<rparr>)))"

definition SetBufferLimit :: "32 word \<Rightarrow> ('s, 'l) connection \<Rightarrow> ('s, 'l) connection" where
  "SetBufferLimit limit c = (if limit > 0 then c\<lparr>bufferLimit := limit\<rparr> else c)"

definition SetLocalAddress :: "bool \<Rightarrow> ('s, 'l) connection \<Rightarrow> ('s, 'l) connection" where
  "SetLocalAddress restored c = c\<lparr>localAddressRestored := restored\<rparr>"

definition SetStats :: "ConnectionStats option \<Rightarrow> ('s, 'l) connection \<Rightarrow> ('s, 'l) connection" where
  "SetStats st c = c\<lparr>conn_stats := st\<rparr>"

definition GetReadBuffer :: "('s, 'l) connection \<Rightarrow> iobuffer option" where
  "GetReadBuffer c = readBuffer c"

definition updateReadBufStats :: "int \<Rightarrow> int \<Rightarrow> ('s, 'l) connection \<Rightarrow> ('s, 'l) connection" where
  "updateReadBufStats bytesRead bytesBufSize c =
     (case conn_stats c of
        None \<Rightarrow> c
      | Some st \<Rightarrow>
          (let st = (if bytesRead > 0 then st\<lparr>ReadTotal := ReadTotal st + bytesRead\<rparr> else st)
           in if bytesBufSize \<noteq> lastBytesSizeRead c
              then c\<lparr>conn_stats := Some (st\<lparr>ReadCurrent := bytesBufSize\<rparr>), lastBytesSizeRead := bytesBufSize\<rparr>
              else c\<lparr>conn_stats := Some st\<rparr>))"

definition updateWriteBuffStats :: "int \<Rightarrow> int \<Rightarrow> ('s, 'l) connection \<Rightarrow> ('s, 'l) connection" where
  "updateWriteBuffStats bytesWrite bytesBufSize c =
     (case conn_stats c of
        None \<Rightarrow> c
      | Some st \<Rightarrow>
          (let st = (if bytesWrite > 0 then st\<lparr>WriteTotal := WriteTotal st + bytesWrite\<rparr> else st)
           in if bytesBufSize \<noteq> lastWriteSizeWrite c
              then c\<lparr>conn_stats := Some (st\<lparr>WriteCurrent := bytesBufSize\<rparr>), lastWriteSizeWrite := bytesBufSize\<rparr>
              else c\<lparr>conn_stats := Some st\<rparr>))"

section \<open>Writing\<close>

type_synonym 's socket_write = "'s \<Rightarrow> byte list \<Rightarrow> 's \<times> nat \<times> io_err option"

text \<open>A buffer as the writer another buffer is written to; after a panic it takes what it gets.\<close>

definition buffer_writer :: "iobuffer outcome socket_write" where
  "buffer_writer q src =
     (case obind q (\<lambda>b. Write b src) of
        Inl p \<Rightarrow> (Inl p, length src, None)
      | Inr (b, n) \<Rightarrow> (Inr b, n, None))"

fun write_buffers :: "iobuffer list \<Rightarrow> iobuffer \<Rightarrow> iobuffer outcome" where
  "write_buffers [] w = Inr w"
| "write_buffers (buf # bufs) w =
     obind (WriteTo buffer_writer buf (Inr w) 0) (\<lambda>(_, q, _). obind q (write_buffers bufs))"

definition conn_Write ::
  "('w \<Rightarrow> iobuffer list \<Rightarrow> iobuffer list \<times> FilterStatus) \<Rightarrow> ('f, 'w, 'h) filterManager \<Rightarrow> iobuffer option \<Rightarrow>
     iobuffer list \<Rightarrow> ('s, 'l) connection \<Rightarrow> ('s, 'l) connection outcome" where
  "conn_Write W fm pooled buffers c =
     (case fm_OnWrite W fm buffers of (buffers, fs) \<Rightarrow>
        if fs = StopIteration then Inr c
        else
          obind (write_buffers buffers (case writeBuffer c of Some b \<Rightarrow> b | None \<Rightarrow> Take pooled)) (\<lambda>b.
            Inr (c\<lparr>writeBuffer := Some b, writeBufferChan := True\<rparr>)))"

definition writeBufLen :: "('s, 'l) connection \<Rightarrow> int" where
  "writeBufLen c = (case writeBuffer c of None \<Rightarrow> 0 | Some b \<Rightarrow> Len b)"

text \<open>One pass of the loop in \<open>doWriteIo\<close>, under its lock.\<close>

definition write_some :: "'s socket_write \<Rightarrow> ('s, 'l) connection \<Rightarrow> (('s, 'l) connection \<times> nat \<times> io_err option) outcome" where
  "write_some wr c =
     (case (writeBuffer c, rawConnection c) of
        (Some b, Some s) \<Rightarrow>
          obind (WriteTo wr b s 0) (\<lambda>(b, s, m, err). Inr (c\<lparr>writeBuffer := Some b, rawConnection := Some s\<rparr>, m, err))
      | _ \<Rightarrow> Inl NilDereference)"

definition fatal :: "io_err option \<Rightarrow> bool" where
  "fatal err \<longleftrightarrow> err \<noteq> None \<and> err \<noteq> Some Timeout"

partial_function (option) doWriteIo ::
  "'s socket_write \<Rightarrow> nat \<Rightarrow> io_err option \<Rightarrow> ('s, 'l) connection \<Rightarrow> (('s, 'l) connection \<times> nat \<times> io_err option) outcome option" where
  "doWriteIo wr n err c =
     (if writeBufLen c > 0 then
        (case write_some wr c of
           Inl p \<Rightarrow> Some (Inl p)
         | Inr (c, m, err) \<Rightarrow> if fatal err then Some (Inr (c, n + m, err)) else doWriteIo wr (n + m) err c)
      else Some (Inr (c, n, err)))"

definition after_write :: "nat \<Rightarrow> ('s, 'l) connection \<Rightarrow> ('s, 'l) connection" where
  "after_write n c =
     (let c = updateWriteBuffStats (int n) (writeBufLen c) c
      in fold (\<lambda>cb. log_conn (CallBytesSent cb n)) (bytesSendCallbacks c) c)"

definition doWrite ::
  "'s socket_write \<Rightarrow> ('s, 'l) connection \<Rightarrow> (('s, 'l) connection \<times> nat \<times> io_err option) outcome option" where
  "doWrite wr c =
     (case doWriteIo wr 0 None c of
        Some (Inr (c, n, err)) \<Rightarrow> Some (Inr (after_write n c, n, err))
      | r \<Rightarrow> r)"

section \<open>Closing\<close>

partial_function (option) flush_write :: "'s socket_write \<Rightarrow> ('s, 'l) connection \<Rightarrow> ('s, 'l) connection outcome option" where
  "flush_write wr c =
     (case doWrite wr c of
        None \<Rightarrow> None
      | Some (Inl p) \<Rightarrow> Some (Inl p)
      | Some (Inr (c, n, err)) \<Rightarrow> if fatal err \<or> n = 0 then Some (Inr c) else flush_write wr c)"

definition close_raw :: "ConnectionEvent \<Rightarrow> ('s, 'l) connection \<Rightarrow> ('s, 'l) connection outcome" where
  "close_raw eventType c =
     (let c = (if internalLoopStarted c then c\<lparr>internalStopChan := True\<rparr> else c);
          c = log_conn CloseRaw c
      in if conn_stats c = None then Inl NilDereference
         else
           (let c = updateWriteBuffStats 0 0 (updateReadBufStats 0 0 c)
            in Inr (fold (\<lambda>cb. log_conn (CallEvent cb eventType)) (connCallbacks c) c)))"

definition close_read :: "('s, 'l) connection \<Rightarrow> ('s, 'l) connection" where
  "close_read c = (if isTCPConn c then log_conn CloseRead c else c)"

definition flush_first :: "'s socket_write \<Rightarrow> ConnectionCloseType \<Rightarrow> ('s, 'l) connection \<Rightarrow> ('s, 'l) connection outcome option" where
  "flush_first wr ccType c =
     (if ccType = FlushWrite \<and> writeBufLen c > 0 then flush_write wr (c\<lparr>closeWithFlush := True\<rparr>) else Some (Inr c))"

definition conn_Close ::
  "'s socket_write \<Rightarrow> ConnectionCloseType \<Rightarrow> ConnectionEvent \<Rightarrow> ('s, 'l) connection \<Rightarrow> ('s, 'l) connection outcome option" where
  "conn_Close wr ccType eventType c =
     (if conn_closed c then Some (Inr c)
      else
        (let c = c\<lparr>conn_closed := True\<rparr> in
         if rawConnection c = None then Some (Inr c)
         else if isTCPConn c \<and> rawNil c then Some (Inl NilDereference)
         else
           (case flush_first wr ccType (close_read c) of
              None \<Rightarrow> None
            | Some r \<Rightarrow> Some (obind r (close_raw eventType)))))"

section \<open>Reading\<close>

type_synonym 's socket_read = "'s \<Rightarrow> nat \<Rightarrow> ('s \<times> byte list \<times> io_err option) outcome"

definition conn_onRead ::
  "('f, ('s, 'l) connection) ReadFilter \<Rightarrow> nat \<Rightarrow> ('f, 'w, 'h) filterManager \<Rightarrow> ('s, 'l) connection \<Rightarrow>
     (('f, 'w, 'h) filterManager \<times> ('s, 'l) connection) outcome" where
  "conn_onRead F bytesRead fm c =
     (if \<not> readEnabled c then Inr (fm, c)
      else if bytesRead = 0 then Inr (fm, c)
      else fm_OnRead F GetReadBuffer fm c)"

definition after_read :: "nat \<Rightarrow> iobuffer \<Rightarrow> ('s, 'l) connection \<Rightarrow> ('s, 'l) connection" where
  "after_read n b c =
     (let c = updateReadBufStats (int n) (Len b) (c\<lparr>readBuffer := Some b\<rparr>)
      in fold (\<lambda>cb. log_conn (CallBytesRead cb n)) (bytesReadCallbacks c) c)"

definition doRead ::
  "('f, ('s, 'l) connection) ReadFilter \<Rightarrow> 's socket_read \<Rightarrow> iobuffer option \<Rightarrow> ('f, 'w, 'h) filterManager \<Rightarrow> ('s, 'l) connection \<Rightarrow>
     ((('f, 'w, 'h) filterManager \<times> ('s, 'l) connection) \<times> io_err option) outcome option" where
  "doRead F rd pooled fm c =
     (let b = (case readBuffer c of Some b \<Rightarrow> b | None \<Rightarrow> Take pooled) in
      case rawConnection c of
        None \<Rightarrow> Some (Inl NilDereference)
      | Some s \<Rightarrow>
          (case ReadOnce True rd b s of
             None \<Rightarrow> None
           | Some (Inl p) \<Rightarrow> Some (Inl p)
           | Some (Inr (b, s, n, err)) \<Rightarrow>
               (let c = c\<lparr>rawConnection := Some s\<rparr> in
                case err of
                  Some Timeout \<Rightarrow> Some (Inr ((fm, c\<lparr>readBuffer := Some b\<rparr>), Some Timeout))
                | Some e \<Rightarrow> Some (Inr ((fm, c\<lparr>readBuffer := None\<rparr>), Some e))
                | None \<Rightarrow> Some (obind (conn_onRead F n fm (after_read n b c)) (\<lambda>s. Inr (s, None))))))"

text \<open>A pass of the read loop: whether the loop goes on, and what it leaves.\<close>

definition read_pass ::
  "('f, ('s, 'l) connection) ReadFilter \<Rightarrow> 's socket_read \<Rightarrow> 's socket_write \<Rightarrow> iobuffer option \<Rightarrow> ('f, 'w, 'h) filterManager \<Rightarrow>
     ('s, 'l) connection \<Rightarrow> (bool \<times> ('f, 'w, 'h) filterManager \<times> ('s, 'l) connection) outcome option" where
  "read_pass F rd wr pooled fm c =
     (if internalStopChan c then Some (Inr (False, fm, c))
      else if readEnabledChan c then Some (Inr (True, fm, c\<lparr>readEnabledChan := False\<rparr>))
      else if \<not> readEnabled c then Some (Inr (True, fm, c))
      else
        (case doRead F rd pooled fm c of
           None \<Rightarrow> None
         | Some (Inl p) \<Rightarrow> Some (Inl p)
         | Some (Inr ((fm, c), None)) \<Rightarrow> Some (Inr (True, fm, c))
         | Some (Inr ((fm, c), Some err)) \<Rightarrow>
             (case conn_Close wr NoFlush (if err = EOF then RemoteClose else OnReadErrClose) c of
                None \<Rightarrow> None
              | Some r \<Rightarrow> Some (obind r (\<lambda>c. Inr (False, fm, c))))))"

section \<open>Connecting\<close>

text \<open>
  \<open>dial\<close> is the result of \<open>DialTCP\<close>: the connection it returns and its error. The connection is
  stored in an interface even when it failed, which therefore is not nil afterwards but holds a
  nil pointer, on which \<open>Close\<close> calls a method; \<open>tls\<close> wraps a connection. Connecting happens once.
\<close>

record ('s, 'l) clientConnection =
  cc_connection :: "('s, 'l) connection"
  connectOnce :: bool

definition connect_event :: "io_err option \<Rightarrow> ConnectionEvent" where
  "connect_event err =
     (case err of None \<Rightarrow> Connected | Some EOF \<Rightarrow> RemoteClose | Some Timeout \<Rightarrow> ConnectTimeout | Some (IOErr _) \<Rightarrow> ConnectFailed)"

definition Connect ::
  "'s \<times> io_err option \<Rightarrow> ('s \<Rightarrow> 's) option \<Rightarrow> bool \<Rightarrow> ('s, 'l) clientConnection \<Rightarrow> ('s, 'l) clientConnection \<times> io_err option" where
  "Connect dial tls ioEnabled cc =
     (if connectOnce cc then (cc, None)
      else
        (let (s, err) = dial;
             c = (cc_connection cc)\<lparr>rawConnection := Some s, rawNil := err \<noteq> None\<rparr>;
             c = (if err \<noteq> None then c
                  else
                    (let c = (case tls of Some f \<Rightarrow> c\<lparr>rawConnection := Some (f s), isTCPConn := False\<rparr> | None \<Rightarrow> c)
                     in if ioEnabled then Start c else c))
         in (cc\<lparr>cc_connection := fold (\<lambda>cb. log_conn (CallEvent cb (connect_event err))) (connCallbacks c) c, connectOnce := True\<rparr>, err)))"

section \<open>What is written\<close>

text \<open>
  The contract of a socket: it is an \<open>io.Writer\<close>, and \<open>out\<close>, the bytes that have left it, grows by
  what it takes.
\<close>

definition socket_contract :: "'s socket_write \<Rightarrow> ('s \<Rightarrow> byte list) \<Rightarrow> bool" where
  "socket_contract wr out \<longleftrightarrow> writer_contract wr \<and>
     (\<forall>s src. case wr s src of (s', m, e) \<Rightarrow> out s' = out s @ take m src)"

definition out_bytes :: "('s \<Rightarrow> byte list) \<Rightarrow> ('s, 'l) connection \<Rightarrow> byte list" where
  "out_bytes out c = (case rawConnection c of Some s \<Rightarrow> out s | None \<Rightarrow> [])"

definition unsent :: "('s, 'l) connection \<Rightarrow> byte list" where
  "unsent c = (case writeBuffer c of Some b \<Rightarrow> contents b | None \<Rightarrow> [])"

definition conn_wf :: "('s, 'l) connection \<Rightarrow> bool" where
  "conn_wf c \<longleftrightarrow> rawConnection c \<noteq> None \<and> pred_option iob_wf (writeBuffer c)"

lemma writeBufLen_unsent: "conn_wf c \<Longrightarrow> writeBufLen c = int (length (unsent c))"
  by (auto simp: conn_wf_def writeBufLen_def unsent_def length_contents split: option.splits)

lemma socket_contractD:
  assumes "socket_contract wr out" and "wr s src = (s', m, e)"
  shows "m \<le> length src" and "m < length src \<Longrightarrow> e \<noteq> None" and "out s' = out s @ take m src"
proof -
  from assms(1) have "writer_contract wr" "case wr s src of (s', m, e) \<Rightarrow> out s' = out s @ take m src"
    by (simp_all add: socket_contract_def)
  with writer_contractD [OF this(1) assms(2)] assms(2)
  show "m \<le> length src" "m < length src \<Longrightarrow> e \<noteq> None" "out s' = out s @ take m src" by simp_all
qed

lemma WriteTo_socket:
  assumes "iob_wf b" and "socket_contract wr out"
  shows "\<exists>b' s' m e. WriteTo wr b s n = Inr (b', s', n + m, e) \<and> iob_wf b' \<and> m \<le> length (contents b) \<and>
    contents b' = drop m (contents b) \<and> out s' = out s @ take m (contents b) \<and> (e = None \<longrightarrow> m = length (contents b))"
proof (cases "contents b = []")
  case True
  with assms(1) have "boff b = int (blen b)" by (simp add: contents_Nil_iff)
  with True assms(1) show ?thesis by (simp add: WriteTo.simps [of wr b])
next
  case False
  obtain s' m e where w: "wr s (contents b) = (s', m, e)" by (cases "wr s (contents b)")
  have c: "m \<le> length (contents b)" "m < length (contents b) \<longrightarrow> e \<noteq> None" "out s' = out s @ take m (contents b)"
    using socket_contractD [OF assms(2) w] by simp_all
  let ?b = "b\<lparr>boff := boff b + int m\<rparr>"
  have L: "int (length (contents b)) = Len b" by (rule length_contents [OF assms(1)])
  have b': "iob_wf ?b" "contents ?b = drop m (contents b)"
    using assms(1) c L by (auto simp: iob_wf_def contents_def Len_def nat_add_distrib add.commute)
  have "boff b < int (blen b)" using False assms(1) by (auto simp: contents_Nil_iff iob_wf_def)
  then have "WriteTo wr b s n = Inr (?b, s', n + m, e)"
    using w c L assms(1) by (cases "e = None") (simp_all add: WriteTo.simps [of wr b] Let_def)
  with b' c show ?thesis by force
qed

lemma write_some_keeps:
  assumes "conn_wf c" and "socket_contract wr out" and "write_some wr c = Inr (c', m, e)"
  shows "conn_wf c'" and "out_bytes out c' @ unsent c' = out_bytes out c @ unsent c" and "writeBufferChan c' = writeBufferChan c"
    and "unsent c' = drop m (unsent c)" and "m \<le> length (unsent c)" and "e = None \<longrightarrow> m = length (unsent c)"
proof -
  from assms(1,3) obtain b s where b: "writeBuffer c = Some b" "rawConnection c = Some s" "iob_wf b"
    by (auto simp: write_some_def conn_wf_def split: option.splits)
  from WriteTo_socket [OF b(3) assms(2), of s 0] obtain b' s' m' e' where
    "WriteTo wr b s 0 = Inr (b', s', m', e')" "iob_wf b'" "m' \<le> length (contents b)" "contents b' = drop m' (contents b)"
    "out s' = out s @ take m' (contents b)" "e' = None \<longrightarrow> m' = length (contents b)" by auto
  with b assms(3) show "conn_wf c'" "out_bytes out c' @ unsent c' = out_bytes out c @ unsent c" "writeBufferChan c' = writeBufferChan c"
    "unsent c' = drop m (unsent c)" "m \<le> length (unsent c)" "e = None \<longrightarrow> m = length (unsent c)"
    by (auto simp: write_some_def conn_wf_def out_bytes_def unsent_def)
qed

lemma write_some_total:
  assumes "conn_wf c" and "socket_contract wr out" and "writeBufLen c > 0"
  shows "\<exists>c' m e. write_some wr c = Inr (c', m, e)"
proof -
  from assms(1,3) obtain b s where b: "writeBuffer c = Some b" "rawConnection c = Some s" "iob_wf b"
    by (auto simp: conn_wf_def writeBufLen_def split: option.splits)
  from WriteTo_socket [OF b(3) assms(2), of s 0] b show ?thesis by (auto simp: write_some_def)
qed

lemma buffer_writer_wf:
  assumes "iob_wf b" and "iob_wf w"
  shows "\<exists>b' w' n. WriteTo buffer_writer b (Inr w) 0 = Inr (b', Inr w', n, None) \<and> iob_wf w' \<and> contents w' = contents w @ contents b"
proof (cases "contents b = []")
  case True
  with assms(1) have "boff b = int (blen b)" by (simp add: contents_Nil_iff)
  with True assms show ?thesis by (simp add: WriteTo.simps [of buffer_writer b])
next
  case False
  from Write_wf [OF assms(2), of "contents b"] obtain w' where
    w: "Write w (contents b) = Inr (w', length (contents b))" "iob_wf w'" "contents w' = contents w @ contents b" by blast
  have "boff b < int (blen b)" using False assms(1) by (auto simp: contents_Nil_iff iob_wf_def)
  then show ?thesis using w assms(1) length_contents [OF assms(1)]
    by (simp add: WriteTo.simps [of buffer_writer b] buffer_writer_def Let_def)
qed

lemma write_buffers_wf:
  assumes "list_all iob_wf bufs" and "iob_wf w"
  shows "\<exists>w'. write_buffers bufs w = Inr w' \<and> iob_wf w' \<and> contents w' = contents w @ concat (map contents bufs)"
  using assms
proof (induction bufs arbitrary: w)
  case (Cons b bufs)
  from buffer_writer_wf [of b w] Cons.prems obtain b' w' n where
    "WriteTo buffer_writer b (Inr w) 0 = Inr (b', Inr w', n, None)" "iob_wf w'" "contents w' = contents w @ contents b" by auto
  with Cons.IH [of w'] Cons.prems(1) show ?case by auto
qed simp

text \<open>What has left the socket and what is still to leave it, together, and the wake-up call.\<close>

definition same_out :: "('s \<Rightarrow> byte list) \<Rightarrow> ('s, 'l) connection \<Rightarrow> ('s, 'l) connection \<Rightarrow> bool" where
  "same_out out c c' \<longleftrightarrow> (conn_wf c \<longrightarrow> conn_wf c' \<and> out_bytes out c' @ unsent c' = out_bytes out c @ unsent c \<and>
     writeBufferChan c' = writeBufferChan c \<and> length (unsent c') \<le> length (unsent c))"

lemma same_out_refl: "same_out out c c"
  by (simp add: same_out_def)

lemma same_out_trans: "same_out out c c' \<Longrightarrow> same_out out c' c'' \<Longrightarrow> same_out out c c''"
  by (auto simp: same_out_def)

lemma same_out_eq:
  assumes "writeBuffer c' = writeBuffer c" and "rawConnection c' = rawConnection c" and "writeBufferChan c' = writeBufferChan c"
  shows "same_out out c c'"
  using assms by (simp add: same_out_def conn_wf_def out_bytes_def unsent_def)

lemma same_out_write_some:
  assumes "socket_contract wr out" and "write_some wr c = Inr (c', m, e)"
  shows "same_out out c c'"
  using write_some_keeps [OF _ assms] by (auto simp: same_out_def)

lemma log_conn_write [simp]:
  "writeBuffer (log_conn a c) = writeBuffer c" "rawConnection (log_conn a c) = rawConnection c"
  "writeBufferChan (log_conn a c) = writeBufferChan c" "internalStopChan (log_conn a c) = internalStopChan c"
  "connCallbacks (log_conn a c) = connCallbacks c" "conn_calls (log_conn a c) = conn_calls c @ [a]"
  "conn_closed (log_conn a c) = conn_closed c" "readBuffer (log_conn a c) = readBuffer c" "readEnabled (log_conn a c) = readEnabled c"
  "conn_stats (log_conn a c) = conn_stats c" "internalLoopStarted (log_conn a c) = internalLoopStarted c"
  by (simp_all add: log_conn_def)

lemma log_all_write [simp]:
  "writeBuffer (fold (\<lambda>cb. log_conn (f cb)) cbs c) = writeBuffer c" "rawConnection (fold (\<lambda>cb. log_conn (f cb)) cbs c) = rawConnection c"
  "writeBufferChan (fold (\<lambda>cb. log_conn (f cb)) cbs c) = writeBufferChan c"
  "internalStopChan (fold (\<lambda>cb. log_conn (f cb)) cbs c) = internalStopChan c"
  "conn_calls (fold (\<lambda>cb. log_conn (f cb)) cbs c) = conn_calls c @ map f cbs"
  "conn_closed (fold (\<lambda>cb. log_conn (f cb)) cbs c) = conn_closed c"
  "readBuffer (fold (\<lambda>cb. log_conn (f cb)) cbs c) = readBuffer c"
  "readEnabled (fold (\<lambda>cb. log_conn (f cb)) cbs c) = readEnabled c"
  "connCallbacks (fold (\<lambda>cb. log_conn (f cb)) cbs c) = connCallbacks c"
  by (induction cbs arbitrary: c) simp_all

lemma stats_write [simp]:
  "writeBuffer (updateWriteBuffStats m n c) = writeBuffer c" "rawConnection (updateWriteBuffStats m n c) = rawConnection c"
  "writeBufferChan (updateWriteBuffStats m n c) = writeBufferChan c" "writeBuffer (updateReadBufStats m n c) = writeBuffer c"
  "rawConnection (updateReadBufStats m n c) = rawConnection c" "writeBufferChan (updateReadBufStats m n c) = writeBufferChan c"
  "internalStopChan (updateWriteBuffStats m n c) = internalStopChan c" "internalStopChan (updateReadBufStats m n c) = internalStopChan c"
  "conn_calls (updateWriteBuffStats m n c) = conn_calls c" "conn_calls (updateReadBufStats m n c) = conn_calls c"
  "conn_closed (updateWriteBuffStats m n c) = conn_closed c" "conn_closed (updateReadBufStats m n c) = conn_closed c"
  "connCallbacks (updateWriteBuffStats m n c) = connCallbacks c" "connCallbacks (updateReadBufStats m n c) = connCallbacks c"
  "readBuffer (updateReadBufStats m n c) = readBuffer c" "readEnabled (updateReadBufStats m n c) = readEnabled c"
  by (simp_all add: updateWriteBuffStats_def updateReadBufStats_def Let_def split: option.splits)

lemma after_write_same [simp]:
  "writeBuffer (after_write n c) = writeBuffer c" "rawConnection (after_write n c) = rawConnection c"
  "writeBufferChan (after_write n c) = writeBufferChan c" "internalStopChan (after_write n c) = internalStopChan c"
  "conn_closed (after_write n c) = conn_closed c" "connCallbacks (after_write n c) = connCallbacks c"
  by (simp_all add: after_write_def Let_def)

text \<open>What \<open>doWriteIo\<close> does: the bytes it counts have left, and without an error it leaves none behind.\<close>

definition wrote :: "('s \<Rightarrow> byte list) \<Rightarrow> nat \<Rightarrow> io_err option \<Rightarrow> ('s, 'l) connection \<Rightarrow> ('s, 'l) connection \<times> nat \<times> io_err option \<Rightarrow> bool" where
  "wrote out n e c r = (case r of (c', n', e') \<Rightarrow> same_out out c c' \<and>
     (conn_wf c \<longrightarrow> n' = n + (length (unsent c) - length (unsent c')) \<and> (\<not> fatal e' \<longrightarrow> unsent c' = [])))"

lemma wrote_step:
  assumes "write_some wr c = Inr (c1, m, e1)" and "socket_contract wr out" and "wrote out (n + m) e1 c1 r"
  shows "wrote out n e c r"
proof -
  obtain c' n' e' where r: "r = (c', n', e')" by (cases r)
  note s = write_some_keeps [OF _ assms(2,1)]
  show ?thesis unfolding wrote_def r prod.case
  proof (intro conjI impI)
    show "same_out out c c'" using assms(3) same_out_write_some [OF assms(2,1)] by (auto simp: r wrote_def intro: same_out_trans)
  next
    assume c: "conn_wf c"
    then show "n' = n + (length (unsent c) - length (unsent c'))" and "\<not> fatal e' \<Longrightarrow> unsent c' = []"
      using assms(3) s by (auto simp: r wrote_def same_out_def)
  qed
qed

lemma doWriteIo_wrote:
  assumes "doWriteIo wr n e c = Some (Inr r)" and "socket_contract wr out"
  shows "wrote out n e c r"
proof -
  let ?P = "\<lambda>w n e c y. w = wr \<and> y = (Inr r :: _ outcome) \<longrightarrow> wrote out n e c r"
  have "?P wr n e c (Inr r)"
  proof (rule doWriteIo.raw_induct [where P = ?P, OF _ assms(1)], goal_cases)
    case (1 f w n e c y)
    show ?case
    proof (intro impI, elim conjE)
      assume eq: "w = wr" "y = Inr r"
      show "wrote out n e c r"
      proof (cases "writeBufLen c > 0")
        case True
        with 1(2) eq obtain c1 m e1 where w: "write_some wr c = Inr (c1, m, e1)"
          "(if fatal e1 then Some (Inr (c1, n + m, e1)) else f wr (n + m) e1 c1) = Some (Inr r)"
          by (auto split: sum.splits prod.splits)
        have "wrote out (n + m) e1 c1 r"
        proof (cases "fatal e1")
          case True
          with w(2) show ?thesis by (auto simp: wrote_def same_out_refl)
        next
          case False
          with w(2) have "f wr (n + m) e1 c1 = Some (Inr r)" by simp
          from 1(1) [OF this] show ?thesis by simp
        qed
        with w(1) assms(2) show ?thesis by (rule wrote_step)
      next
        case False
        with 1(2) eq show ?thesis by (auto simp: wrote_def same_out_refl writeBufLen_unsent)
      qed
    qed
  qed
  then show ?thesis by simp
qed

lemma doWrite_wrote:
  assumes "doWrite wr c = Some (Inr r)" and "socket_contract wr out"
  shows "wrote out 0 None c r"
proof -
  from assms(1) obtain c1 n e where d: "doWriteIo wr 0 None c = Some (Inr (c1, n, e))" "r = (after_write n c1, n, e)"
    by (auto simp: doWrite_def split: option.splits sum.splits)
  from doWriteIo_wrote [OF d(1) assms(2)] same_out_eq [of "after_write n c1" c1 out] show ?thesis
    by (auto simp: d(2) wrote_def unsent_def intro: same_out_trans)
qed

lemma flush_write_same:
  assumes "flush_write wr c = Some (Inr c')" and "socket_contract wr out"
  shows "same_out out c c'"
proof -
  let ?P = "\<lambda>w c y. w = wr \<and> y = (Inr c' :: _ outcome) \<longrightarrow> same_out out c c'"
  have "?P wr c (Inr c')"
  proof (rule flush_write.raw_induct [where P = ?P, OF _ assms(1)], goal_cases)
    case (1 f w c y)
    show ?case
    proof (intro impI, elim conjE)
      assume eq: "w = wr" "y = Inr c'"
      with 1(2) obtain c1 n e where d: "doWrite wr c = Some (Inr (c1, n, e))"
        "(if fatal e \<or> n = 0 then Some (Inr c1) else f wr c1) = Some (Inr c')"
        by (auto split: option.splits sum.splits prod.splits)
      have "same_out out c c1" using doWrite_wrote [OF d(1) assms(2)] by (simp add: wrote_def)
      moreover have "same_out out c1 c'"
      proof (cases "fatal e \<or> n = 0")
        case True
        with d(2) show ?thesis by (simp add: same_out_refl split: if_splits)
      next
        case False
        with d(2) have "f wr c1 = Some (Inr c')" by (simp split: if_splits)
        from 1(1) [OF this] show ?thesis by simp
      qed
      ultimately show "same_out out c c'" by (rule same_out_trans)
    qed
  qed
  then show ?thesis by simp
qed

lemma close_raw_same: "close_raw ev c = Inr c' \<Longrightarrow> same_out out c c'"
  by (rule same_out_eq) (auto simp: close_raw_def Let_def split: if_splits)

lemma flush_first_same:
  assumes "flush_first wr t c = Some (Inr c')" and "socket_contract wr out"
  shows "same_out out c c'"
proof (cases "t = FlushWrite \<and> writeBufLen c > 0")
  case True
  with assms(1) have "flush_write wr (c\<lparr>closeWithFlush := True\<rparr>) = Some (Inr c')" by (simp add: flush_first_def)
  from flush_write_same [OF this assms(2)] same_out_eq [of "c\<lparr>closeWithFlush := True\<rparr>" c out] show ?thesis
    by (auto intro: same_out_trans)
next
  case False
  with assms(1) show ?thesis by (auto simp: flush_first_def same_out_refl split: if_splits)
qed

lemma conn_Close_same:
  assumes "conn_Close wr t ev c = Some (Inr c')" and "socket_contract wr out"
  shows "same_out out c c'"
proof (cases "conn_closed c \<or> rawConnection c = None")
  case True
  with assms(1) show ?thesis by (auto simp: conn_Close_def Let_def intro: same_out_eq split: if_splits)
next
  case False
  let ?c = "close_read (c\<lparr>conn_closed := True\<rparr>)"
  from False assms(1) obtain c1 where c1: "close_raw ev c1 = Inr c'" "flush_first wr t ?c = Some (Inr c1)"
    by (auto simp: conn_Close_def Let_def go_outcome split: option.splits if_splits)
  have "same_out out c ?c" by (rule same_out_eq) (simp_all add: close_read_def)
  with flush_first_same [OF c1(2) assms(2)] close_raw_same [OF c1(1)] show ?thesis by (blast intro: same_out_trans)
qed

section \<open>Reading leaves the write side alone\<close>

definition reads_only :: "'s socket_read \<Rightarrow> ('s \<Rightarrow> byte list) \<Rightarrow> bool" where
  "reads_only rd out \<longleftrightarrow> (\<forall>s n s' got e. rd s n = Inr (s', got, e) \<longrightarrow> out s' = out s)"

lemma ReadOnceLoop_out:
  assumes "ReadOnceLoop rd b s n = Some (Inr (b', s', n', e))" and "reads_only rd out"
  shows "out s' = out s"
proof -
  let ?P = "\<lambda>r b s n y. r = rd \<and> y = (Inr (b', s', n', e) :: _ outcome) \<longrightarrow> out s' = out s"
  have "?P rd b s n (Inr (b', s', n', e))"
  proof (rule ReadOnceLoop.raw_induct [where P = ?P, OF _ assms(1)], goal_cases)
    case (1 f r b s n y)
    show ?case
    proof (intro impI, elim conjE)
      assume eq: "r = rd" "y = Inr (b', s', n', e)"
      with 1(2) obtain b1 s1 got e1 where rd: "rd s (bcap b1 - blen b1) = Inr (s1, got, e1)" "make_room b MinRead = Inr b1"
        by (auto simp: Let_def split: sum.splits prod.splits)
      then have s1: "out s1 = out s" using assms(2) unfolding reads_only_def by blast
      show "out s' = out s"
      proof (cases "s' = s1")
        case False
        with 1(2) eq rd obtain b2 where "f rd b2 s1 (n + length got) = Some (Inr (b', s', n', e))"
          by (auto simp: Let_def split: sum.splits option.splits io_err.splits if_splits)
        from 1(1) [OF this] s1 show ?thesis by simp
      qed (simp add: s1)
    qed
  qed
  then show ?thesis by simp
qed

lemma ReadOnce_out:
  assumes "ReadOnce True rd b s = Some (Inr (b', s', n', e))" and "reads_only rd out"
  shows "out s' = out s"
  using assms ReadOnceLoop_out [OF _ assms(2)] by (auto simp: ReadOnce_def Let_def split: sum.splits)

definition same_write :: "('s, 'l) connection \<Rightarrow> ('s, 'l) connection \<Rightarrow> bool" where
  "same_write c c' \<longleftrightarrow> writeBuffer c' = writeBuffer c \<and> rawConnection c' = rawConnection c \<and> writeBufferChan c' = writeBufferChan c \<and>
     conn_calls c' = conn_calls c \<and> conn_closed c' = conn_closed c \<and> connCallbacks c' = connCallbacks c"

text \<open>A read filter that writes to its own connection or closes it does so in a step of its own.\<close>

definition read_quiet :: "('f, ('s, 'l) connection) ReadFilter \<Rightarrow> bool" where
  "read_quiet F \<longleftrightarrow> (\<forall>f c c' st. OnNewConnection F f c = Inr (c', st) \<or> OnData F f c = Inr (c', st) \<longrightarrow> same_write c c')"

lemma read_filters_quiet:
  assumes "read_quiet F" and "read_filters F buf i ufs cl = Inr (ufs', cl')"
  shows "same_write (fst cl) (fst cl')"
  using assms(2)
proof (induction ufs arbitrary: i cl ufs' cl')
  case (Cons uf ufs)
  have new: "same_write (fst cl) (fst cl1)" if "filter_new F i uf cl = Inr (cl1, st)" for cl cl1 st
    using that assms(1) by (auto simp: filter_new_def read_quiet_def same_write_def go_outcome split: if_splits)
  have data: "same_write (fst cl) (fst cl1)" if "filter_data F buf i uf cl = Inr (cl1, st)" for uf cl cl1 st
    using that assms(1) by (auto simp: filter_data_def read_quiet_def same_write_def go_outcome split: if_splits option.splits)
  from Cons.prems show ?case
    by (auto simp: go_outcome Let_def split: if_splits dest!: new data Cons.IH simp: same_write_def)
qed (simp add: same_write_def)

lemma fm_OnRead_quiet:
  assumes "read_quiet F" and "fm_OnRead F buf fm c = Inr (fm', c')"
  shows "same_write c c'"
  using assms(2) by (auto simp: fm_OnRead_def onContinueReading_def go_outcome dest: read_filters_quiet [OF assms(1)])

lemma after_read_same:
  "writeBuffer (after_read n b c) = writeBuffer c" "rawConnection (after_read n b c) = rawConnection c"
  "writeBufferChan (after_read n b c) = writeBufferChan c" "conn_closed (after_read n b c) = conn_closed c"
  "connCallbacks (after_read n b c) = connCallbacks c"
  "conn_calls (after_read n b c) = conn_calls c @ map (\<lambda>cb. CallBytesRead cb n) (bytesReadCallbacks c)"
  by (simp_all add: after_read_def Let_def updateReadBufStats_def split: option.splits)

lemma doRead_same:
  assumes "doRead F rd pooled fm c = Some (Inr ((fm', c'), e))" and "reads_only rd out" and "read_quiet F"
  shows "same_out out c c'"
proof -
  from assms(1) obtain s b s' n err where s: "rawConnection c = Some s"
    "ReadOnce True rd (case readBuffer c of Some b \<Rightarrow> b | None \<Rightarrow> Take pooled) s = Some (Inr (b, s', n, err))"
    by (auto simp: doRead_def Let_def split: option.splits sum.splits)
  note out = ReadOnce_out [OF s(2) assms(2)]
  have "writeBuffer c' = writeBuffer c \<and> rawConnection c' = Some s' \<and> writeBufferChan c' = writeBufferChan c"
  proof (cases err)
    case None
    with assms(1) s have "conn_onRead F n fm (after_read n b (c\<lparr>rawConnection := Some s'\<rparr>)) = Inr (fm', c')"
      by (auto simp: doRead_def Let_def go_outcome)
    then have "same_write (after_read n b (c\<lparr>rawConnection := Some s'\<rparr>)) c'"
      by (auto simp: conn_onRead_def split: if_splits intro: fm_OnRead_quiet [OF assms(3)]) (simp_all add: same_write_def)
    then show ?thesis by (simp add: same_write_def after_read_same)
  next
    case (Some x)
    with assms(1) s show ?thesis by (cases x) (auto simp: doRead_def Let_def)
  qed
  with s(1) out show ?thesis by (simp add: same_out_def conn_wf_def out_bytes_def unsent_def)
qed

lemma read_pass_same:
  assumes "read_pass F rd wr pooled fm c = Some (Inr (b, fm', c'))" and "reads_only rd out" and "read_quiet F"
    and "socket_contract wr out"
  shows "same_out out c c'"
proof (cases "internalStopChan c \<or> readEnabledChan c \<or> \<not> readEnabled c")
  case True
  with assms(1) show ?thesis by (auto simp: read_pass_def intro: same_out_eq split: if_splits)
next
  case False
  with assms(1) obtain fm1 c1 e where d: "doRead F rd pooled fm c = Some (Inr ((fm1, c1), e))"
    by (auto simp: read_pass_def split: option.splits sum.splits)
  note c1 = doRead_same [OF d assms(2,3)]
  show ?thesis
  proof (cases e)
    case None
    with False assms(1) d c1 show ?thesis by (auto simp: read_pass_def)
  next
    case (Some err)
    with False assms(1) d obtain ev where "conn_Close wr NoFlush ev c1 = Some (Inr c')"
      by (auto simp: read_pass_def go_outcome split: option.splits if_splits)
    from conn_Close_same [OF this assms(4)] c1 show ?thesis by (auto intro: same_out_trans)
  qed
qed

section \<open>Everything that happens to a connection\<close>

datatype 'l conn_op =
    OpHighWatermark | OpLowWatermark | OpStart | OpEventListener 'l | OpReadListener 'l | OpSentListener 'l
  | OpReadDisable bool | OpBufferLimit "32 word" | OpLocalAddress bool | OpStats "ConnectionStats option"

fun do_op :: "'l conn_op \<Rightarrow> ('s, 'l) connection \<Rightarrow> ('s, 'l) connection option" where
  "do_op OpHighWatermark c = Some (OnHighWatermark c)"
| "do_op OpLowWatermark c = Some (OnLowWatermark c)"
| "do_op OpStart c = Some (Start c)"
| "do_op (OpEventListener l) c = Some (AddConnectionEventListener l c)"
| "do_op (OpReadListener l) c = Some (AddBytesReadListener l c)"
| "do_op (OpSentListener l) c = Some (AddBytesSentListener l c)"
| "do_op (OpReadDisable d) c = SetReadDisable d c"
| "do_op (OpBufferLimit n) c = Some (SetBufferLimit n c)"
| "do_op (OpLocalAddress r) c = Some (SetLocalAddress r c)"
| "do_op (OpStats st) c = Some (SetStats st c)"

text \<open>
  The write loop waits, is in the middle of \<open>doWriteIo\<close> with what it has counted so far, or has
  returned. A step is a call from any goroutine, or a part of a loop that holds the lock of the
  write buffer or touches no shared state; its label is what has been accepted for writing.
\<close>

datatype write_loop = WIdle | WSending nat "io_err option" | WStopped

definition pool_ok :: "iobuffer option \<Rightarrow> bool" where
  "pool_ok pooled \<longleftrightarrow> pred_option (\<lambda>b. iob_wf b \<and> contents b = []) pooled"

lemma Take_wf: "pool_ok pooled \<Longrightarrow> iob_wf (Take pooled) \<and> contents (Take pooled) = []"
  by (auto simp: pool_ok_def Take_def split: option.splits)

lemma Give_pool_ok: "iob_wf b \<Longrightarrow> pool_ok (Some (Give b))"
  by (simp add: pool_ok_def Give_def)

text \<open>
  The steps of the write loop, which runs once \<open>Start\<close> was called: it takes its wake-up call,
  writes once under the lock of the write buffer, gives up after an error, finds the buffer
  empty, or returns because the connection is being closed. When it waits with both a wake-up
  call and the end before it, it may take either.
\<close>

inductive write_loop_step ::
  "'s socket_write \<Rightarrow> ('s, 'l) connection \<times> write_loop \<Rightarrow> ('s, 'l) connection \<times> write_loop \<Rightarrow> bool"
  for wr where
  wake: "internalLoopStarted c \<Longrightarrow> writeBufferChan c \<Longrightarrow>
     write_loop_step wr (c, WIdle) (c\<lparr>writeBufferChan := False\<rparr>, WSending 0 None)"
| send: "writeBufLen c > 0 \<Longrightarrow> write_some wr c = Inr (c', m, e) \<Longrightarrow> \<not> fatal e \<Longrightarrow>
     write_loop_step wr (c, WSending n e0) (c', WSending (n + m) e)"
| fail: "writeBufLen c > 0 \<Longrightarrow> write_some wr c = Inr (c', m, e) \<Longrightarrow> fatal e \<Longrightarrow>
     conn_Close wr NoFlush (if e = Some EOF then RemoteClose else OnWriteErrClose) (after_write (n + m) c') = Some (Inr c'') \<Longrightarrow>
     write_loop_step wr (c, WSending n e0) (c'', WStopped)"
| sent: "writeBufLen c = 0 \<Longrightarrow> write_loop_step wr (c, WSending n e0) (after_write n c, WIdle)"
| stop: "internalLoopStarted c \<Longrightarrow> internalStopChan c \<Longrightarrow> write_loop_step wr (c, WIdle) (c, WStopped)"

inductive conn_step ::
  "('f, ('s, 'l) connection) ReadFilter \<Rightarrow> ('w \<Rightarrow> iobuffer list \<Rightarrow> iobuffer list \<times> FilterStatus) \<Rightarrow> 's socket_read \<Rightarrow> 's socket_write \<Rightarrow>
     ('f, 'w, 'h) filterManager \<times> ('s, 'l) connection \<times> write_loop \<Rightarrow> byte list \<Rightarrow>
     ('f, 'w, 'h) filterManager \<times> ('s, 'l) connection \<times> write_loop \<Rightarrow> bool"
  for F W rd wr where
  app_write: "fm_OnWrite W fm bufs = (bufs', st) \<Longrightarrow> list_all iob_wf bufs' \<Longrightarrow> pool_ok pooled \<Longrightarrow>
     conn_Write W fm pooled bufs c = Inr c' \<Longrightarrow>
     conn_step F W rd wr (fm, c, l) (if st = StopIteration then [] else concat (map contents bufs')) (fm, c', l)"
| loop: "write_loop_step wr (c, l) (c', l') \<Longrightarrow> conn_step F W rd wr (fm, c, l) [] (fm, c', l')"
| close: "conn_Close wr t ev c = Some (Inr c') \<Longrightarrow> conn_step F W rd wr (fm, c, l) [] (fm, c', l)"
| read: "read_pass F rd wr pooled fm c = Some (Inr (b, fm', c')) \<Longrightarrow> conn_step F W rd wr (fm, c, l) [] (fm', c', l)"
| other: "do_op x c = Some c' \<Longrightarrow> conn_step F W rd wr (fm, c, l) [] (fm, c', l)"

inductive conn_run ::
  "('f, ('s, 'l) connection) ReadFilter \<Rightarrow> ('w \<Rightarrow> iobuffer list \<Rightarrow> iobuffer list \<times> FilterStatus) \<Rightarrow> 's socket_read \<Rightarrow> 's socket_write \<Rightarrow>
     ('f, 'w, 'h) filterManager \<times> ('s, 'l) connection \<times> write_loop \<Rightarrow> byte list \<Rightarrow>
     ('f, 'w, 'h) filterManager \<times> ('s, 'l) connection \<times> write_loop \<Rightarrow> bool"
  for F W rd wr where
  run_none: "conn_run F W rd wr s [] s"
| run_step: "conn_run F W rd wr s bs s' \<Longrightarrow> conn_step F W rd wr s' bs' s'' \<Longrightarrow> conn_run F W rd wr s (bs @ bs') s''"

lemma do_op_same: "do_op x c = Some c' \<Longrightarrow> same_out out c c'"
  by (rule same_out_eq)
    (cases x; auto simp: OnHighWatermark_def OnLowWatermark_def Start_def AddConnectionEventListener_def AddBytesReadListener_def
      AddBytesSentListener_def SetReadDisable_def SetBufferLimit_def SetLocalAddress_def SetStats_def Let_def split: if_splits)+

lemma conn_Write_wf:
  assumes "conn_wf c" and "fm_OnWrite W fm bufs = (bufs', st)" and "list_all iob_wf bufs'" and "pool_ok pooled"
    and "conn_Write W fm pooled bufs c = Inr c'"
  shows "conn_wf c'" and "out_bytes out c' @ unsent c' = out_bytes out c @ unsent c @ (if st = StopIteration then [] else concat (map contents bufs'))"
    and "if st = StopIteration then c' = c else writeBufferChan c'"
proof -
  let ?b = "case writeBuffer c of Some b \<Rightarrow> b | None \<Rightarrow> Take pooled"
  have b: "iob_wf ?b" "contents ?b = unsent c"
    using assms(1) Take_wf [OF assms(4)] by (auto simp: conn_wf_def unsent_def split: option.splits)
  from write_buffers_wf [OF assms(3) b(1)] obtain w where
    w: "write_buffers bufs' ?b = Inr w" "iob_wf w" "contents w = unsent c @ concat (map contents bufs')" by (auto simp: b(2))
  with assms(1,2,5) show "conn_wf c'" "if st = StopIteration then c' = c else writeBufferChan c'"
    "out_bytes out c' @ unsent c' = out_bytes out c @ unsent c @ (if st = StopIteration then [] else concat (map contents bufs'))"
    by (auto simp: conn_Write_def conn_wf_def unsent_def out_bytes_def split: if_splits)
qed

text \<open>Every byte is accounted for, and none waits without a wake-up call.\<close>

definition conn_inv :: "('s \<Rightarrow> byte list) \<Rightarrow> byte list \<Rightarrow> ('s, 'l) connection \<Rightarrow> write_loop \<Rightarrow> bool" where
  "conn_inv out bs c l \<longleftrightarrow> conn_wf c \<and> out_bytes out c @ unsent c = bs \<and> (l = WIdle \<longrightarrow> writeBufferChan c \<or> unsent c = [])"

lemma conn_inv_same: "same_out out c c' \<Longrightarrow> conn_inv out bs c l \<Longrightarrow> conn_inv out bs c' l"
  by (auto simp: same_out_def conn_inv_def)

lemma write_loop_step_inv:
  assumes "write_loop_step wr s s'" and "socket_contract wr out" and "case s of (c, l) \<Rightarrow> conn_inv out bs c l"
  shows "case s' of (c, l) \<Rightarrow> conn_inv out bs c l"
  using assms(1,3)
proof (induction rule: write_loop_step.induct)
  case (send c c' m e n e0)
  then show ?case using same_out_write_some [OF assms(2)] by (auto simp: conn_inv_def same_out_def)
next
  case (fail c c' m e n c'' e0)
  have "same_out out c c'" using same_out_write_some [OF assms(2)] fail.hyps(2) by blast
  moreover have "same_out out c' (after_write (n + m) c')" by (rule same_out_eq) simp_all
  moreover have "same_out out (after_write (n + m) c') c''" using conn_Close_same [OF _ assms(2)] fail.hyps(4) by blast
  ultimately have "same_out out c c''" by (blast intro: same_out_trans)
  with fail.prems show ?case by (auto simp: conn_inv_def same_out_def)
next
  case (sent c n e0)
  then show ?case by (simp add: conn_inv_def writeBufLen_unsent) (simp add: conn_wf_def out_bytes_def unsent_def)
qed (simp_all add: conn_inv_def conn_wf_def unsent_def out_bytes_def)

lemma conn_step_inv:
  assumes "conn_step F W rd wr s a s'" and "socket_contract wr out" and "reads_only rd out" and "read_quiet F"
    and "case s of (fm, c, l) \<Rightarrow> conn_inv out bs c l"
  shows "case s' of (fm, c, l) \<Rightarrow> conn_inv out (bs @ a) c l"
  using assms(1,5)
proof (induction rule: conn_step.induct)
  case (app_write fm bufs bufs' st pooled c c' l)
  then show ?case using conn_Write_wf [of c W fm bufs bufs' st pooled c'] by (auto simp: conn_inv_def split: if_splits)
next
  case (loop c l c' l' fm)
  from write_loop_step_inv [OF loop.hyps assms(2)] loop.prems show ?case by simp
next
  case (read pooled fm c b fm' c' l)
  then show ?case using conn_inv_same read_pass_same [OF _ assms(3,4,2)] by fastforce
qed (use conn_inv_same conn_Close_same [OF _ assms(2)] do_op_same in \<open>fastforce simp: conn_inv_def\<close>)+

lemma conn_run_inv:
  assumes "conn_run F W rd wr s a s'" and "socket_contract wr out" and "reads_only rd out" and "read_quiet F"
    and "case s of (fm, c, l) \<Rightarrow> conn_inv out bs c l"
  shows "case s' of (fm, c, l) \<Rightarrow> conn_inv out (bs @ a) c l"
  using assms(1,5)
proof induction
  case (run_step s a s' a' s'')
  from conn_step_inv [OF run_step.hyps(2) assms(2-4) run_step.IH [OF run_step.prems]] show ?case by simp
qed simp

section \<open>Delivery\<close>

text \<open>A socket that takes all it is offered.\<close>

definition takes_all :: "'s socket_write \<Rightarrow> bool" where
  "takes_all wr \<longleftrightarrow> (\<forall>s src. \<exists>s'. wr s src = (s', length src, None))"

lemma takes_all_some:
  assumes "conn_wf c" and "takes_all wr" and "socket_contract wr out" and "writeBufLen c > 0"
  shows "\<exists>c' m. write_some wr c = Inr (c', m, None) \<and> unsent c' = [] \<and> conn_wf c' \<and>
    out_bytes out c' = out_bytes out c @ unsent c"
proof -
  from assms(1,4) obtain b s where b: "writeBuffer c = Some b" "rawConnection c = Some s" "iob_wf b"
    by (auto simp: conn_wf_def writeBufLen_def split: option.splits)
  from assms(2) obtain s' where s': "wr s (contents b) = (s', length (contents b), None)" by (auto simp: takes_all_def)
  have "boff b < int (blen b)" using assms(4) b by (simp add: writeBufLen_def Len_def)
  then have "WriteTo wr b s 0 = Inr (b\<lparr>boff := boff b + int (length (contents b))\<rparr>, s', length (contents b), None)"
    using s' b(3) length_contents [OF b(3)] by (simp add: WriteTo.simps [of wr b] Let_def)
  then have w: "\<exists>c'. write_some wr c = Inr (c', length (contents b), None)" by (simp add: write_some_def b)
  then obtain c' where c': "write_some wr c = Inr (c', length (contents b), None)" by blast
  note keeps = write_some_keeps [OF assms(1,3) c']
  then have "unsent c' = []" by simp
  with c' keeps(1,2) show ?thesis by (metis append.right_neutral)
qed

text \<open>
  A socket that gets on: when it is offered bytes, it takes one of them at least, and it may run
  into its deadline with the others, but nothing worse happens.
\<close>

definition takes_some :: "'s socket_write \<Rightarrow> bool" where
  "takes_some wr \<longleftrightarrow> (\<forall>s src. src \<noteq> [] \<longrightarrow> (case wr s src of (s', m, e) \<Rightarrow> 0 < m \<and> \<not> fatal e))"

lemma takes_some_step:
  assumes "conn_wf c" and "takes_some wr" and "socket_contract wr out" and "writeBufLen c > 0"
    and "write_some wr c = Inr (c', m, e)"
  shows "0 < m" and "\<not> fatal e"
proof -
  from assms(1,4) obtain b s where b: "writeBuffer c = Some b" "rawConnection c = Some s" "iob_wf b"
    by (auto simp: conn_wf_def writeBufLen_def split: option.splits)
  obtain s' k d where w: "wr s (contents b) = (s', k, d)" by (cases "wr s (contents b)")
  have L: "boff b < int (blen b)" "contents b \<noteq> []" using assms(4) b length_contents [OF b(3)] by (auto simp: writeBufLen_def Len_def)
  have "case wr s (contents b) of (s', m, e) \<Rightarrow> 0 < m \<and> \<not> fatal e" using assms(2) L(2) by (simp add: takes_some_def)
  then have kd: "0 < k" "\<not> fatal d" by (simp_all add: w)
  have "k \<le> length (contents b)" "k < length (contents b) \<longrightarrow> d \<noteq> None" using socket_contractD [OF assms(3) w] by simp_all
  then have "WriteTo wr b s 0 = Inr (b\<lparr>boff := boff b + int k\<rparr>, s', k, d)"
    using w b(3) L(1) length_contents [OF b(3)] by (cases "d = None") (simp_all add: WriteTo.simps [of wr b] Let_def)
  with assms(5) b kd show "0 < m" "\<not> fatal e" by (auto simp: write_some_def)
qed

text \<open>How many steps the write loop has before it when nobody else acts, at most.\<close>

fun loop_left :: "('s, 'l) connection \<times> write_loop \<Rightarrow> nat" where
  "loop_left (c, l) = length (unsent c) + (if writeBufferChan c then 2 else 0) + (case l of WSending _ _ \<Rightarrow> 1 | _ \<Rightarrow> 0)"

definition loop_runs :: "('s, 'l) connection \<times> write_loop \<Rightarrow> bool" where
  "loop_runs s \<longleftrightarrow> (case s of (c, l) \<Rightarrow> internalLoopStarted c \<and> \<not> internalStopChan c \<and> l \<noteq> WStopped)"

lemma write_some_loop:
  "write_some wr c = Inr (c', m, e) \<Longrightarrow> internalLoopStarted c' = internalLoopStarted c \<and> internalStopChan c' = internalStopChan c"
  by (auto simp: write_some_def go_outcome split: option.splits)

lemma log_all_loop [simp]:
  "internalLoopStarted (fold (\<lambda>cb. log_conn (f cb)) cbs c) = internalLoopStarted c"
  by (induction cbs arbitrary: c) simp_all

lemma after_write_loop [simp]: "internalLoopStarted (after_write n c) = internalLoopStarted c"
  by (simp add: after_write_def updateWriteBuffStats_def Let_def split: option.split)

lemma write_loop_step_left:
  assumes "write_loop_step wr s s'" and "conn_wf (fst s)" and "loop_runs s" and "takes_some wr" and "socket_contract wr out"
  shows "loop_runs s' \<and> loop_left s' < loop_left s"
  using assms(1-3)
proof (induction rule: write_loop_step.induct)
  case (send c c' m e n e0)
  have wf: "conn_wf c" using send.prems(1) by simp
  note keeps = write_some_keeps [OF wf assms(5) send.hyps(2)]
  have "0 < m" "unsent c \<noteq> []"
    using takes_some_step [OF wf assms(4,5) send.hyps(1,2)] send.hyps(1) writeBufLen_unsent [OF wf] by auto
  then show ?case using keeps(3-5) write_some_loop [OF send.hyps(2)] send.prems(2) by (auto simp: loop_runs_def)
next
  case (fail c c' m e n c'' e0)
  with takes_some_step [OF _ assms(4,5) fail.hyps(1,2)] show ?case by simp
qed (auto simp: loop_runs_def unsent_def)

text \<open>The loop stands still only when it waits with no wake-up call, and then the buffer is empty.\<close>

lemma write_loop_step_enabled:
  assumes "conn_inv out bs c l" and "loop_runs (c, l)" and "socket_contract wr out" and "takes_some wr"
  shows "(\<exists>s. write_loop_step wr (c, l) s) \<or> l = WIdle \<and> unsent c = []"
proof (cases l)
  case WIdle
  with assms(1,2) show ?thesis by (auto simp: conn_inv_def loop_runs_def intro: write_loop_step.wake)
next
  case (WSending n e)
  show ?thesis
  proof (cases "writeBufLen c > 0")
    case True
    have wf: "conn_wf c" using assms(1) by (simp add: conn_inv_def)
    from write_some_total [OF wf assms(3) True] obtain c' m e' where w: "write_some wr c = Inr (c', m, e')" by blast
    from write_loop_step.send [OF True w takes_some_step(2) [OF wf assms(4,3) True w]] WSending show ?thesis by blast
  next
    case False
    with assms(1) have "writeBufLen c = 0" by (simp add: conn_inv_def writeBufLen_unsent)
    from write_loop_step.sent [OF this, of wr n e] WSending show ?thesis by blast
  qed
qed (use assms(2) in \<open>simp add: loop_runs_def\<close>)

lemma loop_steps_deliver:
  assumes "(write_loop_step wr ^^ n) s s'" and "case s of (c, l) \<Rightarrow> conn_inv out bs c l" and "loop_runs s" and "takes_some wr" and "socket_contract wr out"
  shows "(case s' of (c, l) \<Rightarrow> conn_inv out bs c l) \<and> loop_runs s' \<and> n + loop_left s' \<le> loop_left s"
  using assms(1)
proof (induction n arbitrary: s')
  case 0
  with assms(2,3) show ?case by simp
next
  case (Suc n)
  then obtain s1 where s1: "(write_loop_step wr ^^ n) s s1" "write_loop_step wr s1 s'" by auto
  note IH = Suc.IH [OF s1(1)]
  have "conn_wf (fst s1)" using IH by (cases s1) (simp add: conn_inv_def)
  from write_loop_step_left [OF s1(2) this _ assms(4,5)] write_loop_step_inv [OF s1(2) assms(5)] IH show ?case by auto
qed

section \<open>Closing happens once\<close>

fun is_close_call :: "'l conn_call \<Rightarrow> bool" where
  "is_close_call (CallEvent l ev) \<longleftrightarrow> True"
| "is_close_call CloseRaw \<longleftrightarrow> True"
| "is_close_call _ \<longleftrightarrow> False"

definition close_view :: "('s, 'l) connection \<Rightarrow> bool \<times> bool \<times> 'l list \<times> 'l conn_call list" where
  "close_view c = (rawConnection c \<noteq> None, conn_closed c, connCallbacks c, filter is_close_call (conn_calls c))"

lemma write_some_view: "write_some wr c = Inr (c', m, e) \<Longrightarrow> close_view c' = close_view c"
  by (auto simp: write_some_def close_view_def go_outcome split: option.splits)

lemma filter_close_map [simp]:
  "filter is_close_call (map (\<lambda>l. CallBytesSent l n) ls) = []" "filter is_close_call (map (\<lambda>l. CallBytesRead l n) ls) = []"
  "filter is_close_call (map (\<lambda>l. CallEvent l ev) ls) = map (\<lambda>l. CallEvent l ev) ls"
  by (induction ls) simp_all

lemma after_write_view: "close_view (after_write n c) = close_view c"
  by (simp add: close_view_def after_write_def Let_def)

lemma doWriteIo_view:
  assumes "doWriteIo wr n e c = Some (Inr r)"
  shows "close_view (fst r) = close_view c"
proof -
  let ?P = "\<lambda>w n e c y. y = (Inr r :: _ outcome) \<longrightarrow> close_view (fst r) = close_view c"
  have "?P wr n e c (Inr r)"
  proof (rule doWriteIo.raw_induct [where P = ?P, OF _ assms], goal_cases)
    case (1 f w n e c y)
    then show ?case by (fastforce split: sum.splits prod.splits if_splits dest: write_some_view)
  qed
  then show ?thesis by simp
qed

lemma doWrite_view: "doWrite wr c = Some (Inr (c', n, e)) \<Longrightarrow> close_view c' = close_view c"
  by (auto simp: doWrite_def after_write_view dest!: doWriteIo_view split: option.splits sum.splits)

lemma flush_write_view:
  assumes "flush_write wr c = Some (Inr c')"
  shows "close_view c' = close_view c"
proof -
  let ?P = "\<lambda>w c y. y = (Inr c' :: _ outcome) \<longrightarrow> close_view c' = close_view c"
  have "?P wr c (Inr c')"
  proof (rule flush_write.raw_induct [where P = ?P, OF _ assms], goal_cases)
    case (1 f w c y)
    then show ?case by (fastforce split: option.splits sum.splits prod.splits if_splits dest: doWrite_view)
  qed
  then show ?thesis by simp
qed

lemma flush_first_view: "flush_first wr t c = Some (Inr c') \<Longrightarrow> close_view c' = close_view c"
  by (auto simp: flush_first_def close_view_def dest!: flush_write_view split: if_splits)

text \<open>
  What a step does about closing: nothing, or it closes the connection, which was open, and then
  the socket is closed and every listener there is is told, in their order and of one event.
\<close>

definition close_calls :: "('s, 'l) connection \<Rightarrow> 'l conn_call list" where
  "close_calls c = filter is_close_call (conn_calls c)"

definition close_move :: "('s, 'l) connection \<Rightarrow> ('s, 'l) connection \<Rightarrow> bool" where
  "close_move c c' \<longleftrightarrow> rawConnection c' \<noteq> None \<and>
     (conn_closed c' = conn_closed c \<and> close_calls c' = close_calls c \<or>
      \<not> conn_closed c \<and> conn_closed c' \<and>
        (\<exists>ev. close_calls c' = close_calls c @ CloseRaw # map (\<lambda>l. CallEvent l ev) (connCallbacks c)))"

lemma close_move_view:
  "close_view c' = close_view c \<Longrightarrow> close_move c' c'' \<Longrightarrow> close_move c c''"
  "close_view c' = close_view c \<Longrightarrow> rawConnection c \<noteq> None \<Longrightarrow> close_move c c'"
  by (simp_all add: close_view_def close_move_def close_calls_def)

lemma close_move_eq:
  assumes "rawConnection c \<noteq> None" and "rawConnection c' = rawConnection c" and "conn_closed c' = conn_closed c" and "conn_calls c' = conn_calls c"
  shows "close_move c c'"
  using assms by (simp add: close_move_def close_calls_def)

lemma conn_Close_calls:
  assumes "conn_Close wr t ev c = Some (Inr c')" and "\<not> conn_closed c" and "rawConnection c \<noteq> None"
  shows "close_calls c' = close_calls c @ CloseRaw # map (\<lambda>l. CallEvent l ev) (connCallbacks c)"
    and "connCallbacks c' = connCallbacks c" "conn_closed c'" "rawConnection c' \<noteq> None"
proof -
  from assms obtain c1 where c1: "close_raw ev c1 = Inr c'" "flush_first wr t (close_read (c\<lparr>conn_closed := True\<rparr>)) = Some (Inr c1)"
    by (auto simp: conn_Close_def Let_def go_outcome split: option.splits if_splits)
  from flush_first_view [OF c1(2)] assms(3) have "close_calls c1 = close_calls c" "connCallbacks c1 = connCallbacks c" "conn_closed c1"
    "rawConnection c1 \<noteq> None"
    by (auto simp: close_view_def close_read_def close_calls_def)
  with c1(1) show "close_calls c' = close_calls c @ CloseRaw # map (\<lambda>l. CallEvent l ev) (connCallbacks c)"
    "connCallbacks c' = connCallbacks c" "conn_closed c'" "rawConnection c' \<noteq> None"
    by (auto simp: close_raw_def close_calls_def Let_def split: if_splits)
qed

lemma conn_Close_closed: "conn_closed c \<Longrightarrow> conn_Close wr t ev c = Some (Inr c)"
  by (simp add: conn_Close_def)

lemma conn_Close_move:
  assumes "conn_Close wr t ev c = Some (Inr c')" and "rawConnection c \<noteq> None"
  shows "close_move c c'"
proof (cases "conn_closed c")
  case True
  with assms show ?thesis by (simp add: conn_Close_closed close_move_def)
next
  case False
  with conn_Close_calls [OF assms(1) False assms(2)] show ?thesis by (auto simp: close_move_def)
qed

lemma doRead_view:
  assumes "doRead F rd pooled fm c = Some (Inr ((fm', c'), e))" and "read_quiet F"
  shows "close_view c' = close_view c"
proof -
  from assms(1) obtain s b s' n err where s: "rawConnection c = Some s"
    "ReadOnce True rd (case readBuffer c of Some b \<Rightarrow> b | None \<Rightarrow> Take pooled) s = Some (Inr (b, s', n, err))"
    by (auto simp: doRead_def Let_def split: option.splits sum.splits)
  show ?thesis
  proof (cases err)
    case None
    with assms(1) s have "conn_onRead F n fm (after_read n b (c\<lparr>rawConnection := Some s'\<rparr>)) = Inr (fm', c')"
      by (auto simp: doRead_def Let_def go_outcome)
    then have "same_write (after_read n b (c\<lparr>rawConnection := Some s'\<rparr>)) c'"
      by (auto simp: conn_onRead_def split: if_splits intro: fm_OnRead_quiet [OF assms(2)]) (simp_all add: same_write_def)
    then show ?thesis using s(1) by (simp add: same_write_def after_read_same close_view_def)
  next
    case (Some x)
    with assms(1) s show ?thesis by (cases x) (auto simp: doRead_def Let_def close_view_def)
  qed
qed

lemma read_pass_move:
  assumes "read_pass F rd wr pooled fm c = Some (Inr (b, fm', c'))" and "read_quiet F" and "rawConnection c \<noteq> None"
  shows "close_move c c'"
proof (cases "internalStopChan c \<or> readEnabledChan c \<or> \<not> readEnabled c")
  case True
  with assms(1,3) show ?thesis by (auto simp: read_pass_def split: if_splits intro: close_move_eq)
next
  case False
  with assms(1) obtain fm1 c1 e where d: "doRead F rd pooled fm c = Some (Inr ((fm1, c1), e))"
    by (auto simp: read_pass_def split: option.splits sum.splits)
  note c1 = doRead_view [OF d assms(2)]
  show ?thesis
  proof (cases e)
    case None
    with False assms(1,3) d c1 show ?thesis by (auto simp: read_pass_def intro: close_move_view(2))
  next
    case (Some err)
    with False assms(1) d obtain ev where "conn_Close wr NoFlush ev c1 = Some (Inr c')"
      by (auto simp: read_pass_def go_outcome split: option.splits if_splits)
    from conn_Close_move [OF this] c1 assms(3) show ?thesis by (intro close_move_view(1) [OF c1]) (simp add: close_view_def)
  qed
qed

lemma do_op_move: "do_op x c = Some c' \<Longrightarrow> rawConnection c \<noteq> None \<Longrightarrow> close_move c c'"
  by (rule close_move_eq)
    (cases x; auto simp: OnHighWatermark_def OnLowWatermark_def Start_def AddConnectionEventListener_def AddBytesReadListener_def
      AddBytesSentListener_def SetReadDisable_def SetBufferLimit_def SetLocalAddress_def SetStats_def Let_def split: if_splits)+

lemma write_loop_step_move:
  assumes "write_loop_step wr s s'" and "rawConnection (fst s) \<noteq> None"
  shows "close_move (fst s) (fst s')"
  using assms
proof (induction rule: write_loop_step.induct)
  case (send c c' m e n e0)
  from close_move_view(2) [OF write_some_view [OF send.hyps(2)]] send.prems show ?case by simp
next
  case (fail c c' m e n c'' e0)
  have v: "close_view (after_write (n + m) c') = close_view c" using write_some_view [OF fail.hyps(2)] after_write_view by metis
  then have "rawConnection (after_write (n + m) c') \<noteq> None" using fail.prems by (simp add: close_view_def)
  from close_move_view(1) [OF v conn_Close_move [OF fail.hyps(4) this]] show ?case by simp
next
  case (sent c n e0)
  then show ?case by (auto intro: close_move_view(2) [OF after_write_view])
qed (auto intro: close_move_eq)

lemma conn_step_move:
  assumes "conn_step F W rd wr s a s'" and "read_quiet F" and "rawConnection (fst (snd s)) \<noteq> None"
  shows "close_move (fst (snd s)) (fst (snd s'))"
  using assms(1,3)
proof (induction rule: conn_step.induct)
  case (app_write fm bufs bufs' st pooled c c' l)
  then show ?case by (auto simp: conn_Write_def go_outcome split: if_splits intro: close_move_eq)
next
  case (loop c l c' l' fm)
  with write_loop_step_move [OF loop.hyps] show ?case by simp
next
  case (read pooled fm c b fm' c' l)
  from read_pass_move [OF read.hyps assms(2)] read.prems show ?case by simp
qed (auto intro: conn_Close_move do_op_move)

text \<open>The moment of closing: the step that found the connection open and left it closed.\<close>

definition closed_by ::
  "('f, ('s, 'l) connection) ReadFilter \<Rightarrow> ('w \<Rightarrow> iobuffer list \<Rightarrow> iobuffer list \<times> FilterStatus) \<Rightarrow> 's socket_read \<Rightarrow> 's socket_write \<Rightarrow>
     ('f, 'w, 'h) filterManager \<times> ('s, 'l) connection \<times> write_loop \<Rightarrow> ('s, 'l) connection \<Rightarrow>
     ('f, 'w, 'h) filterManager \<times> ('s, 'l) connection \<times> write_loop \<Rightarrow> bool" where
  "closed_by F W rd wr s c0 s' \<longleftrightarrow>
     (\<exists>bs fm l a s1 bs'. conn_run F W rd wr s bs (fm, c0, l) \<and> \<not> conn_closed c0 \<and>
        conn_step F W rd wr (fm, c0, l) a s1 \<and> conn_closed (fst (snd s1)) \<and> conn_run F W rd wr s1 bs' s')"

lemma closed_by_step: "closed_by F W rd wr s c0 s' \<Longrightarrow> conn_step F W rd wr s' a s'' \<Longrightarrow> closed_by F W rd wr s c0 s''"
  unfolding closed_by_def by (meson conn_run.run_step)

lemma closed_by_now:
  "conn_run F W rd wr s bs (fm, c0, l) \<Longrightarrow> \<not> conn_closed c0 \<Longrightarrow> conn_step F W rd wr (fm, c0, l) a s1 \<Longrightarrow> conn_closed (fst (snd s1)) \<Longrightarrow>
     closed_by F W rd wr s c0 s1"
  unfolding closed_by_def by (meson conn_run.run_none)

lemma conn_run_closed:
  assumes "conn_run F W rd wr s bs s'" and "read_quiet F" and "rawConnection (fst (snd s)) \<noteq> None"
    and "\<not> conn_closed (fst (snd s))" and "close_calls (fst (snd s)) = []"
  shows "rawConnection (fst (snd s')) \<noteq> None \<and>
    (if conn_closed (fst (snd s'))
     then \<exists>c0 ev. closed_by F W rd wr s c0 s' \<and> close_calls (fst (snd s')) = CloseRaw # map (\<lambda>l. CallEvent l ev) (connCallbacks c0)
     else close_calls (fst (snd s')) = [])"
  using assms(1,3-5)
proof induction
  case (run_step s a s' a' s'')
  note IH = run_step.IH [OF run_step.prems]
  then have move: "close_move (fst (snd s')) (fst (snd s''))" using conn_step_move [OF run_step.hyps(2) assms(2)] by blast
  obtain fm c l where s': "s' = (fm, c, l)" by (cases s')
  show ?case
  proof (cases "conn_closed c")
    case True
    with IH obtain c0 ev where c0: "closed_by F W rd wr s c0 s'" "close_calls c = CloseRaw # map (\<lambda>l. CallEvent l ev) (connCallbacks c0)"
      by (auto simp: s')
    with True move closed_by_step [OF c0(1) run_step.hyps(2)] show ?thesis by (auto simp: close_move_def s')
  next
    case False
    with IH move closed_by_now [OF run_step.hyps(1) [unfolded s'] False run_step.hyps(2) [unfolded s']] show ?thesis
      unfolding close_move_def s' by auto
  qed
qed simp

section \<open>Reading switched off and on\<close>

text \<open>
  How often reading has been switched off without being switched on again. The read loop takes
  the wake-up call whenever it comes around.
\<close>

definition read_depth :: "('s, 'l) connection \<Rightarrow> nat" where
  "read_depth c = (if readEnabled c then 0 else readDisableCount c + 1)"

definition count_depth :: "bool \<Rightarrow> nat \<Rightarrow> nat" where
  "count_depth disable n = (if disable then n + 1 else n - 1)"

fun switch_read :: "bool option list \<Rightarrow> ('s, 'l) connection \<Rightarrow> ('s, 'l) connection option" where
  "switch_read [] c = Some c"
| "switch_read (Some d # ds) c = (case SetReadDisable d c of None \<Rightarrow> None | Some c \<Rightarrow> switch_read ds c)"
| "switch_read (None # ds) c = switch_read ds (c\<lparr>readEnabledChan := False\<rparr>)"

fun count_switches :: "bool option list \<Rightarrow> nat \<Rightarrow> nat" where
  "count_switches [] n = n"
| "count_switches (Some d # ds) n = count_switches ds (count_depth d n)"
| "count_switches (None # ds) n = count_switches ds n"

definition switch_ok :: "('s, 'l) connection \<Rightarrow> bool" where
  "switch_ok c \<longleftrightarrow> (readEnabled c \<longrightarrow> readDisableCount c = 0)"

lemma SetReadDisable_depth:
  assumes "switch_ok c" and "SetReadDisable d c = Some c'"
  shows "switch_ok c' \<and> read_depth c' = count_depth d (read_depth c)"
  using assms by (auto simp: SetReadDisable_def switch_ok_def read_depth_def count_depth_def Let_def split: if_splits)

lemma switch_read_depth:
  assumes "switch_ok c" and "switch_read ds c = Some c'"
  shows "switch_ok c' \<and> read_depth c' = count_switches ds (read_depth c)"
  using assms
proof (induction ds c arbitrary: rule: switch_read.induct)
  case (2 d ds c)
  then show ?case using SetReadDisable_depth by (fastforce split: option.splits)
qed (simp_all add: switch_ok_def read_depth_def)

section \<open>Properties\<close>

text \<open>
  C3 (safety). Whatever is called on a connection, from any goroutine and in any order, and
  however its read and write loops get on, what has left the socket followed by what waits in
  the write buffer is what had left it before followed by the buffers accepted by \<open>Write\<close>, in
  the order of the calls: nothing is lost, repeated or reordered, with any errors of the socket.
\<close>

theorem written_bytes_in_order:
  assumes "conn_run F W rd wr (fm, c, WIdle) bs (fm', c', l)" and "socket_contract wr out" and "reads_only rd out" and "read_quiet F"
    and "conn_wf c" and "unsent c = []"
  shows "out_bytes out c' @ unsent c' = out_bytes out c @ bs"
  using conn_run_inv [OF assms(1-4), of "out_bytes out c"] assms(5,6) by (simp add: conn_inv_def)

text \<open>A socket that remembers what it took, and a filter that does nothing.\<close>

definition log_socket :: "byte list socket_write" where
  "log_socket s src = (s @ src, length src, None)"

definition closed_reader :: "byte list socket_read" where
  "closed_reader s n = Inr (s, [], Some EOF)"

definition idle_filter :: "(unit, (byte list, nat) connection) ReadFilter" where
  "idle_filter = \<lparr>InitializeReadFilterCallbacks = (\<lambda>f c. c), OnNewConnection = (\<lambda>f c. Inr (c, Continue)), OnData = (\<lambda>f c. Inr (c, Continue))\<rparr>"

definition two_writes :: "(byte list, nat) connection" where
  "two_writes = (let c = Start (new_connection 2 (Some []) True) in
     c\<lparr>writeBuffer := Some (case write_buffers [NewIoBufferBytes [1, 2], NewIoBufferBytes [3]] (NewIoBuffer DefaultBufferCapacity) of Inr b \<Rightarrow> b),
       writeBufferChan := True\<rparr>)"

lemma sample_socket: "socket_contract log_socket (\<lambda>s. s)" "takes_all log_socket" "reads_only closed_reader (\<lambda>s. s)" "read_quiet idle_filter"
  by (simp_all add: socket_contract_def writer_contract_def log_socket_def takes_all_def reads_only_def closed_reader_def
      read_quiet_def idle_filter_def same_write_def)

lemma sample_new: "conn_wf (new_connection i (Some s) tcp)" "unsent (new_connection i (Some s) tcp) = []"
  "out_bytes out (new_connection i (Some s) tcp) = out s" "switch_ok (new_connection i (Some s) tcp)"
  by (simp_all add: conn_wf_def new_connection_def unsent_def out_bytes_def switch_ok_def)

lemma two_writes_run:
  "conn_run idle_filter (\<lambda>w :: unit. \<lambda>bufs. (bufs, Continue)) closed_reader log_socket (newFilterManager :: (unit, unit, unit) filterManager, new_connection 2 (Some []) True, WIdle)
     [1, 2, 3] (newFilterManager, two_writes, WIdle)"
proof -
  let ?W = "\<lambda>w :: unit. \<lambda>bufs. (bufs, Continue)" and ?fm = "newFilterManager :: (unit, unit, unit) filterManager"
  let ?bufs = "[NewIoBufferBytes [1, 2], NewIoBufferBytes [3]]" and ?c = "new_connection 2 (Some []) True :: (byte list, nat) connection"
  have start: "conn_step idle_filter ?W closed_reader log_socket (?fm, ?c, WIdle) [] (?fm, Start ?c, WIdle)"
    by (rule other [of OpStart]) simp
  have w: "fm_OnWrite ?W ?fm ?bufs = (?bufs, Continue)" by (simp add: fm_OnWrite_def newFilterManager_def)
  have wf: "list_all iob_wf ?bufs" by simp
  from write_buffers_wf [OF wf NewIoBuffer_wf(1) [of DefaultBufferCapacity]] obtain b where
    "write_buffers ?bufs (NewIoBuffer DefaultBufferCapacity) = Inr b" by blast
  then have "conn_Write ?W ?fm None ?bufs (Start ?c) = Inr two_writes"
    by (simp add: conn_Write_def w two_writes_def new_connection_def Start_def Take_def)
  from run_step [OF run_step [OF run_none start] app_write [OF w wf _ this]] show ?thesis by (simp add: pool_ok_def)
qed

theorem written_bytes_in_order_witness: "out_bytes (\<lambda>s. s) two_writes @ unsent two_writes = [1, 2, 3]"
  using written_bytes_in_order [OF two_writes_run sample_socket(1,3,4) sample_new(1,2)] by (simp add: sample_new)

text \<open>
  C4 (liveness). Nothing that has been written is forgotten. Take any time when the write loop
  runs and the connection is not being closed, and let only the write loop act from then on, on
  a socket that takes at least one byte whenever it is offered some. Then the loop makes at most
  three steps more than there are bytes in the write buffer, and it stands still only when every
  byte accepted so far has left the socket: it never waits with bytes in the buffer and no
  wake-up call to come.
\<close>

theorem accepted_bytes_delivered:
  assumes "conn_run F W rd wr (fm, c, WIdle) bs (fm', c', l)" and "socket_contract wr out" and "reads_only rd out" and "read_quiet F"
    and "conn_wf c" and "unsent c = []" and "l \<noteq> WStopped" and "internalLoopStarted c'" and "\<not> internalStopChan c'"
    and "takes_some wr" and "(write_loop_step wr ^^ n) (c', l) (c'', l'')"
  shows "n \<le> length (unsent c') + 3 \<and>
    ((\<exists>s. write_loop_step wr (c'', l'') s) \<or> l'' = WIdle \<and> unsent c'' = [] \<and> out_bytes out c'' = out_bytes out c @ bs)"
proof -
  have "conn_inv out (out_bytes out c @ bs) c' l"
    using conn_run_inv [OF assms(1-4), of "out_bytes out c"] assms(5,6) by (simp add: conn_inv_def)
  moreover have "loop_runs (c', l)" using assms(7-9) by (simp add: loop_runs_def)
  ultimately have steps: "conn_inv out (out_bytes out c @ bs) c'' l''" "loop_runs (c'', l'')" "n \<le> loop_left (c', l)"
    using loop_steps_deliver [OF assms(11) _ _ assms(10,2), of "out_bytes out c @ bs"] by (auto simp del: loop_left.simps)
  have "loop_left (c', l) \<le> length (unsent c') + 3" by (cases l) simp_all
  with steps write_loop_step_enabled [OF steps(1,2) assms(2,10)] show ?thesis by (auto simp: conn_inv_def)
qed

lemma idle_loop_waits: "\<not> writeBufferChan c \<Longrightarrow> \<not> internalStopChan c \<Longrightarrow> \<not> write_loop_step wr (c, WIdle) s"
  by (auto elim: write_loop_step.cases)

theorem accepted_bytes_delivered_witness:
  "\<exists>c. (write_loop_step log_socket ^^ 3) (two_writes, WIdle) (c, WIdle) \<and> unsent c = [] \<and> out_bytes (\<lambda>s. s) c = [1, 2, 3]"
proof -
  let ?c = "two_writes\<lparr>writeBufferChan := False\<rparr>"
  have two: "internalLoopStarted two_writes" "\<not> internalStopChan two_writes" "writeBufferChan two_writes"
    by (simp_all add: two_writes_def new_connection_def Start_def Let_def)
  have some: "takes_some log_socket" by (simp add: takes_some_def log_socket_def fatal_def)
  have "conn_inv (\<lambda>s. s) [1, 2, 3] two_writes WIdle"
    using conn_run_inv [OF two_writes_run sample_socket(1,3,4), of "[]"] by (simp add: conn_inv_def sample_new)
  then have wf: "conn_wf ?c" and all: "out_bytes (\<lambda>s. s) two_writes @ unsent two_writes = [1, 2, 3]"
    by (simp_all add: conn_inv_def conn_wf_def)
  have "unsent two_writes = [1, 2, 3]" using all by (simp add: out_bytes_def two_writes_def new_connection_def Start_def)
  then have len: "writeBufLen ?c > 0" using writeBufLen_unsent [OF wf] by (simp add: unsent_def)
  from takes_all_some [OF wf sample_socket(2,1) len] obtain c m where
    c: "write_some log_socket ?c = Inr (c, m, None)" "unsent c = []" "conn_wf c" by blast
  have chan: "\<not> writeBufferChan c" "\<not> internalStopChan c"
    using write_some_keeps(3) [OF wf sample_socket(1) c(1)] write_some_loop [OF c(1)] two(2) by simp_all
  have "write_loop_step log_socket (two_writes, WIdle) (?c, WSending 0 None)" using two(1,3) by (rule write_loop_step.wake)
  moreover have "write_loop_step log_socket (?c, WSending 0 None) (c, WSending (0 + m) None)"
    using len c(1) by (rule write_loop_step.send) (simp add: fatal_def)
  moreover have "write_loop_step log_socket (c, WSending (0 + m) None) (after_write (0 + m) c, WIdle)"
    using c(2) writeBufLen_unsent [OF c(3)] by (intro write_loop_step.sent) simp
  ultimately have steps: "(write_loop_step log_socket ^^ 3) (two_writes, WIdle) (after_write (0 + m) c, WIdle)"
    by (simp add: numeral_3_eq_3) blast
  have "\<not> write_loop_step log_socket (after_write (0 + m) c, WIdle) s" for s using chan by (intro idle_loop_waits) simp_all
  with accepted_bytes_delivered [OF two_writes_run sample_socket(1,3,4) sample_new(1,2) _ two(1,2) some steps] steps show ?thesis
    by (auto simp: sample_new)
qed

text \<open>
  C18 (invariant). A connection is closed once: however many goroutines close it, for whatever
  reasons, there is one step that found it open and left it closed, the socket is closed once,
  before any listener is told, and then every listener the connection had when that step began is
  told once, in the order they were added and all of the same event. Listeners added later are
  not told, and as long as the connection is open nothing of this happens.
\<close>

theorem closed_once:
  assumes "conn_run F W rd wr (fm, new_connection i (Some s) tcp, WIdle) bs (fm', c, l)" and "read_quiet F"
  shows "if conn_closed c
    then \<exists>c0 ev. closed_by F W rd wr (fm, new_connection i (Some s) tcp, WIdle) c0 (fm', c, l) \<and>
           close_calls c = CloseRaw # map (\<lambda>l. CallEvent l ev) (connCallbacks c0)
    else close_calls c = []"
proof -
  let ?s = "(fm, new_connection i (Some s) tcp, WIdle)"
  have "rawConnection (fst (snd ?s)) \<noteq> None" "\<not> conn_closed (fst (snd ?s))" "close_calls (fst (snd ?s)) = []"
    by (simp_all add: new_connection_def close_calls_def)
  from conn_run_closed [OF assms this, THEN conjunct2] show ?thesis by (simp only: fst_conv snd_conv)
qed

text \<open>Two listeners are told of a close, and one that comes after it is not.\<close>

definition late_listener :: "(byte list, nat) connection" where
  "late_listener =
     (case conn_Close log_socket NoFlush LocalClose
        (AddConnectionEventListener 8 (AddConnectionEventListener 7 (new_connection 2 (Some []) True))) of
        Some (Inr c) \<Rightarrow> AddConnectionEventListener 9 c)"

lemma late_listener_run:
  fixes fm :: "(unit, unit, unit) filterManager"
  shows "conn_run idle_filter (\<lambda>w :: unit. \<lambda>bufs. (bufs, Continue)) closed_reader log_socket (fm, new_connection 2 (Some []) True, WIdle) [] (fm, late_listener, WIdle)"
proof -
  let ?W = "\<lambda>w :: unit. \<lambda>bufs. (bufs, Continue)"
  let ?c = "new_connection 2 (Some []) True :: (byte list, nat) connection"
  have add: "conn_run idle_filter ?W closed_reader log_socket s [] (fm, AddConnectionEventListener k c, WIdle)"
    if "conn_run idle_filter ?W closed_reader log_socket s [] (fm, c, WIdle)" for k c s
    using run_step [OF that other [of "OpEventListener k"]] by simp
  obtain c where c: "conn_Close log_socket NoFlush LocalClose (AddConnectionEventListener 8 (AddConnectionEventListener 7 ?c)) = Some (Inr c)"
    by (simp add: conn_Close_def new_connection_def AddConnectionEventListener_def flush_first_def close_read_def close_raw_def new_stats_def Let_def)
  from run_step [OF add [OF add [OF run_none]] close [OF c]]
  have "conn_run idle_filter ?W closed_reader log_socket (fm, ?c, WIdle) [] (fm, c, WIdle)" by simp
  from add [OF this, of 9] show ?thesis by (simp add: late_listener_def c)
qed

theorem closed_once_witness:
  "connCallbacks late_listener = [7, 8, 9] \<and> close_calls late_listener = [CloseRaw, CallEvent 7 LocalClose, CallEvent 8 LocalClose] \<and>
   (\<exists>c0. closed_by idle_filter (\<lambda>w :: unit. \<lambda>bufs. (bufs, Continue)) closed_reader log_socket
      (newFilterManager :: (unit, unit, unit) filterManager, new_connection 2 (Some []) True, WIdle) c0 (newFilterManager, late_listener, WIdle) \<and>
      connCallbacks c0 = [7, 8])"
proof -
  have late: "conn_closed late_listener \<and> connCallbacks late_listener = [7, 8, 9] \<and>
      close_calls late_listener = [CloseRaw, CallEvent 7 LocalClose, CallEvent 8 LocalClose]"
    by (simp add: late_listener_def conn_Close_def new_connection_def AddConnectionEventListener_def flush_first_def close_read_def
        close_raw_def new_stats_def close_calls_def Let_def)
  with closed_once [OF late_listener_run [of newFilterManager] sample_socket(4)] obtain c0 ev where
    c0: "closed_by idle_filter (\<lambda>w :: unit. \<lambda>bufs. (bufs, Continue)) closed_reader log_socket
      (newFilterManager :: (unit, unit, unit) filterManager, new_connection 2 (Some []) True, WIdle) c0 (newFilterManager, late_listener, WIdle)"
    "[CallEvent 7 LocalClose, CallEvent 8 LocalClose] = map (\<lambda>l. CallEvent l ev) (connCallbacks c0)" by auto
  from arg_cong [OF c0(2), of "map (\<lambda>x. case x of CallEvent l e \<Rightarrow> l)"] have "connCallbacks c0 = [7, 8]" by (simp add: comp_def)
  with c0(1) late show ?thesis by blast
qed

text \<open>
  Switching reading off and on nests: after any calls of \<open>SetReadDisable\<close>
  that do not block, with the read loop taking its wake-up calls in between, reading is
  enabled exactly when no call that switched it off is left without its counterpart.
\<close>

lemma read_disable_nests:
  assumes "switch_read ds (new_connection i raw tcp) = Some c"
  shows "readEnabled c \<longleftrightarrow> count_switches ds 0 = 0"
proof -
  have "switch_ok (new_connection i raw tcp)" by (simp add: switch_ok_def new_connection_def)
  from switch_read_depth [OF this assms] have "read_depth c = count_switches ds 0" by (simp add: read_depth_def new_connection_def)
  then show ?thesis by (auto simp: read_depth_def split: if_splits)
qed

lemma enable_twice_blocks:
  "readEnabled c \<Longrightarrow> readDisableCount c = 0 \<Longrightarrow> switch_read [Some False, Some False] c = None"
  by (auto simp: SetReadDisable_def Let_def)

text \<open>
  Bytes that were read are lost when the same call of \<open>doRead\<close> ends in an error: a
  peer that sends as much as the read buffer has room for and closes has its data thrown away
  with the buffer. No filter sees it, although \<open>ReadOnce\<close> delivered it.
\<close>

lemma read_before_error_lost:
  assumes "rawConnection c = Some s" and "e \<noteq> Timeout"
    and "ReadOnce True rd (case readBuffer c of Some b \<Rightarrow> b | None \<Rightarrow> Take pooled) s = Some (Inr (b, s', n, Some e))"
  shows "doRead F rd pooled fm c = Some (Inr ((fm, c\<lparr>rawConnection := Some s', readBuffer := None\<rparr>), Some e))"
  using assms by (cases e) (simp_all add: doRead_def Let_def)

text \<open>A peer that fills the space it is offered, once, and closes.\<close>

definition fill_and_close :: "bool socket_read" where
  "fill_and_close s n = Inr (True, if s then [] else replicate n 7, if s then Some EOF else None)"

lemma fill_and_close_read:
  "\<exists>b. ReadOnce True fill_and_close (Take None) False = Some (Inr (b, True, DefaultBufferCapacity, Some EOF)) \<and>
     contents b = replicate DefaultBufferCapacity 7"
proof -
  let ?b = "Reset (NewIoBuffer DefaultBufferCapacity)"
  have wf: "iob_wf ?b" "contents ?b = []" by simp_all
  have b: "(if boff (Take None) \<ge> int (blen (Take None)) then Reset (Take None) else Take None) = ?b" "compact ?b = Inr ?b"
    "make_room ?b MinRead = Inr ?b" "bcap ?b - blen ?b = DefaultBufferCapacity"
    by (simp_all add: Take_def NewIoBuffer_def Reset_def compact_def make_room_def Let_def MinRead_def DefaultBufferCapacity_def)
  from put_tail_wf [OF wf(1), of "replicate DefaultBufferCapacity 7"] b(4) obtain b2 where
    b2: "put_tail ?b (replicate DefaultBufferCapacity 7) = Inr b2" "iob_wf b2" "contents b2 = replicate DefaultBufferCapacity 7"
    by (auto simp: wf(2))
  from make_room_wf [OF b2(2), of MinRead] obtain b3 where b3: "make_room b2 MinRead = Inr b3" "contents b3 = contents b2" by blast
  have "ReadOnceLoop fill_and_close b2 True DefaultBufferCapacity = Some (Inr (b3, True, DefaultBufferCapacity, Some EOF))"
    by (simp add: ReadOnceLoop.simps [of _ b2] b3(1) fill_and_close_def)
  moreover have "\<not> MaxRead < DefaultBufferCapacity" by (simp add: MaxRead_def DefaultBufferCapacity_def)
  then have "ReadOnceLoop fill_and_close ?b False 0 = ReadOnceLoop fill_and_close b2 True DefaultBufferCapacity"
    by (subst ReadOnceLoop.simps) (simp add: b(3,4) fill_and_close_def b2(1))
  ultimately show ?thesis using b3(2) b2(3) by (simp add: ReadOnce_def b(1,2))
qed

definition silent_filter :: "(unit, (bool, unit) connection) ReadFilter" where
  "silent_filter = \<lparr>InitializeReadFilterCallbacks = (\<lambda>f c. c), OnNewConnection = (\<lambda>f c. Inr (c, Continue)), OnData = (\<lambda>f c. Inr (c, Continue))\<rparr>"

end
