(* ===== verification/Codec_Client.thy ===== *)
theory Codec_Client
  imports Sofa_Stream Net_Connection
begin

text \<open>
  The client side of an upstream connection: \<open>pkg/stream/codecclient.go\<close> over the streams of a
  SofaRPC connection. An active request stands between a stream and the receiver of the
  response: it is the stream's receiver and one of its listeners. Requests are named by their
  place in the list of all requests ever made. What is called on the callbacks of the client, on
  receivers and on other listeners is kept in \<open>client_calls\<close>.
\<close>

datatype 'r listener = Request nat | Outside 'r

record 'r activeRequest =
  responseReceiver :: 'r
  requestSender :: nat
  deleted :: bool

datatype 'r client_call =
    OnStreamDestroy
  | OnStreamReset string
  | ReceiverHeaders 'r smap bool
  | ReceiverData 'r "byte list" bool
  | ListenerReset 'r string

record 'r codecClient =
  Codec :: "'r listener streamConnection"
  requests_made :: "'r activeRequest list"
  ActiveRequests :: "nat list"
  ConnectedFlag :: bool
  RemoteCloseFlag :: bool
  client_calls :: "'r client_call list"

definition NewCodecClient :: "'r codecClient" where
  "NewCodecClient = \<lparr>Codec = newStreamConnection None, requests_made = [], ActiveRequests = [], ConnectedFlag = False,
     RemoteCloseFlag = False, client_calls = []\<rparr>"

definition ActiveRequestsNum :: "'r codecClient \<Rightarrow> nat" where
  "ActiveRequestsNum c = length (ActiveRequests c)"

definition log_client :: "'r client_call \<Rightarrow> 'r codecClient \<Rightarrow> 'r codecClient" where
  "log_client a c = c\<lparr>client_calls := client_calls c @ [a]\<rparr>"

definition newActiveRequest :: "'r \<Rightarrow> nat \<Rightarrow> 'r activeRequest" where
  "newActiveRequest r p = \<lparr>responseReceiver = r, requestSender = p, deleted = False\<rparr>"

definition client_NewStream :: "string \<Rightarrow> 'r \<Rightarrow> 'r codecClient \<Rightarrow> 'r codecClient \<times> nat" where
  "client_NewStream sid r c =
     (let i = length (requests_made c);
          (codec, p) = conn_NewStream sid (Request i) (Codec c);
          codec = AddEventListener p (Request i) codec
      in (c\<lparr>Codec := codec, requests_made := requests_made c @ [newActiveRequest r p], ActiveRequests := ActiveRequests c @ [i]\<rparr>, p))"

text \<open>The compare-and-swap on \<open>deleted\<close> lets the first caller pass.\<close>

definition deleteRequest :: "nat \<Rightarrow> 'r codecClient \<Rightarrow> 'r codecClient" where
  "deleteRequest i c =
     (if deleted (requests_made c ! i) then c
      else
        log_client OnStreamDestroy
          (c\<lparr>requests_made := (requests_made c)[i := (requests_made c ! i)\<lparr>deleted := True\<rparr>],
             ActiveRequests := remove1 i (ActiveRequests c)\<rparr>))"

definition onReset :: "nat \<Rightarrow> string \<Rightarrow> 'r codecClient \<Rightarrow> 'r codecClient" where
  "onReset i reason c = deleteRequest i (log_client (OnStreamReset reason) c)"

definition responseDecodeComplete :: "nat \<Rightarrow> 'r codecClient \<Rightarrow> 'r codecClient" where
  "responseDecodeComplete i c =
     (let c = deleteRequest i c
      in c\<lparr>Codec := RemoveEventListener (requestSender (requests_made c ! i)) (Request i) (Codec c)\<rparr>)"

definition request_OnReceiveHeaders :: "nat \<Rightarrow> smap \<Rightarrow> bool \<Rightarrow> 'r codecClient \<Rightarrow> 'r codecClient" where
  "request_OnReceiveHeaders i headers e c =
     (let c = (if e then responseDecodeComplete i c else c)
      in log_client (ReceiverHeaders (responseReceiver (requests_made c ! i)) headers e) c)"

definition request_OnReceiveData :: "nat \<Rightarrow> byte list \<Rightarrow> bool \<Rightarrow> 'r codecClient \<Rightarrow> 'r codecClient" where
  "request_OnReceiveData i data e c =
     (let c = (if e then responseDecodeComplete i c else c)
      in log_client (ReceiverData (responseReceiver (requests_made c ! i)) data e) c)"

text \<open>What the streams of the connection call, in the order they call it; a decode error is ignored.\<close>

fun react :: "'r listener call \<Rightarrow> 'r codecClient \<Rightarrow> 'r codecClient" where
  "react (CallReceiveHeaders (Request i) h e) c = request_OnReceiveHeaders i h e c"
| "react (CallReceiveData (Request i) bs e) c = request_OnReceiveData i bs e c"
| "react (CallResetStream (Request i) reason) c = onReset i reason c"
| "react (CallResetStream (Outside r) reason) c = log_client (ListenerReset r reason) c"
| "react _ c = c"

definition react_to :: "'r listener streamConnection \<Rightarrow> 'r codecClient \<Rightarrow> 'r codecClient" where
  "react_to codec c = fold react (drop (length (calls (Codec c))) (calls codec)) (c\<lparr>Codec := codec\<rparr>)"

definition client_reset :: "nat \<Rightarrow> string \<Rightarrow> 'r codecClient \<Rightarrow> 'r codecClient" where
  "client_reset p reason c = react_to (stream_ResetStream p reason (Codec c)) c"

definition client_OnEvent :: "ConnectionEvent \<Rightarrow> 'r codecClient \<Rightarrow> 'r codecClient" where
  "client_OnEvent event c =
     (let c = (if event = Connected then c\<lparr>ConnectedFlag := True\<rparr>
               else if event = RemoteClose then c\<lparr>RemoteCloseFlag := True\<rparr> else c)
      in if IsClose event \<or> ConnectFailure event
         then fold (\<lambda>i c. client_reset (requestSender (requests_made c ! i))
                (if ConnectedFlag c then ''StreamConnectionTermination'' else ''StreamConnectionFailed'') c) (ActiveRequests c) c
         else c)"

definition client_OnData ::
  "smap option \<times> smap option \<Rightarrow> (nat \<Rightarrow> 64 word) \<Rightarrow> iobuffer \<Rightarrow> IDGenerator \<Rightarrow> 'r codecClient \<Rightarrow>
     (iobuffer \<times> IDGenerator \<times> 'r codecClient) outcome option" where
  "client_OnData pools clk data g c =
     (case Dispatch pools clk data (g, Inr (Codec c)) of
        None \<Rightarrow> None
      | Some (Inl p) \<Rightarrow> Some (Inl p)
      | Some (Inr (b, g, codec)) \<Rightarrow> Some (obind codec (\<lambda>codec. Inr (b, g, react_to codec c))))"

section \<open>What a dispatch keeps\<close>

text \<open>A property of the decode filter that its callbacks keep is kept by a whole dispatch.\<close>

locale filter_invariant =
  fixes flt :: "'f DecodeFilter" and inv :: "'f \<Rightarrow> bool"
  assumes header: "inv f \<Longrightarrow> inv (fst (OnDecodeHeader flt i h f))"
    and data: "inv f \<Longrightarrow> inv (fst (OnDecodeData flt i b f))"
    and error: "inv f \<Longrightarrow> inv (OnDecodeError flt e f)"
begin

lemma present_inv: "inv f \<Longrightarrow> inv (present flt i h b f)"
  by (auto simp: present_def Let_def header data case_prod_unfold split: option.splits)

lemma header_only_inv: "inv f \<Longrightarrow> inv (header_only flt i h f)"
  by (auto simp: header_only_def header split: option.splits)

lemma Process_inv:
  assumes "Process p flt pools cmd st = Inr st'" and "inv (snd st)"
  shows "inv (snd st')"
  using assms
  by (cases p; cases cmd)
    (auto simp: BoltRequestProcessor_Process_def BoltRequestProcessorV2_Process_def BoltResponseProcessor_Process_def
      BoltResponseProcessorV2_Process_def boltHbProcessor_Process_def go_outcome Let_def case_prod_unfold intro: present_inv header_only_inv)

lemma HandleCommand_inv:
  assumes "HandleCommand h flt pools cmd st = Inr ((g, f), e)" and "inv (snd st)"
  shows "inv f"
  using assms by (auto simp: HandleCommand_def go_outcome split: option.splits dest: Process_inv)

lemma Decode_inv:
  assumes "protocols_Decode flt pools clk k pm b st = Some (Inr r)" and "inv (snd st)"
  shows "inv (snd (snd r))"
proof -
  let ?P = "\<lambda>f pools clk k pm b st y. f = flt \<and> y = (Inr r :: _ outcome) \<and> inv (snd st) \<longrightarrow> inv (snd (snd r))"
  have "?P flt pools clk k pm b st (Inr r)"
  proof (rule protocols_Decode.raw_induct [where P = ?P, OF _ assms(1)], goal_cases)
    case (1 rec f pools clk k pm b st y)
    show ?case
    proof (intro impI, elim conjE)
      assume eq: "f = flt" "y = Inr r" "inv (snd st)"
      from 1(2) consider "snd (snd r) = snd st" | e where "snd (snd r) = OnDecodeError flt e (snd st)"
        | h cmd g f' e where "HandleCommand h flt pools cmd st = Inr ((g, f'), Some e)" "snd (snd r) = OnDecodeError flt e f'"
        | h cmd g f' b' where "HandleCommand h flt pools cmd st = Inr ((g, f'), None)" "rec flt pools clk (k + 1) pm b' (g, f') = Some (Inr r)"
        unfolding eq(1,2) by (auto split: if_splits sum.splits option.splits prod.splits)
      then show "inv (snd (snd r))"
      proof cases
        case (4 h cmd g f' b')
        from 1(1) [OF 4(2)] HandleCommand_inv [OF 4(1) eq(3)] show ?thesis by simp
      qed (simp_all add: eq(3) error HandleCommand_inv [OF _ eq(3)])
    qed
  qed
  with assms(2) show ?thesis by simp
qed

end

section \<open>What a client connection calls\<close>

fun target_ok :: "nat \<Rightarrow> 'r listener \<Rightarrow> bool" where
  "target_ok n (Request i) \<longleftrightarrow> i < n"
| "target_ok n (Outside r) \<longleftrightarrow> True"

fun call_ok :: "nat \<Rightarrow> 'r listener call \<Rightarrow> bool" where
  "call_ok n (CallReceiveHeaders d h e) \<longleftrightarrow> target_ok n d"
| "call_ok n (CallReceiveData d bs e) \<longleftrightarrow> target_ok n d"
| "call_ok n (CallResetStream d r) \<longleftrightarrow> target_ok n d"
| "call_ok n _ \<longleftrightarrow> True"

definition client_conn :: "nat \<Rightarrow> 'r listener streamConnection \<Rightarrow> 'r listener streamConnection \<Rightarrow> bool" where
  "client_conn n c0 c \<longleftrightarrow> serverCallbacks c = None \<and> streams c = streams c0 \<and>
     (\<forall>i s. activeStreams c i = Some s \<longrightarrow> target_ok n (decoder s)) \<and> (\<exists>new. calls c = calls c0 @ new \<and> list_all (call_ok n) new)"

lemma client_conn_log: "client_conn n c0 c \<Longrightarrow> call_ok n a \<Longrightarrow> client_conn n c0 (log_call a c)"
  by (auto simp: client_conn_def)

lemma client_conn_Remove: "client_conn n c0 c \<Longrightarrow> client_conn n c0 (Remove i c)"
  by (auto simp: client_conn_def)

lemma client_conn_target: "client_conn n c0 c \<Longrightarrow> activeStreams c i = Some s \<Longrightarrow> target_ok n (decoder s)"
  by (simp add: client_conn_def)

lemma client_conn_detect: "client_conn n c0 c \<Longrightarrow> onNewStreamDetected i h c = Inr (c', h') \<Longrightarrow> client_conn n c0 c'"
  by (auto simp: onNewStreamDetected_def client_conn_def Let_def split: if_splits)

lemma client_conn_receive:
  assumes "client_conn n c0 c"
  shows "client_conn n c0 (fst (receive_headers i (c, h)))" and "client_conn n c0 (receive_error i err (c, h))"
  using assms by (auto simp: receive_headers_def receive_error_def Let_def case_prod_unfold client_conn_target
      intro!: client_conn_log client_conn_Remove split: option.splits)

lemma client_conn_header:
  assumes "client_conn n c0 c" and "conn_OnDecodeHeader i h c = Inr (c', b)"
  shows "client_conn n c0 c'"
  using assms client_conn_receive(1) client_conn_detect
  by (fastforce simp: conn_OnDecodeHeader_def obind_eq_Inr split: if_splits dest: arg_cong [of _ _ fst])

lemma client_conn_data: "client_conn n c0 c \<Longrightarrow> client_conn n c0 (fst (conn_OnDecodeData i d c))"
  by (auto simp: conn_OnDecodeData_def Let_def client_conn_target intro!: client_conn_log client_conn_Remove split: option.splits)

lemma client_conn_error:
  assumes "client_conn n c0 c" and "conn_OnDecodeError err h c = Inr c'"
  shows "client_conn n c0 c'"
proof -
  have "client_conn n c0 c'" if "obind (onNewStreamDetected v m c) (\<lambda>r. Inr (receive_error v err r)) = Inr c'" for v m
    using that by (auto simp: obind_eq_Inr intro: client_conn_receive(2) client_conn_detect [OF assms(1)])
  moreover have "client_conn n c0 (log_call CloseConnection c)" using assms(1) by (simp add: client_conn_log)
  ultimately show ?thesis using assms by (auto simp: conn_OnDecodeError_def split: if_split_asm option.split_asm)
qed

text \<open>A stream connection without server callbacks is a decode filter that keeps all that.\<close>

definition client_state :: "nat \<Rightarrow> 'r listener streamConnection \<Rightarrow> 'r listener streamConnection outcome \<Rightarrow> bool" where
  "client_state n c0 f \<longleftrightarrow> (case f of Inl _ \<Rightarrow> True | Inr c \<Rightarrow> client_conn n c0 c)"

interpretation client_filter: filter_invariant stream_filter "client_state n c0" for n c0
proof unfold_locales
  fix f i h b e
  assume f: "client_state n c0 f"
  show "client_state n c0 (fst (OnDecodeHeader stream_filter i h f))"
    using f by (auto simp: stream_filter_def client_state_def go_outcome split: sum.splits prod.splits dest: client_conn_header)
  show "client_state n c0 (fst (OnDecodeData stream_filter i b f))"
    using f client_conn_data [of n c0 _ i b] by (fastforce simp: stream_filter_def client_state_def split: sum.splits prod.splits)
  show "client_state n c0 (OnDecodeError stream_filter e f)"
    using f by (auto simp: stream_filter_def client_state_def go_outcome split: sum.splits dest: client_conn_error)
qed

lemma Dispatch_client:
  assumes "Dispatch pools clk b (g, Inr c) = Some (Inr (b', g', Inr c'))" and "serverCallbacks c = None"
    and "\<And>i s. activeStreams c i = Some s \<Longrightarrow> target_ok n (decoder s)"
  shows "client_conn n c c'"
  using client_filter.Decode_inv [of pools clk 0 defaultProtocols b "(g, Inr c)" "(b', g', Inr c')" n c] assms
  by (simp add: Dispatch_def client_state_def client_conn_def)

section \<open>Every stream is destroyed once\<close>

definition destroyed :: "'r codecClient \<Rightarrow> nat" where
  "destroyed c = length (filter (\<lambda>a. a = OnStreamDestroy) (client_calls c))"

definition client_ok :: "'r codecClient \<Rightarrow> bool" where
  "client_ok c \<longleftrightarrow> (let n = length (requests_made c); ss = streams (Codec c) in
     serverCallbacks (Codec c) = None \<and> (\<forall>i s. activeStreams (Codec c) i = Some s \<longrightarrow> target_ok n (decoder s)) \<and>
     (\<forall>i < n. requestSender (requests_made c ! i) < length ss) \<and>
     (\<forall>i < n. \<not> deleted (requests_made c ! i) \<longrightarrow> Request i \<in> set (streamCbs (ss ! requestSender (requests_made c ! i)))) \<and>
     (\<forall>p < length ss. \<forall>d \<in> set (streamCbs (ss ! p)). target_ok n d) \<and>
     ActiveRequests c = filter (\<lambda>i. \<not> deleted (requests_made c ! i)) [0..<n] \<and> destroyed c + length (ActiveRequests c) = n)"

lemma client_okD:
  assumes "client_ok c"
  shows "serverCallbacks (Codec c) = None"
    and "activeStreams (Codec c) k = Some s \<Longrightarrow> target_ok (length (requests_made c)) (decoder s)"
    and "i < length (requests_made c) \<Longrightarrow> requestSender (requests_made c ! i) < length (streams (Codec c))"
    and "i < length (requests_made c) \<Longrightarrow> \<not> deleted (requests_made c ! i) \<Longrightarrow>
      Request i \<in> set (streamCbs (streams (Codec c) ! requestSender (requests_made c ! i)))"
    and "p < length (streams (Codec c)) \<Longrightarrow> d \<in> set (streamCbs (streams (Codec c) ! p)) \<Longrightarrow> target_ok (length (requests_made c)) d"
    and "ActiveRequests c = filter (\<lambda>i. \<not> deleted (requests_made c ! i)) [0..<length (requests_made c)]"
    and "destroyed c + length (ActiveRequests c) = length (requests_made c)"
  using assms unfolding client_ok_def Let_def by blast+

lemma client_okI:
  assumes "serverCallbacks (Codec c) = None"
    and "\<And>k s. activeStreams (Codec c) k = Some s \<Longrightarrow> target_ok (length (requests_made c)) (decoder s)"
    and "\<And>i. i < length (requests_made c) \<Longrightarrow> requestSender (requests_made c ! i) < length (streams (Codec c))"
    and "\<And>i. i < length (requests_made c) \<Longrightarrow> \<not> deleted (requests_made c ! i) \<Longrightarrow>
      Request i \<in> set (streamCbs (streams (Codec c) ! requestSender (requests_made c ! i)))"
    and "\<And>p d. p < length (streams (Codec c)) \<Longrightarrow> d \<in> set (streamCbs (streams (Codec c) ! p)) \<Longrightarrow> target_ok (length (requests_made c)) d"
    and "ActiveRequests c = filter (\<lambda>i. \<not> deleted (requests_made c ! i)) [0..<length (requests_made c)]"
    and "destroyed c + length (ActiveRequests c) = length (requests_made c)"
  shows "client_ok c"
  using assms unfolding client_ok_def Let_def by blast

lemma client_ok_log:
  assumes "client_ok c" and "a \<noteq> OnStreamDestroy"
  shows "client_ok (log_client a c)"
  using assms by (auto simp: client_ok_def log_client_def destroyed_def Let_def)

lemma remove1_filter_upt:
  "remove1 i (filter P [0..<n]) = filter (\<lambda>j. P j \<and> i \<noteq> j) [0..<n]"
  by (simp add: distinct_remove1_removeAll removeAll_filter_not_eq conj_commute)

lemma deleteRequest_ok:
  assumes "client_ok c" and "i < length (requests_made c)"
  shows "client_ok (deleteRequest i c)"
proof (cases "deleted (requests_made c ! i)")
  case False
  let ?c = "deleteRequest i c"
  have in_active: "i \<in> set (ActiveRequests c)" using assms False by (simp add: client_okD(6))
  then obtain k where "length (ActiveRequests c) = Suc k" by (cases "ActiveRequests c") auto
  with client_okD(7) [OF assms(1)] have d: "destroyed ?c + length (ActiveRequests ?c) = length (requests_made ?c)"
    using False in_active by (simp add: deleteRequest_def destroyed_def log_client_def length_remove1)
  have a: "ActiveRequests ?c = filter (\<lambda>j. \<not> deleted (requests_made ?c ! j)) [0..<length (requests_made ?c)]"
    using assms False by (auto simp: client_okD(6) deleteRequest_def log_client_def remove1_filter_upt nth_list_update intro!: filter_cong)
  have r: "requestSender (requests_made ?c ! j) = requestSender (requests_made c ! j)"
    "\<not> deleted (requests_made ?c ! j) \<Longrightarrow> \<not> deleted (requests_made c ! j)" for j
    using assms(2) False by (auto simp: deleteRequest_def log_client_def nth_list_update split: if_splits)
  have l: "length (requests_made ?c) = length (requests_made c)" "Codec ?c = Codec c"
    by (simp_all add: deleteRequest_def log_client_def)
  show ?thesis by (rule client_okI) (use client_okD [OF assms(1)] a d r l in auto)
qed (simp add: deleteRequest_def assms)

lemma deleteRequest_keeps [simp]:
  "Codec (deleteRequest i c) = Codec c" "length (requests_made (deleteRequest i c)) = length (requests_made c)"
  "ConnectedFlag (deleteRequest i c) = ConnectedFlag c"
  by (simp_all add: deleteRequest_def log_client_def)

lemma deleteRequest_deletes:
  "i < length (requests_made c) \<Longrightarrow> deleted (requests_made (deleteRequest i c) ! i)"
  "deleted (requests_made c ! j) \<Longrightarrow> deleted (requests_made (deleteRequest i c) ! j)"
  by (cases "i < length (requests_made c)"; auto simp: deleteRequest_def log_client_def nth_list_update list_update_beyond)+

lemma deleteRequest_sender: "requestSender (requests_made (deleteRequest i c) ! j) = requestSender (requests_made c ! j)"
  by (cases "i < length (requests_made c)") (auto simp: deleteRequest_def log_client_def nth_list_update list_update_beyond)

lemma log_client_keeps [simp]:
  "Codec (log_client a c) = Codec c" "requests_made (log_client a c) = requests_made c" "ConnectedFlag (log_client a c) = ConnectedFlag c"
  "ActiveRequests (log_client a c) = ActiveRequests c"
  by (simp_all add: log_client_def)

lemma unlisten_ok:
  assumes "client_ok c" and "deleted (requests_made c ! i)"
  shows "client_ok (c\<lparr>Codec := RemoveEventListener p (Request i) (Codec c)\<rparr>)"
proof -
  let ?ss = "streams (Codec c)" and ?ss' = "streams (RemoveEventListener p (Request i) (Codec c))"
  have cbs: "d \<in> set (streamCbs (?ss ! q))" if "q < length ?ss" "d \<in> set (streamCbs (?ss' ! q))" for q d
    using that by (cases "p = q") (auto simp: RemoveEventListener_def dest: subsetD [OF set_remove1_subset])
  have kept: "d \<in> set (streamCbs (?ss' ! q))" if "q < length ?ss" "d \<in> set (streamCbs (?ss ! q))" "d \<noteq> Request i" for q d
    using that by (cases "p = q") (simp_all add: RemoveEventListener_def)
  have l: "length ?ss' = length ?ss" "serverCallbacks (RemoveEventListener p (Request i) (Codec c)) = serverCallbacks (Codec c)"
    "activeStreams (RemoveEventListener p (Request i) (Codec c)) = activeStreams (Codec c)"
    by (simp_all add: RemoveEventListener_def)
  show ?thesis
  proof (rule client_okI)
    fix j assume "j < length (requests_made (c\<lparr>Codec := RemoveEventListener p (Request i) (Codec c)\<rparr>))"
      "\<not> deleted (requests_made (c\<lparr>Codec := RemoveEventListener p (Request i) (Codec c)\<rparr>) ! j)"
    with assms(2) client_okD(3,4) [OF assms(1), of j] kept
    show "Request j \<in> set (streamCbs (streams (Codec (c\<lparr>Codec := RemoveEventListener p (Request i) (Codec c)\<rparr>)) !
        requestSender (requests_made (c\<lparr>Codec := RemoveEventListener p (Request i) (Codec c)\<rparr>) ! j)))" by auto
  qed (use client_okD [OF assms(1)] cbs l in \<open>auto simp: destroyed_def\<close>)
qed

text \<open>What a reaction does: the client stays in order, no request is forgotten, none comes back.\<close>

definition reacts :: "'r codecClient \<Rightarrow> 'r codecClient \<Rightarrow> bool" where
  "reacts c c' \<longleftrightarrow> (client_ok c \<longrightarrow> client_ok c') \<and> length (requests_made c') = length (requests_made c) \<and>
     ConnectedFlag c' = ConnectedFlag c \<and> (\<forall>j. requestSender (requests_made c' ! j) = requestSender (requests_made c ! j)) \<and>
     (\<forall>j. deleted (requests_made c ! j) \<longrightarrow> deleted (requests_made c' ! j))"

lemma reacts_refl: "reacts c c" by (simp add: reacts_def)

lemma reacts_trans: "reacts c c' \<Longrightarrow> reacts c' c'' \<Longrightarrow> reacts c c''" by (simp add: reacts_def)

lemma reacts_log: "a \<noteq> OnStreamDestroy \<Longrightarrow> reacts c (log_client a c)"
  by (simp add: reacts_def client_ok_log)

lemma reacts_delete: "i < length (requests_made c) \<Longrightarrow> reacts c (deleteRequest i c)"
  by (simp add: reacts_def deleteRequest_ok deleteRequest_deletes deleteRequest_sender)

lemma reacts_complete:
  assumes "i < length (requests_made c)"
  shows "reacts c (responseDecodeComplete i c)"
proof -
  have "reacts (deleteRequest i c) (responseDecodeComplete i c)"
    using unlisten_ok [of "deleteRequest i c" i] deleteRequest_deletes(1) [OF assms]
    by (simp add: reacts_def responseDecodeComplete_def Let_def)
  with reacts_delete [OF assms] show ?thesis by (rule reacts_trans)
qed

lemma react_reacts:
  assumes "call_ok (length (requests_made c)) a"
  shows "reacts c (react a c)"
proof (cases a)
  case (CallReceiveHeaders d h e)
  with assms show ?thesis
    by (cases d) (auto simp: request_OnReceiveHeaders_def Let_def reacts_refl intro: reacts_log reacts_trans [OF reacts_complete])
next
  case (CallReceiveData d bs e)
  with assms show ?thesis
    by (cases d) (auto simp: request_OnReceiveData_def Let_def reacts_refl intro: reacts_log reacts_trans [OF reacts_complete])
next
  case (CallResetStream d r)
  with assms show ?thesis
    by (cases d) (auto simp: onReset_def intro: reacts_log reacts_trans [OF reacts_log reacts_delete])
qed (simp_all add: reacts_refl)

lemma fold_reacts:
  "list_all (call_ok (length (requests_made c))) as \<Longrightarrow> reacts c (fold react as c)"
proof (induction as arbitrary: c)
  case (Cons a as)
  then have "reacts c (react a c)" by (simp add: react_reacts)
  moreover from this Cons have "reacts (react a c) (fold react as (react a c))" by (simp add: reacts_def)
  ultimately show ?case by (auto intro: reacts_trans)
qed (simp add: reacts_refl)

lemma react_deletes:
  assumes "list_all (call_ok (length (requests_made c))) as" and "CallResetStream (Request i) reason \<in> set as"
  shows "deleted (requests_made (fold react as c) ! i)"
  using assms
proof (induction as arbitrary: c)
  case (Cons a as)
  then have r: "reacts c (react a c)" by (simp add: react_reacts)
  show ?case
  proof (cases "a = CallResetStream (Request i) reason")
    case True
    with Cons.prems have "deleted (requests_made (react a c) ! i)" by (simp add: onReset_def deleteRequest_deletes(1))
    with r Cons.prems fold_reacts [of "react a c" as] show ?thesis by (simp add: reacts_def)
  next
    case False
    with Cons.prems r have "list_all (call_ok (length (requests_made (react a c)))) as" "CallResetStream (Request i) reason \<in> set as"
      by (auto simp: reacts_def)
    from Cons.IH [OF this] show ?thesis by simp
  qed
qed simp

text \<open>A new codec state with the listeners of the old one keeps the client in order.\<close>

lemma client_ok_codec:
  assumes "client_ok c" and "serverCallbacks k = None" and "length (streams k) = length (streams (Codec c))"
    and "\<And>p. p < length (streams k) \<Longrightarrow> streamCbs (streams k ! p) = streamCbs (streams (Codec c) ! p)"
    and "\<And>i s. activeStreams k i = Some s \<Longrightarrow> target_ok (length (requests_made c)) (decoder s)"
  shows "client_ok (c\<lparr>Codec := k\<rparr>)"
  by (rule client_okI) (use client_okD [OF assms(1)] assms(2-5) in \<open>auto simp: destroyed_def\<close>)

lemma reset_calls:
  "calls (stream_ResetStream p reason k) = calls k @ map (\<lambda>cb. CallResetStream cb reason) (streamCbs (streams k ! p))"
  "streams (stream_ResetStream p reason k) = streams k" "serverCallbacks (stream_ResetStream p reason k) = serverCallbacks k"
  "activeStreams (stream_ResetStream p reason k) = activeStreams k"
proof -
  have "calls (fold (\<lambda>cb. log_call (CallResetStream cb reason)) cbs k) = calls k @ map (\<lambda>cb. CallResetStream cb reason) cbs \<and>
    streams (fold (\<lambda>cb. log_call (CallResetStream cb reason)) cbs k) = streams k \<and>
    serverCallbacks (fold (\<lambda>cb. log_call (CallResetStream cb reason)) cbs k) = serverCallbacks k \<and>
    activeStreams (fold (\<lambda>cb. log_call (CallResetStream cb reason)) cbs k) = activeStreams k" for cbs
    by (induction cbs arbitrary: k) simp_all
  then show "calls (stream_ResetStream p reason k) = calls k @ map (\<lambda>cb. CallResetStream cb reason) (streamCbs (streams k ! p))"
    "streams (stream_ResetStream p reason k) = streams k" "serverCallbacks (stream_ResetStream p reason k) = serverCallbacks k"
    "activeStreams (stream_ResetStream p reason k) = activeStreams k"
    by (simp_all add: stream_ResetStream_def)
qed

lemma client_reset_ok:
  assumes "client_ok c" and "p < length (streams (Codec c))"
  shows "client_ok (client_reset p reason c)" and "reacts c (client_reset p reason c)"
    and "Request i \<in> set (streamCbs (streams (Codec c) ! p)) \<Longrightarrow> deleted (requests_made (client_reset p reason c) ! i)"
proof -
  let ?c = "c\<lparr>Codec := stream_ResetStream p reason (Codec c)\<rparr>"
    and ?as = "map (\<lambda>cb. CallResetStream cb reason) (streamCbs (streams (Codec c) ! p))"
  have c: "client_ok ?c" using client_okD(1,2) [OF assms(1)] by (intro client_ok_codec [OF assms(1)]) (simp_all add: reset_calls)
  have as: "list_all (call_ok (length (requests_made ?c))) ?as"
    using client_okD(5) [OF assms] by (auto simp: list_all_iff)
  have r: "client_reset p reason c = fold react ?as ?c" by (simp add: client_reset_def react_to_def reset_calls)
  from fold_reacts [OF as] c show "client_ok (client_reset p reason c)" "reacts c (client_reset p reason c)"
    unfolding r by (auto simp: reacts_def)
  show "deleted (requests_made (client_reset p reason c) ! i)" if "Request i \<in> set (streamCbs (streams (Codec c) ! p))"
    unfolding r using that by (intro react_deletes [OF as]) auto
qed

lemma resets_ok:
  assumes "client_ok c" and "\<And>i. i \<in> set is \<Longrightarrow> i < length (requests_made c)"
  shows "client_ok (fold (\<lambda>i c. client_reset (requestSender (requests_made c ! i)) (f c) c) is c) \<and>
    reacts c (fold (\<lambda>i c. client_reset (requestSender (requests_made c ! i)) (f c) c) is c) \<and>
    (\<forall>i \<in> set is. deleted (requests_made (fold (\<lambda>i c. client_reset (requestSender (requests_made c ! i)) (f c) c) is c) ! i))"
  using assms
proof (induction "is" arbitrary: c)
  case (Cons i "is")
  let ?c = "client_reset (requestSender (requests_made c ! i)) (f c) c"
  from Cons.prems have i: "i < length (requests_made c)" by simp
  note s = client_reset_ok [OF Cons.prems(1) client_okD(3) [OF Cons.prems(1) i], where reason = "f c"]
  have "deleted (requests_made ?c ! i)"
  proof (cases "deleted (requests_made c ! i)")
    case True
    with s(2) show ?thesis by (simp add: reacts_def)
  next
    case False
    from s(3) [OF client_okD(4) [OF Cons.prems(1) i False]] show ?thesis .
  qed
  moreover have "length (requests_made ?c) = length (requests_made c)" using s(2) by (simp add: reacts_def)
  then have "j < length (requests_made ?c)" if "j \<in> set is" for j using Cons.prems(2) that by simp
  note ih = Cons.IH [OF s(1) this]
  ultimately show ?case using s(2) ih by (auto intro: reacts_trans simp: reacts_def [of ?c])
qed (simp add: reacts_refl)

lemma client_OnEvent_ok:
  assumes "client_ok c"
  shows "client_ok (client_OnEvent ev c)" and "length (requests_made (client_OnEvent ev c)) = length (requests_made c)"
    and "IsClose ev \<or> ConnectFailure ev \<Longrightarrow> ActiveRequests (client_OnEvent ev c) = []"
proof -
  let ?c = "if ev = Connected then c\<lparr>ConnectedFlag := True\<rparr> else if ev = RemoteClose then c\<lparr>RemoteCloseFlag := True\<rparr> else c"
  let ?f = "\<lambda>c. if ConnectedFlag c then ''StreamConnectionTermination'' else ''StreamConnectionFailed''"
  have c: "client_ok ?c" using assms by (auto simp: client_ok_def destroyed_def Let_def)
  have "i < length (requests_made ?c)" if "i \<in> set (ActiveRequests ?c)" for i using that client_okD(6) [OF c] by auto
  note r = resets_ok [OF c this, of "ActiveRequests ?c" ?f]
  from r c show ok: "client_ok (client_OnEvent ev c)" and "length (requests_made (client_OnEvent ev c)) = length (requests_made c)"
    by (auto simp: client_OnEvent_def Let_def reacts_def)
  assume ev: "IsClose ev \<or> ConnectFailure ev"
  have "deleted (requests_made (client_OnEvent ev c) ! i)" if "i < length (requests_made c)" for i
  proof (cases "i \<in> set (ActiveRequests ?c)")
    case True
    with r ev show ?thesis by (auto simp: client_OnEvent_def Let_def)
  next
    case False
    with that client_okD(6) [OF c] have "deleted (requests_made ?c ! i)" by auto
    with r ev show ?thesis by (auto simp: client_OnEvent_def Let_def reacts_def)
  qed
  with client_okD(6) [OF ok] \<open>length (requests_made (client_OnEvent ev c)) = length (requests_made c)\<close>
  show "ActiveRequests (client_OnEvent ev c) = []" by (simp add: filter_empty_conv)
qed

lemma client_NewStream_ok:
  assumes "client_ok c"
  shows "client_ok (fst (client_NewStream sid r c))"
proof -
  let ?c = "fst (client_NewStream sid r c)" and ?n = "length (requests_made c)" and ?l = "length (streams (Codec c))"
  let ?s = "\<lparr>streamID = sid, requestID = sid, stream_direction = ClientStream, decoder = Request ?n, streamCbs = [],
    encodedHeaders = None, encodedData = None\<rparr>"
  have new: "requests_made ?c = requests_made c @ [newActiveRequest r ?l]" "ActiveRequests ?c = ActiveRequests c @ [?n]"
    "streams (Codec ?c) = streams (Codec c) @ [?s\<lparr>streamCbs := [Request ?n]\<rparr>]"
    "serverCallbacks (Codec ?c) = serverCallbacks (Codec c)" "activeStreams (Codec ?c) = (activeStreams (Codec c))(sid \<mapsto> ?s)"
    "destroyed ?c = destroyed c"
    by (simp_all add: client_NewStream_def conn_NewStream_def AddEventListener_def set_stream_def destroyed_def Let_def)
  have target: "target_ok (Suc ?n) d" if "target_ok ?n d" for d :: "'a listener" using that by (cases d) simp_all
  show ?thesis
  proof (rule client_okI, goal_cases)
    case 2
    then show ?case using client_okD(2) [OF assms] by (auto simp: new target split: if_splits)
  next
    case (3 i)
    then show ?case using client_okD(3) [OF assms, of i] by (cases "i < ?n") (auto simp: new nth_append newActiveRequest_def)
  next
    case (4 i)
    then show ?case using client_okD(3,4) [OF assms, of i] by (cases "i < ?n") (auto simp: new nth_append newActiveRequest_def)
  next
    case (5 p d)
    then show ?case using client_okD(5) [OF assms, of p d] by (cases "p < ?l") (auto simp: new nth_append target less_Suc_eq)
  next
    case 6
    then show ?case using client_okD(6) [OF assms] by (auto simp: new nth_append newActiveRequest_def intro!: filter_cong)
  next
    case 7
    then show ?case using client_okD(7) [OF assms] by (simp add: new)
  qed (simp add: new client_okD(1) [OF assms])
qed

lemma client_OnData_ok:
  assumes "client_OnData pools clk b g c = Some (Inr (b', g', c'))" and "client_ok c"
  shows "client_ok c'"
proof -
  from assms(1) obtain k where k: "Dispatch pools clk b (g, Inr (Codec c)) = Some (Inr (b', g', Inr k))" "c' = react_to k c"
    by (auto simp: client_OnData_def go_outcome split: option.splits sum.splits)
  have "client_conn (length (requests_made c)) (Codec c) k"
    using client_okD(2) [OF assms(2)] by (intro Dispatch_client [OF k(1) client_okD(1) [OF assms(2)]])
  then obtain new where
    new: "serverCallbacks k = None" "streams k = streams (Codec c)" "calls k = calls (Codec c) @ new"
    "list_all (call_ok (length (requests_made c))) new" "\<And>i s. activeStreams k i = Some s \<Longrightarrow> target_ok (length (requests_made c)) (decoder s)"
    by (auto simp: client_conn_def)
  have "client_ok (c\<lparr>Codec := k\<rparr>)" by (rule client_ok_codec [OF assms(2)]) (simp_all add: new)
  with fold_reacts [of "c\<lparr>Codec := k\<rparr>" new] new(3,4) show ?thesis by (simp add: k(2) react_to_def reacts_def)
qed

text \<open>What is sent on a stream leaves the listeners alone.\<close>

fun is_send :: "'d stream_input \<Rightarrow> bool" where
  "is_send (InAppendHeaders ord pooled p h e) \<longleftrightarrow> True"
| "is_send (InAppendData p bs e) \<longleftrightarrow> True"
| "is_send (InAppendTrailers p) \<longleftrightarrow> True"
| "is_send (InReadDisable p b) \<longleftrightarrow> True"
| "is_send _ \<longleftrightarrow> False"

definition same_listeners :: "'d streamConnection \<Rightarrow> 'd streamConnection \<Rightarrow> bool" where
  "same_listeners k k' \<longleftrightarrow> serverCallbacks k' = serverCallbacks k \<and> length (streams k') = length (streams k) \<and>
     (\<forall>p < length (streams k). streamCbs (streams k' ! p) = streamCbs (streams k ! p)) \<and> activeStreams k' \<subseteq>\<^sub>m activeStreams k"

lemma endStream_listeners: "same_listeners k (stream_endStream p k)"
  by (auto simp: same_listeners_def stream_endStream_def Let_def map_le_def split: option.splits)

lemma set_stream_listeners:
  assumes "\<And>s. streamCbs (f s) = streamCbs s"
  shows "same_listeners k (set_stream p f k)"
proof -
  have "streamCbs ((streams k)[p := f (streams k ! p)] ! q) = streamCbs (streams k ! q)" if "q < length (streams k)" for q
    using that assms by (cases "p = q") simp_all
  then show ?thesis by (simp add: same_listeners_def)
qed

lemma same_listeners_trans: "same_listeners k k' \<Longrightarrow> same_listeners k' k'' \<Longrightarrow> same_listeners k k''"
  by (auto simp: same_listeners_def intro: map_le_trans)

lemma send_listeners:
  assumes "do_stream_input inp k = Inr k'" and "is_send inp"
  shows "same_listeners k k'"
proof (cases inp)
  case (InAppendHeaders ord pooled p h e)
  with assms(1) obtain h' err where "stream_AppendHeaders ord pooled p h e k = Inr (k', h', err)" by (auto simp: go_outcome)
  from AppendHeaders_result [OF this] show ?thesis
    by (auto intro: set_stream_listeners same_listeners_trans [OF set_stream_listeners endStream_listeners])
next
  case (InAppendData p bs e)
  with assms(1) show ?thesis
    by (auto simp: stream_AppendData_def Let_def intro!: set_stream_listeners same_listeners_trans [OF set_stream_listeners endStream_listeners])
next
  case (InAppendTrailers p)
  with assms(1) show ?thesis by (auto simp: stream_AppendTrailers_def endStream_listeners)
qed (use assms in \<open>auto simp: stream_ReadDisable_def same_listeners_def\<close>)

inductive client_step :: "'r codecClient \<Rightarrow> 'r codecClient \<Rightarrow> bool" where
  new_stream: "client_step c (fst (client_NewStream sid r c))"
| data: "client_OnData pools clk b g c = Some (Inr (b', g', c')) \<Longrightarrow> client_step c c'"
| event: "client_step c (client_OnEvent ev c)"
| reset: "p < length (streams (Codec c)) \<Longrightarrow> client_step c (client_reset p reason c)"
| send: "do_stream_input inp (Codec c) = Inr k \<Longrightarrow> is_send inp \<Longrightarrow> client_step c (c\<lparr>Codec := k\<rparr>)"
| listen: "p < length (streams (Codec c)) \<Longrightarrow> client_step c (c\<lparr>Codec := AddEventListener p (Outside r) (Codec c)\<rparr>)"

lemma client_step_ok: "client_step c c' \<Longrightarrow> client_ok c \<Longrightarrow> client_ok c'"
proof (induction rule: client_step.induct)
  case (send inp c k)
  from send_listeners [OF send.hyps] have "same_listeners (Codec c) k" .
  then have "activeStreams (Codec c) i = Some s" if "activeStreams k i = Some s" for i s
    using that by (auto simp: same_listeners_def map_le_def dom_def)
  with \<open>same_listeners (Codec c) k\<close> client_okD(1,2) [OF send.prems] show ?case
    by (intro client_ok_codec [OF send.prems]) (auto simp: same_listeners_def)
next
  case (listen p c r)
  let ?c = "c\<lparr>Codec := AddEventListener p (Outside r) (Codec c)\<rparr>"
  have cbs: "set (streamCbs (streams (Codec ?c) ! q)) \<subseteq> insert (Outside r) (set (streamCbs (streams (Codec c) ! q)))"
    "set (streamCbs (streams (Codec c) ! q)) \<subseteq> set (streamCbs (streams (Codec ?c) ! q))" for q
    by (cases "p = q"; use listen.hyps in \<open>auto simp: AddEventListener_def\<close>)+
  show ?case
    by (rule client_okI) (use client_okD [OF listen.prems] cbs in \<open>fastforce simp: AddEventListener_def destroyed_def\<close>)+
qed (auto intro: client_NewStream_ok client_OnData_ok client_OnEvent_ok(1) client_reset_ok(1))

lemma client_ok_new: "client_ok NewCodecClient"
  by (simp add: client_ok_def NewCodecClient_def newStreamConnection_def destroyed_def)

lemma client_ok_reachable: "client_step\<^sup>*\<^sup>* NewCodecClient c \<Longrightarrow> client_ok c"
  by (induction rule: rtranclp_induct) (auto intro: client_ok_new client_step_ok)

section \<open>Properties\<close>

text \<open>
  C16 (invariant). Every stream of an upstream connection is reported as destroyed exactly
  once, which is what the circuit breaker counts on: whatever responses, resets and events
  come in whatever order, the reports and the active requests add up to the streams made, and
  when the connection closes or could not be made, every stream has been reported.
\<close>

theorem streams_destroyed_once:
  assumes "client_step\<^sup>*\<^sup>* NewCodecClient c"
  shows "destroyed c + ActiveRequestsNum c = length (requests_made c) \<and>
    (IsClose ev \<or> ConnectFailure ev \<longrightarrow>
      ActiveRequestsNum (client_OnEvent ev c) = 0 \<and> destroyed (client_OnEvent ev c) = length (requests_made c))"
  using client_okD(7) [OF client_ok_reachable [OF assms]] client_OnEvent_ok [OF client_ok_reachable [OF assms], of ev]
    client_okD(7) [OF client_OnEvent_ok(1) [OF client_ok_reachable [OF assms]], of ev]
  by (auto simp: ActiveRequestsNum_def)

theorem streams_destroyed_once_witness:
  "\<exists>c :: nat codecClient. client_step\<^sup>*\<^sup>* NewCodecClient c \<and> ActiveRequestsNum c = 1 \<and> destroyed (client_OnEvent RemoteClose c) = 1"
proof -
  let ?c = "fst (client_NewStream ''1'' (7 :: nat) NewCodecClient)"
  have c: "client_step\<^sup>*\<^sup>* NewCodecClient ?c" by (rule r_into_rtranclp, rule new_stream)
  moreover have "ActiveRequestsNum ?c = 1" "length (requests_made ?c) = 1"
    by (simp_all add: client_NewStream_def NewCodecClient_def conn_NewStream_def ActiveRequestsNum_def Let_def)
  ultimately show ?thesis using streams_destroyed_once [OF c, of RemoteClose] by (auto simp: IsClose_def)
qed

end
