(* ===== verification/Config_Parser.thy ===== *)
theory Config_Parser
  imports Complex_Main Mosn_Prelude
begin

text \<open>
  From the configuration file to the configuration of the program: \<open>pkg/config/parser.go\<close> with
  the structures of \<open>pkg/config/config.go\<close> and \<open>pkg/api/v2/types.go\<close>. Where the two packages
  declare a structure with the same fields there is one record for both. A pointer in a list
  is an option, because a file may hold null there. A fatal message of the start logger ends
  the process, which is a result \<open>Inl\<close> with the constant part of the message. Packages outside
  the sources that are called for a part of the configuration are arguments: the JSON codec,
  the parser of durations, and the resolver and the parser of addresses.
\<close>

section \<open>Results\<close>

datatype exit = Fatal string | LogPanic string | Panicked go_panic

type_synonym 'a parsed = "exit + 'a"

definition pbind :: "'a parsed \<Rightarrow> ('a \<Rightarrow> 'b parsed) \<Rightarrow> 'b parsed" where
  "pbind m f = (case m of Inl e \<Rightarrow> Inl e | Inr x \<Rightarrow> f x)"

definition require :: "bool \<Rightarrow> string \<Rightarrow> unit parsed" where
  "require b msg = (if b then Inr () else Inl (Fatal msg))"

fun parse_all :: "('a \<Rightarrow> 'b parsed) \<Rightarrow> 'a list \<Rightarrow> 'b list parsed" where
  "parse_all f [] = Inr []"
| "parse_all f (x # xs) = pbind (f x) (\<lambda>y. pbind (parse_all f xs) (\<lambda>ys. Inr (y # ys)))"

section \<open>Structures\<close>

text \<open>What a JSON document decodes to when no type is asked for.\<close>

datatype json = JNull | JBool bool | JNum rat | JStr string | JArr "json list" | JObj "(string \<times> json) list"

type_synonym config_map = "string \<rightharpoonup> json"

record FilterConfig =
  fl_Type :: string
  fl_Config :: config_map

record v2_Filter =
  fi_Name :: string
  fi_Config :: config_map

record TLSConfig =
  tls_Status :: bool
  tls_Inspector :: bool
  tls_ServerName :: string
  tls_CACert :: string
  tls_CertChain :: string
  tls_PrivateKey :: string
  tls_VerifyClient :: bool
  tls_VerifyServer :: bool
  tls_CipherSuites :: string
  tls_EcdhCurves :: string
  tls_MinVersion :: string
  tls_MaxVersion :: string
  tls_ALPN :: string
  tls_Ticket :: string

record 'f FilterChain =
  fc_FilterChainMatch :: string
  fc_TLS :: TLSConfig
  fc_Filters :: "'f list"

record RetryPolicy =
  rp_RetryOn :: bool
  rp_RetryTimeout :: int
  rp_NumRetries :: "32 word"

record ClusterWeight =
  cw_Name :: string
  cw_Weight :: "32 word"
  cw_MetadataMatch :: config_map

record WeightedCluster =
  wc_Clusters :: ClusterWeight
  wc_RuntimeKeyPrefix :: string

text \<open>The retry policy is part of the action in the file and a pointer in the program.\<close>

record 'p RouteAction =
  ra_ClusterName :: string
  ra_ClusterHeader :: string
  ra_WeightedClusters :: "WeightedCluster list"
  ra_MetadataMatch :: config_map
  ra_Timeout :: int
  ra_RetryPolicy :: 'p

record RuntimeUInt32 =
  ru_DefaultValue :: "32 word"
  ru_RuntimeKey :: string

record HeaderMatcher =
  hm_Name :: string
  hm_Value :: string
  hm_Regex :: bool

record RouterMatch =
  rm_Prefix :: string
  rm_Path :: string
  rm_Regex :: string
  rm_CaseSensitive :: bool
  rm_Runtime :: RuntimeUInt32
  rm_Headers :: "HeaderMatcher list"

record RedirectAction =
  rd_HostRedirect :: string
  rd_PathRedirect :: string
  rd_ResponseCode :: "32 word"

record 'p Router =
  rt_Match :: RouterMatch
  rt_Route :: "'p RouteAction"
  rt_Redirect :: RedirectAction
  rt_Metadata :: config_map
  rt_Decorator :: string

record VirtualCluster =
  vc_Pattern :: string
  vc_Name :: string
  vc_Method :: string

record 'p VirtualHost =
  vh_Name :: string
  vh_Domains :: "string list"
  vh_Routers :: "'p Router list"
  vh_RequireTLS :: string
  vh_VirtualClusters :: "VirtualCluster list"

record BasicServiceRoute =
  bs_Name :: string
  bs_Service :: string
  bs_Cluster :: string
  bs_GlobalTimeout :: int
  bs_RetryPolicy :: "RetryPolicy option"

record 'p Proxy =
  px_Name :: string
  px_DownstreamProtocol :: string
  px_UpstreamProtocol :: string
  px_SupportDynamicRoute :: bool
  px_BasicRoutes :: "BasicServiceRoute option list"
  px_VirtualHosts :: "'p VirtualHost option list"
  px_ValidateClusters :: bool

record AccessLogConfig =
  al_LogPath :: string
  al_LogFormat :: string

record v2_AccessLog =
  ac_Path :: string
  ac_Format :: string

record ListenerConfig =
  lc_Name :: string
  lc_Address :: string
  lc_BindToPort :: bool
  lc_FilterChains :: "FilterConfig FilterChain list"
  lc_StreamFilters :: "FilterConfig list"
  lc_LogPath :: string
  lc_LogLevel :: string
  lc_HandOff :: bool
  lc_AccessLogs :: "AccessLogConfig list"

text \<open>The address of a listener is its text, and \<open>'l\<close> is the type of the sockets.\<close>

record 'l v2_ListenerConfig =
  lv_Name :: string
  lv_Addr :: string
  lv_ListenerTag :: "64 word"
  lv_ListenerScope :: string
  lv_BindToPort :: bool
  lv_PerConnBufferLimitBytes :: "32 word"
  lv_HandOff :: bool
  lv_InheritListener :: "'l option"
  lv_Remain :: bool
  lv_LogPath :: string
  lv_LogLevel :: "8 word"
  lv_AccessLogs :: "v2_AccessLog list"
  lv_DisableConnIo :: bool
  lv_FilterChains :: "v2_Filter FilterChain list"

record HostConfig =
  ho_Address :: string
  ho_Hostname :: string
  ho_Weight :: "32 word"
  ho_MetaData :: config_map

record ClusterHealthCheckConfig =
  hc_Protocol :: string
  hc_Timeout :: int
  hc_Interval :: int
  hc_IntervalJitter :: int
  hc_HealthyThreshold :: "32 word"
  hc_UnhealthyThreshold :: "32 word"
  hc_CheckPath :: string
  hc_ServiceName :: string

record v2_HealthCheck =
  vk_Protocol :: string
  vk_ProtocolCode :: "8 word"
  vk_Timeout :: int
  vk_Interval :: int
  vk_IntervalJitter :: int
  vk_HealthyThreshold :: "32 word"
  vk_UnhealthyThreshold :: "32 word"
  vk_CheckPath :: string
  vk_ServiceName :: string

record CircuitBreakerConfig =
  cb_Priority :: string
  cb_MaxConnections :: "32 word"
  cb_MaxPendingRequests :: "32 word"
  cb_MaxRequests :: "32 word"
  cb_MaxRetries :: "32 word"

datatype RoutingPriority = DEFAULT | HIGH

record Thresholds =
  th_Priority :: RoutingPriority
  th_MaxConnections :: "32 word"
  th_MaxPendingRequests :: "32 word"
  th_MaxRequests :: "32 word"
  th_MaxRetries :: "32 word"

record LBSubsetConfig =
  ls_FallBackPolicy :: "8 word"
  ls_DefaultSubset :: "string \<rightharpoonup> string"
  ls_SubsetSelectors :: "string list list"

record ClusterConfig =
  cl_Name :: string
  cl_Type :: string
  cl_SubType :: string
  cl_LbType :: string
  cl_MaxRequestPerConn :: "32 word"
  cl_ConnBufferLimitBytes :: "32 word"
  cl_CircuitBreakers :: "CircuitBreakerConfig option list"
  cl_HealthCheck :: ClusterHealthCheckConfig
  cl_Subscribes :: "string list"
  cl_Hosts :: "HostConfig list"
  cl_LBSubsetConfig :: LBSubsetConfig
  cl_TLS :: TLSConfig

datatype ClusterType = STATIC_CLUSTER | SIMPLE_CLUSTER | DYNAMIC_CLUSTER | EDS_CLUSTER
datatype LbType = LB_RANDOM | LB_ROUNDROBIN

text \<open>The parser leaves the outlier detection and the hosts of a cluster at their zero values.\<close>

record v2_Cluster =
  cv_Name :: string
  cv_ClusterType :: ClusterType
  cv_LbType :: LbType
  cv_MaxRequestPerConn :: "32 word"
  cv_ConnBufferLimitBytes :: "32 word"
  cv_CirBreThresholds :: "Thresholds list"
  cv_HealthCheck :: v2_HealthCheck
  cv_Spec :: "string list"
  cv_LBSubSetConfig :: LBSubsetConfig
  cv_TLS :: TLSConfig
  cv_Hosts :: "HostConfig list"

record ServerConfig =
  sv_DefaultLogPath :: string
  sv_DefaultLogLevel :: string
  sv_GracefulTimeout :: int
  sv_Processor :: int
  sv_Listeners :: "ListenerConfig list"

record ClusterManagerConfig =
  cm_AutoDiscovery :: bool
  cm_RegistryUseHealthCheck :: bool
  cm_Clusters :: "ClusterConfig list"

record ApplicationInfo =
  ap_AntShareCloud :: bool
  ap_DataCenter :: string
  ap_AppName :: string

record v2_ApplicationInfo = ApplicationInfo +
  ap_Zone :: string

record PublishContent =
  pc_ServiceName :: string
  pc_PubData :: string

record ServiceRegistryConfig =
  sr_ServiceAppInfo :: ApplicationInfo
  sr_ServicePubInfo :: "PublishContent list"

record ServiceRegistryInfo =
  si_ServiceAppInfo :: v2_ApplicationInfo
  si_ServicePubInfo :: "PublishContent list"

record MOSNConfig =
  mc_Servers :: "ServerConfig list"
  mc_ClusterManager :: ClusterManagerConfig
  mc_ServiceRegistry :: ServiceRegistryConfig
  mc_RawDynamicResources :: "byte list"
  mc_RawStaticResources :: "byte list"

datatype Mode = File | Xds | Mix

definition MOSNConfig_Mode :: "MOSNConfig \<Rightarrow> Mode" where
  "MOSNConfig_Mode c =
     (if mc_Servers c \<noteq> [] then
        (if mc_RawStaticResources c = [] \<or> mc_RawDynamicResources c = [] then File else Mix)
      else if mc_RawStaticResources c \<noteq> [] \<and> mc_RawDynamicResources c \<noteq> [] then Xds
      else File)"

datatype Level = FATAL | ERROR | WARN | INFO | DEBUG | TRACE

record server_Config =
  sc_LogPath :: string
  sc_LogLevel :: Level
  sc_GracefulTimeout :: int
  sc_Processor :: int

section \<open>Tables\<close>

definition protocolsSupported :: "string \<Rightarrow> bool" where
  "protocolsSupported p \<longleftrightarrow> p \<in> {''SofaRpc'', ''Http2'', ''Http1'', ''X''}"

definition logLevelMap :: "string \<rightharpoonup> Level" where
  "logLevelMap = [''TRACE'' \<mapsto> TRACE, ''DEBUG'' \<mapsto> DEBUG, ''FATAL'' \<mapsto> FATAL, ''ERROR'' \<mapsto> ERROR, ''WARN'' \<mapsto> WARN, ''INFO'' \<mapsto> INFO]"

definition clusterTypeMap :: "string \<rightharpoonup> ClusterType" where
  "clusterTypeMap = [''SIMPLE'' \<mapsto> SIMPLE_CLUSTER, ''DYNAMIC'' \<mapsto> DYNAMIC_CLUSTER]"

definition lbTypeMap :: "string \<rightharpoonup> LbType" where
  "lbTypeMap = [''LB_RANDOM'' \<mapsto> LB_RANDOM, ''LB_ROUNDROBIN'' \<mapsto> LB_ROUNDROBIN]"

text \<open>The list that a listener is appended to is a copy: only the first one for a key is kept.\<close>

definition RegisterConfigParsedListener :: "string \<Rightarrow> 'cb \<Rightarrow> (string \<rightharpoonup> 'cb list) \<Rightarrow> (string \<rightharpoonup> 'cb list)" where
  "RegisterConfigParsedListener key cb m =
     (case m key of Some cbs \<Rightarrow> (let cbs = cbs @ [cb] in m) | None \<Rightarrow> m(key \<mapsto> [cb]))"

fun level_code :: "Level \<Rightarrow> 8 word" where
  "level_code FATAL = 0"
| "level_code ERROR = 1"
| "level_code WARN = 2"
| "level_code INFO = 3"
| "level_code DEBUG = 4"
| "level_code TRACE = 5"

definition parseLogLevel :: "string \<Rightarrow> Level parsed" where
  "parseLogLevel level =
     (if level \<noteq> '''' then
        (case logLevelMap level of Some l \<Rightarrow> Inr l | None \<Rightarrow> Inl (Fatal ''unsupported log level''))
      else Inr INFO)"

definition ParseServerConfig :: "ServerConfig \<Rightarrow> server_Config parsed" where
  "ParseServerConfig c =
     pbind (parseLogLevel (sv_DefaultLogLevel c)) (\<lambda>l.
       Inr \<lparr>sc_LogPath = sv_DefaultLogPath c, sc_LogLevel = l, sc_GracefulTimeout = sv_GracefulTimeout c, sc_Processor = sv_Processor c\<rparr>)"

section \<open>Routes\<close>

text \<open>The loop over a map copies it.\<close>

definition parseRouterMetadata :: "config_map \<Rightarrow> config_map" where
  "parseRouterMetadata metadata = (\<lambda>key. metadata key)"

definition parseMatchHeaders :: "HeaderMatcher list \<Rightarrow> HeaderMatcher list" where
  "parseMatchHeaders hms = map (\<lambda>hm. \<lparr>hm_Name = hm_Name hm, hm_Value = hm_Value hm, hm_Regex = hm_Regex hm\<rparr>) hms"

definition parseVirtualClusters :: "VirtualCluster list \<Rightarrow> VirtualCluster list" where
  "parseVirtualClusters vcs = map (\<lambda>vc. \<lparr>vc_Pattern = vc_Pattern vc, vc_Name = vc_Name vc, vc_Method = vc_Method vc\<rparr>) vcs"

definition parseWeightClusters :: "WeightedCluster list \<Rightarrow> WeightedCluster list" where
  "parseWeightClusters wcs = map (\<lambda>wc.
     \<lparr>wc_Clusters = \<lparr>cw_Name = cw_Name (wc_Clusters wc), cw_Weight = cw_Weight (wc_Clusters wc),
        cw_MetadataMatch = parseRouterMetadata (cw_MetadataMatch (wc_Clusters wc))\<rparr>,
      wc_RuntimeKeyPrefix = wc_RuntimeKeyPrefix wc\<rparr>) wcs"

definition parseRouter :: "RetryPolicy Router \<Rightarrow> RetryPolicy option Router" where
  "parseRouter r =
     \<lparr>rt_Match = \<lparr>rm_Prefix = rm_Prefix (rt_Match r), rm_Path = rm_Path (rt_Match r), rm_Regex = rm_Regex (rt_Match r),
        rm_CaseSensitive = rm_CaseSensitive (rt_Match r),
        rm_Runtime = \<lparr>ru_DefaultValue = ru_DefaultValue (rm_Runtime (rt_Match r)), ru_RuntimeKey = ru_RuntimeKey (rm_Runtime (rt_Match r))\<rparr>,
        rm_Headers = parseMatchHeaders (rm_Headers (rt_Match r))\<rparr>,
      rt_Route = \<lparr>ra_ClusterName = ra_ClusterName (rt_Route r), ra_ClusterHeader = ra_ClusterHeader (rt_Route r),
        ra_WeightedClusters = parseWeightClusters (ra_WeightedClusters (rt_Route r)),
        ra_MetadataMatch = parseRouterMetadata (ra_MetadataMatch (rt_Route r)), ra_Timeout = ra_Timeout (rt_Route r),
        ra_RetryPolicy = Some \<lparr>rp_RetryOn = rp_RetryOn (ra_RetryPolicy (rt_Route r)),
          rp_RetryTimeout = rp_RetryTimeout (ra_RetryPolicy (rt_Route r)), rp_NumRetries = rp_NumRetries (ra_RetryPolicy (rt_Route r))\<rparr>\<rparr>,
      rt_Redirect = \<lparr>rd_HostRedirect = rd_HostRedirect (rt_Redirect r), rd_PathRedirect = rd_PathRedirect (rt_Redirect r),
        rd_ResponseCode = rd_ResponseCode (rt_Redirect r)\<rparr>,
      rt_Metadata = parseRouterMetadata (rt_Metadata r), rt_Decorator = rt_Decorator r\<rparr>"

definition parseRouters :: "RetryPolicy Router list \<Rightarrow> RetryPolicy option Router list" where
  "parseRouters rs = map parseRouter rs"

definition deref :: "'a option \<Rightarrow> 'a parsed" where
  "deref p = (case p of Some x \<Rightarrow> Inr x | None \<Rightarrow> Inl (Panicked NilDereference))"

definition parseVirtualHost :: "RetryPolicy VirtualHost option list \<Rightarrow> RetryPolicy option VirtualHost option list parsed" where
  "parseVirtualHost confighost = parse_all (\<lambda>p. pbind (deref p) (\<lambda>cfh.
     Inr (Some \<lparr>vh_Name = vh_Name cfh, vh_Domains = vh_Domains cfh, vh_Routers = parseRouters (vh_Routers cfh),
       vh_RequireTLS = vh_RequireTLS cfh, vh_VirtualClusters = parseVirtualClusters (vh_VirtualClusters cfh)\<rparr>))) confighost"

text \<open>
  \<open>marshal\<close> gives the text of the configuration of the filter, or None when it fails. \<open>unmarshal\<close>
  gives the structure it has filled by the time it returns, because its error is not looked
  at; it is None for the text null, which sets the pointer to nil.
\<close>

definition check_routers :: "'p VirtualHost option \<Rightarrow> unit parsed" where
  "check_routers p = pbind (deref p) (\<lambda>vh. require (vh_Routers vh \<noteq> []) ''No Router Founded in VirtualHosts'')"

definition ParseProxyFilterJSON ::
  "(config_map \<Rightarrow> 'd option) \<Rightarrow> ('d \<Rightarrow> RetryPolicy Proxy option) \<Rightarrow> v2_Filter \<Rightarrow> RetryPolicy option Proxy parsed" where
  "ParseProxyFilterJSON marshal unmarshal c =
     (case marshal (fi_Config c) of
        None \<Rightarrow> Inl (Fatal ''Parsing Proxy Network Fitler Error'')
      | Some data \<Rightarrow>
          pbind (deref (unmarshal data)) (\<lambda>p.
          pbind (require (px_DownstreamProtocol p \<noteq> '''' \<and> px_UpstreamProtocol p \<noteq> '''') ''Protocol in String Needed in Proxy Network Fitler'') (\<lambda>_.
          pbind (require (protocolsSupported (px_DownstreamProtocol p)) ''Invalid Downstream Protocol = '') (\<lambda>_.
          pbind (require (protocolsSupported (px_UpstreamProtocol p)) ''Invalid Upstream Protocol = '') (\<lambda>_.
          pbind (parse_all check_routers (px_VirtualHosts p)) (\<lambda>_.
          pbind (parseVirtualHost (px_VirtualHosts p)) (\<lambda>vhs.
            Inr \<lparr>px_Name = px_Name p, px_DownstreamProtocol = px_DownstreamProtocol p, px_UpstreamProtocol = px_UpstreamProtocol p,
              px_SupportDynamicRoute = px_SupportDynamicRoute p, px_BasicRoutes = [], px_VirtualHosts = vhs,
              px_ValidateClusters = px_ValidateClusters p\<rparr>)))))))"

text \<open>The last header named service wins; no service or no cluster is a nil route.\<close>

definition service_route :: "string \<Rightarrow> string \<Rightarrow> string \<Rightarrow> BasicServiceRoute" where
  "service_route name service cluster =
     \<lparr>bs_Name = name, bs_Service = service, bs_Cluster = cluster, bs_GlobalTimeout = 0, bs_RetryPolicy = None\<rparr>"

definition getServiceFromHeader :: "'p Router option \<Rightarrow> BasicServiceRoute option" where
  "getServiceFromHeader p =
     (case p of
        None \<Rightarrow> None
      | Some router \<Rightarrow>
          let ServiceName = fold (\<lambda>h s. if hm_Name h = ''service'' \<or> hm_Name h = ''Service'' then hm_Value h else s) (rm_Headers (rt_Match router)) '''';
              ClusterName = ra_ClusterName (rt_Route router)
          in if ServiceName = '''' \<or> ClusterName = '''' then None else Some (service_route '''' ServiceName ClusterName))"

definition parseBasicFilter :: "'p Proxy \<Rightarrow> BasicServiceRoute option list parsed" where
  "parseBasicFilter proxy =
     pbind (parse_all (\<lambda>p. pbind (deref p) (\<lambda>vh. Inr (map (\<lambda>r. getServiceFromHeader (Some r)) (vh_Routers vh)))) (px_VirtualHosts proxy)) (\<lambda>rss.
       Inr (concat rss))"

definition string_field :: "config_map \<Rightarrow> string \<Rightarrow> string \<Rightarrow> string \<Rightarrow> string parsed" where
  "string_field config key notString missing =
     (case config key of
        Some (JStr s) \<Rightarrow> Inr s
      | Some _ \<Rightarrow> Inl (Fatal notString)
      | None \<Rightarrow> Inl (Fatal missing))"

definition parseRouteConfig :: "config_map \<Rightarrow> BasicServiceRoute parsed" where
  "parseRouteConfig config =
     pbind (string_field config ''name'' ''[name] in proxy filter route config is not string'' ''[name] is required in proxy filter route config'') (\<lambda>name.
     pbind (string_field config ''service'' ''[service] in proxy filter route config is not string'' ''[service] is required in proxy filter route config'') (\<lambda>service.
     pbind (string_field config ''cluster'' ''[cluster] in proxy filter route config is not string'' ''[cluster] is required in proxy filter route config'') (\<lambda>cluster.
       Inr (service_route name service cluster))))"

definition route_of_json :: "json \<Rightarrow> BasicServiceRoute parsed" where
  "route_of_json j = (case j of JObj kvs \<Rightarrow> parseRouteConfig (map_of kvs) | _ \<Rightarrow> Inl (Panicked FailedTypeAssertion))"

definition parseProxyFilter :: "v2_Filter \<Rightarrow> RetryPolicy option Proxy parsed" where
  "parseProxyFilter c =
     (let config = fi_Config c in
     pbind (string_field config ''downstream_protocol'' ''[downstream_protocol] in proxy filter config is not string'' ''[downstream_protocol] is required in proxy filter config'') (\<lambda>down.
     pbind (string_field config ''upstream_protocol'' ''[upstream_protocol] in proxy filter config is not string'' ''[upstream_protocol] is required in proxy filter config'') (\<lambda>up.
     pbind (case config ''support_dynamic_route'' of
              Some (JBool b) \<Rightarrow> Inr b
            | Some _ \<Rightarrow> Inl (Fatal ''support_dynamic_route in proxy filter support_dynamic_route is not bool'')
            | None \<Rightarrow> Inr False) (\<lambda>dyn.
     pbind (case config ''routes'' of
              Some (JArr rs) \<Rightarrow> parse_all route_of_json rs
            | Some _ \<Rightarrow> Inl (Fatal ''[routes] in proxy filter config is not list of routemap'')
            | None \<Rightarrow> Inl (Fatal ''[routes] is required in proxy filter config'')) (\<lambda>routes.
       Inr \<lparr>px_Name = '''', px_DownstreamProtocol = down, px_UpstreamProtocol = up, px_SupportDynamicRoute = dyn,
         px_BasicRoutes = map Some routes, px_VirtualHosts = [], px_ValidateClusters = False\<rparr>)))))"

section \<open>Listeners\<close>

definition parseAccessConfig :: "AccessLogConfig list \<Rightarrow> v2_AccessLog list" where
  "parseAccessConfig c = map (\<lambda>l. \<lparr>ac_Path = al_LogPath l, ac_Format = al_LogFormat l\<rparr>) c"

definition no_tls :: TLSConfig where
  "no_tls = \<lparr>tls_Status = False, tls_Inspector = False, tls_ServerName = '''', tls_CACert = '''', tls_CertChain = '''', tls_PrivateKey = '''',
     tls_VerifyClient = False, tls_VerifyServer = False, tls_CipherSuites = '''', tls_EcdhCurves = '''', tls_MinVersion = '''',
     tls_MaxVersion = '''', tls_ALPN = '''', tls_Ticket = ''''\<rparr>"

definition parseTLSConfig :: "TLSConfig \<Rightarrow> TLSConfig parsed" where
  "parseTLSConfig t =
     (if \<not> tls_Status t then Inr no_tls
      else
        pbind (require (\<not> ((tls_VerifyClient t \<or> tls_VerifyServer t) \<and> tls_CACert t = '''')) ''[CaCert] is required in TLS config'') (\<lambda>_.
          Inr \<lparr>tls_Status = tls_Status t, tls_Inspector = tls_Inspector t, tls_ServerName = tls_ServerName t, tls_CACert = tls_CACert t,
            tls_CertChain = tls_CertChain t, tls_PrivateKey = tls_PrivateKey t, tls_VerifyClient = tls_VerifyClient t,
            tls_VerifyServer = tls_VerifyServer t, tls_CipherSuites = tls_CipherSuites t, tls_EcdhCurves = tls_EcdhCurves t,
            tls_MinVersion = tls_MinVersion t, tls_MaxVersion = tls_MaxVersion t, tls_ALPN = tls_ALPN t, tls_Ticket = tls_Ticket t\<rparr>))"

definition parseFilterChain :: "FilterConfig FilterChain \<Rightarrow> v2_Filter FilterChain parsed" where
  "parseFilterChain fc =
     (let filters = map (\<lambda>f. \<lparr>fi_Name = fl_Type f, fi_Config = fl_Config f\<rparr>) (fc_Filters fc)
      in pbind (parseTLSConfig (fc_TLS fc)) (\<lambda>tls.
           Inr \<lparr>fc_FilterChainMatch = fc_FilterChainMatch fc, fc_TLS = tls, fc_Filters = filters\<rparr>))"

definition parseFilterChains :: "FilterConfig FilterChain list \<Rightarrow> v2_Filter FilterChain list parsed" where
  "parseFilterChains c = parse_all parseFilterChain c"

text \<open>
  \<open>IP.Equal\<close>: an address of four bytes equals its form in sixteen bytes. \<open>parseIP\<close> is
  \<open>net.ParseIP\<close>, with the empty list for nil, and \<open>resolve\<close> is \<open>ResolveTCPAddr\<close>, with the text
  of the address it finds.
\<close>

definition v4InV6Prefix :: "byte list" where
  "v4InV6Prefix = [0, 0, 0, 0, 0, 0, 0, 0, 0, 0, 0xff, 0xff]"

definition ip_Equal :: "byte list \<Rightarrow> byte list \<Rightarrow> bool" where
  "ip_Equal ip x =
     (if length ip = length x then ip = x
      else if length ip = 4 \<and> length x = 16 then take 12 x = v4InV6Prefix \<and> ip = drop 12 x
      else if length ip = 16 \<and> length x = 4 then take 12 ip = v4InV6Prefix \<and> drop 12 ip = x
      else False)"

fun inherit ::
  "(string \<Rightarrow> byte list) \<Rightarrow> byte list \<Rightarrow> 'l v2_ListenerConfig option list \<Rightarrow> ('l option \<times> 'l v2_ListenerConfig option list) parsed" where
  "inherit parseIP currentIP [] = Inr (None, [])"
| "inherit parseIP currentIP (p # ps) =
     pbind (deref p) (\<lambda>il.
       if ip_Equal (parseIP (lv_Addr il)) currentIP then Inr (lv_InheritListener il, Some (il\<lparr>lv_Remain := True\<rparr>) # ps)
       else pbind (inherit parseIP currentIP ps) (\<lambda>(old, ps). Inr (old, p # ps)))"

definition ParseListenerConfig ::
  "(string \<Rightarrow> string option) \<Rightarrow> (string \<Rightarrow> byte list) \<Rightarrow> ListenerConfig \<Rightarrow> 'l v2_ListenerConfig option list \<Rightarrow>
     ('l v2_ListenerConfig \<times> 'l v2_ListenerConfig option list) parsed" where
  "ParseListenerConfig resolve parseIP c inheritListeners =
     pbind (require (lc_Name c \<noteq> '''') ''[name] is required in listener config'') (\<lambda>_.
     pbind (require (lc_Address c \<noteq> '''') ''[Address] is required in listener config'') (\<lambda>_.
     pbind (case resolve (lc_Address c) of Some addr \<Rightarrow> Inr addr | None \<Rightarrow> Inl (Fatal ''[Address] not valid:'')) (\<lambda>addr.
     pbind (inherit parseIP (parseIP addr) inheritListeners) (\<lambda>(old, inheritListeners).
     pbind (parseLogLevel (lc_LogLevel c)) (\<lambda>level.
     pbind (parseFilterChains (lc_FilterChains c)) (\<lambda>chains.
       Inr (\<lparr>lv_Name = lc_Name c, lv_Addr = addr, lv_ListenerTag = 0, lv_ListenerScope = '''', lv_BindToPort = lc_BindToPort c,
         lv_PerConnBufferLimitBytes = push_bit 15 1, lv_HandOff = lc_HandOff c, lv_InheritListener = old, lv_Remain = False,
         lv_LogPath = lc_LogPath c, lv_LogLevel = level_code level, lv_AccessLogs = parseAccessConfig (lc_AccessLogs c),
         lv_DisableConnIo = False, lv_FilterChains = chains\<rparr>, inheritListeners)))))))"

section \<open>Clusters\<close>

definition no_check :: v2_HealthCheck where
  "no_check = \<lparr>vk_Protocol = '''', vk_ProtocolCode = 0, vk_Timeout = 0, vk_Interval = 0, vk_IntervalJitter = 0,
     vk_HealthyThreshold = 0, vk_UnhealthyThreshold = 0, vk_CheckPath = '''', vk_ServiceName = ''''\<rparr>"

definition parseClusterHealthCheckConf :: "ClusterHealthCheckConfig \<Rightarrow> v2_HealthCheck parsed" where
  "parseClusterHealthCheckConf c =
     (if hc_Protocol c = '''' then Inr no_check
      else if protocolsSupported (hc_Protocol c) then
        Inr \<lparr>vk_Protocol = hc_Protocol c, vk_ProtocolCode = 0, vk_Timeout = hc_Timeout c, vk_Interval = hc_Interval c,
          vk_IntervalJitter = hc_IntervalJitter c, vk_HealthyThreshold = hc_HealthyThreshold c,
          vk_UnhealthyThreshold = hc_UnhealthyThreshold c, vk_CheckPath = hc_CheckPath c, vk_ServiceName = hc_ServiceName c\<rparr>
      else Inl (Fatal ''unsuppoted health check protocol:''))"

definition parseCircuitBreakers :: "CircuitBreakerConfig option list \<Rightarrow> Thresholds list parsed" where
  "parseCircuitBreakers cbcs = parse_all (\<lambda>p. pbind (deref p) (\<lambda>cbc.
     Inr \<lparr>th_Priority = (if ToLower (cb_Priority cbc) = ''default'' then DEFAULT else HIGH), th_MaxConnections = cb_MaxConnections cbc,
       th_MaxPendingRequests = cb_MaxPendingRequests cbc, th_MaxRequests = cb_MaxRequests cbc, th_MaxRetries = cb_MaxRetries cbc\<rparr>)) cbcs"

definition parseConfigSpecConfig :: "string list \<Rightarrow> string list" where
  "parseConfigSpecConfig subs = map (\<lambda>sub. sub) subs"

definition parseHost :: "HostConfig \<Rightarrow> HostConfig parsed" where
  "parseHost h =
     pbind (require (ho_Address h \<noteq> '''') ''[host.address] is required in host config'') (\<lambda>_.
       Inr \<lparr>ho_Address = ho_Address h, ho_Hostname = ho_Hostname h, ho_Weight = ho_Weight h, ho_MetaData = parseRouterMetadata (ho_MetaData h)\<rparr>)"

definition parseHostConfig :: "ClusterConfig \<Rightarrow> HostConfig list parsed" where
  "parseHostConfig c = parse_all parseHost (cl_Hosts c)"

definition lookup_type :: "(string \<rightharpoonup> 'a) \<Rightarrow> string \<Rightarrow> string \<Rightarrow> string \<Rightarrow> 'a parsed" where
  "lookup_type m name missing unknown =
     (if name = '''' then Inl (Fatal missing)
      else (case m name of Some t \<Rightarrow> Inr t | None \<Rightarrow> Inl (Fatal unknown)))"

definition parseCluster :: "ClusterConfig \<Rightarrow> (v2_Cluster \<times> HostConfig list) parsed" where
  "parseCluster c =
     pbind (require (cl_Name c \<noteq> '''') ''[name] is required in cluster config'') (\<lambda>_.
     pbind (lookup_type clusterTypeMap (cl_Type c) ''[type] is required in cluster config'' ''unknown cluster type:'') (\<lambda>clusterType.
     pbind (lookup_type lbTypeMap (cl_LbType c) ''[lb_type] is required in cluster config'' ''unknown lb type:'') (\<lambda>lbType.
       let maxRequests = (if cl_MaxRequestPerConn c = 0 then 1024 else cl_MaxRequestPerConn c);
           bufferLimit = (if cl_ConnBufferLimitBytes c = 0 then 16 * 1026 else cl_ConnBufferLimitBytes c);
           ls = cl_LBSubsetConfig c
       in pbind (if ls_FallBackPolicy ls > 2 then Inl (LogPanic ''lb subset config 's fall back policy set error. '') else Inr ()) (\<lambda>_.
          pbind (parseClusterHealthCheckConf (cl_HealthCheck c)) (\<lambda>check.
          pbind (parseCircuitBreakers (cl_CircuitBreakers c)) (\<lambda>breakers.
          pbind (parseTLSConfig (cl_TLS c)) (\<lambda>tls.
          pbind (parseHostConfig c) (\<lambda>hosts.
            Inr (\<lparr>cv_Name = cl_Name c, cv_ClusterType = clusterType, cv_LbType = lbType, cv_MaxRequestPerConn = maxRequests,
              cv_ConnBufferLimitBytes = bufferLimit, cv_CirBreThresholds = breakers, cv_HealthCheck = check,
              cv_Spec = parseConfigSpecConfig (cl_Subscribes c),
              cv_LBSubSetConfig = \<lparr>ls_FallBackPolicy = ls_FallBackPolicy ls, ls_DefaultSubset = ls_DefaultSubset ls,
                ls_SubsetSelectors = ls_SubsetSelectors ls\<rparr>,
              cv_TLS = tls, cv_Hosts = []\<rparr>, hosts)))))))))"

text \<open>
  The clusters, the hosts by the name of their cluster, and the calls of the registered
  listeners. A name that is used again replaces the hosts of the cluster before.
\<close>

definition ParseClusterConfig ::
  "(string \<rightharpoonup> 'cb list) \<Rightarrow> ClusterConfig list \<Rightarrow> (v2_Cluster list \<times> (string \<rightharpoonup> HostConfig list) \<times> ('cb \<times> v2_Cluster list \<times> bool) list) parsed" where
  "ParseClusterConfig cbs clusters =
     pbind (parse_all parseCluster clusters) (\<lambda>ps.
       let clustersV2 = map fst ps;
           clusterV2Map = fold (\<lambda>(c, hosts) m. m(cv_Name c \<mapsto> hosts)) ps Map.empty
       in Inr (clustersV2, clusterV2Map,
            case cbs ''clusters'' of Some cbs \<Rightarrow> map (\<lambda>cb. (cb, clustersV2, False)) cbs | None \<Rightarrow> []))"

definition ParseServiceRegistry :: "(string \<rightharpoonup> 'cb list) \<Rightarrow> ServiceRegistryConfig \<Rightarrow> ('cb \<times> ServiceRegistryInfo \<times> bool) list" where
  "ParseServiceRegistry cbs src =
     (let srvappinfo = \<lparr>ap_AntShareCloud = ap_AntShareCloud (sr_ServiceAppInfo src), ap_DataCenter = ap_DataCenter (sr_ServiceAppInfo src),
            ap_AppName = ap_AppName (sr_ServiceAppInfo src), ap_Zone = ''''\<rparr>;
          pubs = map (\<lambda>pub. \<lparr>pc_ServiceName = pc_ServiceName pub, pc_PubData = pc_PubData pub\<rparr>) (sr_ServicePubInfo src);
          info = \<lparr>si_ServiceAppInfo = srvappinfo, si_ServicePubInfo = pubs\<rparr>
      in case cbs ''service_registry'' of Some cbs \<Rightarrow> map (\<lambda>cb. (cb, info, True)) cbs | None \<Rightarrow> [])"

section \<open>Stream filters\<close>

text \<open>
  A number is converted to an unsigned integer by truncation; \<open>oob\<close> is what the machine makes
  of one that does not fit, which the language leaves open. \<open>single\<close> rounds to single
  precision. \<open>parseDuration\<close> is \<open>time.ParseDuration\<close>, in nanoseconds. The keys of an object are
  distinct.
\<close>

definition Trim_quotes :: "string \<Rightarrow> string" where
  "Trim_quotes s = rev (dropWhile (\<lambda>c. c = CHR 0x22) (rev (dropWhile (\<lambda>c. c = CHR 0x22) s)))"

definition to_uint32 :: "(rat \<Rightarrow> 32 word) \<Rightarrow> rat \<Rightarrow> 32 word" where
  "to_uint32 oob r =
     (let n = (if r \<ge> 0 then \<lfloor>r\<rfloor> else \<lceil>r\<rceil>) in if 0 \<le> n \<and> n < 2 ^ 32 then word_of_int n else oob r)"

definition DurationConfig_UnmarshalJSON :: "(string \<Rightarrow> int option) \<Rightarrow> string \<Rightarrow> int option" where
  "DurationConfig_UnmarshalJSON parseDuration b = parseDuration (Trim_quotes b)"

definition DurationConfig_MarshalJSON :: "(int \<Rightarrow> string) \<Rightarrow> int \<Rightarrow> string" where
  "DurationConfig_MarshalJSON showDuration d = [CHR 0x22] @ showDuration d @ [CHR 0x22]"

record FaultInject =
  DelayPercent :: "32 word"
  DelayDuration :: "64 word"

definition duration_field :: "(string \<Rightarrow> int option) \<Rightarrow> config_map \<Rightarrow> string \<Rightarrow> string \<Rightarrow> string \<Rightarrow> string \<Rightarrow> int parsed" where
  "duration_field parseDuration config key invalid notString missing =
     pbind (string_field config key notString missing) (\<lambda>s.
       case parseDuration (Trim_quotes s) of Some d \<Rightarrow> Inr d | None \<Rightarrow> Inl (Fatal invalid))"

definition ParseFaultInjectFilter ::
  "(rat \<Rightarrow> 32 word) \<Rightarrow> (string \<Rightarrow> int option) \<Rightarrow> config_map \<Rightarrow> FaultInject parsed" where
  "ParseFaultInjectFilter oob parseDuration config =
     pbind (case config ''delay_percent'' of
              Some (JNum r) \<Rightarrow> Inr (to_uint32 oob r)
            | Some _ \<Rightarrow> Inl (Fatal ''[delay_percent] in fault inject filter config is not integer'')
            | None \<Rightarrow> Inl (Fatal ''[delay_percent] is required in fault inject filter config'')) (\<lambda>percent.
     pbind (duration_field parseDuration config ''delay_duration'' ''[delay_duration] in fault inject filter config is not valid ,''
              (''[delay_duration] in fault inject filter config is not a numeric string, like '30s'' @ [CHR 0x27])
              ''[delay_duration] is required in fault inject filter config'') (\<lambda>d.
       Inr \<lparr>DelayPercent = percent, DelayDuration = word_of_int d\<rparr>))"

record HealthCheckFilter =
  PassThrough :: bool
  CacheTime :: int
  Endpoint :: string
  ClusterMinHealthyPercentage :: "string \<rightharpoonup> rat"

definition percentages :: "(rat \<Rightarrow> rat) \<Rightarrow> (string \<times> json) list \<Rightarrow> (string \<times> rat) list parsed" where
  "percentages single kvs =
     parse_all (\<lambda>(k, v). case v of JNum r \<Rightarrow> Inr (k, single r) | _ \<Rightarrow> Inl (Panicked FailedTypeAssertion)) kvs"

definition ParseHealthcheckFilter :: "(rat \<Rightarrow> rat) \<Rightarrow> (string \<Rightarrow> int option) \<Rightarrow> config_map \<Rightarrow> HealthCheckFilter parsed" where
  "ParseHealthcheckFilter single parseDuration config =
     pbind (case config ''passthrough'' of
              Some (JBool b) \<Rightarrow> Inr b
            | Some _ \<Rightarrow> Inl (Fatal ''[passthrough] in health check filter config is not bool'')
            | None \<Rightarrow> Inl (Fatal ''[passthrough] is required in healthcheck filter config'')) (\<lambda>pass.
     pbind (duration_field parseDuration config ''cache_time'' ''[cache_time] in health check filter is not valid ,''
              ''[cache_time] in health check filter config is not a numeric string'' ''[cache_time] is required in healthcheck filter config'') (\<lambda>t.
     pbind (case config ''cluster_min_healthy_percentages'' of
              Some (JObj kvs) \<Rightarrow> percentages single kvs
            | Some _ \<Rightarrow> Inl (Fatal ''[passthrough] in health check filter config is not bool'')
            | None \<Rightarrow> Inl (Fatal ''[passthrough] is required in healthcheck filter config'')) (\<lambda>ps.
       Inr \<lparr>PassThrough = pass, CacheTime = t, Endpoint = '''', ClusterMinHealthyPercentage = map_of ps\<rparr>)))"

section \<open>Results of the parsers\<close>

named_theorems parsed_Inr

lemma pbind_Inr [parsed_Inr]: "pbind m f = Inr y \<longleftrightarrow> (\<exists>x. m = Inr x \<and> f x = Inr y)"
  by (cases m) (simp_all add: pbind_def)

lemma require_Inr [parsed_Inr]: "require b msg = Inr u \<longleftrightarrow> b"
  by (simp add: require_def)

lemma deref_Inr [parsed_Inr]: "deref p = Inr x \<longleftrightarrow> p = Some x"
  by (simp add: deref_def split: option.split)

lemma parse_all_Inr [parsed_Inr]: "parse_all f xs = Inr ys \<longleftrightarrow> list_all2 (\<lambda>x y. f x = Inr y) xs ys"
  by (induction xs arbitrary: ys) (auto simp: pbind_Inr list_all2_Cons1)

lemma parse_all_map: "(\<And>x. x \<in> set xs \<Longrightarrow> f x = Inr (g x)) \<Longrightarrow> parse_all f xs = Inr (map g xs)"
  by (induction xs) (simp_all add: pbind_def)

lemma pbind_succeeds: "(\<exists>y. pbind m f = Inr y) \<longleftrightarrow> (\<exists>x. m = Inr x \<and> (\<exists>y. f x = Inr y))"
  by (auto simp: pbind_Inr)

lemma parse_all_succeeds: "(\<exists>ys. parse_all f xs = Inr ys) \<longleftrightarrow> list_all (\<lambda>x. \<exists>y. f x = Inr y) xs"
  by (induction xs) (simp_all add: pbind_Inr, blast)

section \<open>Clusters of a configuration\<close>

definition valid_tls :: "TLSConfig \<Rightarrow> bool" where
  "valid_tls t \<longleftrightarrow> (tls_Status t \<and> (tls_VerifyClient t \<or> tls_VerifyServer t) \<longrightarrow> tls_CACert t \<noteq> '''')"

text \<open>What the file must say of a cluster, and what the program may rely on.\<close>

definition valid_cluster :: "ClusterConfig \<Rightarrow> bool" where
  "valid_cluster c \<longleftrightarrow>
     cl_Name c \<noteq> '''' \<and> cl_Type c \<in> {''SIMPLE'', ''DYNAMIC''} \<and> cl_LbType c \<in> {''LB_RANDOM'', ''LB_ROUNDROBIN''} \<and>
     ls_FallBackPolicy (cl_LBSubsetConfig c) \<le> 2 \<and>
     (hc_Protocol (cl_HealthCheck c) = '''' \<or> protocolsSupported (hc_Protocol (cl_HealthCheck c))) \<and>
     list_all (\<lambda>b. b \<noteq> None) (cl_CircuitBreakers c) \<and> valid_tls (cl_TLS c) \<and> list_all (\<lambda>h. ho_Address h \<noteq> '''') (cl_Hosts c)"

definition wf_cluster :: "v2_Cluster \<Rightarrow> bool" where
  "wf_cluster v \<longleftrightarrow>
     cv_Name v \<noteq> '''' \<and> cv_ClusterType v \<in> {SIMPLE_CLUSTER, DYNAMIC_CLUSTER} \<and> cv_MaxRequestPerConn v \<noteq> 0 \<and>
     cv_ConnBufferLimitBytes v \<noteq> 0 \<and> ls_FallBackPolicy (cv_LBSubSetConfig v) \<le> 2 \<and>
     (cv_HealthCheck v = no_check \<or> protocolsSupported (vk_Protocol (cv_HealthCheck v))) \<and> valid_tls (cv_TLS v)"

lemma parseTLSConfig_succeeds: "(\<exists>v. parseTLSConfig t = Inr v) \<longleftrightarrow> valid_tls t"
  by (auto simp: parseTLSConfig_def valid_tls_def parsed_Inr)

lemma parseTLSConfig_valid: "parseTLSConfig t = Inr v \<Longrightarrow> valid_tls v"
  by (auto simp: parseTLSConfig_def valid_tls_def parsed_Inr no_tls_def split: if_splits)

lemma parseHealth_succeeds:
  "(\<exists>v. parseClusterHealthCheckConf c = Inr v) \<longleftrightarrow> hc_Protocol c = '''' \<or> protocolsSupported (hc_Protocol c)"
  by (simp add: parseClusterHealthCheckConf_def)

lemma parseHealth_valid: "parseClusterHealthCheckConf c = Inr v \<Longrightarrow> v = no_check \<or> protocolsSupported (vk_Protocol v)"
  by (auto simp: parseClusterHealthCheckConf_def split: if_splits)

lemma parseCircuitBreakers_succeeds: "(\<exists>v. parseCircuitBreakers bs = Inr v) \<longleftrightarrow> list_all (\<lambda>b. b \<noteq> None) bs"
  by (simp add: parseCircuitBreakers_def parse_all_succeeds pbind_Inr deref_Inr)

lemma parseHost_Inr: "parseHost h = Inr h' \<longleftrightarrow> h' = h \<and> ho_Address h \<noteq> ''''"
  by (auto simp: parseHost_def parsed_Inr parseRouterMetadata_def)

lemma parseHostConfig_Inr: "parseHostConfig c = Inr hs \<longleftrightarrow> hs = cl_Hosts c \<and> list_all (\<lambda>h. ho_Address h \<noteq> '''') (cl_Hosts c)"
proof -
  have "list_all2 (\<lambda>h h'. h' = h \<and> P h) xs ys \<longleftrightarrow> ys = xs \<and> list_all P xs" for P and xs ys :: "HostConfig list"
    by (induction xs arbitrary: ys) (auto simp: list_all2_Cons1)
  then show ?thesis by (simp add: parseHostConfig_def parse_all_Inr parseHost_Inr)
qed

lemma clusterTypeMap_Inr:
  "(\<exists>t. lookup_type clusterTypeMap n m u = Inr t) \<longleftrightarrow> n \<in> {''SIMPLE'', ''DYNAMIC''}"
  "lookup_type clusterTypeMap n m u = Inr t \<Longrightarrow> t \<in> {SIMPLE_CLUSTER, DYNAMIC_CLUSTER}"
  by (auto simp: lookup_type_def clusterTypeMap_def split: if_splits option.splits)

lemma lbTypeMap_Inr: "(\<exists>t. lookup_type lbTypeMap n m u = Inr t) \<longleftrightarrow> n \<in> {''LB_RANDOM'', ''LB_ROUNDROBIN''}"
  by (auto simp: lookup_type_def lbTypeMap_def)

lemma fallback_Inr: "(if (a :: 8 word) > 2 then Inl e else Inr ()) = Inr u \<longleftrightarrow> a \<le> 2"
  by (auto simp: not_less)

lemmas parse_parts = parseTLSConfig_succeeds parseHealth_succeeds parseCircuitBreakers_succeeds clusterTypeMap_Inr(1) lbTypeMap_Inr

lemma parseCluster_succeeds: "(\<exists>v. parseCluster c = Inr v) \<longleftrightarrow> valid_cluster c"
  by (simp add: valid_cluster_def parseCluster_def pbind_succeeds require_Inr parseHostConfig_Inr fallback_Inr Let_def parse_parts
      del: split_paired_Ex)

lemma parseCluster_result:
  assumes "parseCluster c = Inr (v, hosts)"
  shows "wf_cluster v \<and> cv_Name v = cl_Name c \<and> hosts = cl_Hosts c"
  using assms unfolding parseCluster_def wf_cluster_def
  by (auto simp: parsed_Inr parseHostConfig_Inr fallback_Inr Let_def split: if_splits
      dest: clusterTypeMap_Inr(2) parseHealth_valid parseTLSConfig_valid)

lemma fold_upd: "fold (\<lambda>(k, v) m. m(k \<mapsto> v)) kvs m = m ++ map_of (rev kvs)"
  by (induction kvs arbitrary: m) (auto simp: map_add_def fun_eq_iff split: option.split)

lemma clusterV2Map_eq:
  assumes "list_all2 (\<lambda>c p. parseCluster c = Inr p) cs ps"
  shows "fold (\<lambda>(v, hosts) m. m(cv_Name v \<mapsto> hosts)) ps Map.empty = map_of (rev (map (\<lambda>c. (cl_Name c, cl_Hosts c)) cs))"
proof -
  have "map (\<lambda>(v, hosts). (cv_Name v, hosts)) ps = map (\<lambda>c. (cl_Name c, cl_Hosts c)) cs"
    using assms by induction (auto dest: parseCluster_result)
  moreover have "fold (\<lambda>(v, hosts) m. m(cv_Name v \<mapsto> hosts)) ps m = fold (\<lambda>(k, v) m. m(k \<mapsto> v)) (map (\<lambda>(v, hosts). (cv_Name v, hosts)) ps) m" for m
    by (induction ps arbitrary: m) auto
  ultimately show ?thesis by (simp add: fold_upd)
qed

text \<open>
  C34 (type). The parser of the clusters accepts a configuration exactly when every cluster of
  it is valid: it has a name, a known type and balancer, a known fallback policy, a supported
  protocol or none for its health check, no null circuit breaker, an authority to verify
  against when TLS verifies, and an address for each host. The clusters it then gives are
  well formed, with limits that are not zero, have the names of the file in its order, and a
  name is mapped to the hosts of the last cluster that has it.
\<close>

theorem clusters_well_formed:
  "case ParseClusterConfig cbs cs of
     Inl _ \<Rightarrow> \<not> list_all valid_cluster cs
   | Inr (clusters, hosts, calls) \<Rightarrow>
       list_all valid_cluster cs \<and> list_all wf_cluster clusters \<and> map cv_Name clusters = map cl_Name cs \<and>
       hosts = map_of (rev (map (\<lambda>c. (cl_Name c, cl_Hosts c)) cs))"
proof (cases "parse_all parseCluster cs")
  case (Inl e)
  then have "\<not> list_all valid_cluster cs"
    using parse_all_succeeds [of parseCluster cs] by (simp add: parseCluster_succeeds del: split_paired_Ex)
  then show ?thesis by (simp add: ParseClusterConfig_def Inl pbind_def)
next
  case (Inr ps)
  then have all: "list_all2 (\<lambda>c p. parseCluster c = Inr p) cs ps" by (simp add: parse_all_Inr)
  then have "list_all wf_cluster (map fst ps) \<and> map (cv_Name \<circ> fst) ps = map cl_Name cs"
    by induction (auto dest: parseCluster_result)
  moreover have "list_all valid_cluster cs"
    using parse_all_succeeds [of parseCluster cs] Inr by (simp add: parseCluster_succeeds del: split_paired_Ex)
  ultimately show ?thesis
    using clusterV2Map_eq [OF all] by (simp add: ParseClusterConfig_def Inr pbind_def Let_def)
qed

section \<open>Registered listeners\<close>

text \<open>A second listener for the clusters is never called.\<close>

lemma second_listener_ignored:
  "ParseClusterConfig (RegisterConfigParsedListener ''clusters'' cb' (RegisterConfigParsedListener ''clusters'' cb m)) cs =
     ParseClusterConfig (RegisterConfigParsedListener ''clusters'' cb m) cs"
  by (simp add: RegisterConfigParsedListener_def split: option.split)

lemma registered_listener_called:
  assumes "ParseClusterConfig (RegisterConfigParsedListener ''clusters'' cb Map.empty) cs = Inr (clusters, hosts, calls)"
  shows "calls = [(cb, clusters, False)]"
  using assms by (auto simp: ParseClusterConfig_def RegisterConfigParsedListener_def pbind_Inr Let_def)

section \<open>Durations\<close>

lemma Trim_quotes_quoted:
  assumes "s \<noteq> []" "CHR 0x22 \<notin> set s"
  shows "Trim_quotes ([CHR 0x22] @ s @ [CHR 0x22]) = s"
proof -
  have keep: "dropWhile (\<lambda>c. c = CHR 0x22) (t @ u) = t @ u" if "t \<noteq> []" "CHR 0x22 \<notin> set t" for t u :: string
    using that by (cases t) auto
  from assms keep [of s "[CHR 0x22]"] keep [of "rev s" "[]"] show ?thesis by (simp add: Trim_quotes_def)
qed

text \<open>A duration that is written to the file is read back, if the package \<open>time\<close> reads what it prints.\<close>

lemma DurationConfig_roundtrip:
  assumes "parseDuration (showDuration d) = Some d" "showDuration d \<noteq> []" "CHR 0x22 \<notin> set (showDuration d)"
  shows "DurationConfig_UnmarshalJSON parseDuration (DurationConfig_MarshalJSON showDuration d) = Some d"
  using assms Trim_quotes_quoted [of "showDuration d"]
  by (simp add: DurationConfig_UnmarshalJSON_def DurationConfig_MarshalJSON_def)

section \<open>Proxies\<close>

text \<open>A proxy that is accepted speaks known protocols and has a route in each virtual host.\<close>

lemma parseVirtualHost_Inr:
  assumes "parseVirtualHost ps = Inr vhs"
  shows "list_all2 (\<lambda>p q. \<exists>vh vh'. p = Some vh \<and> q = Some vh' \<and> vh_Name vh' = vh_Name vh \<and> vh_Domains vh' = vh_Domains vh \<and>
    length (vh_Routers vh') = length (vh_Routers vh)) ps vhs"
  using assms unfolding parseVirtualHost_def parse_all_Inr
  by (rule list_all2_mono) (auto simp: parsed_Inr parseRouters_def)

lemma check_routers_all: "parse_all check_routers ps = Inr us \<Longrightarrow> \<forall>p \<in> set ps. \<exists>vh. p = Some vh \<and> vh_Routers vh \<noteq> []"
  by (auto simp: parse_all_Inr check_routers_def parsed_Inr list_all2_conv_all_nth in_set_conv_nth)

lemma ParseProxyFilterJSON_accepts:
  assumes "ParseProxyFilterJSON marshal unmarshal c = Inr p"
  shows "protocolsSupported (px_DownstreamProtocol p)" "protocolsSupported (px_UpstreamProtocol p)"
    "list_all (\<lambda>q. \<exists>vh. q = Some vh \<and> vh_Routers vh \<noteq> []) (px_VirtualHosts p)"
proof -
  obtain data cfg us vhs where c: "marshal (fi_Config c) = Some data" "unmarshal data = Some cfg"
    "protocolsSupported (px_DownstreamProtocol cfg)" "protocolsSupported (px_UpstreamProtocol cfg)"
    "parse_all check_routers (px_VirtualHosts cfg) = Inr us" "parseVirtualHost (px_VirtualHosts cfg) = Inr vhs"
    "px_DownstreamProtocol p = px_DownstreamProtocol cfg" "px_UpstreamProtocol p = px_UpstreamProtocol cfg" "px_VirtualHosts p = vhs"
    using assms by (auto simp: ParseProxyFilterJSON_def parsed_Inr split: option.splits)
  then show "protocolsSupported (px_DownstreamProtocol p)" "protocolsSupported (px_UpstreamProtocol p)" by simp_all
  show "list_all (\<lambda>q. \<exists>vh. q = Some vh \<and> vh_Routers vh \<noteq> []) (px_VirtualHosts p)"
    unfolding c(9) list_all_length
  proof (intro allI impI)
    fix i
    assume i: "i < length vhs"
    with parseVirtualHost_Inr [OF c(6)] obtain vh vh' where "px_VirtualHosts cfg ! i = Some vh" "vhs ! i = Some vh'"
      "length (vh_Routers vh') = length (vh_Routers vh)" "i < length (px_VirtualHosts cfg)"
      by (auto simp: list_all2_conv_all_nth)
    moreover from this check_routers_all [OF c(5)] have "vh_Routers vh \<noteq> []" by (metis nth_mem option.inject)
    ultimately show "\<exists>vh. vhs ! i = Some vh \<and> vh_Routers vh \<noteq> []" by auto
  qed
qed

section \<open>Inherited sockets\<close>

text \<open>An address with a port, the text that an address of a listener has.\<close>

definition with_port :: "string \<Rightarrow> bool" where
  "with_port a =
     (let digit = (\<lambda>c. c \<in> set ''0123456789'') in
      takeWhile digit (rev a) \<noteq> [] \<and>
      (case dropWhile digit (rev a) of
         [] \<Rightarrow> False
       | c # h \<Rightarrow> c = CHR '':'' \<and> (CHR '':'' \<notin> set h \<or> hd h = CHR '']'')))"

text \<open>
  \<open>ParseIP\<close> does not read an address with a port, so that the two addresses compared are nil,
  and any two of them are equal: the first socket is inherited, whatever the address.
\<close>

lemma first_socket_inherited:
  assumes ip: "\<forall>a. with_port a \<longrightarrow> parseIP a = []"
    and addr: "\<forall>a b. resolve a = Some b \<longrightarrow> with_port b" "with_port (lv_Addr il)"
    and parsed: "ParseListenerConfig resolve parseIP c (Some il # ils) = Inr (lc, ils')"
  shows "lv_InheritListener lc = lv_InheritListener il \<and> ils' = Some (il\<lparr>lv_Remain := True\<rparr>) # ils"
proof -
  obtain b old where "resolve (lc_Address c) = Some b" "inherit parseIP (parseIP b) (Some il # ils) = Inr (old, ils')"
    "lv_InheritListener lc = old"
    using parsed by (auto simp: ParseListenerConfig_def parsed_Inr simp del: inherit.simps split: option.splits)
  with ip addr show ?thesis by (auto simp: parsed_Inr ip_Equal_def)
qed

end
