(* ===== verification/Conn_Handler.thy ===== *)
theory Conn_Handler
  imports Net_Connection Config_Parser Strconv
begin

text \<open>
  Listeners and the connections they accept: \<open>pkg/server/handler.go\<close>, \<open>pkg/network/listener.go\<close>,
  the counters of \<open>pkg/server/stats.go\<close> and the filter of \<open>pkg/filter/accept/originaldst\<close>. Listeners
  and connections are numbered in the order they are made. All addresses are TCP addresses, so
  that two of them have the same network. Loggers, TLS and the values a context carries to the
  proxy are left out, as is the remote address of a connection.
\<close>

section \<open>Runs\<close>

text \<open>A call that may panic and, because of the flush of a connection, may not return.\<close>

type_synonym 'a run = "'a outcome option"

definition rbind :: "'a run \<Rightarrow> ('a \<Rightarrow> 'b run) \<Rightarrow> 'b run" where
  "rbind m f = (case m of None \<Rightarrow> None | Some (Inl p) \<Rightarrow> Some (Inl p) | Some (Inr x) \<Rightarrow> f x)"

lemma rbind_simps [simp]: "rbind (Some (Inr x)) f = f x" "rbind (Some (Inl p)) f = Some (Inl p)" "rbind None f = None"
  by (simp_all add: rbind_def)

lemma rbind_Inr [go_outcome]: "rbind m f = Some (Inr y) \<longleftrightarrow> (\<exists>x. m = Some (Inr x) \<and> f x = Some (Inr y))"
  by (auto simp: rbind_def split: option.splits sum.splits)

section \<open>Listeners\<close>

record 'k listener =
  li_name :: string
  localAddress :: string
  bindToPort :: bool
  listenerTag :: "64 word"
  perConnBufferLimitBytes :: "32 word"
  li_handOff :: bool
  rawl :: "'k option"

definition NewListener :: "'k v2_ListenerConfig \<Rightarrow> 'k listener" where
  "NewListener lc =
     \<lparr>li_name = lv_Name lc, localAddress = lv_Addr lc, bindToPort = lv_BindToPort lc, listenerTag = lv_ListenerTag lc,
      perConnBufferLimitBytes = lv_PerConnBufferLimitBytes lc, li_handOff = lv_HandOff lc,
      rawl = (case lv_InheritListener lc of Some l \<Rightarrow> Some l | None \<Rightarrow> None)\<rparr>"

text \<open>An error of \<open>Accept\<close>: whether it is a \<open>net.Error\<close> and an \<open>OpError\<close>, and what it says of itself.\<close>

record accept_error =
  isNetError :: bool
  isOpError :: bool
  err_Timeout :: bool
  err_Temporary :: bool

definition accept_returns :: "accept_error \<Rightarrow> bool" where
  "accept_returns err =
     (if isNetError err \<and> err_Timeout err then True
      else if isOpError err then
        (if \<not> (err_Timeout err \<and> err_Temporary err) then True else False)
      else False)"

text \<open>The loop over what \<open>Accept\<close> returns: the sockets accepted, and whether the loop has ended.\<close>

fun accept_loop :: "(accept_error + 's) list \<Rightarrow> 's list \<times> bool" where
  "accept_loop [] = ([], False)"
| "accept_loop (Inr rawc # rs) = (case accept_loop rs of (cs, b) \<Rightarrow> (rawc # cs, b))"
| "accept_loop (Inl err # rs) = (if accept_returns err then ([], True) else accept_loop rs)"

text \<open>Starting a listener: \<open>listenTCP\<close> opens a socket on an address, unless one was inherited.\<close>

definition listener_listen :: "(string \<Rightarrow> 'k option) \<Rightarrow> 'k listener \<Rightarrow> 'k listener option" where
  "listener_listen listenTCP l = (case listenTCP (localAddress l) of Some k \<Rightarrow> Some (l\<lparr>rawl := Some k\<rparr>) | None \<Rightarrow> None)"

definition listener_Start :: "(string \<Rightarrow> 'k option) \<Rightarrow> (accept_error + 's) list \<Rightarrow> 'k listener \<Rightarrow> ('k listener \<times> 's list \<times> bool) parsed" where
  "listener_Start listenTCP rs l =
     (if bindToPort l then
        (case (if rawl l = None then listener_listen listenTCP l else Some l) of
           None \<Rightarrow> Inl (Fatal '' listen failed, '')
         | Some l \<Rightarrow> (case accept_loop rs of (cs, b) \<Rightarrow> Inr (l, cs, b)))
      else Inr (l, [], True))"

section \<open>State\<close>

text \<open>The counters of a namespace; listeners on the same port share them.\<close>

record ListenerStats =
  DownstreamConnectionTotal :: int
  DownstreamConnectionDestroy :: int
  DownstreamConnectionActive :: int
  DownstreamBytesRead :: int
  DownstreamBytesReadCurrent :: int
  DownstreamBytesWrite :: int
  DownstreamBytesWriteCurrent :: int

definition initStats :: ListenerStats where
  "initStats = \<lparr>DownstreamConnectionTotal = 0, DownstreamConnectionDestroy = 0, DownstreamConnectionActive = 0,
     DownstreamBytesRead = 0, DownstreamBytesReadCurrent = 0, DownstreamBytesWrite = 0, DownstreamBytesWriteCurrent = 0\<rparr>"

record ('k, 'nf, 'sf) activeListener =
  disableConnIo :: bool
  al_listener :: "'k listener"
  networkFiltersFactory :: "'nf option"
  streamFiltersFactories :: "'sf list"
  listenIP :: string
  listenPort :: int
  statsNamespace :: string
  al_conns :: "nat list"
  stopChan :: bool
  al_logPath :: string
  al_accessLogs :: "(string \<times> string) list"

text \<open>The listeners of a connection: those of its active connection, and others.\<close>

datatype 'l conn_cb = ActiveConn nat | BytesReadOf nat | BytesSentOf nat | Outside 'l

text \<open>
  How far the thread that accepted a connection has come with entering it in the books: it listens
  for its end, has pushed it on the list of the listener, has kept the list element, and has
  raised the counters one after the other. And how far the thread that closed it has come with
  taking it off: it is told of the end, has removed the element, and has lowered the counters.
\<close>

datatype reg_phase = RegNone | RegListening | RegListed | RegElement | RegActive | RegTotal | RegDone

datatype gone_phase = GoneNone | GoneTold | GoneRemoved | GoneInactive | GoneDestroyed | GoneDone

record ('s, 'f, 'w, 'h, 'l) served =
  sv_al :: nat
  sv_conn :: "('s, 'l conn_cb) connection"
  sv_fm :: "('f, 'w, 'h) filterManager"
  sv_reg :: reg_phase
  sv_gone :: gone_phase

definition sv_registered :: "('s, 'f, 'w, 'h, 'l) served \<Rightarrow> bool" where
  "sv_registered s \<longleftrightarrow> sv_reg s \<noteq> RegNone"

datatype 'k socket_call = SetDeadline 'k | CloseSocket 'k

record ('k, 'nf, 'sf, 's, 'f, 'w, 'h, 'l) connHandler =
  numConnections :: "64 word"
  listeners :: "nat list"
  al_store :: "('k, 'nf, 'sf) activeListener list"
  conn_store :: "('s, 'f, 'w, 'h, 'l) served list"
  idCounter :: "64 word"
  stats_of :: "string \<Rightarrow> ListenerStats"
  socket_calls :: "'k socket_call list"

definition NewHandler :: "('k, 'nf, 'sf, 's, 'f, 'w, 'h, 'l) connHandler" where
  "NewHandler = \<lparr>numConnections = 0, listeners = [], al_store = [], conn_store = [], idCounter = 1,
     stats_of = (\<lambda>_. initStats), socket_calls = []\<rparr>"

definition NumConnections :: "('k, 'nf, 'sf, 's, 'f, 'w, 'h, 'l) connHandler \<Rightarrow> 64 word" where
  "NumConnections ch = numConnections ch"

text \<open>
  Updates of clusters go to the cluster manager, whose two operations are \<open>addOrUpdate\<close> and
  \<open>updateHosts\<close>.
\<close>

fun UpdateClusterConfig :: "(v2_Cluster \<Rightarrow> 'cm \<Rightarrow> 'cm \<times> bool) \<Rightarrow> v2_Cluster list \<Rightarrow> 'cm \<Rightarrow> 'cm \<times> string option" where
  "UpdateClusterConfig addOrUpdate [] cm = (cm, None)"
| "UpdateClusterConfig addOrUpdate (cluster # clusters) cm =
     (case addOrUpdate cluster cm of (cm, ok) \<Rightarrow>
        if \<not> ok then (cm, Some (''UpdateClusterConfig: AddOrUpdatePrimaryCluster failure, cluster name = '' @ cv_Name cluster))
        else UpdateClusterConfig addOrUpdate clusters cm)"

definition UpdateClusterHost ::
  "(string \<Rightarrow> 32 word \<Rightarrow> HostConfig list \<Rightarrow> 'cm \<Rightarrow> 'cm \<times> string option) \<Rightarrow> string \<Rightarrow> 32 word \<Rightarrow> HostConfig list \<Rightarrow> 'cm \<Rightarrow> 'cm \<times> string option" where
  "UpdateClusterHost updateHosts cluster priority hosts cm = updateHosts cluster priority hosts cm"

section \<open>Listeners of a handler\<close>

definition ListenerStatsPrefix :: string where "ListenerStatsPrefix = ''listener.%d.''"

definition MosnLogBasePath :: string where "MosnLogBasePath = ''/home/admin/mosn/logs''"

definition Itoa :: "int \<Rightarrow> string" where
  "Itoa n = (if n < 0 then ''-'' @ FormatUint (nat (- n)) else FormatUint (nat n))"

definition newActiveListener ::
  "'k listener \<Rightarrow> string \<Rightarrow> (string \<times> string) list \<Rightarrow> 'nf option \<Rightarrow> 'sf list \<Rightarrow> bool \<Rightarrow> ('k, 'nf, 'sf) activeListener" where
  "newActiveListener l logPath als nf sfs disable =
     (let temps = Split (CHR '':'') (localAddress l);
          port = Atoi (last temps);
          ip = hd temps
      in \<lparr>disableConnIo = disable, al_listener = l, networkFiltersFactory = nf, streamFiltersFactories = sfs, listenIP = ip, listenPort = port,
          statsNamespace = ListenerStatsPrefix @ Itoa port, al_conns = [], stopChan = False, al_logPath = logPath, al_accessLogs = als\<rparr>)"

text \<open>\<open>newAccessLog\<close> tells whether an access log with a path and a format can be made.\<close>

definition access_log :: "(string \<Rightarrow> string \<Rightarrow> bool) \<Rightarrow> string \<Rightarrow> v2_AccessLog \<Rightarrow> (string \<times> string) parsed" where
  "access_log newAccessLog name a =
     (let path = (if ac_Path a = '''' then MosnLogBasePath @ ''/'' @ name @ ''_access.log'' else ac_Path a)
      in if newAccessLog path (ac_Format a) then Inr (path, ac_Format a) else Inl (Fatal ''initialize listener access logger %s failed : %v''))"

definition AddListener ::
  "(string \<Rightarrow> string \<Rightarrow> bool) \<Rightarrow> 'k v2_ListenerConfig \<Rightarrow> 'nf option \<Rightarrow> 'sf list \<Rightarrow> ('k, 'nf, 'sf, 's, 'f, 'w, 'h, 'l) connHandler \<Rightarrow>
     ('k, 'nf, 'sf, 's, 'f, 'w, 'h, 'l) connHandler parsed" where
  "AddListener newAccessLog lc nf sfs ch =
     (let logPath = (if lv_LogPath lc = '''' then MosnLogBasePath @ ''/'' @ lv_Name lc @ ''.log'' else lv_LogPath lc)
      in pbind (parse_all (access_log newAccessLog (lv_Name lc)) (lv_AccessLogs lc)) (\<lambda>als.
           let al = newActiveListener (NewListener lc) logPath als nf sfs (lv_DisableConnIo lc)
           in Inr (ch\<lparr>al_store := al_store ch @ [al], listeners := listeners ch @ [length (al_store ch)]\<rparr>)))"

definition tag_of :: "('k, 'nf, 'sf, 's, 'f, 'w, 'h, 'l) connHandler \<Rightarrow> nat \<Rightarrow> 64 word" where
  "tag_of ch a = listenerTag (al_listener (al_store ch ! a))"

definition findActiveListenerByAddress :: "string \<Rightarrow> ('k, 'nf, 'sf, 's, 'f, 'w, 'h, 'l) connHandler \<Rightarrow> nat option" where
  "findActiveListenerByAddress addr ch = find (\<lambda>a. localAddress (al_listener (al_store ch ! a)) = addr) (listeners ch)"

text \<open>
  The loop ranges over the slice as it was when it began, and each removal moves the elements of
  the array under it: \<open>arr\<close> is that array, \<open>n\<close> the length the field has by now.
\<close>

fun remove_loop :: "(nat \<Rightarrow> bool) \<Rightarrow> nat list \<Rightarrow> nat \<Rightarrow> nat \<Rightarrow> nat \<Rightarrow> (nat list \<times> nat) outcome" where
  "remove_loop match arr n i 0 = Inr (arr, n)"
| "remove_loop match arr n i (Suc k) =
     (if match (arr ! i) then
        (if n < i + 1 then Inl SliceBoundsOutOfRange
         else remove_loop match (take i arr @ take (n - (i + 1)) (drop (i + 1) arr) @ drop (n - 1) arr) (n - 1) (i + 1) k)
      else remove_loop match arr n (i + 1) k)"

definition RemoveListeners :: "64 word \<Rightarrow> ('k, 'nf, 'sf, 's, 'f, 'w, 'h, 'l) connHandler \<Rightarrow> ('k, 'nf, 'sf, 's, 'f, 'w, 'h, 'l) connHandler outcome" where
  "RemoveListeners tag ch =
     obind (remove_loop (\<lambda>a. tag_of ch a = tag) (listeners ch) (length (listeners ch)) 0 (length (listeners ch))) (\<lambda>(arr, n).
       Inr (ch\<lparr>listeners := take n arr\<rparr>))"

text \<open>Starting listeners opens their sockets, each in a thread of its own; what they accept then is handled by \<open>OnAccept\<close>.\<close>

definition start_listener :: "(string \<Rightarrow> 'k option) \<Rightarrow> nat \<Rightarrow> ('k, 'nf, 'sf, 's, 'f, 'w, 'h, 'l) connHandler \<Rightarrow> ('k, 'nf, 'sf, 's, 'f, 'w, 'h, 'l) connHandler parsed" where
  "start_listener listenTCP a ch =
     pbind (listener_Start listenTCP ([] :: (accept_error + 's) list) (al_listener (al_store ch ! a))) (\<lambda>(l, _, _).
       Inr (ch\<lparr>al_store := (al_store ch)[a := (al_store ch ! a)\<lparr>al_listener := l\<rparr>]\<rparr>))"

fun start_listeners :: "(string \<Rightarrow> 'k option) \<Rightarrow> nat list \<Rightarrow> ('k, 'nf, 'sf, 's, 'f, 'w, 'h, 'l) connHandler \<Rightarrow> ('k, 'nf, 'sf, 's, 'f, 'w, 'h, 'l) connHandler parsed" where
  "start_listeners listenTCP [] ch = Inr ch"
| "start_listeners listenTCP (a # ls) ch = pbind (start_listener listenTCP a ch) (start_listeners listenTCP ls)"

definition StartListener :: "(string \<Rightarrow> 'k option) \<Rightarrow> 64 word \<Rightarrow> ('k, 'nf, 'sf, 's, 'f, 'w, 'h, 'l) connHandler \<Rightarrow> ('k, 'nf, 'sf, 's, 'f, 'w, 'h, 'l) connHandler parsed" where
  "StartListener listenTCP tag ch = start_listeners listenTCP (filter (\<lambda>a. tag_of ch a = tag) (listeners ch)) ch"

definition StartListeners :: "(string \<Rightarrow> 'k option) \<Rightarrow> ('k, 'nf, 'sf, 's, 'f, 'w, 'h, 'l) connHandler \<Rightarrow> ('k, 'nf, 'sf, 's, 'f, 'w, 'h, 'l) connHandler parsed" where
  "StartListeners listenTCP ch = start_listeners listenTCP (listeners ch) ch"

text \<open>A listener without a socket ignores being stopped and closed, and has no descriptor.\<close>

definition on_socket :: "('k \<Rightarrow> 'k socket_call) \<Rightarrow> nat \<Rightarrow> ('k, 'nf, 'sf, 's, 'f, 'w, 'h, 'l) connHandler \<Rightarrow> ('k, 'nf, 'sf, 's, 'f, 'w, 'h, 'l) connHandler" where
  "on_socket f a ch = (case rawl (al_listener (al_store ch ! a)) of Some k \<Rightarrow> ch\<lparr>socket_calls := socket_calls ch @ [f k]\<rparr> | None \<Rightarrow> ch)"

definition StopListener :: "64 word \<Rightarrow> ('k, 'nf, 'sf, 's, 'f, 'w, 'h, 'l) connHandler \<Rightarrow> ('k, 'nf, 'sf, 's, 'f, 'w, 'h, 'l) connHandler" where
  "StopListener tag ch = fold (\<lambda>a ch. if tag_of ch a = tag then on_socket SetDeadline a ch else ch) (listeners ch) ch"

definition StopListeners :: "bool \<Rightarrow> ('k, 'nf, 'sf, 's, 'f, 'w, 'h, 'l) connHandler \<Rightarrow> ('k, 'nf, 'sf, 's, 'f, 'w, 'h, 'l) connHandler" where
  "StopListeners close ch = fold (\<lambda>a. on_socket (if close then CloseSocket else SetDeadline) a) (listeners ch) ch"

text \<open>\<open>fd\<close> gives the descriptor of a socket, or nothing when it cannot be had.\<close>

fun list_fds :: "('k \<Rightarrow> 'fd option) \<Rightarrow> 'k option list \<Rightarrow> 'fd list option" where
  "list_fds fd [] = Some []"
| "list_fds fd (k # ks) =
     (case (case k of Some k \<Rightarrow> fd k | None \<Rightarrow> None) of
        None \<Rightarrow> None
      | Some d \<Rightarrow> (case list_fds fd ks of None \<Rightarrow> None | Some ds \<Rightarrow> Some (d # ds)))"

definition ListListenersFD :: "('k \<Rightarrow> 'fd option) \<Rightarrow> ('k, 'nf, 'sf, 's, 'f, 'w, 'h, 'l) connHandler \<Rightarrow> 'fd list" where
  "ListListenersFD fd ch =
     (case list_fds fd (map (\<lambda>a. rawl (al_listener (al_store ch ! a))) (listeners ch)) of Some ds \<Rightarrow> ds | None \<Rightarrow> [])"

text \<open>Closing the stop channels; closing one a second time is a panic.\<close>

fun stop_all :: "nat list \<Rightarrow> ('k, 'nf, 'sf) activeListener list \<Rightarrow> ('k, 'nf, 'sf) activeListener list outcome" where
  "stop_all [] st = Inr st"
| "stop_all (a # as) st =
     (if stopChan (st ! a) then Inl (ExplicitPanic ''close of closed channel'')
      else stop_all as (st[a := (st ! a)\<lparr>stopChan := True\<rparr>]))"

definition StopConnection :: "('k, 'nf, 'sf, 's, 'f, 'w, 'h, 'l) connHandler \<Rightarrow> ('k, 'nf, 'sf, 's, 'f, 'w, 'h, 'l) connHandler outcome" where
  "StopConnection ch = obind (stop_all (listeners ch) (al_store ch)) (\<lambda>st. Inr (ch\<lparr>al_store := st\<rparr>))"

section \<open>Connections of a listener\<close>

abbreviation upd_al :: "nat \<Rightarrow> (('k, 'nf, 'sf) activeListener \<Rightarrow> ('k, 'nf, 'sf) activeListener) \<Rightarrow>
    ('k, 'nf, 'sf, 's, 'f, 'w, 'h, 'l) connHandler \<Rightarrow> ('k, 'nf, 'sf, 's, 'f, 'w, 'h, 'l) connHandler" where
  "upd_al a f ch \<equiv> ch\<lparr>al_store := (al_store ch)[a := f (al_store ch ! a)]\<rparr>"

definition upd_stats :: "nat \<Rightarrow> (ListenerStats \<Rightarrow> ListenerStats) \<Rightarrow> ('k, 'nf, 'sf, 's, 'f, 'w, 'h, 'l) connHandler \<Rightarrow> ('k, 'nf, 'sf, 's, 'f, 'w, 'h, 'l) connHandler" where
  "upd_stats a f ch = (let ns = statsNamespace (al_store ch ! a) in ch\<lparr>stats_of := (stats_of ch)(ns := f (stats_of ch ns))\<rparr>)"

definition upd_served :: "nat \<Rightarrow> (('s, 'f, 'w, 'h, 'l) served \<Rightarrow> ('s, 'f, 'w, 'h, 'l) served) \<Rightarrow>
    ('k, 'nf, 'sf, 's, 'f, 'w, 'h, 'l) connHandler \<Rightarrow> ('k, 'nf, 'sf, 's, 'f, 'w, 'h, 'l) connHandler" where
  "upd_served i f ch = ch\<lparr>conn_store := (conn_store ch)[i := f (conn_store ch ! i)]\<rparr>"

text \<open>
  Taking a connection off the books, in the parts other threads may come between. Removing the
  element of the list fails as long as the accepting thread has not kept it.
\<close>

fun element_kept :: "reg_phase \<Rightarrow> bool" where
  "element_kept RegNone \<longleftrightarrow> False"
| "element_kept RegListening \<longleftrightarrow> False"
| "element_kept RegListed \<longleftrightarrow> False"
| "element_kept _ \<longleftrightarrow> True"

definition rem_list :: "nat \<Rightarrow> ('k, 'nf, 'sf, 's, 'f, 'w, 'h, 'l) connHandler \<Rightarrow> ('k, 'nf, 'sf, 's, 'f, 'w, 'h, 'l) connHandler outcome" where
  "rem_list i ch =
     (let s = conn_store ch ! i in
      if element_kept (sv_reg s)
      then Inr (upd_al (sv_al s) (\<lambda>al. al\<lparr>al_conns := remove1 i (al_conns al)\<rparr>) (upd_served i (\<lambda>s. s\<lparr>sv_gone := GoneRemoved\<rparr>) ch))
      else Inl NilDereference)"

definition rem_active :: "nat \<Rightarrow> ('k, 'nf, 'sf, 's, 'f, 'w, 'h, 'l) connHandler \<Rightarrow> ('k, 'nf, 'sf, 's, 'f, 'w, 'h, 'l) connHandler" where
  "rem_active i ch =
     upd_stats (sv_al (conn_store ch ! i)) (\<lambda>s. s\<lparr>DownstreamConnectionActive := DownstreamConnectionActive s - 1\<rparr>)
       (upd_served i (\<lambda>s. s\<lparr>sv_gone := GoneInactive\<rparr>) ch)"

definition rem_destroy :: "nat \<Rightarrow> ('k, 'nf, 'sf, 's, 'f, 'w, 'h, 'l) connHandler \<Rightarrow> ('k, 'nf, 'sf, 's, 'f, 'w, 'h, 'l) connHandler" where
  "rem_destroy i ch =
     upd_stats (sv_al (conn_store ch ! i)) (\<lambda>s. s\<lparr>DownstreamConnectionDestroy := DownstreamConnectionDestroy s + 1\<rparr>)
       (upd_served i (\<lambda>s. s\<lparr>sv_gone := GoneDestroyed\<rparr>) ch)"

definition rem_count :: "nat \<Rightarrow> ('k, 'nf, 'sf, 's, 'f, 'w, 'h, 'l) connHandler \<Rightarrow> ('k, 'nf, 'sf, 's, 'f, 'w, 'h, 'l) connHandler" where
  "rem_count i ch = (upd_served i (\<lambda>s. s\<lparr>sv_gone := GoneDone\<rparr>) ch)\<lparr>numConnections := numConnections ch - 1\<rparr>"

definition removeConnection :: "nat \<Rightarrow> ('k, 'nf, 'sf, 's, 'f, 'w, 'h, 'l) connHandler \<Rightarrow> ('k, 'nf, 'sf, 's, 'f, 'w, 'h, 'l) connHandler outcome" where
  "removeConnection i ch = obind (rem_list i ch) (\<lambda>ch. Inr (rem_count i (rem_destroy i (rem_active i ch))))"

text \<open>What the three listeners of an active connection do when they are called.\<close>

definition activeConnection_OnEvent :: "nat \<Rightarrow> ConnectionEvent \<Rightarrow> ('k, 'nf, 'sf, 's, 'f, 'w, 'h, 'l) connHandler \<Rightarrow> ('k, 'nf, 'sf, 's, 'f, 'w, 'h, 'l) connHandler outcome" where
  "activeConnection_OnEvent i event ch = (if IsClose event then removeConnection i ch else Inr ch)"

fun report :: "'l conn_cb conn_call \<Rightarrow> ('k, 'nf, 'sf, 's, 'f, 'w, 'h, 'l) connHandler \<Rightarrow> ('k, 'nf, 'sf, 's, 'f, 'w, 'h, 'l) connHandler outcome" where
  "report (CallEvent (ActiveConn i) event) ch = activeConnection_OnEvent i event ch"
| "report (CallBytesRead (BytesReadOf i) n) ch =
     Inr (upd_stats (sv_al (conn_store ch ! i)) (\<lambda>s. s\<lparr>DownstreamBytesReadCurrent := int n, DownstreamBytesRead := DownstreamBytesRead s + int n\<rparr>) ch)"
| "report (CallBytesSent (BytesSentOf i) n) ch =
     Inr (upd_stats (sv_al (conn_store ch ! i)) (\<lambda>s. s\<lparr>DownstreamBytesWriteCurrent := int n, DownstreamBytesWrite := DownstreamBytesWrite s + int n\<rparr>) ch)"
| "report _ ch = Inr ch"

fun reports :: "'l conn_cb conn_call list \<Rightarrow> ('k, 'nf, 'sf, 's, 'f, 'w, 'h, 'l) connHandler \<Rightarrow> ('k, 'nf, 'sf, 's, 'f, 'w, 'h, 'l) connHandler outcome" where
  "reports [] ch = Inr ch"
| "reports (r # rs) ch = obind (report r ch) (reports rs)"

definition newActiveConnection :: "nat \<Rightarrow> ('s, 'l conn_cb) connection \<Rightarrow> ('s, 'l conn_cb) connection" where
  "newActiveConnection i conn =
     AddBytesSentListener (BytesSentOf i) (AddBytesReadListener (BytesReadOf i) (AddConnectionEventListener (ActiveConn i) conn))"

text \<open>
  A new connection is made and started, and then becomes an active connection: its loops run
  in between. \<open>create\<close> is what a factory adds to the filters of a connection, \<open>F\<close> the read
  filters.
\<close>

definition buildFilterChain ::
  "('f, ('s, 'l conn_cb) connection) ReadFilter \<Rightarrow>
     ('nf \<Rightarrow> ('f, 'w, 'h) filterManager \<times> ('s, 'l conn_cb) connection \<Rightarrow> (('f, 'w, 'h) filterManager \<times> ('s, 'l conn_cb) connection) outcome) \<Rightarrow>
     'nf \<Rightarrow> ('f, 'w, 'h) filterManager \<times> ('s, 'l conn_cb) connection \<Rightarrow> ((('f, 'w, 'h) filterManager \<times> ('s, 'l conn_cb) connection) \<times> bool) outcome" where
  "buildFilterChain F create nf fc = obind (create nf fc) (\<lambda>(fm, c). InitializeReadFilters F GetReadBuffer fm c)"

definition start_connection ::
  "('f, ('s, 'l conn_cb) connection) ReadFilter \<Rightarrow>
     ('nf \<Rightarrow> ('f, 'w, 'h) filterManager \<times> ('s, 'l conn_cb) connection \<Rightarrow> (('f, 'w, 'h) filterManager \<times> ('s, 'l conn_cb) connection) outcome) \<Rightarrow>
     iobuffer option \<Rightarrow> byte list option option \<Rightarrow> nat \<Rightarrow> 's \<Rightarrow> ('k, 'nf, 'sf, 's, 'f, 'w, 'h, 'l) connHandler \<Rightarrow>
     ('k, 'nf, 'sf, 's, 'f, 'w, 'h, 'l) connHandler outcome" where
  "start_connection F create pooled accepted a rawc ch =
     obind (NewServerConnection pooled accepted rawc True (idCounter ch)) (\<lambda>(cnt, c).
       let c = SetBufferLimit (perConnBufferLimitBytes (al_listener (al_store ch ! a))) c in
       case networkFiltersFactory (al_store ch ! a) of
         None \<Rightarrow> Inl NilDereference
       | Some nf \<Rightarrow>
           obind (buildFilterChain F create nf (newFilterManager, c)) (\<lambda>((fm, c), _).
             let c = (if disableConnIo (al_store ch ! a) then c else Start c)
             in Inr (ch\<lparr>idCounter := cnt, conn_store := conn_store ch @ [\<lparr>sv_al = a, sv_conn = c, sv_fm = fm, sv_reg = RegNone, sv_gone = GoneNone\<rparr>]\<rparr>)))"

definition set_conn :: "nat \<Rightarrow> ('s, 'l conn_cb) connection \<Rightarrow> ('k, 'nf, 'sf, 's, 'f, 'w, 'h, 'l) connHandler \<Rightarrow> ('k, 'nf, 'sf, 's, 'f, 'w, 'h, 'l) connHandler" where
  "set_conn i c ch = ch\<lparr>conn_store := (conn_store ch)[i := (conn_store ch ! i)\<lparr>sv_conn := c\<rparr>]\<rparr>"

text \<open>Closing a connection tells its listeners, whose reports are handled at once.\<close>

definition new_calls :: "('s, 'l) connection \<Rightarrow> ('s, 'l) connection \<Rightarrow> 'l conn_call list" where
  "new_calls c c' = drop (length (close_calls c)) (close_calls c')"

definition close_connection ::
  "'s socket_write \<Rightarrow> ConnectionCloseType \<Rightarrow> ConnectionEvent \<Rightarrow> nat \<Rightarrow> ('k, 'nf, 'sf, 's, 'f, 'w, 'h, 'l) connHandler \<Rightarrow> ('k, 'nf, 'sf, 's, 'f, 'w, 'h, 'l) connHandler run" where
  "close_connection wr t event i ch =
     (let c = sv_conn (conn_store ch ! i) in
      rbind (conn_Close wr t event c) (\<lambda>c'. Some (reports (new_calls c c') (set_conn i c' ch))))"

text \<open>Entering a connection in the books, in the parts other threads may come between.\<close>

definition reg_listen :: "nat \<Rightarrow> ('k, 'nf, 'sf, 's, 'f, 'w, 'h, 'l) connHandler \<Rightarrow> ('k, 'nf, 'sf, 's, 'f, 'w, 'h, 'l) connHandler" where
  "reg_listen i ch = upd_served i (\<lambda>s. s\<lparr>sv_conn := newActiveConnection i (sv_conn s), sv_reg := RegListening\<rparr>) ch"

definition reg_list :: "nat \<Rightarrow> ('k, 'nf, 'sf, 's, 'f, 'w, 'h, 'l) connHandler \<Rightarrow> ('k, 'nf, 'sf, 's, 'f, 'w, 'h, 'l) connHandler" where
  "reg_list i ch =
     upd_al (sv_al (conn_store ch ! i)) (\<lambda>al. al\<lparr>al_conns := al_conns al @ [i]\<rparr>) (upd_served i (\<lambda>s. s\<lparr>sv_reg := RegListed\<rparr>) ch)"

definition reg_element :: "nat \<Rightarrow> ('k, 'nf, 'sf, 's, 'f, 'w, 'h, 'l) connHandler \<Rightarrow> ('k, 'nf, 'sf, 's, 'f, 'w, 'h, 'l) connHandler" where
  "reg_element i ch = upd_served i (\<lambda>s. s\<lparr>sv_reg := RegElement\<rparr>) ch"

definition reg_active :: "nat \<Rightarrow> ('k, 'nf, 'sf, 's, 'f, 'w, 'h, 'l) connHandler \<Rightarrow> ('k, 'nf, 'sf, 's, 'f, 'w, 'h, 'l) connHandler" where
  "reg_active i ch =
     upd_stats (sv_al (conn_store ch ! i)) (\<lambda>s. s\<lparr>DownstreamConnectionActive := DownstreamConnectionActive s + 1\<rparr>)
       (upd_served i (\<lambda>s. s\<lparr>sv_reg := RegActive\<rparr>) ch)"

definition reg_total :: "nat \<Rightarrow> ('k, 'nf, 'sf, 's, 'f, 'w, 'h, 'l) connHandler \<Rightarrow> ('k, 'nf, 'sf, 's, 'f, 'w, 'h, 'l) connHandler" where
  "reg_total i ch =
     upd_stats (sv_al (conn_store ch ! i)) (\<lambda>s. s\<lparr>DownstreamConnectionTotal := DownstreamConnectionTotal s + 1\<rparr>)
       (upd_served i (\<lambda>s. s\<lparr>sv_reg := RegTotal\<rparr>) ch)"

definition reg_count :: "nat \<Rightarrow> ('k, 'nf, 'sf, 's, 'f, 'w, 'h, 'l) connHandler \<Rightarrow> ('k, 'nf, 'sf, 's, 'f, 'w, 'h, 'l) connHandler" where
  "reg_count i ch = (upd_served i (\<lambda>s. s\<lparr>sv_reg := RegDone\<rparr>) ch)\<lparr>numConnections := numConnections ch + 1\<rparr>"

definition no_filters :: "('s, 'f, 'w, 'h, 'l) served \<Rightarrow> bool" where
  "no_filters s \<longleftrightarrow> ListReadFilter (sv_fm s) = [] \<and> ListWriteFilters (sv_fm s) = []"

definition register_connection :: "'s socket_write \<Rightarrow> nat \<Rightarrow> ('k, 'nf, 'sf, 's, 'f, 'w, 'h, 'l) connHandler \<Rightarrow> ('k, 'nf, 'sf, 's, 'f, 'w, 'h, 'l) connHandler run" where
  "register_connection wr i ch =
     (if no_filters (conn_store ch ! i) then close_connection wr NoFlush LocalClose i ch
      else Some (Inr (reg_count i (reg_total i (reg_active i (reg_element i (reg_list i (reg_listen i ch))))))))"

definition newConnection ::
  "('f, ('s, 'l conn_cb) connection) ReadFilter \<Rightarrow>
     ('nf \<Rightarrow> ('f, 'w, 'h) filterManager \<times> ('s, 'l conn_cb) connection \<Rightarrow> (('f, 'w, 'h) filterManager \<times> ('s, 'l conn_cb) connection) outcome) \<Rightarrow>
     's socket_write \<Rightarrow> iobuffer option \<Rightarrow> byte list option option \<Rightarrow> nat \<Rightarrow> 's \<Rightarrow> ('k, 'nf, 'sf, 's, 'f, 'w, 'h, 'l) connHandler \<Rightarrow>
     ('k, 'nf, 'sf, 's, 'f, 'w, 'h, 'l) connHandler run" where
  "newConnection F create wr pooled accepted a rawc ch =
     rbind (Some (start_connection F create pooled accepted a rawc ch)) (\<lambda>ch'. register_connection wr (length (conn_store ch)) ch')"

section \<open>Accepting\<close>

text \<open>
  The filter for the original destination: \<open>original\<close> gives the address the system keeps for a
  redirected socket, nothing when the descriptor cannot be had, and a panic when the system
  call fails, because its result is then nil and its error is not looked at.
\<close>

definition originalDst_OnAccept :: "('s \<Rightarrow> (byte list \<times> int) option outcome) \<Rightarrow> 's \<Rightarrow> (string \<times> int) outcome" where
  "originalDst_OnAccept original rawc =
     obind (original rawc) (\<lambda>r.
       Inr (case r of
              None \<Rightarrow> ('''', 0)
            | Some (ip, port) \<Rightarrow>
                (FormatUint (unat (ip ! 0)) @ ''.'' @ FormatUint (unat (ip ! 1)) @ ''.'' @ FormatUint (unat (ip ! 2)) @ ''.'' @ FormatUint (unat (ip ! 3)), port)))"

fun hand_off :: "('k, 'nf, 'sf) activeListener list \<Rightarrow> string \<Rightarrow> int \<Rightarrow> nat option \<Rightarrow> nat list \<Rightarrow> nat option \<times> nat option" where
  "hand_off st ip port local [] = (None, local)"
| "hand_off st ip port local (a # as) =
     (if listenIP (st ! a) = ip \<and> listenPort (st ! a) = port then (Some a, local)
      else hand_off st ip port (if listenPort (st ! a) = port \<and> listenIP (st ! a) = ''0.0.0.0'' then Some a else local) as)"

definition HandOffRestoredDestinationConnectionsHandler ::
  "(nat \<Rightarrow> 's \<Rightarrow> ('k, 'nf, 'sf, 's, 'f, 'w, 'h, 'l) connHandler \<Rightarrow> ('k, 'nf, 'sf, 's, 'f, 'w, 'h, 'l) connHandler run) \<Rightarrow>
     's \<Rightarrow> string \<Rightarrow> int \<Rightarrow> ('k, 'nf, 'sf, 's, 'f, 'w, 'h, 'l) connHandler \<Rightarrow> ('k, 'nf, 'sf, 's, 'f, 'w, 'h, 'l) connHandler run" where
  "HandOffRestoredDestinationConnectionsHandler accept rawc ip port ch =
     (case hand_off (al_store ch) ip port None (listeners ch) of (lst, local) \<Rightarrow>
        rbind (case lst of Some a \<Rightarrow> accept a rawc ch | None \<Rightarrow> Some (Inr ch)) (\<lambda>ch.
          case local of Some a \<Rightarrow> accept a rawc ch | None \<Rightarrow> Some (Inr ch)))"

definition OnAccept ::
  "('f, ('s, 'l conn_cb) connection) ReadFilter \<Rightarrow>
     ('nf \<Rightarrow> ('f, 'w, 'h) filterManager \<times> ('s, 'l conn_cb) connection \<Rightarrow> (('f, 'w, 'h) filterManager \<times> ('s, 'l conn_cb) connection) outcome) \<Rightarrow>
     's socket_write \<Rightarrow> iobuffer option \<Rightarrow> ('s \<Rightarrow> (byte list \<times> int) option outcome) \<Rightarrow> bool \<Rightarrow> byte list option option \<Rightarrow> nat \<Rightarrow> 's \<Rightarrow>
     ('k, 'nf, 'sf, 's, 'f, 'w, 'h, 'l) connHandler \<Rightarrow> ('k, 'nf, 'sf, 's, 'f, 'w, 'h, 'l) connHandler run" where
  "OnAccept F create wr pooled original handOff accepted a rawc ch =
     (if handOff then
        rbind (Some (originalDst_OnAccept original rawc)) (\<lambda>(ip, port).
          HandOffRestoredDestinationConnectionsHandler (newConnection F create wr pooled None) rawc ip port ch)
      else newConnection F create wr pooled accepted a rawc ch)"

section \<open>What happens to a handler\<close>

fun is_active :: "'l conn_cb \<Rightarrow> bool" where
  "is_active (ActiveConn i) \<longleftrightarrow> True"
| "is_active _ \<longleftrightarrow> False"

text \<open>The filters of a connection add listeners of their own, but no active connection.\<close>

definition outside_only :: "('s, 'l conn_cb) connection \<Rightarrow> bool" where
  "outside_only c \<longleftrightarrow> rawConnection c \<noteq> None \<and> filter is_active (connCallbacks c) = [] \<and> (\<forall>j ev. CallEvent (ActiveConn j) ev \<notin> set (conn_calls c))"

text \<open>
  A connection that is closed: what its loops and any other thread leave of it, and whether its
  active connection is told, which then takes it off the books in steps of its own.
\<close>

fun tells :: "nat \<Rightarrow> 'l conn_cb conn_call \<Rightarrow> bool" where
  "tells i (CallEvent (ActiveConn j) event) \<longleftrightarrow> j = i \<and> IsClose event"
| "tells i _ \<longleftrightarrow> False"

definition tell_closed :: "nat \<Rightarrow> ('s, 'l conn_cb) connection \<Rightarrow> ('k, 'nf, 'sf, 's, 'f, 'w, 'h, 'l) connHandler \<Rightarrow> ('k, 'nf, 'sf, 's, 'f, 'w, 'h, 'l) connHandler" where
  "tell_closed i c' ch =
     upd_served i (\<lambda>s. s\<lparr>sv_conn := c', sv_gone := (if list_ex (tells i) (new_calls (sv_conn s) c') then GoneTold else sv_gone s)\<rparr>) ch"

text \<open>
  The steps that may follow each other: listeners come and go, a connection is accepted and
  started, the parts of entering it in the books, it is closed, the parts of taking it off the
  books, and anything else happens to it that neither closes it nor adds an active connection,
  with reports of bytes. A part that panics has no step.
\<close>

inductive handler_step ::
  "('f, ('s, 'l conn_cb) connection) ReadFilter \<Rightarrow>
     ('nf \<Rightarrow> ('f, 'w, 'h) filterManager \<times> ('s, 'l conn_cb) connection \<Rightarrow> (('f, 'w, 'h) filterManager \<times> ('s, 'l conn_cb) connection) outcome) \<Rightarrow>
     's socket_write \<Rightarrow> ('k, 'nf, 'sf, 's, 'f, 'w, 'h, 'l) connHandler \<Rightarrow> ('k, 'nf, 'sf, 's, 'f, 'w, 'h, 'l) connHandler \<Rightarrow> bool"
  for F create wr where
  step_listen: "AddListener newAccessLog lc nf sfs ch = Inr ch' \<Longrightarrow> handler_step F create wr ch ch'"
| step_remove: "RemoveListeners tag ch = Inr ch' \<Longrightarrow> handler_step F create wr ch ch'"
| step_stop: "handler_step F create wr ch (StopListener tag ch)"
| step_stop_all: "handler_step F create wr ch (StopListeners close ch)"
| step_stop_conns: "StopConnection ch = Inr ch' \<Longrightarrow> handler_step F create wr ch ch'"
| step_start: "a < length (al_store ch) \<Longrightarrow> start_connection F create pooled accepted a rawc ch = Inr ch' \<Longrightarrow>
     outside_only (sv_conn (last (conn_store ch'))) \<Longrightarrow> handler_step F create wr ch ch'"
| step_reg_listen: "i < length (conn_store ch) \<Longrightarrow> sv_reg (conn_store ch ! i) = RegNone \<Longrightarrow> \<not> no_filters (conn_store ch ! i) \<Longrightarrow>
     handler_step F create wr ch (reg_listen i ch)"
| step_reg_list: "i < length (conn_store ch) \<Longrightarrow> sv_reg (conn_store ch ! i) = RegListening \<Longrightarrow> handler_step F create wr ch (reg_list i ch)"
| step_reg_element: "i < length (conn_store ch) \<Longrightarrow> sv_reg (conn_store ch ! i) = RegListed \<Longrightarrow> handler_step F create wr ch (reg_element i ch)"
| step_reg_active: "i < length (conn_store ch) \<Longrightarrow> sv_reg (conn_store ch ! i) = RegElement \<Longrightarrow> handler_step F create wr ch (reg_active i ch)"
| step_reg_total: "i < length (conn_store ch) \<Longrightarrow> sv_reg (conn_store ch ! i) = RegActive \<Longrightarrow> handler_step F create wr ch (reg_total i ch)"
| step_reg_count: "i < length (conn_store ch) \<Longrightarrow> sv_reg (conn_store ch ! i) = RegTotal \<Longrightarrow> handler_step F create wr ch (reg_count i ch)"
| step_close: "i < length (conn_store ch) \<Longrightarrow> conn_Close wr t event (sv_conn (conn_store ch ! i)) = Some (Inr c') \<Longrightarrow>
     handler_step F create wr ch (tell_closed i c' ch)"
| step_rem_list: "i < length (conn_store ch) \<Longrightarrow> sv_gone (conn_store ch ! i) = GoneTold \<Longrightarrow> rem_list i ch = Inr ch' \<Longrightarrow> handler_step F create wr ch ch'"
| step_rem_active: "i < length (conn_store ch) \<Longrightarrow> sv_gone (conn_store ch ! i) = GoneRemoved \<Longrightarrow> handler_step F create wr ch (rem_active i ch)"
| step_rem_destroy: "i < length (conn_store ch) \<Longrightarrow> sv_gone (conn_store ch ! i) = GoneInactive \<Longrightarrow> handler_step F create wr ch (rem_destroy i ch)"
| step_rem_count: "i < length (conn_store ch) \<Longrightarrow> sv_gone (conn_store ch ! i) = GoneDestroyed \<Longrightarrow> handler_step F create wr ch (rem_count i ch)"
| step_traffic: "i < length (conn_store ch) \<Longrightarrow> c = sv_conn (conn_store ch ! i) \<Longrightarrow> rawConnection c' \<noteq> None \<Longrightarrow> conn_closed c' = conn_closed c \<Longrightarrow>
     filter is_active (connCallbacks c') = filter is_active (connCallbacks c) \<Longrightarrow> close_calls c' = close_calls c \<Longrightarrow>
     list_all (\<lambda>r. \<not> is_close_call r) rs \<Longrightarrow> reports rs (set_conn i c' ch) = Inr ch' \<Longrightarrow> handler_step F create wr ch ch'"

section \<open>Counting connections\<close>

text \<open>What a connection adds to the list of its listener and to each of the counters, by how far it has come.\<close>

fun listed_phase :: "reg_phase \<Rightarrow> bool" where
  "listed_phase RegNone \<longleftrightarrow> False"
| "listed_phase RegListening \<longleftrightarrow> False"
| "listed_phase _ \<longleftrightarrow> True"

definition in_list :: "('s, 'f, 'w, 'h, 'l) served \<Rightarrow> bool" where
  "in_list s \<longleftrightarrow> listed_phase (sv_reg s) \<and> sv_gone s \<in> {GoneNone, GoneTold}"

definition active_part :: "('s, 'f, 'w, 'h, 'l) served \<Rightarrow> int" where
  "active_part s = (if sv_reg s \<in> {RegActive, RegTotal, RegDone} then 1 else 0) - (if sv_gone s \<in> {GoneInactive, GoneDestroyed, GoneDone} then 1 else 0)"

definition total_part :: "('s, 'f, 'w, 'h, 'l) served \<Rightarrow> int" where
  "total_part s = (if sv_reg s \<in> {RegTotal, RegDone} then 1 else 0)"

definition destroy_part :: "('s, 'f, 'w, 'h, 'l) served \<Rightarrow> int" where
  "destroy_part s = (if sv_gone s \<in> {GoneDestroyed, GoneDone} then 1 else 0)"

definition count_part :: "('s, 'f, 'w, 'h, 'l) served \<Rightarrow> int" where
  "count_part s = (if sv_reg s = RegDone then 1 else 0) - (if sv_gone s = GoneDone then 1 else 0)"

definition tally :: "(('s, 'f, 'w, 'h, 'l) served \<Rightarrow> int) \<Rightarrow> string \<Rightarrow> ('k, 'nf, 'sf, 's, 'f, 'w, 'h, 'l) connHandler \<Rightarrow> int" where
  "tally f ns ch = sum_list (map (\<lambda>s. if statsNamespace (al_store ch ! sv_al s) = ns then f s else 0) (conn_store ch))"

text \<open>A connection: its listener, its listeners, and that it is taken off only after it was entered and closed.\<close>

definition served_ok :: "nat \<Rightarrow> nat \<Rightarrow> ('s, 'f, 'w, 'h, 'l) served \<Rightarrow> bool" where
  "served_ok n i s \<longleftrightarrow> sv_al s < n \<and> rawConnection (sv_conn s) \<noteq> None \<and>
     filter is_active (connCallbacks (sv_conn s)) = (if sv_registered s then [ActiveConn i] else []) \<and>
     (sv_gone s \<noteq> GoneNone \<longrightarrow> sv_registered s \<and> conn_closed (sv_conn s)) \<and>
     (sv_gone s \<notin> {GoneNone, GoneTold} \<longrightarrow> element_kept (sv_reg s))"

definition handler_ok :: "('k, 'nf, 'sf, 's, 'f, 'w, 'h, 'l) connHandler \<Rightarrow> bool" where
  "handler_ok ch \<longleftrightarrow>
     (\<forall>i < length (conn_store ch). served_ok (length (al_store ch)) i (conn_store ch ! i)) \<and>
     (\<forall>a < length (al_store ch). distinct (al_conns (al_store ch ! a)) \<and>
        set (al_conns (al_store ch ! a)) = {i. i < length (conn_store ch) \<and> sv_al (conn_store ch ! i) = a \<and> in_list (conn_store ch ! i)}) \<and>
     numConnections ch = of_int (sum_list (map count_part (conn_store ch))) \<and>
     (\<forall>ns. DownstreamConnectionActive (stats_of ch ns) = tally active_part ns ch \<and>
        DownstreamConnectionTotal (stats_of ch ns) = tally total_part ns ch \<and>
        DownstreamConnectionDestroy (stats_of ch ns) = tally destroy_part ns ch)"

lemma handler_okD:
  assumes "handler_ok ch"
  shows "i < length (conn_store ch) \<Longrightarrow> served_ok (length (al_store ch)) i (conn_store ch ! i)"
    and "a < length (al_store ch) \<Longrightarrow> distinct (al_conns (al_store ch ! a))"
    and "a < length (al_store ch) \<Longrightarrow> set (al_conns (al_store ch ! a)) =
      {i. i < length (conn_store ch) \<and> sv_al (conn_store ch ! i) = a \<and> in_list (conn_store ch ! i)}"
    and "numConnections ch = of_int (sum_list (map count_part (conn_store ch)))"
    and "DownstreamConnectionActive (stats_of ch ns) = tally active_part ns ch"
    and "DownstreamConnectionTotal (stats_of ch ns) = tally total_part ns ch"
    and "DownstreamConnectionDestroy (stats_of ch ns) = tally destroy_part ns ch"
  using assms by (simp_all add: handler_ok_def)

lemma sum_list_update_int: "i < length xs \<Longrightarrow> sum_list (map f (xs[i := y])) = sum_list (map f xs) - f (xs ! i) + (f y :: int)"
proof (induction xs arbitrary: i)
  case (Cons x xs)
  then show ?case by (cases i) simp_all
qed simp

lemma sum_list_cong_int: "(\<And>x. x \<in> set xs \<Longrightarrow> f x = (g x :: int)) \<Longrightarrow> sum_list (map f xs) = sum_list (map g xs)"
  by (metis map_cong)

text \<open>One step of one connection: it moves from \<open>s\<close> to \<open>s'\<close>, and the books follow.\<close>

lemma served_update_ok:
  assumes ok: "handler_ok ch" and i: "i < length (conn_store ch)" and st: "conn_store ch' = (conn_store ch)[i := s']"
    and al: "sv_al s' = sv_al (conn_store ch ! i)" and len: "length (al_store ch') = length (al_store ch)"
    and ns: "\<And>a. statsNamespace (al_store ch' ! a) = statsNamespace (al_store ch ! a)"
    and sok: "served_ok (length (al_store ch)) i s'"
    and conns: "\<And>a. a < length (al_store ch) \<Longrightarrow> distinct (al_conns (al_store ch' ! a)) \<and>
      set (al_conns (al_store ch' ! a)) =
        (if a = sv_al s' \<and> in_list s' then insert i (set (al_conns (al_store ch ! a))) else set (al_conns (al_store ch ! a)) - {i})"
    and count: "numConnections ch' = numConnections ch + of_int (count_part s' - count_part (conn_store ch ! i))"
    and active: "\<And>n. DownstreamConnectionActive (stats_of ch' n) = DownstreamConnectionActive (stats_of ch n) +
      (if statsNamespace (al_store ch ! sv_al s') = n then active_part s' - active_part (conn_store ch ! i) else 0)"
    and total: "\<And>n. DownstreamConnectionTotal (stats_of ch' n) = DownstreamConnectionTotal (stats_of ch n) +
      (if statsNamespace (al_store ch ! sv_al s') = n then total_part s' - total_part (conn_store ch ! i) else 0)"
    and destroy: "\<And>n. DownstreamConnectionDestroy (stats_of ch' n) = DownstreamConnectionDestroy (stats_of ch n) +
      (if statsNamespace (al_store ch ! sv_al s') = n then destroy_part s' - destroy_part (conn_store ch ! i) else 0)"
  shows "handler_ok ch'"
proof -
  have nth: "conn_store ch' ! j = (if j = i then s' else conn_store ch ! j)" if "j < length (conn_store ch)" for j
    using i that by (simp add: st nth_list_update)
  have L: "length (conn_store ch') = length (conn_store ch)" by (simp add: st)
  have tally: "tally f n ch' = tally f n ch + (if statsNamespace (al_store ch ! sv_al s') = n then f s' - f (conn_store ch ! i) else 0)" for f n
    using i by (simp add: tally_def ns st sum_list_update_int al)
  have "served_ok (length (al_store ch')) j (conn_store ch' ! j)" if "j < length (conn_store ch')" for j
    using that handler_okD(1) [OF ok, of j] sok by (simp add: L len nth)
  moreover have "set (al_conns (al_store ch' ! a)) = {j. j < length (conn_store ch') \<and> sv_al (conn_store ch' ! j) = a \<and> in_list (conn_store ch' ! j)}"
    if a: "a < length (al_store ch)" for a
  proof (rule set_eqI)
    fix j
    show "j \<in> set (al_conns (al_store ch' ! a)) \<longleftrightarrow>
        j \<in> {j. j < length (conn_store ch') \<and> sv_al (conn_store ch' ! j) = a \<and> in_list (conn_store ch' ! j)}"
      using conns [OF a] handler_okD(3) [OF ok a] i by (cases "j = i") (auto simp: L nth)
  qed
  ultimately show ?thesis
    unfolding handler_ok_def using conns i handler_okD(4-7) [OF ok]
    by (simp add: len count active total destroy tally st sum_list_update_int algebra_simps)
qed

lemma new_calls_closed:
  assumes "conn_Close wr t ev c = Some (Inr c')" and "rawConnection c \<noteq> None"
  shows "new_calls c c' = (if conn_closed c then [] else CloseRaw # map (\<lambda>l. CallEvent l ev) (connCallbacks c))"
    and "connCallbacks c' = connCallbacks c" and "conn_closed c'" and "rawConnection c' \<noteq> None"
proof -
  have "new_calls c c' = (if conn_closed c then [] else CloseRaw # map (\<lambda>l. CallEvent l ev) (connCallbacks c)) \<and>
      connCallbacks c' = connCallbacks c \<and> conn_closed c' \<and> rawConnection c' \<noteq> None"
  proof (cases "conn_closed c")
    case True
    with assms conn_Close_closed [OF True, of wr t ev] show ?thesis by (simp add: new_calls_def)
  next
    case False
    from conn_Close_calls [OF assms(1) False assms(2)] False show ?thesis by (simp add: new_calls_def)
  qed
  then show "new_calls c c' = (if conn_closed c then [] else CloseRaw # map (\<lambda>l. CallEvent l ev) (connCallbacks c))"
    "connCallbacks c' = connCallbacks c" "conn_closed c'" "rawConnection c' \<noteq> None" by simp_all
qed

definition count_view where
  "count_view ch = (conn_store ch, map (\<lambda>al. (al_conns al, statsNamespace al)) (al_store ch), numConnections ch,
     \<lambda>ns. (DownstreamConnectionActive (stats_of ch ns), DownstreamConnectionTotal (stats_of ch ns), DownstreamConnectionDestroy (stats_of ch ns)))"

lemma handler_ok_view:
  assumes v: "count_view ch' = count_view ch" and ok: "handler_ok ch"
  shows "handler_ok ch'"
proof -
  have c: "conn_store ch' = conn_store ch" "length (al_store ch') = length (al_store ch)" "numConnections ch' = numConnections ch"
    using v by (auto simp: count_view_def dest: map_eq_imp_length_eq)
  have al: "al_conns (al_store ch' ! a) = al_conns (al_store ch ! a)" "statsNamespace (al_store ch' ! a) = statsNamespace (al_store ch ! a)"
    if "a < length (al_store ch)" for a
    using v c(2) that by (auto simp: count_view_def list_eq_iff_nth_eq)
  have st: "DownstreamConnectionActive (stats_of ch' ns) = DownstreamConnectionActive (stats_of ch ns)"
    "DownstreamConnectionTotal (stats_of ch' ns) = DownstreamConnectionTotal (stats_of ch ns)"
    "DownstreamConnectionDestroy (stats_of ch' ns) = DownstreamConnectionDestroy (stats_of ch ns)" for ns
    using v by (auto simp: count_view_def fun_eq_iff)
  have "sv_al s < length (al_store ch)" if "s \<in> set (conn_store ch)" for s
    using that handler_okD(1) [OF ok] by (auto simp: in_set_conv_nth served_ok_def)
  then have "tally f ns ch' = tally f ns ch" for f ns
    unfolding tally_def c(1) by (intro sum_list_cong_int) (simp add: al)
  with ok show ?thesis by (simp add: handler_ok_def c al st)
qed

lemma fold_view: "(\<And>x ch. count_view (f x ch) = count_view ch) \<Longrightarrow> count_view (fold f xs ch) = count_view ch"
  by (induction xs arbitrary: ch) simp_all

lemma on_socket_view: "count_view (on_socket f a ch) = count_view ch"
  by (simp add: on_socket_def count_view_def split: option.split)

lemma stop_all_view:
  assumes "stop_all as st = Inr st'"
  shows "map (\<lambda>al. (al_conns al, statsNamespace al)) st' = map (\<lambda>al. (al_conns al, statsNamespace al)) st"
  using assms
proof (induction "as" arbitrary: st)
  case (Cons a "as")
  have "map (\<lambda>al. (al_conns al, statsNamespace al)) (st[a := (st ! a)\<lparr>stopChan := True\<rparr>]) = map (\<lambda>al. (al_conns al, statsNamespace al)) st"
    by (cases "a < length st") (simp_all add: map_update list_update_same_conv list_update_beyond)
  with Cons show ?case by (auto split: if_splits)
qed simp

lemma report_bytes_view: "\<not> is_close_call r \<Longrightarrow> report r ch = Inr ch' \<Longrightarrow> count_view ch' = count_view ch"
  by (cases "(r, ch)" rule: report.cases) (auto simp: upd_stats_def count_view_def Let_def)

lemma reports_view: "list_all (\<lambda>r. \<not> is_close_call r) rs \<Longrightarrow> reports rs ch = Inr ch' \<Longrightarrow> count_view ch' = count_view ch"
  by (induction rs arbitrary: ch) (auto simp: go_outcome dest: report_bytes_view)

lemma AddListener_ok:
  assumes ok: "handler_ok ch" and "AddListener newAccessLog lc nf sfs ch = Inr ch'"
  shows "handler_ok ch'"
proof -
  from assms(2) obtain al where ch': "ch' = ch\<lparr>al_store := al_store ch @ [al], listeners := listeners ch @ [length (al_store ch)]\<rparr>" "al_conns al = []"
    by (auto simp: AddListener_def pbind_Inr Let_def newActiveListener_def)
  have b: "sv_al (conn_store ch ! i) < length (al_store ch)" if "i < length (conn_store ch)" for i
    using handler_okD(1) [OF ok that] by (simp add: served_ok_def)
  have "sv_al s < length (al_store ch)" if "s \<in> set (conn_store ch)" for s
    using that b by (auto simp: in_set_conv_nth)
  then have "tally f ns ch' = tally f ns ch" for f ns
    unfolding tally_def by (simp add: ch'(1)) (rule sum_list_cong_int, simp add: nth_append)
  moreover have "served_ok (length (al_store ch')) i (conn_store ch ! i)" if "i < length (conn_store ch)" for i
    using handler_okD(1) [OF ok that] by (simp add: served_ok_def ch'(1))
  ultimately show ?thesis
    using ok unfolding handler_ok_def by (auto simp: ch' nth_append less_Suc_eq dest: b)
qed

lemma start_connection_ok:
  assumes ok: "handler_ok ch" and a: "a < length (al_store ch)" and st: "start_connection F create pooled accepted a rawc ch = Inr ch'"
    and out: "outside_only (sv_conn (last (conn_store ch')))"
  shows "handler_ok ch'"
proof -
  from st obtain s cnt where ch': "ch' = ch\<lparr>idCounter := cnt, conn_store := conn_store ch @ [s]\<rparr>" "sv_al s = a" "sv_reg s = RegNone" "sv_gone s = GoneNone"
    by (auto simp: start_connection_def go_outcome Let_def split: option.splits)
  have s: "served_ok (length (al_store ch)) (length (conn_store ch)) s" "\<not> in_list s" "active_part s = 0" "total_part s = 0" "destroy_part s = 0" "count_part s = 0"
    using out a ch'
    by (auto simp: served_ok_def sv_registered_def outside_only_def in_list_def active_part_def total_part_def destroy_part_def count_part_def)
  have "f s = 0 \<Longrightarrow> tally f ns ch' = tally f ns ch" for f ns by (simp add: tally_def ch'(1))
  with s have "tally active_part ns ch' = tally active_part ns ch" "tally total_part ns ch' = tally total_part ns ch"
    "tally destroy_part ns ch' = tally destroy_part ns ch" for ns by simp_all
  with ok s show ?thesis unfolding handler_ok_def by (auto simp: ch'(1) nth_append less_Suc_eq)
qed

lemmas part_defs = in_list_def active_part_def total_part_def destroy_part_def count_part_def served_ok_def sv_registered_def

lemmas book_defs = upd_served_def upd_stats_def set_conn_def tell_closed_def reg_listen_def reg_list_def reg_element_def reg_active_def reg_total_def
  reg_count_def rem_active_def rem_destroy_def rem_count_def Let_def

text \<open>The list of a listener while one of its connections stays where it is.\<close>

lemma conns_kept:
  assumes "handler_ok ch" and "i < length (conn_store ch)" and "a < length (al_store ch)" and "sv_al s' = sv_al (conn_store ch ! i)"
    and "in_list s' = in_list (conn_store ch ! i)"
  shows "distinct (al_conns (al_store ch ! a)) \<and> set (al_conns (al_store ch ! a)) =
    (if a = sv_al s' \<and> in_list s' then insert i (set (al_conns (al_store ch ! a))) else set (al_conns (al_store ch ! a)) - {i})"
  using handler_okD(2,3) [OF assms(1,3)] assms(2,4,5) by auto

lemma newActiveConnection_simps [simp]:
  "connCallbacks (newActiveConnection i c) = connCallbacks c @ [ActiveConn i]" "conn_calls (newActiveConnection i c) = conn_calls c"
  "conn_closed (newActiveConnection i c) = conn_closed c" "rawConnection (newActiveConnection i c) = rawConnection c"
  by (simp_all add: newActiveConnection_def AddBytesSentListener_def AddBytesReadListener_def AddConnectionEventListener_def)

lemma list_update_nth_field: "f (xs[a := g (xs ! a)] ! b) = (if b = a \<and> a < length xs then f (g (xs ! a)) else f (xs ! b))"
  by (cases "a < length xs") (simp_all add: nth_list_update list_update_beyond)

text \<open>A step that leaves the lists of the listeners as they are.\<close>

lemma served_stay_ok:
  assumes ok: "handler_ok ch" and i: "i < length (conn_store ch)" and st: "conn_store ch' = (conn_store ch)[i := s']"
    and same: "al_store ch' = al_store ch" "sv_al s' = sv_al (conn_store ch ! i)" "in_list s' = in_list (conn_store ch ! i)"
    and "served_ok (length (al_store ch)) i (conn_store ch ! i) \<Longrightarrow> served_ok (length (al_store ch)) i s'"
    and "numConnections ch' = numConnections ch + of_int (count_part s' - count_part (conn_store ch ! i))"
    and "\<And>n. DownstreamConnectionActive (stats_of ch' n) = DownstreamConnectionActive (stats_of ch n) +
      (if statsNamespace (al_store ch ! sv_al s') = n then active_part s' - active_part (conn_store ch ! i) else 0)"
    and "\<And>n. DownstreamConnectionTotal (stats_of ch' n) = DownstreamConnectionTotal (stats_of ch n) +
      (if statsNamespace (al_store ch ! sv_al s') = n then total_part s' - total_part (conn_store ch ! i) else 0)"
    and "\<And>n. DownstreamConnectionDestroy (stats_of ch' n) = DownstreamConnectionDestroy (stats_of ch n) +
      (if statsNamespace (al_store ch ! sv_al s') = n then destroy_part s' - destroy_part (conn_store ch ! i) else 0)"
  shows "handler_ok ch'"
  using assms handler_okD(1) [OF ok i] conns_kept [OF ok i _ same(2,3)] by (intro served_update_ok [OF ok i st]) simp_all

lemma reg_listen_ok: "handler_ok ch \<Longrightarrow> i < length (conn_store ch) \<Longrightarrow> sv_reg (conn_store ch ! i) = RegNone \<Longrightarrow> handler_ok (reg_listen i ch)"
  by (rule served_stay_ok [where s' = "(conn_store ch ! i)\<lparr>sv_conn := newActiveConnection i (sv_conn (conn_store ch ! i)), sv_reg := RegListening\<rparr>"])
    (auto simp: book_defs part_defs)

lemma reg_element_ok: "handler_ok ch \<Longrightarrow> i < length (conn_store ch) \<Longrightarrow> sv_reg (conn_store ch ! i) = RegListed \<Longrightarrow> handler_ok (reg_element i ch)"
  by (rule served_stay_ok [where s' = "(conn_store ch ! i)\<lparr>sv_reg := RegElement\<rparr>"]) (auto simp: book_defs part_defs)

lemma reg_active_ok: "handler_ok ch \<Longrightarrow> i < length (conn_store ch) \<Longrightarrow> sv_reg (conn_store ch ! i) = RegElement \<Longrightarrow> handler_ok (reg_active i ch)"
  by (rule served_stay_ok [where s' = "(conn_store ch ! i)\<lparr>sv_reg := RegActive\<rparr>"]) (auto simp: book_defs part_defs)

lemma reg_total_ok: "handler_ok ch \<Longrightarrow> i < length (conn_store ch) \<Longrightarrow> sv_reg (conn_store ch ! i) = RegActive \<Longrightarrow> handler_ok (reg_total i ch)"
  by (rule served_stay_ok [where s' = "(conn_store ch ! i)\<lparr>sv_reg := RegTotal\<rparr>"]) (auto simp: book_defs part_defs)

lemma reg_count_ok: "handler_ok ch \<Longrightarrow> i < length (conn_store ch) \<Longrightarrow> sv_reg (conn_store ch ! i) = RegTotal \<Longrightarrow> handler_ok (reg_count i ch)"
  by (rule served_stay_ok [where s' = "(conn_store ch ! i)\<lparr>sv_reg := RegDone\<rparr>"]) (auto simp: book_defs part_defs)

lemma rem_active_ok: "handler_ok ch \<Longrightarrow> i < length (conn_store ch) \<Longrightarrow> sv_gone (conn_store ch ! i) = GoneRemoved \<Longrightarrow> handler_ok (rem_active i ch)"
  by (rule served_stay_ok [where s' = "(conn_store ch ! i)\<lparr>sv_gone := GoneInactive\<rparr>"]) (auto simp: book_defs part_defs)

lemma rem_destroy_ok: "handler_ok ch \<Longrightarrow> i < length (conn_store ch) \<Longrightarrow> sv_gone (conn_store ch ! i) = GoneInactive \<Longrightarrow> handler_ok (rem_destroy i ch)"
  by (rule served_stay_ok [where s' = "(conn_store ch ! i)\<lparr>sv_gone := GoneDestroyed\<rparr>"]) (auto simp: book_defs part_defs)

lemma rem_count_ok: "handler_ok ch \<Longrightarrow> i < length (conn_store ch) \<Longrightarrow> sv_gone (conn_store ch ! i) = GoneDestroyed \<Longrightarrow> handler_ok (rem_count i ch)"
  by (rule served_stay_ok [where s' = "(conn_store ch ! i)\<lparr>sv_gone := GoneDone\<rparr>"]) (auto simp: book_defs part_defs)

lemma set_conn_ok:
  "handler_ok ch \<Longrightarrow> i < length (conn_store ch) \<Longrightarrow> c = sv_conn (conn_store ch ! i) \<Longrightarrow> rawConnection c' \<noteq> None \<Longrightarrow> conn_closed c' = conn_closed c \<Longrightarrow>
     filter is_active (connCallbacks c') = filter is_active (connCallbacks c) \<Longrightarrow> handler_ok (set_conn i c' ch)"
  by (rule served_stay_ok [where s' = "(conn_store ch ! i)\<lparr>sv_conn := c'\<rparr>"]) (auto simp: book_defs part_defs)

lemma reg_list_ok:
  assumes ok: "handler_ok ch" and i: "i < length (conn_store ch)" and r: "sv_reg (conn_store ch ! i) = RegListening"
  shows "handler_ok (reg_list i ch)"
proof -
  let ?s = "(conn_store ch ! i)\<lparr>sv_reg := RegListed\<rparr>"
  note s = handler_okD(1) [OF ok i]
  have g: "sv_gone (conn_store ch ! i) \<in> {GoneNone, GoneTold}" using s r by (auto simp: served_ok_def)
  show ?thesis
  proof (rule served_update_ok [OF ok i, where s' = ?s], goal_cases)
    case (6 a)
    have "i \<notin> set (al_conns (al_store ch ! a))" using handler_okD(3) [OF ok 6] r by (auto simp: in_list_def)
    with handler_okD(2) [OF ok 6] g 6 show ?case by (auto simp: book_defs in_list_def nth_list_update)
  qed (use s r g in \<open>auto simp: book_defs part_defs list_update_nth_field\<close>)
qed

lemma tell_closed_ok:
  assumes ok: "handler_ok ch" and i: "i < length (conn_store ch)" and c': "conn_Close wr t ev (sv_conn (conn_store ch ! i)) = Some (Inr c')"
  shows "handler_ok (tell_closed i c' ch)"
proof -
  let ?c = "sv_conn (conn_store ch ! i)"
  let ?s = "(conn_store ch ! i)\<lparr>sv_conn := c', sv_gone := (if list_ex (tells i) (new_calls ?c c') then GoneTold else sv_gone (conn_store ch ! i))\<rparr>"
  note s = handler_okD(1) [OF ok i]
  then have raw: "rawConnection ?c \<noteq> None" by (simp add: served_ok_def)
  note n = new_calls_closed [OF c' raw]
  have told: "sv_registered (conn_store ch ! i) \<and> sv_gone (conn_store ch ! i) = GoneNone" if "list_ex (tells i) (new_calls ?c c')"
  proof -
    from that n(1) have "\<not> conn_closed ?c" "ActiveConn i \<in> set (filter is_active (connCallbacks ?c))"
      by (auto simp: list_ex_iff split: if_splits elim: tells.elims)
    with s show ?thesis by (auto simp: served_ok_def split: if_splits)
  qed
  have l: "in_list ?s = in_list (conn_store ch ! i)" using told by (auto simp: in_list_def)
  show ?thesis
  proof (rule served_update_ok [OF ok i, where s' = ?s], goal_cases)
    case 5
    show ?case using s n(2-4) told by (auto simp: served_ok_def sv_registered_def)
  next
    case (6 a)
    with conns_kept [OF ok i, of a ?s] l show ?case by (simp add: book_defs)
  qed (use told in \<open>auto simp: book_defs active_part_def total_part_def destroy_part_def count_part_def\<close>)
qed

lemma rem_list_ok:
  assumes ok: "handler_ok ch" and i: "i < length (conn_store ch)" and r: "sv_gone (conn_store ch ! i) = GoneTold" and st: "rem_list i ch = Inr ch'"
  shows "handler_ok ch'"
proof -
  let ?s = "(conn_store ch ! i)\<lparr>sv_gone := GoneRemoved\<rparr>"
  note s = handler_okD(1) [OF ok i]
  have k: "element_kept (sv_reg (conn_store ch ! i))"
    and ch': "ch' = upd_al (sv_al (conn_store ch ! i)) (\<lambda>al. al\<lparr>al_conns := remove1 i (al_conns al)\<rparr>) (upd_served i (\<lambda>s. s\<lparr>sv_gone := GoneRemoved\<rparr>) ch)"
    using st by (auto simp: rem_list_def Let_def split: if_splits)
  show ?thesis
  proof (rule served_update_ok [OF ok i, where s' = ?s], goal_cases)
    case (6 a)
    have "i \<in> set (al_conns (al_store ch ! a)) \<Longrightarrow> a = sv_al (conn_store ch ! i)" using handler_okD(3) [OF ok 6] by simp
    moreover have "sv_al (conn_store ch ! i) < length (al_store ch)" using s by (simp add: served_ok_def)
    ultimately show ?case using handler_okD(2) [OF ok 6] by (auto simp: ch' book_defs in_list_def nth_list_update)
  qed (use s r k in \<open>auto simp: ch' book_defs part_defs list_update_nth_field\<close>)
qed

lemmas parts_ok = AddListener_ok start_connection_ok reg_listen_ok reg_list_ok reg_element_ok reg_active_ok reg_total_ok reg_count_ok
  tell_closed_ok rem_list_ok rem_active_ok rem_destroy_ok rem_count_ok

lemma handler_step_ok:
  assumes "handler_step F create wr ch ch'" and "handler_ok ch"
  shows "handler_ok ch'"
  using assms
proof (induction rule: handler_step.induct)
  case (step_remove tag ch ch')
  then show ?case by (auto simp: RemoveListeners_def go_outcome count_view_def intro: handler_ok_view)
next
  case (step_stop ch tag)
  have "count_view (StopListener tag ch) = count_view ch" unfolding StopListener_def by (rule fold_view) (simp add: on_socket_view)
  from handler_ok_view [OF this step_stop] show ?case .
next
  case (step_stop_all ch close)
  have "count_view (StopListeners close ch) = count_view ch" unfolding StopListeners_def by (rule fold_view) (rule on_socket_view)
  from handler_ok_view [OF this step_stop_all] show ?case .
next
  case (step_stop_conns ch ch')
  then have "count_view ch' = count_view ch" by (auto simp: StopConnection_def go_outcome count_view_def dest: stop_all_view)
  from handler_ok_view [OF this step_stop_conns(2)] show ?case .
next
  case (step_traffic i ch c c' rs ch')
  from handler_ok_view [OF reports_view [OF step_traffic(7,8)] set_conn_ok [OF step_traffic(9,1-5)]] show ?case .
qed (blast intro: parts_ok)+

lemma NewHandler_ok [simp]: "handler_ok NewHandler"
  by (simp add: handler_ok_def NewHandler_def initStats_def tally_def)

lemma handler_run_ok: "(handler_step F create wr)\<^sup>*\<^sup>* NewHandler ch \<Longrightarrow> handler_ok ch"
  by (induction rule: rtranclp_induct) (auto intro: handler_step_ok)

section \<open>Calls as steps\<close>

text \<open>Entering a connection, closing it and taking it off, run through without a break, are such steps.\<close>

abbreviation handler_steps where
  "handler_steps F create wr \<equiv> (handler_step F create wr)\<^sup>*\<^sup>*"

lemma removeConnection_steps:
  assumes "i < length (conn_store ch)" and "sv_gone (conn_store ch ! i) = GoneTold" and "removeConnection i ch = Inr ch'"
  shows "handler_steps F create wr ch ch'"
proof -
  from assms(3) obtain ch1 where r: "rem_list i ch = Inr ch1" and ch': "ch' = rem_count i (rem_destroy i (rem_active i ch1))"
    by (auto simp: removeConnection_def go_outcome)
  have 1: "i < length (conn_store ch1)" "sv_gone (conn_store ch1 ! i) = GoneRemoved"
    using r assms(1) by (auto simp: rem_list_def Let_def upd_served_def split: if_splits)
  have "handler_step F create wr ch ch1" using assms(1,2) r by (rule step_rem_list)
  moreover have "handler_step F create wr ch1 (rem_active i ch1)" using 1 by (rule step_rem_active)
  moreover have "handler_step F create wr (rem_active i ch1) (rem_destroy i (rem_active i ch1))"
    using 1 by (intro step_rem_destroy) (simp_all add: book_defs)
  moreover have "handler_step F create wr (rem_destroy i (rem_active i ch1)) ch'"
    unfolding ch' using 1 by (intro step_rem_count) (simp_all add: book_defs)
  ultimately show ?thesis by (meson converse_rtranclp_into_rtranclp rtranclp.rtrancl_refl)
qed

lemma reports_events:
  "reports (map (\<lambda>l. CallEvent l ev) ls) ch = reports (map (\<lambda>l. CallEvent l ev) (filter is_active ls)) ch"
proof (induction ls arbitrary: ch)
  case (Cons l ls)
  show ?case
  proof (cases l)
    case (ActiveConn i)
    then show ?thesis by (cases "activeConnection_OnEvent i ev ch") (simp_all add: Cons)
  qed (simp_all add: Cons)
qed simp

lemma obind_reports_Nil [simp]: "obind m (reports []) = m"
  by (cases m) simp_all

lemma removeConnection_told: "i < length (conn_store ch) \<Longrightarrow> removeConnection i (tell_closed i c' ch) = removeConnection i (set_conn i c' ch)"
  by (simp add: removeConnection_def rem_list_def tell_closed_def upd_served_def set_conn_def Let_def)

lemma close_connection_steps:
  assumes ok: "handler_ok ch" and i: "i < length (conn_store ch)" and cl: "close_connection wr t ev i ch = Some (Inr ch')"
  shows "handler_steps F create wr ch ch'"
proof -
  let ?c = "sv_conn (conn_store ch ! i)"
  from cl obtain c' where c': "conn_Close wr t ev ?c = Some (Inr c')" and r: "reports (new_calls ?c c') (set_conn i c' ch) = Inr ch'"
    by (auto simp: close_connection_def Let_def go_outcome)
  note s = handler_okD(1) [OF ok i]
  then have raw: "rawConnection ?c \<noteq> None" and cbs: "filter is_active (connCallbacks ?c) = (if sv_registered (conn_store ch ! i) then [ActiveConn i] else [])"
    by (simp_all add: served_ok_def)
  note n = new_calls_closed(1) [OF c' raw]
  have step: "handler_step F create wr ch (tell_closed i c' ch)" using i c' by (rule step_close)
  have act: "ActiveConn i \<in> set (connCallbacks ?c) \<longleftrightarrow> sv_registered (conn_store ch ! i)"
  proof -
    have "ActiveConn i \<in> set (connCallbacks ?c) \<longleftrightarrow> ActiveConn i \<in> set (filter is_active (connCallbacks ?c))" by simp
    then show ?thesis by (simp only: cbs) simp
  qed
  have tells: "list_ex (tells i) (new_calls ?c c') \<longleftrightarrow> \<not> conn_closed ?c \<and> sv_registered (conn_store ch ! i) \<and> IsClose ev"
    using act by (auto simp: n list_ex_iff elim!: tells.elims intro!: bexI [of _ "ActiveConn i"])
  show ?thesis
  proof (cases "list_ex (tells i) (new_calls ?c c')")
    case True
    then have "reports (new_calls ?c c') (set_conn i c' ch) = removeConnection i (set_conn i c' ch)"
      using tells reports_events [of ev "connCallbacks ?c"] cbs by (simp add: n activeConnection_OnEvent_def)
    then have "removeConnection i (tell_closed i c' ch) = Inr ch'" using r removeConnection_told [OF i] by simp
    moreover have "sv_gone (conn_store (tell_closed i c' ch) ! i) = GoneTold" "i < length (conn_store (tell_closed i c' ch))"
      using True i by (simp_all add: tell_closed_def upd_served_def)
    ultimately have "handler_steps F create wr (tell_closed i c' ch) ch'" by (intro removeConnection_steps)
    with step show ?thesis by (rule converse_rtranclp_into_rtranclp)
  next
    case False
    then have "reports (new_calls ?c c') (set_conn i c' ch) = Inr (set_conn i c' ch)"
      using tells reports_events [of ev "connCallbacks ?c"] cbs by (auto simp: n activeConnection_OnEvent_def split: if_splits)
    moreover have "tell_closed i c' ch = set_conn i c' ch" using False by (simp add: tell_closed_def upd_served_def set_conn_def)
    ultimately show ?thesis using r step by auto
  qed
qed

lemma reg_lengths [simp]:
  "length (conn_store (reg_listen i ch)) = length (conn_store ch)" "length (conn_store (reg_list i ch)) = length (conn_store ch)"
  "length (conn_store (reg_element i ch)) = length (conn_store ch)" "length (conn_store (reg_active i ch)) = length (conn_store ch)"
  "length (conn_store (reg_total i ch)) = length (conn_store ch)" "length (conn_store (reg_count i ch)) = length (conn_store ch)"
  by (simp_all add: book_defs)

lemma reg_phases [simp]:
  assumes "i < length (conn_store ch)"
  shows "sv_reg (conn_store (reg_listen i ch) ! i) = RegListening" "sv_reg (conn_store (reg_list i ch) ! i) = RegListed"
    "sv_reg (conn_store (reg_element i ch) ! i) = RegElement" "sv_reg (conn_store (reg_active i ch) ! i) = RegActive"
    "sv_reg (conn_store (reg_total i ch) ! i) = RegTotal" "sv_reg (conn_store (reg_count i ch) ! i) = RegDone"
  using assms by (simp_all add: book_defs)

lemma register_connection_steps:
  assumes ok: "handler_ok ch" and i: "i < length (conn_store ch)" and n: "\<not> sv_registered (conn_store ch ! i)"
    and r: "register_connection wr i ch = Some (Inr ch')"
  shows "handler_steps F create wr ch ch'"
proof (cases "no_filters (conn_store ch ! i)")
  case True
  with r close_connection_steps [OF ok i] show ?thesis by (simp add: register_connection_def)
next
  case False
  let ?ch1 = "reg_listen i ch"
  let ?ch2 = "reg_list i ?ch1"
  let ?ch3 = "reg_element i ?ch2"
  let ?ch4 = "reg_active i ?ch3"
  let ?ch5 = "reg_total i ?ch4"
  have "handler_step F create wr ch ?ch1" using i n False by (intro step_reg_listen) (simp_all add: sv_registered_def)
  moreover have "handler_step F create wr ?ch1 ?ch2" using i by (intro step_reg_list) simp_all
  moreover have "handler_step F create wr ?ch2 ?ch3" using i by (intro step_reg_element) simp_all
  moreover have "handler_step F create wr ?ch3 ?ch4" using i by (intro step_reg_active) simp_all
  moreover have "handler_step F create wr ?ch4 ?ch5" using i by (intro step_reg_total) simp_all
  moreover have "handler_step F create wr ?ch5 (reg_count i ?ch5)" using i by (intro step_reg_count) simp_all
  moreover have "ch' = reg_count i ?ch5" using r False by (simp add: register_connection_def)
  ultimately show ?thesis by (meson converse_rtranclp_into_rtranclp rtranclp.rtrancl_refl)
qed

section \<open>A connection that closes too early\<close>

text \<open>
  The loops of a connection run before it becomes an active connection. One that has closed by
  then will not be told again.
\<close>

definition closed_early :: "nat \<Rightarrow> ('k, 'nf, 'sf, 's, 'f, 'w, 'h, 'l) connHandler \<Rightarrow> bool" where
  "closed_early i ch \<longleftrightarrow> i < length (conn_store ch) \<and> listed_phase (sv_reg (conn_store ch ! i)) \<and> conn_closed (sv_conn (conn_store ch ! i)) \<and>
     sv_gone (conn_store ch ! i) = GoneNone"

lemma closed_early_view: "count_view ch' = count_view ch \<Longrightarrow> closed_early i ch' = closed_early i ch"
  by (simp add: closed_early_def count_view_def)

lemma closed_early_served:
  assumes "closed_early i ch" and "conn_store ch' = (conn_store ch)[j := s']"
    and "j = i \<Longrightarrow> listed_phase (sv_reg s') \<and> conn_closed (sv_conn s') \<and> sv_gone s' = GoneNone"
  shows "closed_early i ch'"
  using assms by (cases "j = i") (auto simp: closed_early_def)

lemma tell_closed_early:
  assumes "closed_early i ch" and "conn_Close wr t ev (sv_conn (conn_store ch ! j)) = Some (Inr c')"
  shows "closed_early i (tell_closed j c' ch)"
  by (rule closed_early_served [OF assms(1)], simp add: tell_closed_def upd_served_def)
    (use assms in \<open>auto simp: closed_early_def conn_Close_def new_calls_def\<close>)

lemma handler_step_early:
  assumes "handler_step F create wr ch ch'" and "closed_early i ch"
  shows "closed_early i ch'"
  using assms
proof (induction rule: handler_step.induct)
  case (step_listen newAccessLog lc nf sfs ch ch')
  then show ?case by (auto simp: AddListener_def pbind_Inr Let_def closed_early_def)
next
  case (step_stop ch tag)
  have "count_view (StopListener tag ch) = count_view ch" unfolding StopListener_def by (rule fold_view) (simp add: on_socket_view)
  with step_stop closed_early_view show ?case by blast
next
  case (step_stop_all ch close)
  have "count_view (StopListeners close ch) = count_view ch" unfolding StopListeners_def by (rule fold_view) (rule on_socket_view)
  with step_stop_all closed_early_view show ?case by blast
next
  case (step_start a ch pooled accepted rawc ch')
  then show ?case
    by (auto simp: start_connection_def go_outcome Let_def closed_early_def nth_append split: option.splits)
next
  case (step_close j ch t event c')
  then show ?case by (blast intro: tell_closed_early)
next
  case (step_rem_list j ch ch')
  then have "conn_store ch' = (conn_store ch)[j := (conn_store ch ! j)\<lparr>sv_gone := GoneRemoved\<rparr>]" "j \<noteq> i"
    by (auto simp: rem_list_def upd_served_def closed_early_def Let_def split: if_splits)
  with step_rem_list show ?case by (blast intro: closed_early_served)
next
  case (step_traffic j ch c c' rs ch')
  then have "closed_early i (set_conn j c' ch)"
    by (intro closed_early_served [OF step_traffic(9)]) (auto simp: set_conn_def closed_early_def)
  with closed_early_view [OF reports_view [OF step_traffic(7,8)]] show ?case by blast
qed (auto simp: RemoveListeners_def StopConnection_def go_outcome closed_early_def book_defs nth_list_update)

lemma handler_run_early: "handler_steps F create wr ch ch' \<Longrightarrow> closed_early i ch \<Longrightarrow> closed_early i ch'"
  by (induction rule: rtranclp_induct) (auto intro: handler_step_early)

section \<open>Books at rest\<close>

definition held :: "('k, 'nf, 'sf, 's, 'f, 'w, 'h, 'l) connHandler \<Rightarrow> nat set" where
  "held ch = {i. \<exists>a < length (al_store ch). i \<in> set (al_conns (al_store ch ! a))}"

text \<open>No connection is on its way into the books or out of them.\<close>

definition settled :: "('k, 'nf, 'sf, 's, 'f, 'w, 'h, 'l) connHandler \<Rightarrow> bool" where
  "settled ch \<longleftrightarrow> list_all (\<lambda>s. sv_reg s \<in> {RegNone, RegDone} \<and> sv_gone s \<in> {GoneNone, GoneDone}) (conn_store ch)"

lemma held_listed:
  assumes "handler_ok ch"
  shows "held ch = {i. i < length (conn_store ch) \<and> in_list (conn_store ch ! i)}"
  using handler_okD(1,3) [OF assms] by (auto simp: held_def served_ok_def)

lemma sum_ones: "sum_list (map (\<lambda>x. if P x then 1 else 0) xs) = int (length (filter P xs))"
  by (induction xs) simp_all

lemma count_parts:
  "sum_list (map count_part ss) = int (length (filter (\<lambda>s. sv_reg s = RegDone) ss)) - int (length (filter (\<lambda>s. sv_gone s = GoneDone) ss))"
  by (induction ss) (simp_all add: count_part_def)

lemma settled_parts:
  assumes "handler_ok ch" and "settled ch" and "s \<in> set (conn_store ch)"
  shows "count_part s = (if in_list s then 1 else 0)" and "active_part s = (if in_list s then 1 else 0)"
    and "total_part s = active_part s + destroy_part s"
proof -
  obtain i where "i < length (conn_store ch)" "conn_store ch ! i = s" using assms(3) by (auto simp: in_set_conv_nth)
  with handler_okD(1) [OF assms(1)] have "served_ok (length (al_store ch)) i s" by blast
  moreover have "sv_reg s \<in> {RegNone, RegDone}" "sv_gone s \<in> {GoneNone, GoneDone}" using assms(2,3) by (auto simp: settled_def list_all_iff)
  ultimately show "count_part s = (if in_list s then 1 else 0)" "active_part s = (if in_list s then 1 else 0)"
    "total_part s = active_part s + destroy_part s" by (auto simp: part_defs)
qed

lemma settled_counts:
  assumes "handler_ok ch" and "settled ch"
  shows "numConnections ch = of_nat (card (held ch))"
    and "DownstreamConnectionActive (stats_of ch ns) = int (card {i \<in> held ch. statsNamespace (al_store ch ! sv_al (conn_store ch ! i)) = ns})"
    and "DownstreamConnectionTotal (stats_of ch ns) = DownstreamConnectionActive (stats_of ch ns) + DownstreamConnectionDestroy (stats_of ch ns)"
proof -
  let ?in = "\<lambda>s. statsNamespace (al_store ch ! sv_al s) = ns"
  have "sum_list (map count_part (conn_store ch)) = sum_list (map (\<lambda>s. if in_list s then 1 else 0) (conn_store ch))"
    by (rule sum_list_cong_int) (rule settled_parts(1) [OF assms])
  then show "numConnections ch = of_nat (card (held ch))"
    using handler_okD(4) [OF assms(1)] by (simp add: sum_ones length_filter_conv_card held_listed [OF assms(1)])
  have "tally active_part ns ch = sum_list (map (\<lambda>s. if in_list s \<and> ?in s then 1 else 0) (conn_store ch))"
    unfolding tally_def by (rule sum_list_cong_int) (simp add: settled_parts(2) [OF assms])
  then show "DownstreamConnectionActive (stats_of ch ns) = int (card {i \<in> held ch. ?in (conn_store ch ! i)})"
    using handler_okD(5) [OF assms(1), of ns] by (simp add: sum_ones length_filter_conv_card held_listed [OF assms(1)] conj_assoc)
  have "tally total_part ns ch = sum_list (map (\<lambda>s. (if ?in s then active_part s else 0) + (if ?in s then destroy_part s else 0)) (conn_store ch))"
    unfolding tally_def by (rule sum_list_cong_int) (simp add: settled_parts(3) [OF assms])
  then show "DownstreamConnectionTotal (stats_of ch ns) = DownstreamConnectionActive (stats_of ch ns) + DownstreamConnectionDestroy (stats_of ch ns)"
    using handler_okD(5-7) [OF assms(1), of ns] by (simp add: tally_def sum_list_addf)
qed

section \<open>Properties\<close>



text \<open>
  A connection that closes while it is entered in the books, after the handler listens for its end
  and before it has kept the element of the list, makes the closing thread panic, which then
  still holds the lock of the list.
\<close>

lemma close_while_entered_panics:
  assumes "sv_reg (conn_store ch ! i) = RegListening \<or> sv_reg (conn_store ch ! i) = RegListed"
  shows "removeConnection i ch = Inl NilDereference"
  using assms by (auto simp: removeConnection_def rem_list_def Let_def)

lemma hand_off_both:
  assumes "\<forall>x \<in> set (as @ a # bs). \<not> (listenIP (st ! x) = ip \<and> listenPort (st ! x) = port)"
    and "listenIP (st ! a) = ''0.0.0.0''" "listenPort (st ! a) = port" and "\<forall>x \<in> set bs. listenIP (st ! x) \<noteq> ''0.0.0.0'' \<or> listenPort (st ! x) \<noteq> port"
    and "listenIP (st ! b) = ip" "listenPort (st ! b) = port"
  shows "hand_off st ip port local (as @ a # bs @ b # cs) = (Some b, Some a)"
proof -
  have bs: "hand_off st ip port (Some a) (bs @ b # cs) = (Some b, Some a)"
    using assms(1,4-6) by (induction bs) auto
  from assms(1) show ?thesis
    by (induction "as" arbitrary: local) (use bs assms(2,3) in auto)
qed

lemma report_length: "report r ch = Inr ch' \<Longrightarrow> length (conn_store ch') = length (conn_store ch)"
  by (cases "(r, ch)" rule: report.cases)
    (auto simp: activeConnection_OnEvent_def removeConnection_def rem_list_def go_outcome book_defs split: if_splits)

lemma reports_length: "reports rs ch = Inr ch' \<Longrightarrow> length (conn_store ch') = length (conn_store ch)"
  by (induction rs arbitrary: ch) (auto simp: go_outcome dest: report_length)

lemma newConnection_length:
  assumes "newConnection F create wr pooled accepted a rawc ch = Some (Inr ch')"
  shows "length (conn_store ch') = length (conn_store ch) + 1"
proof -
  from assms obtain ch1 where s: "start_connection F create pooled accepted a rawc ch = Inr ch1" "register_connection wr (length (conn_store ch)) ch1 = Some (Inr ch')"
    by (auto simp: newConnection_def go_outcome)
  have "length (conn_store ch1) = length (conn_store ch) + 1"
    using s(1) by (auto simp: start_connection_def go_outcome Let_def split: option.splits)
  moreover have "length (conn_store ch') = length (conn_store ch1)"
    using s(2) by (auto simp: register_connection_def close_connection_def Let_def go_outcome book_defs reports_length split: if_splits)
  ultimately show ?thesis by simp
qed

text \<open>
  A redirected connection may be accepted twice. When a listener for every address
  of the original port comes before the one for the very address, the handler remembers the
  first, finds the second, and hands the socket to both: two connections read from it and
  answer on it.
\<close>

lemma restored_connection_accepted_twice:
  assumes "original rawc = Inr (Some (ip, port))"
    and "dst = FormatUint (unat (ip ! 0)) @ ''.'' @ FormatUint (unat (ip ! 1)) @ ''.'' @ FormatUint (unat (ip ! 2)) @ ''.'' @ FormatUint (unat (ip ! 3))"
    and "listeners ch = xs @ a # bs @ b # cs"
    and "\<forall>x \<in> set (xs @ a # bs). \<not> (listenIP (al_store ch ! x) = dst \<and> listenPort (al_store ch ! x) = port)"
    and "listenIP (al_store ch ! a) = ''0.0.0.0''" and "listenPort (al_store ch ! a) = port"
    and "\<forall>x \<in> set bs. listenIP (al_store ch ! x) \<noteq> ''0.0.0.0'' \<or> listenPort (al_store ch ! x) \<noteq> port"
    and "listenIP (al_store ch ! b) = dst" and "listenPort (al_store ch ! b) = port"
  shows "OnAccept F create wr pooled original True accepted l rawc ch =
      rbind (newConnection F create wr pooled None b rawc ch) (newConnection F create wr pooled None a rawc) \<and>
    (\<forall>ch'. OnAccept F create wr pooled original True accepted l rawc ch = Some (Inr ch') \<longrightarrow> length (conn_store ch') = length (conn_store ch) + 2)"
proof -
  have "OnAccept F create wr pooled original True accepted l rawc ch =
      rbind (newConnection F create wr pooled None b rawc ch) (newConnection F create wr pooled None a rawc)"
    using hand_off_both [OF assms(4-9)] assms(1,2)
    by (simp add: OnAccept_def originalDst_OnAccept_def HandOffRestoredDestinationConnectionsHandler_def assms(3))
  then show ?thesis by (auto simp: go_outcome dest!: newConnection_length)
qed

section \<open>Other findings\<close>

text \<open>An error of \<open>Accept\<close> that is temporary, such as too many open files, ends the loop for good.\<close>

lemma temporary_error_ends_accepting: "isOpError err \<Longrightarrow> isNetError err \<Longrightarrow> accept_loop (Inl err # rs) = ([], True)"
  by (simp add: accept_returns_def)

text \<open>Two listeners with the same tag, which all listeners from the file have, cannot be removed.\<close>

lemma RemoveListeners_panics:
  assumes "listeners ch = [a, b]" "tag_of ch a = tag" "tag_of ch b = tag"
  shows "RemoveListeners tag ch = Inl SliceBoundsOutOfRange"
  using assms by (simp add: RemoveListeners_def numeral_2_eq_2 go_outcome)

text \<open>One listener without a socket, and there are no descriptors for a new process.\<close>

lemma unbound_listener_no_fds:
  assumes "a \<in> set (listeners ch)" and "rawl (al_listener (al_store ch ! a)) = None"
  shows "ListListenersFD fd ch = []"
proof -
  have "list_fds fd ks = None" if "None \<in> set ks" for ks
    using that by (induction ks) (auto split: option.splits)
  moreover have "None \<in> set (map (\<lambda>a. rawl (al_listener (al_store ch ! a))) (listeners ch))" using assms by force
  ultimately show ?thesis by (simp add: ListListenersFD_def)
qed

text \<open>Otherwise the descriptors are those of the listeners, in order.\<close>

lemma listener_Start_opens:
  assumes "listener_Start listenTCP rs l = Inr (l', cs, b)"
  shows "bindToPort l' = bindToPort l" and "bindToPort l \<Longrightarrow> rawl l' \<noteq> None" and "rawl l \<noteq> None \<Longrightarrow> l' = l"
  using assms by (auto simp: listener_Start_def listener_listen_def split: if_splits option.splits prod.splits)

lemma start_listener_keeps:
  assumes "start_listener listenTCP a ch = Inr ch'"
  shows "listeners ch' = listeners ch" and "length (al_store ch') = length (al_store ch)"
    and "bindToPort (al_listener (al_store ch' ! i)) = bindToPort (al_listener (al_store ch ! i))"
    and "rawl (al_listener (al_store ch ! i)) \<noteq> None \<Longrightarrow> rawl (al_listener (al_store ch' ! i)) \<noteq> None"
    and "a < length (al_store ch) \<Longrightarrow> bindToPort (al_listener (al_store ch ! a)) \<Longrightarrow> rawl (al_listener (al_store ch' ! a)) \<noteq> None"
proof -
  obtain l cs b where l: "listener_Start listenTCP ([] :: (accept_error + 'd) list) (al_listener (al_store ch ! a)) = Inr (l, cs, b)"
    and ch': "ch' = ch\<lparr>al_store := (al_store ch)[a := (al_store ch ! a)\<lparr>al_listener := l\<rparr>]\<rparr>"
    using assms by (auto simp: start_listener_def parsed_Inr)
  note o = listener_Start_opens [OF l]
  show "listeners ch' = listeners ch" "length (al_store ch') = length (al_store ch)" by (simp_all add: ch')
  show "bindToPort (al_listener (al_store ch' ! i)) = bindToPort (al_listener (al_store ch ! i))"
    using o(1) by (cases "a = i"; cases "a < length (al_store ch)") (auto simp: ch' list_update_beyond)
  show "rawl (al_listener (al_store ch' ! i)) \<noteq> None" if "rawl (al_listener (al_store ch ! i)) \<noteq> None"
    using that o(3) by (cases "a = i"; cases "a < length (al_store ch)") (auto simp: ch' list_update_beyond)
  show "rawl (al_listener (al_store ch' ! a)) \<noteq> None" if "a < length (al_store ch)" "bindToPort (al_listener (al_store ch ! a))"
    using o(2) that by (simp add: ch')
qed

lemma start_listeners_keeps:
  "start_listeners listenTCP ls ch = Inr ch' \<Longrightarrow> rawl (al_listener (al_store ch ! i)) \<noteq> None \<Longrightarrow> rawl (al_listener (al_store ch' ! i)) \<noteq> None"
  by (induction ls arbitrary: ch) (auto simp: parsed_Inr dest: start_listener_keeps(4))

lemma start_listeners_opens:
  "start_listeners listenTCP ls ch = Inr ch' \<Longrightarrow> a \<in> set ls \<Longrightarrow> a < length (al_store ch) \<Longrightarrow> bindToPort (al_listener (al_store ch ! a)) \<Longrightarrow>
     rawl (al_listener (al_store ch' ! a)) \<noteq> None"
proof (induction ls arbitrary: ch)
  case (Cons x ls)
  then obtain ch1 where 1: "start_listener listenTCP x ch = Inr ch1" "start_listeners listenTCP ls ch1 = Inr ch'" by (auto simp: parsed_Inr)
  show ?case
  proof (cases "a = x")
    case True
    then show ?thesis using start_listeners_keeps [OF 1(2)] start_listener_keeps(5) [OF 1(1)] Cons.prems by blast
  next
    case False
    with Cons.prems Cons.IH [OF 1(2)] start_listener_keeps(2,3) [OF 1(1)] show ?thesis by simp
  qed
qed simp

lemma ListListenersFD_all:
  assumes "\<And>a. a \<in> set (listeners ch) \<Longrightarrow> rawl (al_listener (al_store ch ! a)) = Some (k a) \<and> fd (k a) = Some (d a)"
  shows "ListListenersFD fd ch = map d (listeners ch)"
proof -
  have "list_fds fd (map (\<lambda>a. rawl (al_listener (al_store ch ! a))) as) = Some (map d as)" if "set as \<subseteq> set (listeners ch)" for "as"
    using that assms by (induction "as") auto
  then show ?thesis by (simp add: ListListenersFD_def)
qed

section \<open>A small handler\<close>

definition quiet_filter :: "(unit, (byte list, unit conn_cb) connection) ReadFilter" where
  "quiet_filter = \<lparr>InitializeReadFilterCallbacks = (\<lambda>f c. c), OnNewConnection = (\<lambda>f c. Inr (c, Continue)), OnData = (\<lambda>f c. Inr (c, Continue))\<rparr>"

definition one_filter ::
  "unit \<Rightarrow> (unit, unit, unit) filterManager \<times> (byte list, unit conn_cb) connection \<Rightarrow> ((unit, unit, unit) filterManager \<times> (byte list, unit conn_cb) connection) outcome" where
  "one_filter nf fc = Inr (AddReadFilter quiet_filter () (fst fc) (snd fc))"

type_synonym small_handler = "(nat, unit, unit, byte list, unit, unit, unit, unit) connHandler"

definition sample_al :: "string \<Rightarrow> int \<Rightarrow> (nat, unit, unit) activeListener" where
  "sample_al ip port =
     \<lparr>disableConnIo = False, al_listener = \<lparr>li_name = ''l'', localAddress = ip, bindToPort = True, listenerTag = 0, perConnBufferLimitBytes = 0,
        li_handOff = False, rawl = None\<rparr>,
      networkFiltersFactory = Some (), streamFiltersFactories = [], listenIP = ip, listenPort = port, statsNamespace = ''n'',
      al_conns = [], stopChan = False, al_logPath = '''', al_accessLogs = []\<rparr>"

definition sample_lc :: "nat v2_ListenerConfig" where
  "sample_lc = \<lparr>lv_Name = ''l'', lv_Addr = ''1.2.3.4:80'', lv_ListenerTag = 0, lv_ListenerScope = '''', lv_BindToPort = True, lv_PerConnBufferLimitBytes = 0,
     lv_HandOff = False, lv_InheritListener = None, lv_Remain = False, lv_LogPath = '''', lv_LogLevel = 0, lv_AccessLogs = [], lv_DisableConnIo = False, lv_FilterChains = []\<rparr>"

definition listening :: small_handler where
  "listening = NewHandler\<lparr>al_store := [newActiveListener (NewListener sample_lc) (MosnLogBasePath @ ''/l.log'') [] (Some ()) [] False], listeners := [0]\<rparr>"

definition started :: small_handler where
  "started = listening\<lparr>idCounter := 2, conn_store :=
     [\<lparr>sv_al = 0, sv_conn = Start (SetBufferLimit 0 (new_connection 2 (Some []) True)),
       sv_fm = newFilterManager\<lparr>upstreamFilters := [\<lparr>arf_index = 0, arf_filter = (), initialized = True\<rparr>], filter_calls := [CallNewConnection 0]\<rparr>,
       sv_reg = RegNone, sv_gone = GoneNone\<rparr>]\<rparr>"

lemma listening_step: "handler_step quiet_filter one_filter log_socket NewHandler listening"
  by (rule step_listen [where newAccessLog = "\<lambda>_ _. True" and lc = sample_lc and nf = "Some ()" and sfs = "[]"])
    (simp add: AddListener_def listening_def NewHandler_def pbind_def sample_lc_def Let_def)

lemma started_step: "handler_step quiet_filter one_filter log_socket listening started"
proof (rule step_start [where a = 0 and pooled = None and accepted = None and rawc = "[]"])
  show "start_connection quiet_filter one_filter None None 0 [] listening = Inr started"
    by (simp add: start_connection_def NewServerConnection_def listening_def started_def NewHandler_def newActiveListener_def NewListener_def
        sample_lc_def buildFilterChain_def one_filter_def AddReadFilter_def InitializeReadFilters_def onContinueReading_def newFilterManager_def
        quiet_filter_def filter_new_def filter_data_def GetReadBuffer_def SetBufferLimit_def new_connection_def Let_def)
qed (simp_all add: listening_def started_def outside_only_def Start_def SetBufferLimit_def new_connection_def)

lemma started_run: "(handler_step quiet_filter one_filter log_socket)\<^sup>*\<^sup>* NewHandler started"
  using listening_step started_step by (meson rtranclp.rtrancl_into_rtrancl rtranclp.rtrancl_refl)

lemma started_simps: "length (conn_store started) = 1" "\<not> sv_registered (conn_store started ! 0)" "ListReadFilter (sv_fm (conn_store started ! 0)) \<noteq> []"
  "\<not> conn_closed (sv_conn (conn_store started ! 0))" "length (al_store started) = 1" "al_conns (al_store started ! 0) = []" "sv_al (conn_store started ! 0) = 0"
  by (simp_all add: started_def listening_def sv_registered_def ListReadFilter_def newActiveListener_def Let_def Start_def SetBufferLimit_def new_connection_def)

definition entered :: small_handler where
  "entered = reg_count 0 (reg_total 0 (reg_active 0 (reg_element 0 (reg_list 0 (reg_listen 0 started)))))"

lemma entered_run: "(handler_step quiet_filter one_filter log_socket)\<^sup>*\<^sup>* NewHandler entered"
proof -
  have "register_connection log_socket 0 started = Some (Inr entered)"
    using started_simps(3) by (simp add: register_connection_def no_filters_def entered_def)
  from register_connection_steps [OF handler_run_ok [OF started_run] _ started_simps(2) this, of quiet_filter one_filter] started_run
  show ?thesis by (simp add: started_simps(1))
qed

lemma entered_simps: "settled entered" "held entered = {0}"
  using started_simps by (simp_all add: settled_def held_def entered_def started_def book_defs listening_def)


definition gone :: small_handler where
  "gone = the (case close_connection log_socket NoFlush RemoteClose 0 started of Some (Inr ch) \<Rightarrow> Some ch | _ \<Rightarrow> None)"

lemma gone_simps:
  "close_connection log_socket NoFlush RemoteClose 0 started = Some (Inr gone)" "length (conn_store gone) = 1" "\<not> sv_registered (conn_store gone ! 0)"
  "conn_closed (sv_conn (conn_store gone ! 0))" "ListReadFilter (sv_fm (conn_store gone ! 0)) \<noteq> []"
  by (simp_all add: gone_def close_connection_def started_def listening_def conn_Close_def new_connection_def Start_def SetBufferLimit_def close_read_def
      flush_first_def close_raw_def new_stats_def set_conn_def close_calls_def new_calls_def sv_registered_def ListReadFilter_def Let_def)


text \<open>The peer of a connection goes away while the connection is pushed on the list.\<close>

lemma close_while_entered_reachable:
  "(handler_step quiet_filter one_filter log_socket)\<^sup>*\<^sup>* NewHandler (reg_listen 0 started)"
  "close_connection log_socket NoFlush RemoteClose 0 (reg_listen 0 started) = Some (Inl NilDereference)"
proof -
  have "handler_step quiet_filter one_filter log_socket started (reg_listen 0 started)"
    using started_simps by (intro step_reg_listen) (simp_all add: sv_registered_def no_filters_def)
  with started_run show "(handler_step quiet_filter one_filter log_socket)\<^sup>*\<^sup>* NewHandler (reg_listen 0 started)"
    by (rule rtranclp.rtrancl_into_rtrancl)
  show "close_connection log_socket NoFlush RemoteClose 0 (reg_listen 0 started) = Some (Inl NilDereference)"
    by (simp add: close_connection_def reg_listen_def upd_served_def newActiveConnection_def AddBytesSentListener_def AddBytesReadListener_def
        AddConnectionEventListener_def started_def listening_def conn_Close_def new_connection_def Start_def SetBufferLimit_def close_read_def
        flush_first_def close_raw_def new_stats_def set_conn_def close_calls_def new_calls_def activeConnection_OnEvent_def IsClose_def
        removeConnection_def rem_list_def Let_def)
qed

definition two_listeners :: small_handler where
  "two_listeners = NewHandler\<lparr>al_store := [sample_al ''0.0.0.0'' 80, sample_al ''1.2.3.4'' 80], listeners := [0, 1]\<rparr>"

lemma two_listeners_simps:
  "listeners two_listeners = [] @ 0 # [] @ 1 # []" "listenIP (al_store two_listeners ! 0) = ''0.0.0.0''" "listenPort (al_store two_listeners ! 0) = 80"
  "listenIP (al_store two_listeners ! 1) = ''1.2.3.4''" "listenPort (al_store two_listeners ! 1) = 80" "conn_store two_listeners = []"
  by (simp_all add: two_listeners_def sample_al_def NewHandler_def)

lemma two_listeners_accept:
  "\<exists>ch. rbind (newConnection quiet_filter one_filter log_socket None None 1 [] two_listeners) (newConnection quiet_filter one_filter log_socket None None 0 []) = Some (Inr ch)"
  by (simp add: newConnection_def start_connection_def NewServerConnection_def two_listeners_def NewHandler_def sample_al_def
      buildFilterChain_def one_filter_def AddReadFilter_def InitializeReadFilters_def onContinueReading_def newFilterManager_def
      quiet_filter_def filter_new_def filter_data_def GetReadBuffer_def SetBufferLimit_def new_connection_def register_connection_def no_filters_def
      ListReadFilter_def book_defs)

definition redirected :: "byte list \<Rightarrow> (byte list \<times> int) option outcome" where
  "redirected rawc = Inr (Some ([1, 2, 3, 4], 80))"

end
