(* ===== verification/Mosn_Start.thy ===== *)
theory Mosn_Start
  imports Conn_Handler
begin

text \<open>
  Servers and the start of the program: \<open>pkg/server/server.go\<close>, the restart and the shutdown of
  \<open>pkg/server/serverkeeper.go\<close>, the registry of \<open>pkg/filter/factory.go\<close> and \<open>cmd/mosn/starter.go\<close>.
  Servers are numbered in the order they are made. What the operating system, the JSON codec
  and the cluster manager do is in a record of functions. The three fatal messages at the very
  start are not in ASCII and named by what they are about. Waiting, signals, the file with the
  process number and the management client are left out.
\<close>

section \<open>State\<close>

type_synonym ('k, 'sf, 's, 'f, 'w, 'h, 'l) mosn_handler = "('k, RetryPolicy option Proxy, 'sf, 's, 'f, 'w, 'h, 'l) connHandler"

record ('k, 'sf, 's, 'f, 'w, 'h, 'l, 'cm) server =
  sr_stopped :: bool
  sr_handler :: "('k, 'sf, 's, 'f, 'w, 'h, 'l) mosn_handler"
  ListenerInMap :: "string \<rightharpoonup> 'k v2_ListenerConfig"
  sr_clusterManager :: 'cm

record ('k, 'sf, 's, 'f, 'w, 'h, 'l, 'cm) process =
  servers :: "('k, 'sf, 's, 'f, 'w, 'h, 'l, 'cm) server list"
  GracefulTimeout :: int
  TransferTimeout :: int
  maxProcs :: int
  shutdownCallbacks :: nat
  shutdownDone :: bool
  streamFilter :: "'sf list"

definition new_process :: "('k, 'sf, 's, 'f, 'w, 'h, 'l, 'cm) process" where
  "new_process = \<lparr>servers = [], GracefulTimeout = 30 * 10 ^ 9, TransferTimeout = 30 * 10 ^ 9, maxProcs = 0, shutdownCallbacks = 0,
     shutdownDone = False, streamFilter = []\<rparr>"

record ('k, 'sf, 'd, 'cm, 'cb) services =
  env_resolve :: "string \<Rightarrow> string option"
  env_parseIP :: "string \<Rightarrow> byte list"
  env_marshal :: "config_map \<Rightarrow> 'd option"
  env_unmarshal :: "'d \<Rightarrow> RetryPolicy Proxy option"
  env_newAccessLog :: "string \<Rightarrow> string \<Rightarrow> bool"
  env_newLogger :: "string \<Rightarrow> bool"
  env_creators :: "string \<rightharpoonup> (config_map \<Rightarrow> 'sf option)"
  env_Getenv :: "string \<Rightarrow> string"
  env_fileListener :: "nat \<Rightarrow> ('k \<times> string) option"
  env_newClusterManager :: "v2_Cluster list \<Rightarrow> (string \<rightharpoonup> HostConfig list) \<Rightarrow> bool \<Rightarrow> bool \<Rightarrow> 'cm"
  env_callbacks :: "string \<rightharpoonup> 'cb list"
  env_NumCPU :: int

section \<open>Servers\<close>

definition GetServer :: "('k, 'sf, 's, 'f, 'w, 'h, 'l, 'cm) process \<Rightarrow> nat option" where
  "GetServer p = (if servers p = [] then None else Some 0)"

definition NewServer ::
  "int \<Rightarrow> server_Config option \<Rightarrow> 'cm \<Rightarrow> ('k, 'sf, 's, 'f, 'w, 'h, 'l, 'cm) process \<Rightarrow> ('k, 'sf, 's, 'f, 'w, 'h, 'l, 'cm) process \<times> nat" where
  "NewServer numCPU config cm p =
     (let procNum = (case config of Some c \<Rightarrow> if sc_Processor c > 0 then sc_Processor c else numCPU | None \<Rightarrow> numCPU);
          graceful = (case config of Some c \<Rightarrow> if sc_GracefulTimeout c \<noteq> 0 then sc_GracefulTimeout c else GracefulTimeout p | None \<Rightarrow> GracefulTimeout p);
          server = \<lparr>sr_stopped = False, sr_handler = NewHandler, ListenerInMap = Map.empty, sr_clusterManager = cm\<rparr>
      in (p\<lparr>GracefulTimeout := graceful, maxProcs := procNum, shutdownCallbacks := shutdownCallbacks p + 1, servers := servers p @ [server]\<rparr>,
          length (servers p)))"

definition srv_AddListener ::
  "(string \<Rightarrow> string \<Rightarrow> bool) \<Rightarrow> nat \<Rightarrow> 'k v2_ListenerConfig \<Rightarrow> RetryPolicy option Proxy option \<Rightarrow> 'sf list \<Rightarrow>
     ('k, 'sf, 's, 'f, 'w, 'h, 'l, 'cm) process \<Rightarrow> ('k, 'sf, 's, 'f, 'w, 'h, 'l, 'cm) process parsed" where
  "srv_AddListener newAccessLog i lc nf sfs p =
     (let srv = servers p ! i in
      if ListenerInMap srv (lv_Name lc) \<noteq> None then Inr p
      else pbind (AddListener newAccessLog lc nf sfs (sr_handler srv)) (\<lambda>ch.
        Inr (p\<lparr>servers := (servers p)[i := srv\<lparr>ListenerInMap := (ListenerInMap srv)(lv_Name lc \<mapsto> lc), sr_handler := ch\<rparr>]\<rparr>)))"

text \<open>The second result says that the new listener, the last one, is started.\<close>

definition AddListenerAndStart ::
  "(string \<Rightarrow> string \<Rightarrow> bool) \<Rightarrow> nat \<Rightarrow> 'k v2_ListenerConfig \<Rightarrow> RetryPolicy option Proxy option \<Rightarrow> 'sf list \<Rightarrow>
     ('k, 'sf, 's, 'f, 'w, 'h, 'l, 'cm) process \<Rightarrow> (('k, 'sf, 's, 'f, 'w, 'h, 'l, 'cm) process \<times> bool) parsed" where
  "AddListenerAndStart newAccessLog i lc nf sfs p =
     pbind (srv_AddListener newAccessLog i lc nf sfs p) (\<lambda>p'. Inr (p', ListenerInMap (servers p ! i) (lv_Name lc) = None))"

definition srv_Close :: "('k, 'sf, 's, 'f, 'w, 'h, 'l, 'cm) server \<Rightarrow> ('k, 'sf, 's, 'f, 'w, 'h, 'l, 'cm) server outcome" where
  "srv_Close srv =
     (let srv = srv\<lparr>sr_handler := StopListeners True (sr_handler srv)\<rparr> in
      if sr_stopped srv then Inl (ExplicitPanic ''close of closed channel'') else Inr (srv\<lparr>sr_stopped := True\<rparr>))"

fun each_server ::
  "(('k, 'sf, 's, 'f, 'w, 'h, 'l, 'cm) server \<Rightarrow> ('k, 'sf, 's, 'f, 'w, 'h, 'l, 'cm) server outcome) \<Rightarrow>
     ('k, 'sf, 's, 'f, 'w, 'h, 'l, 'cm) server list \<Rightarrow> ('k, 'sf, 's, 'f, 'w, 'h, 'l, 'cm) server list outcome" where
  "each_server f [] = Inr []"
| "each_server f (s # ss) = obind (f s) (\<lambda>s. obind (each_server f ss) (\<lambda>ss. Inr (s # ss)))"

definition Stop :: "('k, 'sf, 's, 'f, 'w, 'h, 'l, 'cm) process \<Rightarrow> ('k, 'sf, 's, 'f, 'w, 'h, 'l, 'cm) process outcome" where
  "Stop p = obind (each_server srv_Close (servers p)) (\<lambda>ss. Inr (p\<lparr>servers := ss\<rparr>))"

definition StopAccept :: "('k, 'sf, 's, 'f, 'w, 'h, 'l, 'cm) process \<Rightarrow> ('k, 'sf, 's, 'f, 'w, 'h, 'l, 'cm) process" where
  "StopAccept p = p\<lparr>servers := map (\<lambda>s. s\<lparr>sr_handler := StopListeners False (sr_handler s)\<rparr>) (servers p)\<rparr>"

definition StopConnections :: "('k, 'sf, 's, 'f, 'w, 'h, 'l, 'cm) process \<Rightarrow> ('k, 'sf, 's, 'f, 'w, 'h, 'l, 'cm) process outcome" where
  "StopConnections p =
     obind (each_server (\<lambda>s. obind (StopConnection (sr_handler s)) (\<lambda>ch. Inr (s\<lparr>sr_handler := ch\<rparr>))) (servers p)) (\<lambda>ss. Inr (p\<lparr>servers := ss\<rparr>))"

definition ListListenerFD :: "('k \<Rightarrow> 'fd option) \<Rightarrow> ('k, 'sf, 's, 'f, 'w, 'h, 'l, 'cm) process \<Rightarrow> 'fd list" where
  "ListListenerFD fd p = concat (map (\<lambda>s. ListListenersFD fd (sr_handler s)) (servers p))"

definition MosnLogDefaultPath :: string where "MosnLogDefaultPath = MosnLogBasePath @ ''/mosn.log''"

definition InitDefaultLogger :: "(string \<Rightarrow> bool) \<Rightarrow> server_Config option \<Rightarrow> (string \<times> Level) parsed" where
  "InitDefaultLogger newLogger config =
     (let logPath = (case config of Some c \<Rightarrow> sc_LogPath c | None \<Rightarrow> '''');
          logLevel = (case config of Some c \<Rightarrow> sc_LogLevel c | None \<Rightarrow> FATAL);
          logPath = (if logPath = '''' then MosnLogDefaultPath else logPath)
      in if newLogger logPath then Inr (logPath, logLevel) else Inl (Fatal ''initialize default logger failed : ''))"

section \<open>Shutdown and restart\<close>

text \<open>
  The results of the callbacks are collected, and those without an error are collected as well;
  \<open>results\<close> are the errors of the callbacks, which run once.
\<close>

definition executeShutdownCallbacks ::
  "string option list \<Rightarrow> ('k, 'sf, 's, 'f, 'w, 'h, 'l, 'cm) process \<Rightarrow> ('k, 'sf, 's, 'f, 'w, 'h, 'l, 'cm) process \<times> int" where
  "executeShutdownCallbacks results p =
     (if shutdownDone p then (p, 0)
      else (let errs = fold (\<lambda>r errs. errs @ [r]) results [] in (p\<lparr>shutdownDone := True\<rparr>, if errs \<noteq> [] then 4 else 0)))"

datatype ('fd, 'p) reload = NoListeners | ForkFailed | Reloaded "'fd list" "(string \<times> string) list" 'p

text \<open>The descriptors passed on and the environment of the new process.\<close>

definition reconfigure ::
  "('k \<Rightarrow> 'fd option) \<Rightarrow> bool \<Rightarrow> ('k, 'sf, 's, 'f, 'w, 'h, 'l, 'cm) process \<Rightarrow>
     ('fd, ('k, 'sf, 's, 'f, 'w, 'h, 'l, 'cm) process) reload" where
  "reconfigure fd forks p =
     (let listenerFD = ListListenerFD fd p in
      if listenerFD = [] then NoListeners
      else if \<not> forks then ForkFailed
      else Reloaded listenerFD [(''_MOSN_GRACEFUL_RESTART'', ''true''), (''_MOSN_INHERIT_FD'', Itoa (int (length listenerFD)))] (StopAccept p))"

section \<open>Start\<close>

definition CreateStreamFilterChainFactory :: "(string \<rightharpoonup> (config_map \<Rightarrow> 'sf option)) \<Rightarrow> string \<Rightarrow> config_map \<Rightarrow> 'sf parsed" where
  "CreateStreamFilterChainFactory creatorFactory filterType config =
     (case creatorFactory filterType of
        Some cf \<Rightarrow>
          (case cf config of Some sfcf \<Rightarrow> Inr sfcf | None \<Rightarrow> Inl (Fatal ''create stream filter chain factory failed: ''))
      | None \<Rightarrow> Inl (Fatal ''unsupport stream filter type: ''))"

definition getStreamFilters :: "(string \<rightharpoonup> (config_map \<Rightarrow> 'sf option)) \<Rightarrow> FilterConfig list \<Rightarrow> 'sf list parsed" where
  "getStreamFilters creatorFactory configs = parse_all (\<lambda>c. CreateStreamFilterChainFactory creatorFactory (fl_Type c) (fl_Config c)) configs"

definition getNetworkFilter ::
  "(config_map \<Rightarrow> 'd option) \<Rightarrow> ('d \<Rightarrow> RetryPolicy Proxy option) \<Rightarrow> v2_Filter FilterChain \<Rightarrow> (RetryPolicy option Proxy \<times> string) parsed" where
  "getNetworkFilter marshal unmarshal c =
     (case fc_Filters c of
        [f] \<Rightarrow>
          pbind (require (fi_Name f = ''proxy'') ''Currently, only Proxy Network Filter Needed!'') (\<lambda>_.
          pbind (ParseProxyFilterJSON marshal unmarshal f) (\<lambda>v2proxy. Inr (v2proxy, px_DownstreamProtocol v2proxy)))
      | _ \<Rightarrow> Inl (Fatal ''Currently, only Proxy Network Filter Needed!''))"

definition SetGlobalStreamFilter :: "'sf list \<Rightarrow> ('k, 'sf, 's, 'f, 'w, 'h, 'l, 'cm) process \<Rightarrow> ('k, 'sf, 's, 'f, 'w, 'h, 'l, 'cm) process" where
  "SetGlobalStreamFilter sfs p = (if streamFilter p = [] then p\<lparr>streamFilter := sfs\<rparr> else p)"

definition inherited_listener :: "'k \<times> string \<Rightarrow> 'k v2_ListenerConfig" where
  "inherited_listener kl =
     \<lparr>lv_Name = '''', lv_Addr = snd kl, lv_ListenerTag = 0, lv_ListenerScope = '''', lv_BindToPort = False, lv_PerConnBufferLimitBytes = 0,
      lv_HandOff = False, lv_InheritListener = Some (fst kl), lv_Remain = False, lv_LogPath = '''', lv_LogLevel = 0, lv_AccessLogs = [],
      lv_DisableConnIo = False, lv_FilterChains = []\<rparr>"

text \<open>A descriptor that is no TCP socket leaves a nil in the list.\<close>

definition getInheritListeners :: "(string \<Rightarrow> string) \<Rightarrow> (nat \<Rightarrow> ('k \<times> string) option) \<Rightarrow> 'k v2_ListenerConfig option list parsed" where
  "getInheritListeners Getenv fileListener =
     (if Getenv ''_MOSN_GRACEFUL_RESTART'' = ''true'' then
        (let count = Atoi (Getenv ''_MOSN_INHERIT_FD'') in
         if count < 0 then Inl (Panicked MakeSliceLen)
         else Inr (map (\<lambda>idx. map_option inherited_listener (fileListener (3 + idx))) [0..<nat count]))
      else Inr [])"

text \<open>One listener of the file: its configuration, its network filter, its stream filters.\<close>

definition add_listener ::
  "('k, 'sf, 'd, 'cm, 'cb) services \<Rightarrow> nat \<Rightarrow> ListenerConfig \<Rightarrow> ('k, 'sf, 's, 'f, 'w, 'h, 'l, 'cm) process \<times> 'k v2_ListenerConfig option list \<Rightarrow>
     (('k, 'sf, 's, 'f, 'w, 'h, 'l, 'cm) process \<times> 'k v2_ListenerConfig option list) parsed" where
  "add_listener e i listenerConfig st =
     (case st of (p, inheritListeners) \<Rightarrow>
      pbind (ParseListenerConfig (env_resolve e) (env_parseIP e) listenerConfig inheritListeners) (\<lambda>(lc, inheritListeners).
      pbind (case lv_FilterChains lc of [] \<Rightarrow> Inl (Panicked IndexOutOfRange) | fc # _ \<Rightarrow> getNetworkFilter (env_marshal e) (env_unmarshal e) fc) (\<lambda>(nf, downstreamProtocol).
      let lc = (if downstreamProtocol = ''Http2'' \<or> downstreamProtocol = ''Http1'' then lc\<lparr>lv_DisableConnIo := True\<rparr> else lc) in
      if lv_HandOff lc then pbind (srv_AddListener (env_newAccessLog e) i lc None [] p) (\<lambda>p. Inr (p, inheritListeners))
      else
        pbind (getStreamFilters (env_creators e) (lc_StreamFilters listenerConfig)) (\<lambda>sfcf.
        pbind (srv_AddListener (env_newAccessLog e) i lc (Some nf) sfcf (SetGlobalStreamFilter sfcf p)) (\<lambda>p. Inr (p, inheritListeners))))))"

fun add_listeners ::
  "('k, 'sf, 'd, 'cm, 'cb) services \<Rightarrow> nat \<Rightarrow> ListenerConfig list \<Rightarrow> ('k, 'sf, 's, 'f, 'w, 'h, 'l, 'cm) process \<times> 'k v2_ListenerConfig option list \<Rightarrow>
     (('k, 'sf, 's, 'f, 'w, 'h, 'l, 'cm) process \<times> 'k v2_ListenerConfig option list) parsed" where
  "add_listeners e i [] st = Inr st"
| "add_listeners e i (lc # lcs) st = pbind (add_listener e i lc st) (add_listeners e i lcs)"

definition add_server ::
  "('k, 'sf, 'd, 'cm, 'cb) services \<Rightarrow> 'cm \<Rightarrow> ServerConfig \<Rightarrow> ('k, 'sf, 's, 'f, 'w, 'h, 'l, 'cm) process \<times> 'k v2_ListenerConfig option list \<Rightarrow>
     (('k, 'sf, 's, 'f, 'w, 'h, 'l, 'cm) process \<times> 'k v2_ListenerConfig option list) parsed" where
  "add_server e cm serverConfig st =
     (case st of (p, inheritListeners) \<Rightarrow>
      pbind (ParseServerConfig serverConfig) (\<lambda>sc.
      pbind (InitDefaultLogger (env_newLogger e) (Some sc)) (\<lambda>_.
      case NewServer (env_NumCPU e) (Some sc) cm p of (p, srv) \<Rightarrow>
      pbind (require (sv_Listeners serverConfig \<noteq> []) ''no listenner found'') (\<lambda>_.
        add_listeners e srv (sv_Listeners serverConfig) (p, inheritListeners)))))"

fun add_servers ::
  "('k, 'sf, 'd, 'cm, 'cb) services \<Rightarrow> 'cm \<Rightarrow> ServerConfig list \<Rightarrow> ('k, 'sf, 's, 'f, 'w, 'h, 'l, 'cm) process \<times> 'k v2_ListenerConfig option list \<Rightarrow>
     (('k, 'sf, 's, 'f, 'w, 'h, 'l, 'cm) process \<times> 'k v2_ListenerConfig option list) parsed" where
  "add_servers e cm [] st = Inr st"
| "add_servers e cm (s # ss) st = pbind (add_server e cm s st) (add_servers e cm ss)"

text \<open>The sockets of the old process that no listener has taken over are closed.\<close>

fun close_legacy :: "'k v2_ListenerConfig option list \<Rightarrow> 'k option list parsed" where
  "close_legacy [] = Inr []"
| "close_legacy (q # qs) =
     pbind (deref q) (\<lambda>l. pbind (close_legacy qs) (\<lambda>closed. Inr (if \<not> lv_Remain l then lv_InheritListener l # closed else closed)))"

definition NewMosn ::
  "('k, 'sf, 'd, 'cm, 'cb) services \<Rightarrow> MOSNConfig \<Rightarrow> ('k, 'sf, 's, 'f, 'w, 'h, 'l, 'cm) process \<Rightarrow>
     (('k, 'sf, 's, 'f, 'w, 'h, 'l, 'cm) process \<times> 'k option list \<times> ('cb \<times> v2_Cluster list \<times> bool) list \<times> ('cb \<times> ServiceRegistryInfo \<times> bool) list) parsed" where
  "NewMosn e c p =
     pbind (require (MOSNConfig_Mode c \<noteq> Xds) ''mode'') (\<lambda>_.
     pbind (require (cm_Clusters (mc_ClusterManager c) \<noteq> []) ''no clusters'') (\<lambda>_.
     pbind (getInheritListeners (env_Getenv e) (env_fileListener e)) (\<lambda>inheritListeners.
     pbind (ParseClusterConfig (env_callbacks e) (cm_Clusters (mc_ClusterManager c))) (\<lambda>(clusters, clusterMap, calls).
     let cm = env_newClusterManager e clusters clusterMap (cm_AutoDiscovery (mc_ClusterManager c)) (cm_RegistryUseHealthCheck (mc_ClusterManager c)) in
     pbind (add_servers e cm (mc_Servers c) (p, inheritListeners)) (\<lambda>(p, inheritListeners).
     let registry = ParseServiceRegistry (env_callbacks e) (mc_ServiceRegistry c) in
     pbind (close_legacy inheritListeners) (\<lambda>closed.
     let p = p\<lparr>TransferTimeout := GracefulTimeout p\<rparr> in
     if mc_Servers c = [] then Inl (Panicked IndexOutOfRange) else Inr (p, closed, calls, registry)))))))"

section \<open>Shutdown\<close>

text \<open>Callbacks that all succeed still give the exit code of a failure.\<close>

lemma shutdown_exit_code:
  assumes "\<not> shutdownDone p" and "results \<noteq> []"
  shows "snd (executeShutdownCallbacks results p) = 4"
proof -
  have "fold (\<lambda>r errs. errs @ [r]) rs acc = acc @ rs" for rs acc :: "string option list"
    by (induction rs arbitrary: acc) simp_all
  with assms show ?thesis by (simp add: executeShutdownCallbacks_def)
qed

text \<open>A listener without a socket in the only server keeps the program from being restarted.\<close>

lemma unbound_listener_no_restart:
  assumes "servers p = [s]" and "a \<in> set (listeners (sr_handler s))" and "rawl (al_listener (al_store (sr_handler s) ! a)) = None"
  shows "reconfigure fd forks p = NoListeners"
  using unbound_listener_no_fds [OF assms(2,3), of fd] assms(1) by (simp add: reconfigure_def ListListenerFD_def)

section \<open>The sockets of a restarted program\<close>

definition on_socket_of :: "'k \<Rightarrow> ('k, 'sf, 's, 'f, 'w, 'h, 'l, 'cm) process \<Rightarrow> bool" where
  "on_socket_of k p \<longleftrightarrow> (\<forall>srv \<in> set (servers p). \<forall>al \<in> set (al_store (sr_handler srv)). rawl (al_listener al) = Some k)"

text \<open>The first old socket, perhaps taken already, and the others, which no listener takes.\<close>

definition first_old :: "'k \<Rightarrow> 'k v2_ListenerConfig option list \<Rightarrow> 'k v2_ListenerConfig option list \<Rightarrow> bool" where
  "first_old k others ils \<longleftrightarrow> (\<exists>il. ils = Some il # others \<and> with_port (lv_Addr il) \<and> lv_InheritListener il = Some k)"

definition taken :: "'k v2_ListenerConfig option list \<Rightarrow> bool" where
  "taken ils \<longleftrightarrow> (\<exists>il rest. ils = Some il # rest \<and> lv_Remain il)"

lemma srv_AddListener_on_socket:
  assumes "srv_AddListener newAccessLog i lc nf sfs p = Inr p'" and "lv_InheritListener lc = Some k" and "on_socket_of k p" and "i < length (servers p)"
  shows "on_socket_of k p' \<and> length (servers p') = length (servers p)"
proof (cases "ListenerInMap (servers p ! i) (lv_Name lc)")
  case (Some x)
  with assms show ?thesis by (simp add: srv_AddListener_def)
next
  case None
  with assms(1) obtain ch where ch: "AddListener newAccessLog lc nf sfs (sr_handler (servers p ! i)) = Inr ch"
    and p': "servers p' = (servers p)[i := (servers p ! i)\<lparr>ListenerInMap := (ListenerInMap (servers p ! i))(lv_Name lc \<mapsto> lc), sr_handler := ch\<rparr>]"
    by (auto simp: srv_AddListener_def pbind_Inr Let_def)
  from ch assms(2) obtain al where "al_store ch = al_store (sr_handler (servers p ! i)) @ [al]" "rawl (al_listener al) = Some k"
    by (auto simp: AddListener_def pbind_Inr Let_def newActiveListener_def NewListener_def)
  moreover have "\<forall>al \<in> set (al_store (sr_handler (servers p ! i))). rawl (al_listener al) = Some k"
    using assms(3) nth_mem [OF assms(4)] unfolding on_socket_of_def by blast
  ultimately show ?thesis using assms(3,4) by (auto simp: on_socket_of_def p' dest!: set_update_subset_insert [THEN subsetD])
qed

lemma add_listener_on_socket:
  assumes ip: "\<forall>a. with_port a \<longrightarrow> env_parseIP e a = []" and addr: "\<forall>a b. env_resolve e a = Some b \<longrightarrow> with_port b"
    and add: "add_listener e i c (p, ils) = Inr (p', ils')" and on: "on_socket_of k p" and old: "first_old k others ils" and i: "i < length (servers p)"
  shows "on_socket_of k p' \<and> first_old k others ils' \<and> taken ils' \<and> length (servers p') = length (servers p)"
proof -
  from old obtain il where il: "ils = Some il # others" "with_port (lv_Addr il)" "lv_InheritListener il = Some k" by (auto simp: first_old_def)
  from add obtain lc lc' nf sfs q ils1 where l: "ParseListenerConfig (env_resolve e) (env_parseIP e) c ils = Inr (lc, ils1)"
    "srv_AddListener (env_newAccessLog e) i lc' nf sfs q = Inr p'" "lv_InheritListener lc' = lv_InheritListener lc"
    "servers q = servers p" "ils' = ils1"
    by (fastforce simp: add_listener_def pbind_Inr Let_def SetGlobalStreamFilter_def split: if_splits)
  from first_socket_inherited [OF ip addr il(2) l(1) [unfolded il(1)]] il
  have ils': "lv_InheritListener lc = Some k" "ils' = Some (il\<lparr>lv_Remain := True\<rparr>) # others" using l(5) by auto
  have "on_socket_of k q" using on l(4) by (simp add: on_socket_of_def)
  from srv_AddListener_on_socket [OF l(2) _ this] l(3,4) i ils' il show ?thesis by (auto simp: first_old_def taken_def)
qed

lemma add_listeners_on_socket:
  assumes "\<forall>a. with_port a \<longrightarrow> env_parseIP e a = []" and "\<forall>a b. env_resolve e a = Some b \<longrightarrow> with_port b"
    and "add_listeners e i cs (p, ils) = Inr (p', ils')" and "on_socket_of k p" and "first_old k others ils" and "i < length (servers p)"
  shows "on_socket_of k p' \<and> first_old k others ils' \<and> (cs \<noteq> [] \<or> taken ils \<longrightarrow> taken ils') \<and> length (servers p') = length (servers p)"
  using assms(3-6)
proof (induction cs arbitrary: p ils)
  case (Cons c cs)
  then obtain p1 ils1 where a: "add_listener e i c (p, ils) = Inr (p1, ils1)" "add_listeners e i cs (p1, ils1) = Inr (p', ils')"
    by (auto simp: pbind_Inr)
  from add_listener_on_socket [OF assms(1,2) a(1) Cons.prems(2-4)] Cons.IH [OF a(2)] Cons.prems(4) show ?case by auto
qed simp

lemma add_server_on_socket:
  assumes "\<forall>a. with_port a \<longrightarrow> env_parseIP e a = []" and "\<forall>a b. env_resolve e a = Some b \<longrightarrow> with_port b"
    and "add_server e cm s (p, ils) = Inr (p', ils')" and "on_socket_of k p" and "first_old k others ils"
  shows "on_socket_of k p' \<and> first_old k others ils' \<and> taken ils'"
proof -
  from assms(3) obtain sc where q: "sv_Listeners s \<noteq> []"
    "add_listeners e (snd (NewServer (env_NumCPU e) (Some sc) cm p)) (sv_Listeners s) (fst (NewServer (env_NumCPU e) (Some sc) cm p), ils) = Inr (p', ils')"
    by (auto simp: add_server_def parsed_Inr case_prod_unfold)
  have "on_socket_of k (fst (NewServer (env_NumCPU e) (Some sc) cm p))"
    "snd (NewServer (env_NumCPU e) (Some sc) cm p) < length (servers (fst (NewServer (env_NumCPU e) (Some sc) cm p)))"
    using assms(4) by (auto simp: NewServer_def Let_def on_socket_of_def NewHandler_def)
  from add_listeners_on_socket [OF assms(1,2) q(2) this(1) assms(5) this(2)] q(1) show ?thesis by simp
qed

lemma add_servers_on_socket:
  assumes "\<forall>a. with_port a \<longrightarrow> env_parseIP e a = []" and "\<forall>a b. env_resolve e a = Some b \<longrightarrow> with_port b"
    and "add_servers e cm ss (p, ils) = Inr (p', ils')" and "on_socket_of k p" and "first_old k others ils"
  shows "on_socket_of k p' \<and> first_old k others ils' \<and> (ss \<noteq> [] \<or> taken ils \<longrightarrow> taken ils')"
  using assms(3-5)
proof (induction ss arbitrary: p ils)
  case (Cons s ss)
  then obtain p1 ils1 where a: "add_server e cm s (p, ils) = Inr (p1, ils1)" "add_servers e cm ss (p1, ils1) = Inr (p', ils')"
    by (auto simp: pbind_Inr)
  from add_server_on_socket [OF assms(1,2) a(1) Cons.prems(2,3)] Cons.IH [OF a(2)] show ?case by auto
qed simp

lemma close_legacy_inherited: "close_legacy (map (\<lambda>kl. Some (inherited_listener kl)) kls) = Inr (map (Some \<circ> fst) kls)"
  by (induction kls) (simp_all add: pbind_def deref_def inherited_listener_def)

lemma Atoi_Itoa: "int n < 2 ^ 63 \<Longrightarrow> Atoi (Itoa (int n)) = int n"
  by (simp add: Atoi_def Itoa_def)

text \<open>
  C40 (error). A restarted program listens on one socket of its predecessor only. It is handed
  all of them, in order, but compares addresses with their ports as if they were bare
  addresses, which makes any two of them equal: every listener of every server takes over the
  first socket, whatever its own address, and all the other sockets are closed. The port of a
  second listener stops being served when the old process stops accepting.
\<close>

theorem restart_keeps_first_socket_only:
  assumes "\<forall>a. with_port a \<longrightarrow> env_parseIP e a = []" and "\<forall>a b. env_resolve e a = Some b \<longrightarrow> with_port b"
    and "env_Getenv e ''_MOSN_GRACEFUL_RESTART'' = ''true''" and "Atoi (env_Getenv e ''_MOSN_INHERIT_FD'') = int (length kls)"
    and "\<forall>i < length kls. env_fileListener e (3 + i) = Some (kls ! i)" and "\<forall>kl \<in> set kls. with_port (snd kl)" and "kls \<noteq> []"
    and "NewMosn e c new_process = Inr (p, shut, calls)"
  shows "(\<forall>srv \<in> set (servers p). \<forall>al \<in> set (al_store (sr_handler srv)). rawl (al_listener al) = Some (fst (hd kls))) \<and>
    shut = map (Some \<circ> fst) (tl kls)"
proof -
  have "map (\<lambda>idx. map_option inherited_listener (env_fileListener e (3 + idx))) [0..<length kls] = map (\<lambda>kl. Some (inherited_listener kl)) kls"
    using assms(5) by (intro nth_equalityI) simp_all
  then have get: "getInheritListeners (env_Getenv e) (env_fileListener e) = Inr (map (\<lambda>kl. Some (inherited_listener kl)) kls)"
    by (simp add: getInheritListeners_def assms(3,4))
  from assms(8) obtain cm q ils where q: "add_servers e cm (mc_Servers c) (new_process, map (\<lambda>kl. Some (inherited_listener kl)) kls) = Inr (q, ils)"
    "close_legacy ils = Inr shut" "mc_Servers c \<noteq> []" "servers p = servers q"
    by (fastforce simp: NewMosn_def parsed_Inr get Let_def split: if_splits prod.splits)
  let ?k = "fst (hd kls)" and ?others = "map (\<lambda>kl. Some (inherited_listener kl)) (tl kls)"
  have "first_old ?k ?others (map (\<lambda>kl. Some (inherited_listener kl)) kls)" "on_socket_of ?k new_process"
    using assms(6,7) by (cases kls; simp add: first_old_def inherited_listener_def on_socket_of_def new_process_def)+
  from add_servers_on_socket [OF assms(1,2) q(1) this(2,1)] q(3)
  have on: "on_socket_of ?k q" "first_old ?k ?others ils" "taken ils" by simp_all
  then obtain il where "ils = Some il # ?others" "lv_Remain il" by (auto simp: first_old_def taken_def)
  with q(2) close_legacy_inherited [of "tl kls"] have "shut = map (Some \<circ> fst) (tl kls)" by (simp add: pbind_def deref_def)
  with on(1) q(4) show ?thesis by (simp add: on_socket_of_def)
qed

section \<open>A small restart\<close>

definition sample_cluster_config :: ClusterConfig where
  "sample_cluster_config = \<lparr>cl_Name = ''c'', cl_Type = ''SIMPLE'', cl_SubType = '''', cl_LbType = ''LB_RANDOM'', cl_MaxRequestPerConn = 0,
     cl_ConnBufferLimitBytes = 0, cl_CircuitBreakers = [],
     cl_HealthCheck = \<lparr>hc_Protocol = '''', hc_Timeout = 0, hc_Interval = 0, hc_IntervalJitter = 0, hc_HealthyThreshold = 0, hc_UnhealthyThreshold = 0,
       hc_CheckPath = '''', hc_ServiceName = ''''\<rparr>,
     cl_Subscribes = [], cl_Hosts = [], cl_LBSubsetConfig = \<lparr>ls_FallBackPolicy = 0, ls_DefaultSubset = Map.empty, ls_SubsetSelectors = []\<rparr>, cl_TLS = no_tls\<rparr>"

definition sample_listener_config :: ListenerConfig where
  "sample_listener_config = \<lparr>lc_Name = ''l'', lc_Address = ''a:81'', lc_BindToPort = True,
     lc_FilterChains = [\<lparr>fc_FilterChainMatch = '''', fc_TLS = no_tls, fc_Filters = [\<lparr>fl_Type = ''proxy'', fl_Config = Map.empty\<rparr>]\<rparr>],
     lc_StreamFilters = [], lc_LogPath = '''', lc_LogLevel = '''', lc_HandOff = False, lc_AccessLogs = []\<rparr>"

definition sample_config :: MOSNConfig where
  "sample_config = \<lparr>mc_Servers = [\<lparr>sv_DefaultLogPath = '''', sv_DefaultLogLevel = '''', sv_GracefulTimeout = 0, sv_Processor = 0,
       sv_Listeners = [sample_listener_config]\<rparr>],
     mc_ClusterManager = \<lparr>cm_AutoDiscovery = False, cm_RegistryUseHealthCheck = False, cm_Clusters = [sample_cluster_config]\<rparr>,
     mc_ServiceRegistry = \<lparr>sr_ServiceAppInfo = \<lparr>ap_AntShareCloud = False, ap_DataCenter = '''', ap_AppName = ''''\<rparr>, sr_ServicePubInfo = []\<rparr>,
     mc_RawDynamicResources = [], mc_RawStaticResources = []\<rparr>"

definition sample_proxy :: "RetryPolicy Proxy" where
  "sample_proxy = \<lparr>px_Name = ''p'', px_DownstreamProtocol = ''SofaRpc'', px_UpstreamProtocol = ''SofaRpc'', px_SupportDynamicRoute = False,
     px_BasicRoutes = [], px_VirtualHosts = [], px_ValidateClusters = False\<rparr>"

definition old_sockets :: "(nat \<times> string) list" where
  "old_sockets = [(10, ''b:80''), (11, ''a:81'')]"

definition sample_services :: "(nat, unit, unit, unit, unit) services" where
  "sample_services = \<lparr>env_resolve = (\<lambda>a. Some ''a:81''), env_parseIP = (\<lambda>a. if with_port a then [] else [1]), env_marshal = (\<lambda>_. Some ()),
     env_unmarshal = (\<lambda>_. Some sample_proxy), env_newAccessLog = (\<lambda>_ _. True), env_newLogger = (\<lambda>_. True), env_creators = Map.empty,
     env_Getenv = (\<lambda>v. if v = ''_MOSN_GRACEFUL_RESTART'' then ''true'' else Itoa 2), env_fileListener = (\<lambda>i. Some (old_sockets ! (i - 3))),
     env_newClusterManager = (\<lambda>_ _ _ _. ()), env_callbacks = Map.empty, env_NumCPU = 1\<rparr>"

lemma sample_inherited:
  "getInheritListeners (env_Getenv sample_services) (env_fileListener sample_services) = Inr (map (\<lambda>kl. Some (inherited_listener kl)) old_sockets)"
  using Atoi_Itoa [of 2] by (simp add: getInheritListeners_def sample_services_def old_sockets_def upt_rec)

lemma sample_with_port: "with_port ''b:80''" "with_port ''a:81''"
  by (simp_all add: with_port_def)

lemma sample_listener:
  "\<exists>lc ils. ParseListenerConfig (env_resolve sample_services) (env_parseIP sample_services) sample_listener_config
     (map (\<lambda>kl. Some (inherited_listener kl)) old_sockets) = Inr (lc, ils) \<and> lv_FilterChains lc =
       [\<lparr>fc_FilterChainMatch = '''', fc_TLS = no_tls, fc_Filters = [\<lparr>fi_Name = ''proxy'', fi_Config = Map.empty\<rparr>]\<rparr>] \<and> \<not> lv_HandOff lc \<and>
     lv_AccessLogs lc = [] \<and> ils = [Some ((inherited_listener (10, ''b:80''))\<lparr>lv_Remain := True\<rparr>), Some (inherited_listener (11, ''a:81''))]"
  by (simp add: ParseListenerConfig_def sample_listener_config_def sample_services_def old_sockets_def inherited_listener_def sample_with_port
      pbind_def require_def deref_def ip_Equal_def parseLogLevel_def parseFilterChains_def parseFilterChain_def parseTLSConfig_def no_tls_def parseAccessConfig_def)

lemma sample_clusters: "\<exists>r. ParseClusterConfig Map.empty [sample_cluster_config] = Inr r"
proof -
  have "list_all valid_cluster [sample_cluster_config]" by (simp add: valid_cluster_def sample_cluster_config_def valid_tls_def no_tls_def)
  then have "\<exists>ps. parse_all parseCluster [sample_cluster_config] = Inr ps"
    using parse_all_succeeds [of parseCluster "[sample_cluster_config]"] parseCluster_succeeds by auto
  then show ?thesis by (auto simp: ParseClusterConfig_def pbind_def Let_def)
qed

lemma sample_filter:
  "getNetworkFilter (env_marshal sample_services) (env_unmarshal sample_services)
     \<lparr>fc_FilterChainMatch = '''', fc_TLS = no_tls, fc_Filters = [\<lparr>fi_Name = ''proxy'', fi_Config = Map.empty\<rparr>]\<rparr> =
   Inr (\<lparr>px_Name = ''p'', px_DownstreamProtocol = ''SofaRpc'', px_UpstreamProtocol = ''SofaRpc'', px_SupportDynamicRoute = False,
     px_BasicRoutes = [], px_VirtualHosts = [], px_ValidateClusters = False\<rparr>, ''SofaRpc'')"
  by (simp add: getNetworkFilter_def sample_services_def ParseProxyFilterJSON_def sample_proxy_def pbind_def require_def deref_def
      protocolsSupported_def parseVirtualHost_def)

lemma sample_services_simps:
  "env_newAccessLog sample_services a b" "env_newLogger sample_services a" "env_creators sample_services = Map.empty"
  "env_newClusterManager sample_services cs hs x y = ()" "env_NumCPU sample_services = 1" "lc_StreamFilters sample_listener_config = []"
  by (simp_all add: sample_services_def sample_listener_config_def)

lemma sample_start: "\<exists>p shut r. NewMosn sample_services sample_config (new_process :: (nat, unit, unit, unit, unit, unit, unit, unit) process) = Inr (p, shut, r)"
proof -
  from sample_listener obtain lc ils where lc: "ParseListenerConfig (env_resolve sample_services) (env_parseIP sample_services) sample_listener_config
      (map (\<lambda>kl. Some (inherited_listener kl)) old_sockets) = Inr (lc, ils)"
    "lv_FilterChains lc = [\<lparr>fc_FilterChainMatch = '''', fc_TLS = no_tls, fc_Filters = [\<lparr>fi_Name = ''proxy'', fi_Config = Map.empty\<rparr>]\<rparr>]"
    "\<not> lv_HandOff lc" "lv_AccessLogs lc = []"
    "ils = [Some ((inherited_listener (10, ''b:80''))\<lparr>lv_Remain := True\<rparr>), Some (inherited_listener (11, ''a:81''))]" by auto
  from sample_clusters obtain cs hs calls where "ParseClusterConfig Map.empty [sample_cluster_config] = Inr (cs, hs, calls :: (unit \<times> _) list)" by auto
  then have cl: "ParseClusterConfig (env_callbacks sample_services) (cm_Clusters (mc_ClusterManager sample_config)) = Inr (cs, hs, calls)"
    by (simp add: sample_services_def sample_config_def)
  have "\<exists>q. add_servers sample_services () (mc_Servers sample_config)
      (new_process :: (nat, unit, unit, unit, unit, unit, unit, unit) process, map (\<lambda>kl. Some (inherited_listener kl)) old_sockets) = Inr (q, ils)"
    using lc(1-4) sample_filter
    by (simp add: sample_config_def add_server_def ParseServerConfig_def parseLogLevel_def InitDefaultLogger_def sample_services_simps NewServer_def new_process_def
        require_def pbind_def add_listener_def getStreamFilters_def srv_AddListener_def AddListener_def SetGlobalStreamFilter_def NewHandler_def Let_def)
  then show ?thesis
    using cl lc(5) sample_inherited
    by (auto simp: NewMosn_def MOSNConfig_Mode_def pbind_def require_def deref_def inherited_listener_def Let_def sample_config_def)
qed

theorem restart_keeps_first_socket_only_witness:
  "\<exists>p r. NewMosn sample_services sample_config (new_process :: (nat, unit, unit, unit, unit, unit, unit, unit) process) = Inr (p, [Some 11], r) \<and>
     (\<forall>srv \<in> set (servers p). \<forall>al \<in> set (al_store (sr_handler srv)). rawl (al_listener al) = Some 10)"
proof -
  let ?p = "new_process :: (nat, unit, unit, unit, unit, unit, unit, unit) process"
  from sample_start obtain p shut r where n: "NewMosn sample_services sample_config ?p = Inr (p, shut, r)" by auto
  have "(\<forall>srv \<in> set (servers p). \<forall>al \<in> set (al_store (sr_handler srv)). rawl (al_listener al) = Some (fst (hd old_sockets))) \<and>
      shut = map (Some \<circ> fst) (tl old_sockets)"
    by (rule restart_keeps_first_socket_only [OF _ _ _ _ _ _ _ n])
      (use sample_with_port Atoi_Itoa [of 2] in \<open>simp_all add: sample_services_def old_sockets_def\<close>)
  with n show ?thesis by (auto simp: old_sockets_def)
qed

end
