(* ===== verification/Conn_Transfer.thy ===== *)
theory Conn_Transfer
  imports Conn_Handler
begin

text \<open>
  Handing connections to a new process: \<open>pkg/network/transfer.go\<close> and the ends of the two loops
  in \<open>pkg/network/connection.go\<close>. The two processes talk over a Unix socket: what one writes is
  a state with a write function, what the other reads a state with a read function that gets
  the same bytes in pieces. Passing a descriptor along with a byte, and turning it into a
  connection again, are functions of the system. The time limits of the server are left out.
\<close>

section \<open>Sending\<close>

definition transferErr :: "64 word" where "transferErr = 0"
definition transferNotify :: "64 word" where "transferNotify = 1"

definition transferBuildHead :: "32 word \<Rightarrow> 32 word \<Rightarrow> byte list" where
  "transferBuildHead sz i = PutUint32 sz @ PutUint32 i"

definition transferSendIoBuffer :: "'u socket_write \<Rightarrow> 'u \<Rightarrow> iobuffer \<Rightarrow> ('u \<times> iobuffer \<times> string option) outcome" where
  "transferSendIoBuffer wr uc buf =
     (if Len buf = 0 then Inr (uc, buf, None)
      else obind (WriteTo wr buf uc 0) (\<lambda>(buf, uc, _, err).
        Inr (uc, buf, if err \<noteq> None then Some ''transferSendIobuffer failed: %v'' else None)))"

definition transferSendMsg :: "'u socket_write \<Rightarrow> 'u \<Rightarrow> byte list \<Rightarrow> ('u \<times> string option) outcome" where
  "transferSendMsg wr uc buf =
     (if buf = [] then Inr (uc, None)
      else obind (transferSendIoBuffer wr uc (NewIoBufferBytes buf)) (\<lambda>(uc, _, err).
        Inr (uc, if err \<noteq> None then Some ''transferSendMsg failed: %v'' else None)))"

definition transferSendHead :: "'u socket_write \<Rightarrow> 'u \<Rightarrow> 32 word \<Rightarrow> 32 word \<Rightarrow> ('u \<times> string option) outcome" where
  "transferSendHead wr uc sz i = transferSendMsg wr uc (transferBuildHead sz i)"

definition transferSendData :: "'u socket_write \<Rightarrow> 'u \<Rightarrow> int \<Rightarrow> iobuffer \<Rightarrow> ('u \<times> iobuffer \<times> string option) outcome" where
  "transferSendData wr uc i buf =
     obind (transferSendHead wr uc (word_of_int (Len buf)) (word_of_int i)) (\<lambda>(uc, err).
       if err \<noteq> None then Inr (uc, buf, err) else transferSendIoBuffer wr uc buf)"

definition transferSendID :: "'u socket_write \<Rightarrow> 'u \<Rightarrow> 64 word \<Rightarrow> ('u \<times> string option) outcome" where
  "transferSendID wr uc i = transferSendMsg wr uc (PutUint32 (ucast i))"

text \<open>\<open>file\<close> gives the descriptor of a TCP socket, \<open>wmsg\<close> writes bytes together with one
  and tells how many bytes were written and whether the descriptor was.\<close>

definition transferSendFD ::
  "('s \<Rightarrow> 'fd option) \<Rightarrow> ('u \<Rightarrow> byte list \<Rightarrow> 'fd \<Rightarrow> 'u \<times> (nat \<times> bool) option) \<Rightarrow> 'u \<Rightarrow> 's option \<Rightarrow> 'u \<times> string option" where
  "transferSendFD file wmsg uc conn =
     (case conn of
        None \<Rightarrow> (uc, Some ''transferSendFD conn is nil'')
      | Some conn \<Rightarrow>
          (case file conn of
             None \<Rightarrow> (uc, Some ''TCP File failed %v'')
           | Some f \<Rightarrow> 
               (case wmsg uc [0] f of
                  (uc, None) \<Rightarrow> (uc, Some ''WriteMsgUnix: %v'')
                | (uc, Some (n, rights)) \<Rightarrow> (uc, if n \<noteq> 1 \<or> \<not> rights then Some ''WriteMsgUnix = %d, %d; want 1, %d'' else None))))"

definition transferSendType ::
  "'u socket_write \<Rightarrow> ('s \<Rightarrow> 'fd option) \<Rightarrow> ('u \<Rightarrow> byte list \<Rightarrow> 'fd \<Rightarrow> 'u \<times> (nat \<times> bool) option) \<Rightarrow> 'u \<Rightarrow> 's option \<Rightarrow> ('u \<times> string option) outcome" where
  "transferSendType wr file wmsg uc conn =
     (if conn = None then transferSendMsg wr uc [1] else Inr (transferSendFD file wmsg uc conn))"

section \<open>Receiving\<close>

partial_function (option) recv_loop ::
  "('r \<Rightarrow> nat \<Rightarrow> ('r \<times> byte list \<times> io_err option) outcome) \<Rightarrow> nat \<Rightarrow> byte list \<Rightarrow> 'r \<Rightarrow> ('r \<times> (string + byte list)) outcome option" where
  "recv_loop rd sz b uc =
     (case rd uc (sz - length b) of
        Inl p \<Rightarrow> Some (Inl p)
      | Inr (uc, got, err) \<Rightarrow>
          if err \<noteq> None then Some (Inr (uc, Inl ''transferRecvMsg failed: %v''))
          else if length (b @ got) = sz then Some (Inr (uc, Inr (b @ got)))
          else recv_loop rd sz (b @ got) uc)"

definition transferRecvMsg ::
  "('r \<Rightarrow> nat \<Rightarrow> ('r \<times> byte list \<times> io_err option) outcome) \<Rightarrow> nat \<Rightarrow> 'r \<Rightarrow> ('r \<times> (string + byte list)) run" where
  "transferRecvMsg rd sz uc = (if sz = 0 then Some (Inr (uc, Inr [])) else recv_loop rd sz [] uc)"

definition transferRecvHead ::
  "('r \<Rightarrow> nat \<Rightarrow> ('r \<times> byte list \<times> io_err option) outcome) \<Rightarrow> 'r \<Rightarrow> ('r \<times> (string + nat \<times> nat)) run" where
  "transferRecvHead rd uc =
     rbind (transferRecvMsg rd 8 uc) (\<lambda>(uc, r).
       case r of
         Inl err \<Rightarrow> Some (Inr (uc, Inl ''ReadMsgUnix error: %v''))
       | Inr buf \<Rightarrow> Some (Inr (uc, Inr (unat (Uint32 buf), unat (Uint32 (drop 4 buf))))))"

definition transferRecvData ::
  "('r \<Rightarrow> nat \<Rightarrow> ('r \<times> byte list \<times> io_err option) outcome) \<Rightarrow> 'r \<Rightarrow> ('r \<times> (string + nat \<times> byte list)) run" where
  "transferRecvData rd uc =
     rbind (transferRecvHead rd uc) (\<lambda>(uc, r).
       case r of
         Inl err \<Rightarrow> Some (Inr (uc, Inl err))
       | Inr (sz, i) \<Rightarrow>
           rbind (transferRecvMsg rd sz uc) (\<lambda>(uc, r).
             case r of Inl err \<Rightarrow> Some (Inr (uc, Inl err)) | Inr buf \<Rightarrow> Some (Inr (uc, Inr (i, buf)))))"

definition transferRecvID ::
  "('r \<Rightarrow> nat \<Rightarrow> ('r \<times> byte list \<times> io_err option) outcome) \<Rightarrow> 'r \<Rightarrow> ('r \<times> 64 word) run" where
  "transferRecvID rd uc =
     rbind (transferRecvMsg rd 4 uc) (\<lambda>(uc, r).
       Some (Inr (uc, case r of Inl err \<Rightarrow> transferErr | Inr b \<Rightarrow> ucast (Uint32 b))))"

text \<open>
  The type byte, read with what came along with it: the control messages, their descriptors,
  and the connection of a descriptor.
\<close>

definition transferRecvFD :: "('o \<Rightarrow> 'm list option) \<Rightarrow> ('m \<Rightarrow> 'fd list option) \<Rightarrow> ('fd \<Rightarrow> 's option) \<Rightarrow> 'o \<Rightarrow> string + 's" where
  "transferRecvFD parseSCM parseRights fileConn oob =
     (case parseSCM oob of
        None \<Rightarrow> Inl ''ParseSocketControlMessage: %v''
      | Some scms \<Rightarrow>
          if length scms \<noteq> 1 then Inl ''expected 1 SocketControlMessage; got scms = %#v''
          else (case parseRights (scms ! 0) of
                  None \<Rightarrow> Inl ''unix.ParseUnixRights: %v''
                | Some gotFds \<Rightarrow>
                    if length gotFds \<noteq> 1 then Inl ''wanted 1 fd; got %#v''
                    else (case fileConn (gotFds ! 0) of None \<Rightarrow> Inl ''FileConn error :%v'' | Some conn \<Rightarrow> Inr conn)))"

definition transferRecvType ::
  "('r \<Rightarrow> ('r \<times> byte \<times> 'o) option) \<Rightarrow> ('o \<Rightarrow> string + 's) \<Rightarrow> 'r \<Rightarrow> string + 'r \<times> 's option" where
  "transferRecvType rmsg recvFD uc =
     (case rmsg uc of
        None \<Rightarrow> Inl ''ReadMsgUnix error: %v''
      | Some (uc, b, oob) \<Rightarrow>
          if b = 1 then Inr (uc, None)
          else (case recvFD oob of Inl err \<Rightarrow> Inl err | Inr conn \<Rightarrow> Inr (uc, Some conn)))"

section \<open>The new process\<close>

record ('k, 'nf, 'sf, 's, 'f, 'w, 'h, 'l) receiver =
  rc_handler :: "('k, 'nf, 'sf, 's, 'f, 'w, 'h, 'l) connHandler"
  transferMap :: "64 word \<rightharpoonup> nat"

text \<open>
  \<open>port\<close> is the port of a socket, and \<open>late\<close> that nobody waits for the new connection any rest when
  it is handed back: whoever accepts it is then stuck before anything is done with it.
\<close>

definition transferNewConn ::
  "('f, ('s, 'l conn_cb) connection) ReadFilter \<Rightarrow>
     ('nf \<Rightarrow> ('f, 'w, 'h) filterManager \<times> ('s, 'l conn_cb) connection \<Rightarrow> (('f, 'w, 'h) filterManager \<times> ('s, 'l conn_cb) connection) outcome) \<Rightarrow>
     's socket_write \<Rightarrow> iobuffer option \<Rightarrow> ('s \<Rightarrow> nat) \<Rightarrow> bool \<Rightarrow>
     's \<Rightarrow> byte list \<Rightarrow> ('k, 'nf, 'sf, 's, 'f, 'w, 'h, 'l) receiver \<Rightarrow> (('k, 'nf, 'sf, 's, 'f, 'w, 'h, 'l) receiver \<times> nat option) run" where
  "transferNewConn F create cwr pooled port late conn buf rc =
     (let p = FormatUint (port conn); ch = rc_handler rc; i = length (conn_store ch);
          listener = (case findActiveListenerByAddress (''[::]:'' @ p) ch of
            None \<Rightarrow> findActiveListenerByAddress (''0.0.0.0:'' @ p) ch | Some l \<Rightarrow> Some l)
      in case listener of
           None \<Rightarrow> Some (Inr (rc, None))
         | Some a \<Rightarrow>
             if late then Some (Inr (rc\<lparr>rc_handler := ch\<lparr>idCounter := idCounter ch + 1\<rparr>\<rparr>, None))
             else
               rbind (OnAccept F create cwr pooled (\<lambda>_. Inr None) False (Some (Some buf)) a conn ch) (\<lambda>ch.
                 Some (Inr (rc\<lparr>rc_handler := ch, transferMap := (transferMap rc)(conn_id (sv_conn (conn_store ch ! i)) \<mapsto> i)\<rparr>, Some i))))"

definition transferFindConnection :: "(64 word \<rightharpoonup> nat) \<Rightarrow> 64 word \<Rightarrow> nat option" where
  "transferFindConnection m i = m i"

definition transferWriteBuffer ::
  "('w \<Rightarrow> iobuffer list \<Rightarrow> iobuffer list \<times> FilterStatus) \<Rightarrow> iobuffer option \<Rightarrow> nat \<Rightarrow> byte list \<Rightarrow>
     ('k, 'nf, 'sf, 's, 'f, 'w, 'h, 'l) connHandler \<Rightarrow> ('k, 'nf, 'sf, 's, 'f, 'w, 'h, 'l) connHandler outcome" where
  "transferWriteBuffer W pooled i buf ch =
     (let s = conn_store ch ! i in
      obind (conn_Write W (sv_fm s) pooled [NewIoBufferBytes buf] (sv_conn s)) (\<lambda>c. Inr (set_conn i c ch)))"

text \<open>
  A request of the old process. An error while the data is read is logged only: the request is
  carried out with the number 0 and without the data.
\<close>

definition transferHandler ::
  "('r \<Rightarrow> ('r \<times> byte \<times> 'o) option) \<Rightarrow> ('o \<Rightarrow> string + 's) \<Rightarrow> ('r \<Rightarrow> nat \<Rightarrow> ('r \<times> byte list \<times> io_err option) outcome) \<Rightarrow> 'u socket_write \<Rightarrow>
     ('f, ('s, 'l conn_cb) connection) ReadFilter \<Rightarrow>
     ('nf \<Rightarrow> ('f, 'w, 'h) filterManager \<times> ('s, 'l conn_cb) connection \<Rightarrow> (('f, 'w, 'h) filterManager \<times> ('s, 'l conn_cb) connection) outcome) \<Rightarrow>
     's socket_write \<Rightarrow> ('w \<Rightarrow> iobuffer list \<Rightarrow> iobuffer list \<times> FilterStatus) \<Rightarrow> iobuffer option \<Rightarrow> ('s \<Rightarrow> nat) \<Rightarrow> bool \<Rightarrow> 'r \<Rightarrow> 'u \<Rightarrow> ('k, 'nf, 'sf, 's, 'f, 'w, 'h, 'l) receiver \<Rightarrow>
     ('u \<times> ('k, 'nf, 'sf, 's, 'f, 'w, 'h, 'l) receiver) run" where
  "transferHandler rmsg recvFD rd wr F create cwr W pooled port late uc reply rc =
     (case transferRecvType rmsg recvFD uc of
        Inl err \<Rightarrow> Some (Inr (reply, rc))
      | Inr (uc, conn) \<Rightarrow>
          rbind (transferRecvData rd uc) (\<lambda>(uc, r).
            case (case r of Inl err \<Rightarrow> (0, []) | Inr x \<Rightarrow> x) of (i, buf) \<Rightarrow>
              (case conn of
                 Some conn \<Rightarrow>
                   rbind (transferNewConn F create cwr pooled port late conn buf rc) (\<lambda>(rc, c).
                   rbind (Some (transferSendID wr reply (case c of Some n \<Rightarrow> conn_id (sv_conn (conn_store (rc_handler rc) ! n)) | None \<Rightarrow> transferErr))) (\<lambda>(reply, _).
                     Some (Inr (reply, rc))))
               | None \<Rightarrow>
                   (case transferFindConnection (transferMap rc) (of_nat i) of
                      None \<Rightarrow> Some (Inr (reply, rc))
                    | Some n \<Rightarrow>
                        rbind (Some (transferWriteBuffer W pooled n buf (rc_handler rc))) (\<lambda>ch.
                          Some (Inr (reply, rc\<lparr>rc_handler := ch\<rparr>)))))))"

section \<open>The old process\<close>

text \<open>What is sent, up to the answer. \<open>dial\<close> is the connection to the new process, if there is one.\<close>

definition transferRead_send ::
  "'u socket_write \<Rightarrow> ('s \<Rightarrow> 'fd option) \<Rightarrow> ('u \<Rightarrow> byte list \<Rightarrow> 'fd \<Rightarrow> 'u \<times> (nat \<times> bool) option) \<Rightarrow> 'u option \<Rightarrow> bool \<Rightarrow> 's \<Rightarrow> iobuffer \<Rightarrow> (string + 'u \<times> iobuffer) outcome" where
  "transferRead_send wr file wmsg dial isTCP conn buf =
     (case dial of
        None \<Rightarrow> Inr (Inl ''net Dial unix failed %v'')
      | Some uc \<Rightarrow>
          if \<not> isTCP then Inr (Inl ''unexpected Conn type'')
          else
            obind (transferSendType wr file wmsg uc (Some conn)) (\<lambda>(uc, err).
              case err of
                Some err \<Rightarrow> Inr (Inl err)
              | None \<Rightarrow> obind (transferSendData wr uc 0 buf) (\<lambda>(uc, buf, err).
                  case err of Some err \<Rightarrow> Inr (Inl err) | None \<Rightarrow> Inr (Inr (uc, buf)))))"

text \<open>The whole call: the number the new process answers, or the one that stands for an error. A
  panic is caught, and leaves the same number.\<close>

definition transferRead ::
  "('r \<Rightarrow> nat \<Rightarrow> ('r \<times> byte list \<times> io_err option) outcome) \<Rightarrow> 'u socket_write \<Rightarrow> ('s \<Rightarrow> 'fd option) \<Rightarrow> ('u \<Rightarrow> byte list \<Rightarrow> 'fd \<Rightarrow> 'u \<times> (nat \<times> bool) option) \<Rightarrow>
     'u option \<Rightarrow> ('u \<Rightarrow> 'r) \<Rightarrow> bool \<Rightarrow> 's \<Rightarrow> iobuffer \<Rightarrow> 64 word option" where
  "transferRead rd wr file wmsg dial answer isTCP conn buf =
     (case transferRead_send wr file wmsg dial isTCP conn buf of
        Inl p \<Rightarrow> Some transferErr
      | Inr (Inl err) \<Rightarrow> Some transferErr
      | Inr (Inr (uc, _)) \<Rightarrow>
          (case transferRecvID rd (answer uc) of
             None \<Rightarrow> None | Some (Inl p) \<Rightarrow> Some transferErr | Some (Inr (_, i)) \<Rightarrow> Some i))"

definition transferWrite ::
  "'u socket_write \<Rightarrow> 'u option \<Rightarrow> iobuffer \<Rightarrow> 64 word \<Rightarrow> (iobuffer \<times> (string + 'u)) outcome" where
  "transferWrite wr dial buf i =
     (case dial of
        None \<Rightarrow> Inr (buf, Inl ''net Dial unix failed %v'')
      | Some uc \<Rightarrow>
          obind (transferSendType wr (\<lambda>_. None) (\<lambda>uc _ (_ :: unit). (uc, None)) uc (None :: unit option)) (\<lambda>(uc, err).
            case err of
              Some err \<Rightarrow> Inr (buf, Inl err)
            | None \<Rightarrow> obind (transferSendData wr uc (sint i) buf) (\<lambda>(uc, buf, err).
                case err of Some err \<Rightarrow> Inr (buf, Inl err) | None \<Rightarrow> Inr (buf, Inr uc))))"

text \<open>
  The ends of the loops of a connection. The read loop stops with the transfer, whatever comes
  of it; the write loop goes on as before when the transfer has failed, and passes on what is
  written from then on when it has not, one piece of \<open>writeBufferChan\<close> at a time.
\<close>

datatype transfer_loops = Running | Deaf | Passing "64 word"

definition after_transfer :: "64 word \<Rightarrow> transfer_loops" where
  "after_transfer i = (if i \<noteq> transferErr then Passing i else Deaf)"

definition pass_on :: "'u socket_write \<Rightarrow> 'u option \<Rightarrow> 64 word \<Rightarrow> ('s, 'l) connection \<Rightarrow> ((string + 'u) option \<times> ('s, 'l) connection) outcome" where
  "pass_on wr dial i c =
     (case writeBuffer c of
        None \<Rightarrow> Inr (None, c\<lparr>writeBufferChan := False\<rparr>)
      | Some b \<Rightarrow>
          if Len b = 0 then Inr (None, c\<lparr>writeBufferChan := False\<rparr>)
          else obind (transferWrite wr dial b i) (\<lambda>(b, r). Inr (Some r, c\<lparr>writeBufferChan := False, writeBuffer := Some b\<rparr>)))"

section \<open>What is sent\<close>

lemma Len_contents: "iob_wf b \<Longrightarrow> Len b = int (length (contents b))"
  using length_contents [of b] by simp

lemma transferSendIoBuffer_sends:
  assumes "iob_wf b" and "socket_contract wr out" and "takes_all wr"
  shows "\<exists>uc' b'. transferSendIoBuffer wr uc b = Inr (uc', b', None) \<and> out uc' = out uc @ contents b"
proof (cases "contents b = []")
  case True
  with assms(1) show ?thesis by (simp add: transferSendIoBuffer_def Len_contents)
next
  case False
  obtain uc' where w: "wr uc (contents b) = (uc', length (contents b), None)" using assms(3) by (auto simp: takes_all_def)
  with assms(2) have o: "out uc' = out uc @ contents b" by (fastforce simp: socket_contract_def split: prod.splits)
  have "0 < int (length (contents b))" using False by simp
  then have "boff b < int (blen b)" using Len_contents [OF assms(1)] unfolding Len_def by linarith
  then have "WriteTo wr b uc 0 = Inr (b\<lparr>boff := boff b + int (length (contents b))\<rparr>, uc', length (contents b), None)"
    using w assms(1) length_contents [OF assms(1)] by (simp add: WriteTo.simps [of wr b] Let_def)
  with False o assms(1) show ?thesis by (simp add: transferSendIoBuffer_def Len_contents)
qed

lemma transferSendMsg_sends:
  assumes "socket_contract wr out" and "takes_all wr"
  shows "\<exists>uc'. transferSendMsg wr uc bs = Inr (uc', None) \<and> out uc' = out uc @ bs"
  using transferSendIoBuffer_sends [OF NewIoBufferBytes_wf(1) assms, of uc bs] by (auto simp: transferSendMsg_def)

definition transfer_frame :: "32 word \<Rightarrow> byte list \<Rightarrow> byte list" where
  "transfer_frame i bs = PutUint32 (word_of_nat (length bs)) @ PutUint32 i @ bs"

lemma transferSendData_sends:
  assumes "iob_wf b" and "socket_contract wr out" and "takes_all wr"
  shows "\<exists>uc' b'. transferSendData wr uc i b = Inr (uc', b', None) \<and> out uc' = out uc @ transfer_frame (word_of_int i) (contents b)"
proof -
  obtain u1 where u1: "transferSendHead wr uc (word_of_int (Len b)) (word_of_int i) = Inr (u1, None)"
    "out u1 = out uc @ transferBuildHead (word_of_int (Len b)) (word_of_int i)"
    using transferSendMsg_sends [OF assms(2,3)] by (auto simp: transferSendHead_def)
  obtain u2 b2 where "transferSendIoBuffer wr u1 b = Inr (u2, b2, None)" "out u2 = out u1 @ contents b"
    using transferSendIoBuffer_sends [OF assms] by blast
  with u1 show ?thesis
    by (simp add: transferSendData_def transfer_frame_def transferBuildHead_def Len_contents [OF assms(1)])
qed

section \<open>What is received\<close>

context io_reader
begin

lemma recv_loop_all:
  "rinv r \<Longrightarrow> length b < n \<Longrightarrow> n \<le> length (b @ pending r) \<Longrightarrow>
     \<exists>r'. recv_loop rd n b r = Some (Inr (r', Inr (take n (b @ pending r)))) \<and> pending r' = drop n (b @ pending r) \<and> rinv r'"
proof (induction "n - length b" arbitrary: b r rule: less_induct)
  case less
  then have "pending r \<noteq> []" "0 < n - length b" by auto
  from rd_data [OF less.prems(1) this] obtain r' got where g: "rd r (n - length b) = Inr (r', got, None)"
    "got \<noteq> []" "length got \<le> n - length b" "pending r = got @ pending r'" "rinv r'" by blast
  show ?case
  proof (cases "length (b @ got) = n")
    case True
    with g show ?thesis by (auto simp: recv_loop.simps [of rd n b])
  next
    case False
    with g less.prems have "n - length (b @ got) < n - length b" "length (b @ got) < n" "n \<le> length ((b @ got) @ pending r')"
      by (auto simp: length_greater_0_conv [symmetric] simp del: length_greater_0_conv)
    from less.hyps [OF this(1) g(5) this(2,3)] g False show ?thesis by (auto simp: recv_loop.simps [of rd n b])
  qed
qed

lemma recv_loop_short:
  "rinv r \<Longrightarrow> length (b @ pending r) < n \<Longrightarrow>
     \<exists>r'. recv_loop rd n b r = Some (Inr (r', Inl ''transferRecvMsg failed: %v''))"
proof (induction "length (pending r)" arbitrary: b r rule: less_induct)
  case less
  show ?case
  proof (cases "pending r = []")
    case True
    then show ?thesis using rd_end [OF less.prems(1) True, of "n - length b"] less.prems(2)
      by (auto simp: recv_loop.simps [of rd n b])
  next
    case False
    from rd_data [OF less.prems(1) False, of "n - length b"] less.prems obtain r' got where
      g: "rd r (n - length b) = Inr (r', got, None)" "got \<noteq> []" "pending r = got @ pending r'" "rinv r'" by auto
    have "length (pending r') < length (pending r)" "length ((b @ got) @ pending r') < n" using g less.prems by auto
    from less.hyps [OF this(1) g(4) this(2)] g less.prems show ?thesis by (auto simp: recv_loop.simps [of rd n b])
  qed
qed

lemma transferRecvMsg_all:
  assumes "rinv r" and "n \<le> length (pending r)"
  shows "\<exists>r'. transferRecvMsg rd n r = Some (Inr (r', Inr (take n (pending r)))) \<and> pending r' = drop n (pending r) \<and> rinv r'"
  using recv_loop_all [OF assms(1), of "[]" n] assms by (auto simp: transferRecvMsg_def)

lemma transferRecvData_frame:
  assumes "rinv r" and "pending r = transfer_frame i bs @ rest" and "length bs < 2 ^ 32"
  shows "\<exists>r'. transferRecvData rd r = Some (Inr (r', Inr (unat i, bs))) \<and> pending r' = rest \<and> rinv r'"
proof -
  have l: "unat (word_of_nat (length bs) :: 32 word) = length bs"
    using assms(3) by (simp add: unat_of_nat take_bit_nat_eq_self)
  obtain r1 where r1: "transferRecvMsg rd 8 r = Some (Inr (r1, Inr (take 8 (pending r))))" "pending r1 = drop 8 (pending r)" "rinv r1"
    using transferRecvMsg_all [OF assms(1), of 8] by (auto simp: assms(2) transfer_frame_def)
  have b: "take 8 (pending r) = PutUint32 (word_of_nat (length bs)) @ PutUint32 i" "drop 8 (pending r) = bs @ rest"
    by (simp_all add: assms(2) transfer_frame_def)
  obtain r2 where "transferRecvMsg rd (length bs) r1 = Some (Inr (r2, Inr bs))" "pending r2 = rest" "rinv r2"
    using transferRecvMsg_all [OF r1(3), of "length bs"] r1(2) b(2) by auto
  with r1 b l show ?thesis by (simp add: transferRecvData_def transferRecvHead_def)
qed

lemma transferRecvID_number:
  assumes "rinv r" and "pending r = PutUint32 i @ rest"
  shows "\<exists>r'. transferRecvID rd r = Some (Inr (r', ucast i)) \<and> pending r' = rest \<and> rinv r'"
  using transferRecvMsg_all [OF assms(1), of 4] by (auto simp: assms(2) transferRecvID_def)

lemma transferRecvID_cut:
  assumes "rinv r" and "length (pending r) < 4"
  shows "\<exists>r'. transferRecvID rd r = Some (Inr (r', transferErr))"
  using recv_loop_short [OF assms(1), of "[]" 4] assms(2) by (auto simp: transferRecvID_def transferRecvMsg_def)

lemma transferRecvData_cut:
  assumes "rinv r" and "pending r = PutUint32 (word_of_nat n) @ PutUint32 i @ bs" and "length bs < n" and "n < 2 ^ 32"
  shows "\<exists>r' err. transferRecvData rd r = Some (Inr (r', Inl err))"
proof -
  have l: "unat (word_of_nat n :: 32 word) = n" using assms(4) by (simp add: unat_of_nat take_bit_nat_eq_self)
  obtain r1 where r1: "transferRecvMsg rd 8 r = Some (Inr (r1, Inr (take 8 (pending r))))" "pending r1 = drop 8 (pending r)" "rinv r1"
    using transferRecvMsg_all [OF assms(1), of 8] by (auto simp: assms(2))
  have b: "take 8 (pending r) = PutUint32 (word_of_nat n) @ PutUint32 i" "drop 8 (pending r) = bs"
    by (simp_all add: assms(2))
  obtain r2 where "transferRecvMsg rd n r1 = Some (Inr (r2, Inl ''transferRecvMsg failed: %v''))"
    using recv_loop_short [OF r1(3), of "[]" n] r1(2) b(2) assms(3) by (auto simp: transferRecvMsg_def)
  with r1 b l show ?thesis by (simp add: transferRecvData_def transferRecvHead_def)
qed

end

text \<open>The receiving end of a Unix socket also gives the first byte with what came along with it.\<close>

locale transfer_socket = io_reader rd pending rinv
  for rd :: "'r \<Rightarrow> nat \<Rightarrow> ('r \<times> byte list \<times> io_err option) outcome" and pending :: "'r \<Rightarrow> byte list" and rinv :: "'r \<Rightarrow> bool" +
  fixes rmsg :: "'r \<Rightarrow> ('r \<times> byte \<times> 'o) option" and rights :: "'r \<Rightarrow> 'o"
  assumes rmsg_byte: "rinv r \<Longrightarrow> pending r = b # bs \<Longrightarrow> \<exists>r'. rmsg r = Some (r', b, rights r) \<and> pending r' = bs \<and> rinv r'"
begin

lemma transferHandler_write:
  assumes "rinv r" and "pending r = 1 # transfer_frame i bs" and "length bs < 2 ^ 32" and "transferMap rc (ucast i) = Some n"
  shows "transferHandler rmsg recvFD rd wr F create cwr W pooled port late r reply rc =
    rbind (Some (transferWriteBuffer W pooled n bs (rc_handler rc))) (\<lambda>ch. Some (Inr (reply, rc\<lparr>rc_handler := ch\<rparr>)))"
proof -
  from rmsg_byte [OF assms(1,2)] obtain r1 where r1: "rmsg r = Some (r1, 1, rights r)" "pending r1 = transfer_frame i bs" "rinv r1" by blast
  from transferRecvData_frame [of r1 i bs "[]"] r1 assms(3) obtain r2 where "transferRecvData rd r1 = Some (Inr (r2, Inr (unat i, bs)))"
    by auto
  moreover have "(of_nat (unat i) :: 64 word) = ucast i" by simp
  ultimately show ?thesis using r1 assms(4) by (simp add: transferHandler_def transferRecvType_def transferFindConnection_def)
qed

lemma transferHandler_read:
  assumes "rinv r" and "pending r = 0 # transfer_frame i bs" and "length bs < 2 ^ 32" and "recvFD (rights r) = Inr conn"
  shows "transferHandler rmsg recvFD rd wr F create cwr W pooled port late r reply rc =
    rbind (transferNewConn F create cwr pooled port late conn bs rc) (\<lambda>(rc, c).
    rbind (Some (transferSendID wr reply (case c of Some n \<Rightarrow> conn_id (sv_conn (conn_store (rc_handler rc) ! n)) | None \<Rightarrow> transferErr))) (\<lambda>(reply, _).
      Some (Inr (reply, rc))))"
proof -
  from rmsg_byte [OF assms(1,2)] obtain r1 where r1: "rmsg r = Some (r1, 0, rights r)" "pending r1 = transfer_frame i bs" "rinv r1" by blast
  from transferRecvData_frame [of r1 i bs "[]"] r1 assms(3) obtain r2 where "transferRecvData rd r1 = Some (Inr (r2, Inr (unat i, bs)))"
    by auto
  with r1 assms(4) show ?thesis by (simp add: transferHandler_def transferRecvType_def)
qed

lemma transferHandler_cut:
  assumes "rinv r" and "pending r = 0 # PutUint32 (word_of_nat n) @ PutUint32 i @ bs" and "length bs < n" and "n < 2 ^ 32"
    and "recvFD (rights r) = Inr conn"
  shows "transferHandler rmsg recvFD rd wr F create cwr W pooled port late r reply rc =
    rbind (transferNewConn F create cwr pooled port late conn [] rc) (\<lambda>(rc, c).
    rbind (Some (transferSendID wr reply (case c of Some n \<Rightarrow> conn_id (sv_conn (conn_store (rc_handler rc) ! n)) | None \<Rightarrow> transferErr))) (\<lambda>(reply, _).
      Some (Inr (reply, rc))))"
proof -
  from rmsg_byte [OF assms(1,2)] obtain r1 where
    r1: "rmsg r = Some (r1, 0, rights r)" "pending r1 = PutUint32 (word_of_nat n) @ PutUint32 i @ bs" "rinv r1" by blast
  from transferRecvData_cut [OF r1(3,2) assms(3,4)] obtain r2 err where "transferRecvData rd r1 = Some (Inr (r2, Inl err))" by blast
  with r1 assms(5) show ?thesis by (simp add: transferHandler_def transferRecvType_def)
qed

end

text \<open>
  A stream socket as its reader sees it: the pieces in which what was sent arrives, and the
  descriptors that came with the first byte.
\<close>

type_synonym 'fd arriving = "'fd list \<times> byte list list"

fun stream_read :: "'fd arriving \<Rightarrow> nat \<Rightarrow> ('fd arriving \<times> byte list \<times> io_err option) outcome" where
  "stream_read (fds, []) n = Inr ((fds, []), [], Some EOF)"
| "stream_read (fds, c # cs) n = (if length c \<le> n then Inr ((fds, cs), c, None) else Inr ((fds, drop n c # cs), take n c, None))"

fun stream_msg :: "'fd arriving \<Rightarrow> ('fd arriving \<times> byte \<times> 'fd list) option" where
  "stream_msg (fds, (b # c) # cs) = Some ((fds, if c = [] then cs else c # cs), b, fds)"
| "stream_msg s = None"

definition arrives :: "'fd arriving \<Rightarrow> byte list" where "arrives s = concat (snd s)"
definition in_pieces :: "'fd arriving \<Rightarrow> bool" where "in_pieces s \<longleftrightarrow> [] \<notin> set (snd s)"

interpretation stream: transfer_socket stream_read arrives in_pieces stream_msg fst
proof unfold_locales
  fix s :: "'fd arriving" and n :: nat
  assume s: "in_pieces s" and n: "0 < n"
  obtain fds cs where e: "s = (fds, cs)" by (cases s)
  {
    assume "arrives s \<noteq> []"
    then obtain c cs' where "cs = c # cs'" "c \<noteq> []" using s by (cases cs) (auto simp: e arrives_def in_pieces_def)
    with s n show "\<exists>r' got. stream_read s n = Inr (r', got, None) \<and> got \<noteq> [] \<and> length got \<le> n \<and> arrives s = got @ arrives r' \<and> in_pieces r'"
      by (auto simp: e arrives_def in_pieces_def append_assoc [symmetric] simp del: append_assoc)
  next
    assume "arrives s = []"
    then have "cs = []" using s by (cases cs) (auto simp: e arrives_def in_pieces_def)
    then show "\<exists>r'. stream_read s n = Inr (r', [], Some EOF) \<and> arrives r' = [] \<and> in_pieces r'" by (auto simp: e arrives_def in_pieces_def)
  }
next
  fix s :: "'fd arriving" and b bs
  assume "in_pieces s" "arrives s = b # bs"
  then show "\<exists>r'. stream_msg s = Some (r', b, fst s) \<and> arrives r' = bs \<and> in_pieces r'"
    by (cases s rule: stream_msg.cases) (auto simp: arrives_def in_pieces_def split: if_splits)
qed

section \<open>From one process to the other\<close>

lemma narrow_id: "(word_of_int (sint (i :: 64 word)) :: 32 word) = ucast i"
  by (rule bit_word_eqI) (simp add: bit_signed_iff bit_ucast_iff min_def)

lemma unat_narrow: "unat (ucast (ucast (i :: 64 word) :: 32 word) :: 64 word) = unat i mod 2 ^ 32"
  by (simp only: unsigned_ucast_eq take_bit_take_bit) (simp add: take_bit_eq_mod unat_mod_distrib)

lemma transferWrite_sends:
  assumes "iob_wf b" and "socket_contract wr out" and "takes_all wr"
  shows "\<exists>uc' b'. transferWrite wr (Some uc) b i = Inr (b', Inr uc') \<and> out uc' = out uc @ 1 # transfer_frame (ucast i) (contents b)"
proof -
  obtain u1 where u1: "transferSendMsg wr uc [1] = Inr (u1, None)" "out u1 = out uc @ [1]" using transferSendMsg_sends [OF assms(2,3)] by blast
  obtain u2 b2 where "transferSendData wr u1 (sint i) b = Inr (u2, b2, None)" "out u2 = out u1 @ transfer_frame (ucast i) (contents b)"
    using transferSendData_sends [OF assms] by (metis narrow_id)
  with u1 show ?thesis by (simp add: transferWrite_def transferSendType_def)
qed

lemma transferWriteBuffer_appends:
  assumes "n < length (conn_store ch)" and "conn_wf (sv_conn (conn_store ch ! n))" and "downstreamFilters (sv_fm (conn_store ch ! n)) = []"
    and "pool_ok pooled"
  shows "\<exists>c. transferWriteBuffer W pooled n bs ch = Inr (set_conn n c ch) \<and> conn_wf c \<and>
    unsent c = unsent (sv_conn (conn_store ch ! n)) @ bs \<and> rawConnection c = rawConnection (sv_conn (conn_store ch ! n)) \<and> writeBufferChan c"
proof -
  let ?c = "sv_conn (conn_store ch ! n)"
  let ?b = "case writeBuffer ?c of Some b \<Rightarrow> b | None \<Rightarrow> Take pooled"
  have b: "iob_wf ?b" "contents ?b = unsent ?c"
    using assms(2) Take_wf [OF assms(4)] by (auto simp: conn_wf_def unsent_def split: option.splits)
  obtain w where w: "write_buffers [NewIoBufferBytes bs] ?b = Inr w" "iob_wf w" "contents w = unsent ?c @ bs"
    using write_buffers_wf [of "[NewIoBufferBytes bs]", OF _ b(1)] b(2) by auto
  with assms(2,3) show ?thesis
    by (intro exI [of _ "?c\<lparr>writeBuffer := Some w, writeBufferChan := True\<rparr>"]) (simp add: transferWriteBuffer_def conn_Write_def fm_OnWrite_def conn_wf_def unsent_def)
qed

text \<open>A connection the new process cannot place is answered with the number of an error.\<close>

lemma transferNewConn_unplaced:
  assumes "findActiveListenerByAddress (''[::]:'' @ FormatUint (port conn)) (rc_handler rc) = None"
    and "findActiveListenerByAddress (''0.0.0.0:'' @ FormatUint (port conn)) (rc_handler rc) = None"
  shows "transferNewConn F create cwr pooled port late conn bs rc = Some (Inr (rc, None))"
  using assms by (simp add: transferNewConn_def)

section \<open>Properties\<close>

text \<open>
  C20 (roundtrip). What a connection of the old process still has to write once it has been handed over reaches
  the peer through the new process: the bytes that \<open>transferWrite\<close> sends, in whatever pieces
  they arrive, make \<open>transferHandler\<close> append exactly the contents of the write buffer to what
  the connection kept under this number has to write, wake its write loop, and change nothing
  else, as long as the number and the length fit into 32 bits.
\<close>

theorem handed_over_bytes_written:
  assumes "iob_wf b" and "length (contents b) < 2 ^ 32" and "unat i < 2 ^ 32"
    and "socket_contract wr out" and "takes_all wr" and "out uc = []"
    and "transferMap rc i = Some n" and "n < length (conn_store (rc_handler rc))"
    and "conn_wf (sv_conn (conn_store (rc_handler rc) ! n))" and "downstreamFilters (sv_fm (conn_store (rc_handler rc) ! n)) = []"
    and "pool_ok pooled"
  shows "\<exists>uc' b'. transferWrite wr (Some uc) b i = Inr (b', Inr uc') \<and>
    (\<forall>s. in_pieces s \<and> arrives s = out uc' \<longrightarrow>
      (\<exists>c. transferHandler stream_msg recvFD stream_read rwr F create cwr W pooled port late s reply rc =
             Some (Inr (reply, rc\<lparr>rc_handler := set_conn n c (rc_handler rc)\<rparr>)) \<and>
         unsent c = unsent (sv_conn (conn_store (rc_handler rc) ! n)) @ contents b \<and> writeBufferChan c \<and>
         rawConnection c = rawConnection (sv_conn (conn_store (rc_handler rc) ! n))))"
proof -
  obtain uc' b' where u: "transferWrite wr (Some uc) b i = Inr (b', Inr uc')" "out uc' = 1 # transfer_frame (ucast i) (contents b)"
    using transferWrite_sends [OF assms(1,4,5), of uc i] assms(6) by auto
  have i: "ucast (ucast i :: 32 word) = i" using assms(3) by (simp add: word_unat_eq_iff unat_narrow)
  obtain c where c: "transferWriteBuffer W pooled n (contents b) (rc_handler rc) = Inr (set_conn n c (rc_handler rc))"
    "unsent c = unsent (sv_conn (conn_store (rc_handler rc) ! n)) @ contents b" "writeBufferChan c"
    "rawConnection c = rawConnection (sv_conn (conn_store (rc_handler rc) ! n))"
    using transferWriteBuffer_appends [OF assms(8-11)] by blast
  have "transferHandler stream_msg recvFD stream_read rwr F create cwr W pooled port late s reply rc =
      Some (Inr (reply, rc\<lparr>rc_handler := set_conn n c (rc_handler rc)\<rparr>))" if "in_pieces s" "arrives s = out uc'" for s
    using stream.transferHandler_write [OF that(1), where i = "ucast i" and bs = "contents b" and rc = rc and n = n and recvFD = recvFD and wr = rwr
        and F = F and create = create and cwr = cwr and W = W and pooled = pooled and port = port and late = late and reply = reply] that(2) u(2) assms(2,7) i c(1) by simp
  with u(1) c show ?thesis by blast
qed

text \<open>
  C31 (bounds). The number of a handed-over connection crosses the socket in 32 of its 64 bits: the old process
  learns the number modulo 2 to the 32, which is below that bound, is the number itself exactly
  when the number is below it, and stands for a failed transfer exactly when the number is a
  multiple of it, after which the old process goes on writing to the connection itself although
  the new process has taken it over.
\<close>

theorem handed_over_number:
  assumes "socket_contract wr out" and "takes_all wr" and "out uc = []"
  shows "\<exists>uc'. transferSendID wr uc i = Inr (uc', None) \<and>
    (\<forall>s. in_pieces s \<and> arrives s = out uc' \<longrightarrow>
      (\<exists>s' j. transferRecvID stream_read s = Some (Inr (s', j)) \<and> unat j = unat i mod 2 ^ 32 \<and> unat j < 2 ^ 32 \<and>
         (j = i \<longleftrightarrow> unat i < 2 ^ 32) \<and> (after_transfer j = Deaf \<longleftrightarrow> 2 ^ 32 dvd unat i)))"
proof -
  obtain uc' where u: "transferSendID wr uc i = Inr (uc', None)" "out uc' = PutUint32 (ucast i)"
    using transferSendMsg_sends [OF assms(1,2), of uc] assms(3) by (auto simp: transferSendID_def)
  define j where "j = (ucast (ucast i :: 32 word) :: 64 word)"
  have j: "unat j = unat i mod 2 ^ 32" by (simp add: j_def unat_narrow)
  have "j = i \<longleftrightarrow> unat i < 2 ^ 32" by (metis j mod_less mod_less_divisor word_unat_eq_iff zero_less_numeral zero_less_power)
  moreover have "after_transfer j = Deaf \<longleftrightarrow> 2 ^ 32 dvd unat i"
    using j by (auto simp: after_transfer_def transferErr_def dvd_eq_mod_eq_0 word_unat_eq_iff)
  moreover have "\<exists>s'. transferRecvID stream_read s = Some (Inr (s', j))" if "in_pieces s" "arrives s = out uc'" for s
    using stream.transferRecvID_number [OF that(1), of "ucast i" "[]"] that(2) u(2) by (auto simp: j_def)
  ultimately show ?thesis using u(1) j by (metis mod_less_divisor zero_less_numeral zero_less_power)
qed

section \<open>Witnesses\<close>

definition handed_over :: "(nat, unit, unit, byte list, unit, unit, unit, unit) receiver" where
  "handed_over = \<lparr>rc_handler = started, transferMap = [2 \<mapsto> 0]\<rparr>"

definition no_descriptor :: "nat list \<Rightarrow> string + byte list" where "no_descriptor fds = Inl ''no descriptor''"
definition port_80 :: "byte list \<Rightarrow> nat" where "port_80 s = 80"
definition pass_write :: "unit \<Rightarrow> iobuffer list \<Rightarrow> iobuffer list \<times> FilterStatus" where "pass_write w bufs = (bufs, Continue)"

lemma handed_over_simps:
  "transferMap handed_over 2 = Some 0" "0 < length (conn_store (rc_handler handed_over))" "conn_wf (sv_conn (conn_store (rc_handler handed_over) ! 0))"
  "downstreamFilters (sv_fm (conn_store (rc_handler handed_over) ! 0)) = []" "unsent (sv_conn (conn_store (rc_handler handed_over) ! 0)) = []"
  by (simp_all add: handed_over_def started_def conn_wf_def unsent_def Start_def SetBufferLimit_def new_connection_def newFilterManager_def Let_def)

theorem handed_over_bytes_written_witness:
  "\<exists>c. transferHandler stream_msg no_descriptor stream_read log_socket quiet_filter one_filter log_socket pass_write None port_80 False
         ([], [[1, 0, 0, 0], [3, 0, 0, 0, 2, 7], [8, 9]]) [] handed_over = Some (Inr ([], handed_over\<lparr>rc_handler := set_conn 0 c started\<rparr>)) \<and>
       unsent c = [7, 8, 9]"
proof -
  have b: "iob_wf (NewIoBufferBytes [7, 8, 9])" "length (contents (NewIoBufferBytes [7, 8, 9])) < 2 ^ 32" "unat (2 :: 64 word) < 2 ^ 32"
    "pool_ok None" by (simp_all add: pool_ok_def)
  obtain uc' b' where u: "transferWrite log_socket (Some []) (NewIoBufferBytes [7, 8, 9]) 2 = Inr (b', Inr uc')"
    "uc' = 1 # transfer_frame 2 [7, 8, 9]"
    using transferWrite_sends [OF b(1) sample_socket(1,2), of "[]" 2] by auto
  have a: "in_pieces ([] :: nat list, [[1, 0, 0, 0], [3, 0, 0, 0, 2, 7], [8, 9]])"
    "arrives ([] :: nat list, [[1, 0, 0, 0], [3, 0, 0, 0, 2, 7], [8, 9]]) = 1 # transfer_frame 2 [7, 8, 9]"
    by (simp_all add: in_pieces_def arrives_def transfer_frame_def PutUint32_def)
  have h: "rc_handler handed_over = started" by (simp add: handed_over_def)
  let ?run = "\<lambda>s. transferHandler stream_msg no_descriptor stream_read log_socket quiet_filter one_filter log_socket pass_write None port_80 False s [] handed_over"
  have "\<forall>s. in_pieces s \<and> arrives s = uc' \<longrightarrow> (\<exists>c. ?run s = Some (Inr ([], handed_over\<lparr>rc_handler := set_conn 0 c started\<rparr>)) \<and> unsent c = [7, 8, 9])"
    using handed_over_bytes_written [OF b(1-3) sample_socket(1,2) _ handed_over_simps(1-4) b(4), of "[]" no_descriptor log_socket quiet_filter one_filter
      log_socket pass_write port_80 False "[]"] u(1)
    by (simp add: h handed_over_simps(5) [unfolded h] del: split_paired_All) blast
  with a u(2) show ?thesis by blast
qed

theorem handed_over_number_witness:
  "\<exists>s' j. transferRecvID stream_read ([] :: nat list, [[0], [0, 0, 5]]) = Some (Inr (s', j)) \<and> unat j = (2 ^ 32 + 5) mod 2 ^ 32 \<and> j \<noteq> 0x100000005"
proof -
  obtain uc' where u: "transferSendID log_socket [] 0x100000005 = Inr (uc', None)" "uc' = [0, 0, 0, 5]"
    using transferSendMsg_sends [OF sample_socket(1,2), of "[]" "[0, 0, 0, 5]"] by (auto simp: transferSendID_def PutUint32_def)
  have a: "in_pieces ([] :: nat list, [[0], [0, 0, 5]])" "arrives ([] :: nat list, [[0], [0, 0, 5]]) = [0, 0, 0, 5]"
    by (simp_all add: in_pieces_def arrives_def)
  have "\<forall>s :: nat arriving. in_pieces s \<and> arrives s = uc' \<longrightarrow> (\<exists>s' j. transferRecvID stream_read s = Some (Inr (s', j)) \<and> unat j = 5 \<and> j \<noteq> 0x100000005)"
    using handed_over_number [OF sample_socket(1,2), of "[]" "0x100000005"] u(1) by (simp del: split_paired_All split_paired_Ex) blast
  from this [rule_format, OF conjI, OF a(1)] a(2) u(2) show ?thesis by (simp del: split_paired_Ex)
qed

end
