(* ===== verification/Tcp_Proxy.thy ===== *)
theory Tcp_Proxy
  imports Conn_Handler Cluster_Manager Resource_Manager
begin

text \<open>
  The TCP proxy: \<open>pkg/filter/network/tcpproxy/proxy.go\<close>, with the fault injector of
  \<open>pkg/filter/network/faultinject/faultinject.go\<close> and the information on a request of
  \<open>pkg/network/requestinfo.go\<close>. The proxy is a read filter of one downstream connection and has
  one upstream connection; both are connections of \<open>Net_Connection\<close>, whose events it handles at
  once. No write filter is ever registered in the program, so that writing to a connection
  always moves the bytes into its write buffer.
\<close>

section \<open>The information on a request\<close>

record requestInfo =
  responseFlag :: "64 word"
  upstreamHost :: "hid option"
  bytesSent :: "64 word"
  bytesReceived :: "64 word"
  downstreamLocalAddress :: string
  downstreamRemoteAddress :: string

definition NewRequestInfo :: requestInfo where
  "NewRequestInfo = \<lparr>responseFlag = 0, upstreamHost = None, bytesSent = 0, bytesReceived = 0, downstreamLocalAddress = '''', downstreamRemoteAddress = ''''\<rparr>"

definition SetResponseFlag :: "64 word \<Rightarrow> requestInfo \<Rightarrow> requestInfo" where
  "SetResponseFlag flag r = r\<lparr>responseFlag := or (responseFlag r) flag\<rparr>"

definition GetResponseFlag :: "64 word \<Rightarrow> requestInfo \<Rightarrow> bool" where
  "GetResponseFlag flag r \<longleftrightarrow> and (responseFlag r) flag \<noteq> 0"

section \<open>Routes\<close>

record tcp_route =
  tr_Cluster :: string
  tr_SourceAddrs :: "string list"
  tr_DestinationAddrs :: "string list"

fun GetRouteFromEntries :: "tcp_route list \<Rightarrow> string \<Rightarrow> string \<Rightarrow> string" where
  "GetRouteFromEntries [] remote lcl = ''''"
| "GetRouteFromEntries (r # rs) remote lcl =
     (if tr_SourceAddrs r \<noteq> [] \<and> remote \<notin> set (tr_SourceAddrs r) then GetRouteFromEntries rs remote lcl
      else if tr_DestinationAddrs r \<noteq> [] \<and> lcl \<in> set (tr_DestinationAddrs r) then GetRouteFromEntries rs remote lcl
      else tr_Cluster r)"

section \<open>The proxy\<close>

text \<open>
  The listeners of the two connections: the callbacks of the proxy, and others. The resources of
  a cluster are kept under its name; \<open>upstreamHost_cb\<close> is the host of the read callbacks, with the
  name of its cluster.
\<close>

datatype tcp_cb = UpstreamCb | DownstreamCb | OtherCb nat

record 's tcp_proxy =
  tp_routes :: "tcp_route list"
  tp_cm :: clusterManager
  tp_connections :: "string \<Rightarrow> resource"
  tp_limits :: "string \<Rightarrow> 32 word"
  tp_down :: "('s, tcp_cb) connection"
  tp_up :: "('s, tcp_cb) clientConnection option"
  upstreamHost_cb :: "(hid \<times> string) option"
  tp_info :: requestInfo
  tp_accessLogs :: nat
  tp_logged :: "requestInfo list"
  tp_counter :: "64 word"

definition NewProxy :: "tcp_route list \<Rightarrow> clusterManager \<Rightarrow> (string \<Rightarrow> resource) \<Rightarrow> (string \<Rightarrow> 32 word) \<Rightarrow> nat \<Rightarrow> 64 word \<Rightarrow> ('s, tcp_cb) connection \<Rightarrow> 's tcp_proxy" where
  "NewProxy routes cm conns limits logs counter down =
     \<lparr>tp_routes = routes, tp_cm = cm, tp_connections = conns, tp_limits = limits, tp_down = down, tp_up = None, upstreamHost_cb = None,
      tp_info = NewRequestInfo, tp_accessLogs = logs, tp_logged = [], tp_counter = counter\<rparr>"

definition tp_InitializeReadFilterCallbacks :: "string \<Rightarrow> string \<Rightarrow> 's tcp_proxy \<Rightarrow> 's tcp_proxy run" where
  "tp_InitializeReadFilterCallbacks remote lcl p =
     (let p = p\<lparr>tp_down := AddConnectionEventListener DownstreamCb (tp_down p),
              tp_info := (tp_info p)\<lparr>downstreamRemoteAddress := remote, downstreamLocalAddress := lcl\<rparr>\<rparr>
      in case SetReadDisable True (tp_down p) of None \<Rightarrow> None | Some c \<Rightarrow> Some (Inr (p\<lparr>tp_down := c\<rparr>)))"

text \<open>Writing the contents of a buffer to a connection, and what is left of the buffer.\<close>

definition write_buffer :: "iobuffer option \<Rightarrow> iobuffer \<Rightarrow> ('s, 'l) connection \<Rightarrow> (('s, 'l) connection \<times> iobuffer) outcome" where
  "write_buffer pooled b c =
     obind (WriteTo buffer_writer b (Inr (case writeBuffer c of Some w \<Rightarrow> w | None \<Rightarrow> Take pooled)) 0) (\<lambda>(b, q, _).
       obind q (\<lambda>w. Inr (c\<lparr>writeBuffer := Some w, writeBufferChan := True\<rparr>, b)))"

definition tp_OnData :: "iobuffer option \<Rightarrow> iobuffer \<Rightarrow> 's tcp_proxy \<Rightarrow> ('s tcp_proxy \<times> iobuffer \<times> FilterStatus) outcome" where
  "tp_OnData pooled buffer p =
     (let p = p\<lparr>tp_info := (tp_info p)\<lparr>bytesReceived := bytesReceived (tp_info p) + word_of_int (Len buffer)\<rparr>\<rparr> in
      case tp_up p of
        None \<Rightarrow> Inl NilDereference
      | Some u \<Rightarrow> obind (write_buffer pooled buffer (cc_connection u)) (\<lambda>(c, buffer).
          Inr (p\<lparr>tp_up := Some (u\<lparr>cc_connection := c\<rparr>)\<rparr>, buffer, StopIteration)))"

definition onUpstreamData :: "iobuffer option \<Rightarrow> iobuffer \<Rightarrow> 's tcp_proxy \<Rightarrow> ('s tcp_proxy \<times> iobuffer \<times> FilterStatus) outcome" where
  "onUpstreamData pooled buffer p =
     (let p = p\<lparr>tp_info := (tp_info p)\<lparr>bytesSent := bytesSent (tp_info p) + word_of_int (Len buffer)\<rparr>\<rparr> in
      obind (write_buffer pooled buffer (tp_down p)) (\<lambda>(c, buffer). Inr (p\<lparr>tp_down := c\<rparr>, buffer, StopIteration)))"

definition finalizeUpstreamConnectionStats :: "'s tcp_proxy \<Rightarrow> 's tcp_proxy outcome" where
  "finalizeUpstreamConnectionStats p =
     (case upstreamHost_cb p of
        None \<Rightarrow> Inl NilDereference
      | Some (h, cl) \<Rightarrow> Inr (p\<lparr>tp_connections := (tp_connections p)(cl := Decrease (tp_connections p cl))\<rparr>))"

section \<open>Closing\<close>

text \<open>The events that closing a connection has sent to a listener.\<close>

definition sent_events :: "'l \<Rightarrow> ('s, 'l) connection \<Rightarrow> ('s, 'l) connection \<Rightarrow> ConnectionEvent list" where
  "sent_events cb c c' = List.map_filter (\<lambda>a. case a of CallEvent l e \<Rightarrow> if l = cb then Some e else None | _ \<Rightarrow> None)
     (drop (length (close_calls c)) (close_calls c'))"

fun run_events :: "(ConnectionEvent \<Rightarrow> 'p \<Rightarrow> 'p run) \<Rightarrow> ConnectionEvent list \<Rightarrow> 'p \<Rightarrow> 'p run" where
  "run_events f [] p = Some (Inr p)"
| "run_events f (e # es) p = rbind (f e p) (run_events f es)"

text \<open>
  The upstream connection is closed by the proxy with \<open>LocalClose\<close> only, of which the callbacks
  take the resource back.
\<close>

definition close_upstream :: "'s socket_write \<Rightarrow> ConnectionCloseType \<Rightarrow> 's tcp_proxy \<Rightarrow> 's tcp_proxy run" where
  "close_upstream wr t p =
     (case tp_up p of
        None \<Rightarrow> Some (Inl NilDereference)
      | Some u \<Rightarrow>
          rbind (conn_Close wr t LocalClose (cc_connection u)) (\<lambda>c.
            run_events (\<lambda>_ p. Some (finalizeUpstreamConnectionStats p)) (sent_events UpstreamCb (cc_connection u) c)
              (p\<lparr>tp_up := Some (u\<lparr>cc_connection := c\<rparr>)\<rparr>)))"

definition onDownstreamEvent :: "'s socket_write \<Rightarrow> ConnectionEvent \<Rightarrow> 's tcp_proxy \<Rightarrow> 's tcp_proxy run" where
  "onDownstreamEvent wr event p =
     rbind (if tp_up p \<noteq> None then
              (if event = RemoteClose then close_upstream wr FlushWrite p
               else if event = LocalClose then close_upstream wr NoFlush p
               else Some (Inr p))
            else Some (Inr p)) (\<lambda>p.
       Some (Inr (if IsClose event then p\<lparr>tp_logged := tp_logged p @ replicate (tp_accessLogs p) (tp_info p)\<rparr> else p)))"

definition close_downstream :: "'s socket_write \<Rightarrow> ConnectionCloseType \<Rightarrow> ConnectionEvent \<Rightarrow> 's tcp_proxy \<Rightarrow> 's tcp_proxy run" where
  "close_downstream wr t event p =
     rbind (conn_Close wr t event (tp_down p)) (\<lambda>c.
       run_events (onDownstreamEvent wr) (sent_events DownstreamCb (tp_down p) c) (p\<lparr>tp_down := c\<rparr>))"

definition onInitFailure :: "'s socket_write \<Rightarrow> 's tcp_proxy \<Rightarrow> 's tcp_proxy run" where
  "onInitFailure wr p = close_downstream wr NoFlush LocalClose p"

section \<open>Connecting\<close>

definition flag_info :: "64 word \<Rightarrow> 's tcp_proxy \<Rightarrow> 's tcp_proxy" where
  "flag_info flag p = p\<lparr>tp_info := SetResponseFlag flag (tp_info p)\<rparr>"

definition read_disable :: "bool \<Rightarrow> ('s, 'l) connection \<Rightarrow> ('s, 'l) connection run" where
  "read_disable b c = (case SetReadDisable b c of None \<Rightarrow> None | Some c \<Rightarrow> Some (Inr c))"

text \<open>
  \<open>again\<close> is \<open>initializeUpstreamConnection\<close>, which is called once more when connecting timed out,
  after the connection is closed.
\<close>

definition onUpstreamEvent :: "'s socket_write \<Rightarrow> ('s tcp_proxy \<Rightarrow> 's tcp_proxy run) \<Rightarrow> ConnectionEvent \<Rightarrow> 's tcp_proxy \<Rightarrow> 's tcp_proxy run" where
  "onUpstreamEvent wr again event p =
     (case event of
        RemoteClose \<Rightarrow> rbind (Some (finalizeUpstreamConnectionStats p)) (close_downstream wr FlushWrite LocalClose)
      | LocalClose \<Rightarrow> Some (finalizeUpstreamConnectionStats p)
      | ConnectionEvent.Connected \<Rightarrow> rbind (read_disable False (tp_down p)) (\<lambda>c. Some (Inr (p\<lparr>tp_down := c\<rparr>)))
      | ConnectTimeout \<Rightarrow>
          rbind (Some (finalizeUpstreamConnectionStats p)) (\<lambda>p.
          rbind (close_upstream wr NoFlush (flag_info UpstreamConnectionFailure p)) again)
      | ConnectFailed \<Rightarrow> Some (Inr (flag_info UpstreamConnectionFailure p))
      | _ \<Rightarrow> Some (Inr p))"

definition upstreamCallbacks_OnEvent :: "'s socket_write \<Rightarrow> ('s tcp_proxy \<Rightarrow> 's tcp_proxy run) \<Rightarrow> ConnectionEvent \<Rightarrow> 's tcp_proxy \<Rightarrow> 's tcp_proxy run" where
  "upstreamCallbacks_OnEvent wr again event p =
     rbind (case (event, tp_up p) of
              (ConnectionEvent.Connected, Some u) \<Rightarrow>
                rbind (read_disable False (cc_connection u)) (\<lambda>c. Some (Inr (p\<lparr>tp_up := Some (u\<lparr>cc_connection := c\<rparr>)\<rparr>)))
            | (ConnectionEvent.Connected, None) \<Rightarrow> Some (Inl NilDereference)
            | _ \<Rightarrow> Some (Inr p))
       (onUpstreamEvent wr again event)"

text \<open>
  The connection that is made for the \<open>n\<close>-th call, with what dialling it gives; \<open>draws\<close> are the
  random numbers of the balancer.
\<close>

definition try_upstream ::
  "'s socket_write \<Rightarrow> ('s \<times> io_err option) \<Rightarrow> ('s \<Rightarrow> 's) option \<Rightarrow> nat \<times> nat \<Rightarrow> ('s tcp_proxy \<Rightarrow> 's tcp_proxy run) \<Rightarrow> 's tcp_proxy \<Rightarrow> ('s tcp_proxy \<times> FilterStatus) run" where
  "try_upstream wr dial tls draws again p =
     (let clusterName = GetRouteFromEntries (tp_routes p) (downstreamRemoteAddress (tp_info p)) (downstreamLocalAddress (tp_info p));
          fail = (\<lambda>flag p. rbind (onInitFailure wr (flag_info flag p)) (\<lambda>p. Some (Inr (p, StopIteration))))
      in if getOrCreateClusterSnapshot clusterName (tp_cm p) = None then fail NoRouteFound p
         else if \<not> CanCreate (tp_connections p clusterName) then fail UpstreamOverflow p
         else
           rbind (Some (TCPConnForCluster draws clusterName (tp_cm p))) (\<lambda>(cm, host).
             let p = p\<lparr>tp_cm := cm\<rparr> in
             case host of
               None \<Rightarrow> fail NoHealthyUpstream p
             | Some h \<Rightarrow>
                 (let p = p\<lparr>upstreamHost_cb := Some (h, clusterName),
                        tp_connections := (tp_connections p)(clusterName := Increase (tp_connections p clusterName))\<rparr>;
                      (cnt, c) = NewClientConnection (tp_counter p);
                      c = AddConnectionEventListener UpstreamCb (SetBufferLimit (tp_limits p clusterName) c);
                      (u, err) = Connect dial tls True \<lparr>cc_connection = c, connectOnce = False\<rparr>
                  in rbind (upstreamCallbacks_OnEvent wr again (connect_event err) (p\<lparr>tp_counter := cnt, tp_up := Some u\<rparr>)) (\<lambda>p.
                       Some (Inr (p\<lparr>tp_info := (tp_info p)\<lparr>upstreamHost := Some h\<rparr>\<rparr>, Continue))))))"

text \<open>The calls of \<open>initializeUpstreamConnection\<close> inside one another, one per dial.\<close>

fun initializeUpstreamConnection ::
  "'s socket_write \<Rightarrow> ('s \<times> io_err option) list \<Rightarrow> ('s \<Rightarrow> 's) option \<Rightarrow> nat \<times> nat \<Rightarrow> 's tcp_proxy \<Rightarrow> ('s tcp_proxy \<times> FilterStatus) run" where
  "initializeUpstreamConnection wr [] tls draws p = None"
| "initializeUpstreamConnection wr (dial # dials) tls draws p =
     try_upstream wr dial tls draws (\<lambda>p. rbind (initializeUpstreamConnection wr dials tls draws p) (\<lambda>(p, _). Some (Inr p))) p"

section \<open>Injecting faults\<close>

record faultInjector =
  delayPercent :: "32 word"
  delayDuration :: "64 word"
  delaying :: "32 word"

definition NewFaultInjector :: "32 word \<Rightarrow> 64 word \<Rightarrow> faultInjector" where
  "NewFaultInjector percent duration = \<lparr>delayPercent = percent, delayDuration = duration, delaying = 0\<rparr>"

text \<open>\<open>draw\<close> is a number below 100; the timer that is started, if one is, in milliseconds.\<close>

definition getDelayDuration :: "nat \<Rightarrow> faultInjector \<Rightarrow> 64 word" where
  "getDelayDuration draw fi =
     (if delayPercent fi = 0 then 0 else if word_of_nat draw + 1 > delayPercent fi then 0 else delayDuration fi)"

definition tryInjectDelay :: "nat \<Rightarrow> faultInjector \<Rightarrow> faultInjector \<times> 64 word option" where
  "tryInjectDelay draw fi =
     (if delaying fi > 0 then (fi, None)
      else (let duration = getDelayDuration draw fi in
            if duration > 0 then (fi\<lparr>delaying := 1\<rparr>, Some duration) else (fi, None)))"

definition fi_OnData :: "nat \<Rightarrow> faultInjector \<Rightarrow> faultInjector \<times> 64 word option \<times> FilterStatus" where
  "fi_OnData draw fi = (case tryInjectDelay draw fi of (fi, t) \<Rightarrow> (fi, t, if delaying fi > 0 then StopIteration else Continue))"

text \<open>The timer goes off, and the filters after this one are run.\<close>

definition fi_expire :: "faultInjector \<Rightarrow> faultInjector" where
  "fi_expire fi = fi\<lparr>delaying := 0\<rparr>"

section \<open>Relaying\<close>

lemma WriteTo_drains:
  assumes "iob_wf b" and "iob_wf w"
  shows "\<exists>b' w' n. WriteTo buffer_writer b (Inr w) 0 = Inr (b', Inr w', n, None) \<and> iob_wf w' \<and> contents w' = contents w @ contents b \<and> contents b' = []"
proof (cases "contents b = []")
  case True
  with assms(1) have "boff b = int (blen b)" by (simp add: contents_Nil_iff)
  with True assms show ?thesis by (simp add: WriteTo.simps [of buffer_writer b])
next
  case False
  from Write_wf [OF assms(2), of "contents b"] obtain w' where
    w: "Write w (contents b) = Inr (w', length (contents b))" "iob_wf w'" "contents w' = contents w @ contents b" by blast
  have "boff b < int (blen b)" using False assms(1) by (auto simp: contents_Nil_iff iob_wf_def)
  moreover have "contents (b\<lparr>boff := boff b + int (length (contents b))\<rparr>) = []"
    using assms(1) length_contents [OF assms(1)] by (auto simp: iob_wf_def contents_def Len_def)
  ultimately show ?thesis using w assms(1) length_contents [OF assms(1)]
    by (simp add: WriteTo.simps [of buffer_writer b] buffer_writer_def Let_def)
qed

text \<open>What a connection has to write, and what has left it, together.\<close>

abbreviation outgoing :: "('s \<Rightarrow> byte list) \<Rightarrow> ('s, 'l) connection \<Rightarrow> byte list" where
  "outgoing out c \<equiv> out_bytes out c @ unsent c"

lemma write_buffer_appends:
  assumes "iob_wf b" and "conn_wf c" and "Net_Connection.pool_ok pooled"
  shows "\<exists>c' b'. write_buffer pooled b c = Inr (c', b') \<and> contents b' = [] \<and> conn_wf c' \<and> writeBufferChan c' \<and> outgoing out c' = outgoing out c @ contents b"
proof -
  let ?w = "case writeBuffer c of Some w \<Rightarrow> w | None \<Rightarrow> Take pooled"
  have w: "iob_wf ?w" "contents ?w = unsent c"
    using assms(2) Take_wf [OF assms(3)] by (auto simp: conn_wf_def unsent_def split: option.splits)
  from WriteTo_drains [OF assms(1) w(1)] obtain b' w' n where
    "WriteTo buffer_writer b (Inr ?w) 0 = Inr (b', Inr w', n, None)" "iob_wf w'" "contents w' = unsent c @ contents b" "contents b' = []"
    by (auto simp: w(2))
  with assms(2) show ?thesis by (simp add: write_buffer_def conn_wf_def unsent_def out_bytes_def)
qed

text \<open>It is what \<open>Write\<close> of the connection does when there are no write filters.\<close>

lemma write_buffer_Write:
  assumes "downstreamFilters fm = []"
  shows "conn_Write W fm pooled [b] c = obind (write_buffer pooled b c) (\<lambda>(c, _). Inr c)"
proof -
  have "obind m (\<lambda>(b, q, n). obind q (\<lambda>w. Inr (f w))) = obind (obind m (\<lambda>(b, q, n). obind q Inr)) (\<lambda>w. Inr (f w))"
    for m :: "(iobuffer \<times> iobuffer outcome \<times> 'z) outcome" and f :: "iobuffer \<Rightarrow> ('a, 'b) connection"
    by (cases m) (auto simp: obind_assoc split: prod.splits)
  then show ?thesis using assms
    by (simp add: conn_Write_def fm_OnWrite_def write_buffer_def obind_assoc split_def)
qed

text \<open>Data from either side, and the passes of the write loops of the two connections.\<close>

datatype relay_event = DownData iobuffer | UpData iobuffer | DownSends | UpSends

definition send_some :: "'s socket_write \<Rightarrow> ('s, 'l) connection \<Rightarrow> ('s, 'l) connection outcome" where
  "send_some wr c = (if writeBufLen c > 0 then obind (write_some wr c) (\<lambda>(c, _). Inr c) else Inr c)"

fun relay :: "'s socket_write \<Rightarrow> iobuffer option \<Rightarrow> relay_event list \<Rightarrow> 's tcp_proxy \<Rightarrow> 's tcp_proxy outcome" where
  "relay wr pooled [] p = Inr p"
| "relay wr pooled (DownData b # es) p = obind (tp_OnData pooled b p) (\<lambda>(p, _). relay wr pooled es p)"
| "relay wr pooled (UpData b # es) p = obind (onUpstreamData pooled b p) (\<lambda>(p, _). relay wr pooled es p)"
| "relay wr pooled (DownSends # es) p = obind (send_some wr (tp_down p)) (\<lambda>c. relay wr pooled es (p\<lparr>tp_down := c\<rparr>))"
| "relay wr pooled (UpSends # es) p =
     (case tp_up p of
        None \<Rightarrow> relay wr pooled es p
      | Some u \<Rightarrow> obind (send_some wr (cc_connection u)) (\<lambda>c. relay wr pooled es (p\<lparr>tp_up := Some (u\<lparr>cc_connection := c\<rparr>)\<rparr>)))"

fun from_down :: "relay_event list \<Rightarrow> byte list" where
  "from_down [] = []"
| "from_down (DownData b # es) = contents b @ from_down es"
| "from_down (_ # es) = from_down es"

fun from_up :: "relay_event list \<Rightarrow> byte list" where
  "from_up [] = []"
| "from_up (UpData b # es) = contents b @ from_up es"
| "from_up (_ # es) = from_up es"

fun event_wf :: "relay_event \<Rightarrow> bool" where
  "event_wf (DownData b) \<longleftrightarrow> iob_wf b"
| "event_wf (UpData b) \<longleftrightarrow> iob_wf b"
| "event_wf _ \<longleftrightarrow> True"

lemma send_some_keeps:
  assumes "conn_wf c" and "socket_contract wr out"
  shows "\<exists>c'. send_some wr c = Inr c' \<and> conn_wf c' \<and> outgoing out c' = outgoing out c"
proof (cases "writeBufLen c > 0")
  case True
  from write_some_total [OF assms True] obtain c' m e where w: "write_some wr c = Inr (c', m, e)" by blast
  with write_some_keeps(1,2) [OF assms w] True show ?thesis by (simp add: send_some_def)
qed (use assms in \<open>simp add: send_some_def\<close>)

text \<open>The two sides of a proxy, after something that was relayed.\<close>

definition relayed :: "('s \<Rightarrow> byte list) \<Rightarrow> byte list \<Rightarrow> byte list \<Rightarrow> 's tcp_proxy \<Rightarrow> 's tcp_proxy \<Rightarrow> bool" where
  "relayed out ds us p p' \<longleftrightarrow>
     (\<exists>u u'. tp_up p = Some u \<and> tp_up p' = Some u' \<and> conn_wf (cc_connection u') \<and> conn_wf (tp_down p') \<and>
       outgoing out (cc_connection u') = outgoing out (cc_connection u) @ ds \<and>
       outgoing out (tp_down p') = outgoing out (tp_down p) @ us \<and>
       bytesReceived (tp_info p') = bytesReceived (tp_info p) + word_of_nat (length ds) \<and>
       bytesSent (tp_info p') = bytesSent (tp_info p) + word_of_nat (length us))"

lemma relayed_trans: "relayed out ds us p p1 \<Longrightarrow> relayed out ds' us' p1 p2 \<Longrightarrow> relayed out (ds @ ds') (us @ us') p p2"
  by (auto simp: relayed_def)

lemma Len_word: "iob_wf b \<Longrightarrow> (word_of_int (Len b) :: 64 word) = word_of_nat (length (contents b))"
  by (simp flip: length_contents)

lemma relayed_OnData:
  assumes "iob_wf b" and "tp_up p = Some u" and "conn_wf (cc_connection u)" and "conn_wf (tp_down p)" and "Net_Connection.pool_ok pooled"
  shows "\<exists>p' b'. tp_OnData pooled b p = Inr (p', b', StopIteration) \<and> contents b' = [] \<and> relayed out (contents b) [] p p'"
  using write_buffer_appends [OF assms(1,3,5), of out] assms(1,2,4)
  by (auto simp: tp_OnData_def relayed_def Len_word Let_def)

lemma relayed_onUpstreamData:
  assumes "iob_wf b" and "tp_up p = Some u" and "conn_wf (cc_connection u)" and "conn_wf (tp_down p)" and "Net_Connection.pool_ok pooled"
  shows "\<exists>p' b'. onUpstreamData pooled b p = Inr (p', b', StopIteration) \<and> contents b' = [] \<and> relayed out [] (contents b) p p'"
  using write_buffer_appends [OF assms(1,4,5), of out] assms(1-3)
  by (auto simp: onUpstreamData_def relayed_def Len_word Let_def)

text \<open>
  C17 (functional). The TCP proxy relays what it reads: whatever data comes from the two sides, in whatever
  order, and whenever the write loops of the two connections run, what has been sent or is to
  be sent to one side is what it was before followed by exactly the data from the other side in
  its order, and the two counters have grown by the lengths of the data modulo 2 to the 64.
\<close>

theorem tcp_bytes_relayed:
  assumes "tp_up p = Some u" and "conn_wf (cc_connection u)" and "conn_wf (tp_down p)" and "Net_Connection.pool_ok pooled"
    and "socket_contract wr out" and "list_all event_wf es"
  shows "\<exists>p' u'. relay wr pooled es p = Inr p' \<and> tp_up p' = Some u' \<and>
    out_bytes out (cc_connection u') @ unsent (cc_connection u') = out_bytes out (cc_connection u) @ unsent (cc_connection u) @ from_down es \<and>
    out_bytes out (tp_down p') @ unsent (tp_down p') = out_bytes out (tp_down p) @ unsent (tp_down p) @ from_up es \<and>
    bytesReceived (tp_info p') = bytesReceived (tp_info p) + word_of_nat (length (from_down es)) \<and>
    bytesSent (tp_info p') = bytesSent (tp_info p) + word_of_nat (length (from_up es))"
proof -
  have "\<exists>p'. relay wr pooled es p = Inr p' \<and> relayed out (from_down es) (from_up es) p p'"
    using assms(1-3,6)
  proof (induction es arbitrary: p u)
    case Nil
    then show ?case by (simp add: relayed_def)
  next
    case (Cons e es)
    have step: "\<exists>p'. relay wr pooled es p1 = Inr p' \<and> relayed out (ds @ from_down es) (us @ from_up es) p p'"
      if r: "relayed out ds us p p1" for ds us p1
    proof -
      from r obtain u1 where "tp_up p1 = Some u1" "conn_wf (cc_connection u1)" "conn_wf (tp_down p1)" by (auto simp: relayed_def)
      from Cons.IH [OF this] Cons.prems(4) relayed_trans [OF r] show ?thesis by auto
    qed
    show ?case
    proof (cases e)
      case (DownData b)
      with relayed_OnData [OF _ Cons.prems(1-3) assms(4), of b out] Cons.prems(4) show ?thesis by (auto dest: step)
    next
      case (UpData b)
      with relayed_onUpstreamData [OF _ Cons.prems(1-3) assms(4), of b out] Cons.prems(4) show ?thesis by (auto dest: step)
    next
      case DownSends
      from send_some_keeps [OF Cons.prems(3) assms(5)] obtain c where c: "send_some wr (tp_down p) = Inr c" "conn_wf c" "outgoing out c = outgoing out (tp_down p)" by blast
      with Cons.prems have "relayed out [] [] p (p\<lparr>tp_down := c\<rparr>)" by (simp add: relayed_def)
      with c DownSends step show ?thesis by fastforce
    next
      case UpSends
      from send_some_keeps [OF Cons.prems(2) assms(5)] obtain c where
        c: "send_some wr (cc_connection u) = Inr c" "conn_wf c" "outgoing out c = outgoing out (cc_connection u)" by blast
      with Cons.prems have "relayed out [] [] p (p\<lparr>tp_up := Some (u\<lparr>cc_connection := c\<rparr>)\<rparr>)" by (simp add: relayed_def)
      with c UpSends step Cons.prems(1) show ?thesis by fastforce
    qed
  qed
  with assms(1) show ?thesis by (auto simp: relayed_def)
qed

section \<open>Closing reaches the other side\<close>

definition live :: "('s, 'l) connection \<Rightarrow> bool" where
  "live c \<longleftrightarrow> conn_wf c \<and> \<not> conn_closed c \<and> \<not> rawNil c \<and> conn_stats c \<noteq> None"

definition up_open :: "('s, tcp_cb) clientConnection \<Rightarrow> hid \<Rightarrow> string \<Rightarrow> 's tcp_proxy \<Rightarrow> bool" where
  "up_open u h cl p \<longleftrightarrow> tp_up p = Some u \<and> upstreamHost_cb p = Some (h, cl) \<and> live (cc_connection u) \<and> connCallbacks (cc_connection u) = [UpstreamCb]"

definition tcp_open :: "('s, tcp_cb) clientConnection \<Rightarrow> hid \<Rightarrow> string \<Rightarrow> 's tcp_proxy \<Rightarrow> bool" where
  "tcp_open u h cl p \<longleftrightarrow> up_open u h cl p \<and> live (tp_down p) \<and> filter (\<lambda>l. l = DownstreamCb) (connCallbacks (tp_down p)) = [DownstreamCb]"

lemma stats_updates [simp]:
  "conn_stats (updateWriteBuffStats n m c) = None \<longleftrightarrow> conn_stats c = None" "conn_stats (updateReadBufStats n m c) = None \<longleftrightarrow> conn_stats c = None"
  by (auto simp: updateWriteBuffStats_def updateReadBufStats_def Let_def split: option.splits)

lemma stats_calls [simp]: "conn_stats (fold (\<lambda>cb. log_conn (f cb)) ls c) = conn_stats c"
  by (induction ls arbitrary: c) (simp_all add: log_conn_def)

lemma stats_after_write [simp]: "conn_stats (after_write n c) = None \<longleftrightarrow> conn_stats c = None"
  by (simp add: after_write_def Let_def)

lemma doWrite_all:
  assumes "conn_wf c" and "takes_all wr" and "socket_contract wr out"
  shows "\<exists>c' n. doWrite wr c = Some (Inr (c', n, None)) \<and> (writeBufLen c = 0 \<longrightarrow> n = 0) \<and> writeBufLen c' = 0 \<and> conn_wf c' \<and> (conn_stats c' = None \<longleftrightarrow> conn_stats c = None)"
proof (cases "writeBufLen c > 0")
  case True
  from takes_all_some [OF assms True] obtain c1 m where
    w: "write_some wr c = Inr (c1, m, None)" "unsent c1 = []" "conn_wf c1" by blast
  have "writeBufLen c1 = 0" using w by (simp add: writeBufLen_unsent)
  then have "doWriteIo wr 0 None c = Some (Inr (c1, m, None))"
    using True w by (simp add: doWriteIo.simps [of wr 0] doWriteIo.simps [of wr m] fatal_def)
  moreover have "conn_stats c1 = conn_stats c" using w(1) by (auto simp: write_some_def go_outcome split: option.splits)
  moreover have "writeBufLen (after_write m c1) = 0" "conn_wf (after_write m c1)"
    using \<open>writeBufLen c1 = 0\<close> w(3) by (simp_all add: writeBufLen_def conn_wf_def)
  ultimately show ?thesis using True by (simp add: doWrite_def)
next
  case False
  then have "writeBufLen c = 0" using writeBufLen_unsent [OF assms(1)] by simp
  then show ?thesis using assms(1) by (simp add: doWrite_def doWriteIo.simps [of wr 0] conn_wf_def writeBufLen_def)
qed

lemma flush_write_returns:
  assumes "conn_wf c" and "takes_all wr" and "socket_contract wr out"
  shows "\<exists>c'. flush_write wr c = Some (Inr c') \<and> (conn_stats c' = None \<longleftrightarrow> conn_stats c = None)"
proof -
  from doWrite_all [OF assms] obtain c1 n where 1: "doWrite wr c = Some (Inr (c1, n, None))" "writeBufLen c1 = 0" "conn_wf c1"
    "conn_stats c1 = None \<longleftrightarrow> conn_stats c = None" by auto
  from doWrite_all [OF 1(3) assms(2,3)] 1(2) obtain c2 where 2: "doWrite wr c1 = Some (Inr (c2, 0, None))"
    "conn_stats c2 = None \<longleftrightarrow> conn_stats c1 = None" by auto
  show ?thesis
  proof (cases "n = 0")
    case True
    with 1 show ?thesis by (simp add: flush_write.simps [of wr c])
  next
    case False
    with 1 2 show ?thesis by (simp add: flush_write.simps [of wr c] flush_write.simps [of wr c1] fatal_def)
  qed
qed

lemma conn_Close_returns:
  assumes "live c" and "takes_all wr" and "socket_contract wr out"
  shows "\<exists>c'. conn_Close wr t ev c = Some (Inr c')"
proof -
  let ?c = "close_read (c\<lparr>conn_closed := True\<rparr>)"
  have c: "rawConnection c \<noteq> None" "\<not> conn_closed c" "\<not> rawNil c" "conn_stats ?c \<noteq> None" "conn_wf (?c\<lparr>closeWithFlush := True\<rparr>)"
    using assms(1) by (auto simp: live_def conn_wf_def close_read_def log_conn_def)
  have "\<exists>c1. flush_first wr t ?c = Some (Inr c1) \<and> conn_stats c1 \<noteq> None"
    using flush_write_returns [OF c(5) assms(2,3)] c(4) by (auto simp: flush_first_def)
  with c(1-3) show ?thesis by (auto simp: conn_Close_def close_raw_def log_conn_def Let_def)
qed

lemma sent_events_Close:
  assumes "conn_Close wr t ev c = Some (Inr c')" and "\<not> conn_closed c" and "rawConnection c \<noteq> None"
  shows "sent_events cb c c' = map (\<lambda>_. ev) (filter (\<lambda>l. l = cb) (connCallbacks c))"
proof -
  have "List.map_filter (\<lambda>a. case a of CallEvent l e \<Rightarrow> if l = cb then Some e else None | _ \<Rightarrow> None) (map (\<lambda>l. CallEvent l ev) ls) =
      map (\<lambda>_. ev) (filter (\<lambda>l. l = cb) ls)" for ls
    by (induction ls) (simp_all add: map_filter_simps)
  then show ?thesis using conn_Close_calls(1) [OF assms] by (simp add: sent_events_def map_filter_simps)
qed

lemma run_events_done [simp]: "rbind m (run_events f []) = m"
  by (auto simp: rbind_def split: option.splits sum.splits)

lemma sent_events_same [simp]: "sent_events cb c c = []"
  by (simp add: sent_events_def map_filter_simps)

lemma live_raw: "live c \<Longrightarrow> \<not> conn_closed c \<and> rawConnection c \<noteq> None"
  by (simp add: live_def conn_wf_def)

lemma close_upstream_open:
  assumes "up_open u h cl p" and "takes_all wr" and "socket_contract wr out"
  shows "\<exists>u'. close_upstream wr t p = Some (Inr (p\<lparr>tp_up := Some u', tp_connections := (tp_connections p)(cl := Decrease (tp_connections p cl))\<rparr>)) \<and>
    conn_closed (cc_connection u')"
proof -
  have u: "live (cc_connection u)" "tp_up p = Some u" "connCallbacks (cc_connection u) = [UpstreamCb]" "upstreamHost_cb p = Some (h, cl)"
    using assms(1) by (simp_all add: up_open_def)
  from conn_Close_returns [OF u(1) assms(2,3)] obtain c' where c': "conn_Close wr t LocalClose (cc_connection u) = Some (Inr c')" by blast
  have "sent_events UpstreamCb (cc_connection u) c' = [LocalClose]" "conn_closed c'"
    using sent_events_Close [OF c'] conn_Close_calls(3) [OF c'] live_raw [OF u(1)] u(3) by simp_all
  with c' u(2,4) show ?thesis
    by (intro exI [of _ "u\<lparr>cc_connection := c'\<rparr>"]) (simp add: close_upstream_def finalizeUpstreamConnectionStats_def)
qed

lemma close_upstream_closed:
  assumes "tp_up p = Some u" and "conn_closed (cc_connection u)"
  shows "close_upstream wr t p = Some (Inr p)"
  using assms by (simp add: close_upstream_def conn_Close_closed)

text \<open>The upstream connection is closed by its own loops or by its peer, with some event.\<close>

definition upstream_closes :: "'s socket_write \<Rightarrow> ('s tcp_proxy \<Rightarrow> 's tcp_proxy run) \<Rightarrow> ConnectionCloseType \<Rightarrow> ConnectionEvent \<Rightarrow> 's tcp_proxy \<Rightarrow> 's tcp_proxy run" where
  "upstream_closes wr again t event p =
     (case tp_up p of
        None \<Rightarrow> Some (Inr p)
      | Some u \<Rightarrow>
          rbind (conn_Close wr t event (cc_connection u)) (\<lambda>c.
            run_events (upstreamCallbacks_OnEvent wr again) (sent_events UpstreamCb (cc_connection u) c)
              (p\<lparr>tp_up := Some (u\<lparr>cc_connection := c\<rparr>)\<rparr>)))"

lemma close_downstream_open:
  assumes "live (tp_down p)" and "filter (\<lambda>l. l = DownstreamCb) (connCallbacks (tp_down p)) = [DownstreamCb]"
    and "takes_all wr" and "socket_contract wr out"
  shows "\<exists>c. close_downstream wr t ev p = onDownstreamEvent wr ev (p\<lparr>tp_down := c\<rparr>) \<and> conn_closed c"
proof -
  from conn_Close_returns [OF assms(1,3,4)] obtain c where c: "conn_Close wr t ev (tp_down p) = Some (Inr c)" by blast
  have "sent_events DownstreamCb (tp_down p) c = [ev]" "conn_closed c"
    using sent_events_Close [OF c] conn_Close_calls(3) [OF c] live_raw [OF assms(1)] assms(2) by simp_all
  then show ?thesis using c by (auto simp: close_downstream_def)
qed

definition write_log :: "'s tcp_proxy \<Rightarrow> requestInfo list" where
  "write_log p = tp_logged p @ replicate (tp_accessLogs p) (tp_info p)"

text \<open>Both sides are closed, with the resource given back and the logs written.\<close>

definition torn_down :: "string \<Rightarrow> 's tcp_proxy \<Rightarrow> 's tcp_proxy \<Rightarrow> bool" where
  "torn_down cl p p' \<longleftrightarrow> conn_closed (tp_down p') \<and> (\<exists>u'. tp_up p' = Some u' \<and> conn_closed (cc_connection u')) \<and>
     tp_connections p' = (tp_connections p)(cl := Decrease (tp_connections p cl)) \<and> tp_logged p' = write_log p"

lemma tcp_openD:
  assumes "tcp_open u h cl p"
  shows "live (tp_down p)" and "filter (\<lambda>l. l = DownstreamCb) (connCallbacks (tp_down p)) = [DownstreamCb]" and "live (cc_connection u)" and "tp_up p = Some u"
    and "upstreamHost_cb p = Some (h, cl)" and "connCallbacks (cc_connection u) = [UpstreamCb]"
  using assms by (simp_all add: tcp_open_def up_open_def)

lemma close_downstream_tears_down:
  assumes "tcp_open u h cl p" and "takes_all wr" and "socket_contract wr out" and ev: "ev = RemoteClose \<or> ev = LocalClose"
  shows "\<exists>p'. close_downstream wr t ev p = Some (Inr p') \<and> torn_down cl p p'"
proof -
  note p = tcp_openD [OF assms(1)]
  obtain c where c: "close_downstream wr t ev p = onDownstreamEvent wr ev (p\<lparr>tp_down := c\<rparr>)" "conn_closed c"
    using close_downstream_open [OF p(1,2) assms(2,3)] by blast
  have "up_open u h cl (p\<lparr>tp_down := c\<rparr>)" using p(3-6) by (simp add: up_open_def)
  from close_upstream_open [OF this assms(2,3), of "if ev = RemoteClose then FlushWrite else NoFlush"] c ev p(4) show ?thesis
    by (auto simp: onDownstreamEvent_def IsClose_def write_log_def torn_down_def)
qed

lemma upstream_closes_open:
  assumes "tcp_open u h cl p" and "takes_all wr" and "socket_contract wr out"
  shows "\<exists>c. upstream_closes wr again t ev p = upstreamCallbacks_OnEvent wr again ev (p\<lparr>tp_up := Some (u\<lparr>cc_connection := c\<rparr>)\<rparr>) \<and> conn_closed c"
proof -
  note p = tcp_openD [OF assms(1)]
  from conn_Close_returns [OF p(3) assms(2,3)] obtain c where c: "conn_Close wr t ev (cc_connection u) = Some (Inr c)" by blast
  have "sent_events UpstreamCb (cc_connection u) c = [ev]" "conn_closed c"
    using sent_events_Close [OF c] conn_Close_calls(3) [OF c] live_raw [OF p(3)] p(6) by simp_all
  then show ?thesis using c p(4) by (auto simp: upstream_closes_def)
qed

lemma upstream_closes_tears_down:
  assumes "tcp_open u h cl p" and "takes_all wr" and "socket_contract wr out"
  shows "\<exists>p'. upstream_closes wr again t RemoteClose p = Some (Inr p') \<and> torn_down cl p p'"
proof -
  note p = tcp_openD [OF assms(1)]
  obtain c where c: "upstream_closes wr again t RemoteClose p = upstreamCallbacks_OnEvent wr again RemoteClose (p\<lparr>tp_up := Some (u\<lparr>cc_connection := c\<rparr>)\<rparr>)"
    "conn_closed c" using upstream_closes_open [OF assms] by blast
  let ?p = "p\<lparr>tp_up := Some (u\<lparr>cc_connection := c\<rparr>), tp_connections := (tp_connections p)(cl := Decrease (tp_connections p cl))\<rparr>"
  obtain d where d: "close_downstream wr FlushWrite LocalClose ?p = onDownstreamEvent wr LocalClose (?p\<lparr>tp_down := d\<rparr>)" "conn_closed d"
    using close_downstream_open [of ?p, OF _ _ assms(2,3)] p(1,2) by auto
  have "close_upstream wr NoFlush (?p\<lparr>tp_down := d\<rparr>) = Some (Inr (?p\<lparr>tp_down := d\<rparr>))"
    by (rule close_upstream_closed [of _ "u\<lparr>cc_connection := c\<rparr>"]) (simp_all add: c(2))
  with c d p(5) show ?thesis
    by (simp add: upstreamCallbacks_OnEvent_def onUpstreamEvent_def finalizeUpstreamConnectionStats_def onDownstreamEvent_def IsClose_def
        write_log_def torn_down_def)
qed

text \<open>
  C22 (safety). When one side of an open TCP proxy closes, or is closed by the proxy, the other side is closed
  too, the resource of the cluster is given back once, and the access logs are written once; a
  side that is closed because reading or writing failed leaves the other side as it is, and the
  resource taken.
\<close>

theorem tcp_close_propagates:
  assumes "tcp_open u h cl p" and "takes_all wr" and "socket_contract wr out"
  shows "(\<forall>ev \<in> {RemoteClose, LocalClose}. \<exists>p'. close_downstream wr t ev p = Some (Inr p') \<and> torn_down cl p p') \<and>
    (\<exists>p'. upstream_closes wr again t RemoteClose p = Some (Inr p') \<and> torn_down cl p p') \<and>
    (\<forall>ev \<in> {OnReadErrClose, OnWriteErrClose}.
      (\<exists>p'. close_downstream wr t ev p = Some (Inr p') \<and> conn_closed (tp_down p') \<and> tp_up p' = Some u \<and> tp_connections p' = tp_connections p) \<and>
      (\<exists>p' u'. upstream_closes wr again t ev p = Some (Inr p') \<and> tp_up p' = Some u' \<and> conn_closed (cc_connection u') \<and>
        tp_down p' = tp_down p \<and> tp_connections p' = tp_connections p))"
proof -
  note p = tcp_openD [OF assms(1)]
  have 3: "\<exists>p'. close_downstream wr t ev p = Some (Inr p') \<and> conn_closed (tp_down p') \<and> tp_up p' = Some u \<and> tp_connections p' = tp_connections p"
    "\<exists>p' u'. upstream_closes wr again t ev p = Some (Inr p') \<and> tp_up p' = Some u' \<and> conn_closed (cc_connection u') \<and>
        tp_down p' = tp_down p \<and> tp_connections p' = tp_connections p" if ev: "ev = OnReadErrClose \<or> ev = OnWriteErrClose" for ev
    using close_downstream_open [OF p(1,2) assms(2,3), of t ev] upstream_closes_open [OF assms, of again t ev] ev p(4)
    by (auto simp: onDownstreamEvent_def IsClose_def upstreamCallbacks_OnEvent_def onUpstreamEvent_def)
  then show ?thesis using close_downstream_tears_down [OF assms] upstream_closes_tears_down [OF assms] by blast
qed

section \<open>Connecting\<close>

text \<open>What the proxy can connect to: the cluster of its route, with a host and a free connection.\<close>

definition reachable_upstream :: "nat \<times> nat \<Rightarrow> string \<Rightarrow> hid \<Rightarrow> 's tcp_proxy \<Rightarrow> bool" where
  "reachable_upstream draws cl h p \<longleftrightarrow>
     GetRouteFromEntries (tp_routes p) (downstreamRemoteAddress (tp_info p)) (downstreamLocalAddress (tp_info p)) = cl \<and>
     CanCreate (tp_connections p cl) \<and> (\<exists>cm. TCPConnForCluster draws cl (tp_cm p) = Inr (cm, Some h))"

definition waiting_downstream :: "'s tcp_proxy \<Rightarrow> bool" where
  "waiting_downstream p \<longleftrightarrow> live (tp_down p) \<and> filter (\<lambda>l. l = DownstreamCb) (connCallbacks (tp_down p)) = [DownstreamCb] \<and>
     \<not> readEnabled (tp_down p) \<and> readDisableCount (tp_down p) = 0 \<and> \<not> readEnabledChan (tp_down p)"

lemma initialized_waits:
  assumes "live c" and "readEnabled c" and "readDisableCount c = 0" and "\<not> readEnabledChan c" and "DownstreamCb \<notin> set (connCallbacks c)"
  shows "\<exists>p. tp_InitializeReadFilterCallbacks remote lcl (NewProxy routes cm conns limits logs counter c) = Some (Inr p) \<and> waiting_downstream p \<and> tp_up p = None"
proof -
  have "filter (\<lambda>l. l = DownstreamCb) (connCallbacks c) = []" using assms(5) by (auto simp: filter_empty_conv)
  then show ?thesis using assms(1-4)
    by (simp add: tp_InitializeReadFilterCallbacks_def NewProxy_def AddConnectionEventListener_def SetReadDisable_def waiting_downstream_def live_def
        conn_wf_def Let_def)
qed

abbreviation new_upstream :: "string \<Rightarrow> 's tcp_proxy \<Rightarrow> ('s, tcp_cb) connection" where
  "new_upstream cl p \<equiv> AddConnectionEventListener UpstreamCb (SetBufferLimit (tp_limits p cl) (new_connection (tp_counter p + 1) None True))"

lemma new_upstream_simps:
  "connCallbacks (new_upstream cl p) = [UpstreamCb]" "isTCPConn (new_upstream cl p)" "readEnabled (new_upstream cl p)" "readDisableCount (new_upstream cl p) = 0"
  "\<not> readEnabledChan (new_upstream cl p)" "\<not> conn_closed (new_upstream cl p)" "conn_stats (new_upstream cl p) \<noteq> None" "writeBuffer (new_upstream cl p) = None"
  by (simp_all add: new_connection_def AddConnectionEventListener_def SetBufferLimit_def)

definition taken_upstream :: "clusterManager \<Rightarrow> string \<Rightarrow> hid \<Rightarrow> ('s, tcp_cb) clientConnection \<Rightarrow> 's tcp_proxy \<Rightarrow> 's tcp_proxy" where
  "taken_upstream cm cl h u p = p\<lparr>tp_cm := cm, upstreamHost_cb := Some (h, cl), tp_connections := (tp_connections p)(cl := Increase (tp_connections p cl)),
     tp_counter := tp_counter p + 1, tp_up := Some u\<rparr>"

lemma try_upstream_reachable:
  assumes "reachable_upstream draws cl h p"
  shows "\<exists>cm. try_upstream wr dial tls draws again p =
    (case Connect dial tls True \<lparr>cc_connection = new_upstream cl p, connectOnce = False\<rparr> of (u, err) \<Rightarrow>
      rbind (upstreamCallbacks_OnEvent wr again (connect_event err) (taken_upstream cm cl h u p)) (\<lambda>p.
        Some (Inr (p\<lparr>tp_info := (tp_info p)\<lparr>upstreamHost := Some h\<rparr>\<rparr>, Continue))))"
proof -
  from assms obtain cm where cm: "TCPConnForCluster draws cl (tp_cm p) = Inr (cm, Some h)" by (auto simp: reachable_upstream_def)
  then have "getOrCreateClusterSnapshot cl (tp_cm p) \<noteq> None"
    by (auto simp: TCPConnForCluster_def choose_for_cluster_def split: option.splits)
  with cm assms have "try_upstream wr dial tls draws again p =
    (case Connect dial tls True \<lparr>cc_connection = new_upstream cl p, connectOnce = False\<rparr> of (u, err) \<Rightarrow>
      rbind (upstreamCallbacks_OnEvent wr again (connect_event err) (taken_upstream cm cl h u p)) (\<lambda>p.
        Some (Inr (p\<lparr>tp_info := (tp_info p)\<lparr>upstreamHost := Some h\<rparr>\<rparr>, Continue))))"
    by (auto simp: try_upstream_def reachable_upstream_def NewClientConnection_def taken_upstream_def Let_def)
  then show ?thesis by blast
qed

text \<open>
  C27 (functional). A TCP proxy whose route leads to a cluster with a host and a free connection takes one
  connection of the cluster, and then: when the host answers, the proxy is open and reads from
  both sides; when it refuses, the proxy reports nothing, the connection stays taken and its
  downstream connection stays open without ever being read; when it does not answer in time,
  the proxy panics.
\<close>

theorem tcp_connect_outcomes:
  assumes "reachable_upstream draws cl h p" and "waiting_downstream p"
  shows "(\<exists>p' u. initializeUpstreamConnection wr ((s, None) # dials) tls draws p = Some (Inr (p', Continue)) \<and> tcp_open u h cl p' \<and>
      readEnabled (tp_down p') \<and> readEnabled (cc_connection u) \<and> tp_connections p' = (tp_connections p)(cl := Increase (tp_connections p cl))) \<and>
    (\<exists>p'. initializeUpstreamConnection wr ((s, Some (IOErr e)) # dials) tls draws p = Some (Inr (p', Continue)) \<and> tp_down p' = tp_down p \<and>
      tp_connections p' = (tp_connections p)(cl := Increase (tp_connections p cl)) \<and> GetResponseFlag UpstreamConnectionFailure (tp_info p')) \<and>
    initializeUpstreamConnection wr ((s, Some Timeout) # dials) tls draws p = Some (Inl NilDereference)"
proof -
  note w = assms(2) [unfolded waiting_downstream_def]
  let ?again = "\<lambda>p. rbind (initializeUpstreamConnection wr dials tls draws p) (\<lambda>(p, _). Some (Inr p))"
  have 1: "\<exists>p' u. initializeUpstreamConnection wr ((s, None) # dials) tls draws p = Some (Inr (p', Continue)) \<and> tcp_open u h cl p' \<and>
      readEnabled (tp_down p') \<and> readEnabled (cc_connection u) \<and> tp_connections p' = (tp_connections p)(cl := Increase (tp_connections p cl))"
    using try_upstream_reachable [OF assms(1), of wr "(s, None)" tls ?again] w new_upstream_simps [of p cl]
    by (auto simp: Connect_def connect_event_def upstreamCallbacks_OnEvent_def onUpstreamEvent_def read_disable_def SetReadDisable_def taken_upstream_def
        tcp_open_def up_open_def live_def conn_wf_def Start_def log_conn_def Let_def split: option.splits)
  have 2: "\<exists>p'. initializeUpstreamConnection wr ((s, Some (IOErr e)) # dials) tls draws p = Some (Inr (p', Continue)) \<and> tp_down p' = tp_down p \<and>
      tp_connections p' = (tp_connections p)(cl := Increase (tp_connections p cl)) \<and> GetResponseFlag UpstreamConnectionFailure (tp_info p')"
    using try_upstream_reachable [OF assms(1), of wr "(s, Some (IOErr e))" tls ?again]
    by (auto simp: Connect_def connect_event_def upstreamCallbacks_OnEvent_def onUpstreamEvent_def flag_info_def taken_upstream_def
        GetResponseFlag_def SetResponseFlag_def UpstreamConnectionFailure_def Let_def)
  have 3: "initializeUpstreamConnection wr ((s, Some Timeout) # dials) tls draws p = Some (Inl NilDereference)"
    using try_upstream_reachable [OF assms(1), of wr "(s, Some Timeout)" tls ?again] new_upstream_simps [of p cl]
    by (auto simp: Connect_def connect_event_def upstreamCallbacks_OnEvent_def onUpstreamEvent_def flag_info_def taken_upstream_def
        finalizeUpstreamConnectionStats_def close_upstream_def conn_Close_def log_conn_def Let_def)
  show ?thesis using 1 2 3 by blast
qed

section \<open>Delays\<close>

text \<open>One timer runs at a time: while it does, data is held back and no other timer is started.\<close>

lemma one_timer:
  assumes "fi_OnData draw fi = (fi', timer, st)"
  shows "delaying fi > 0 \<longrightarrow> fi' = fi \<and> timer = None \<and> st = StopIteration"
    and "timer = Some d \<longrightarrow> delaying fi = 0 \<and> delaying fi' = 1 \<and> d = delayDuration fi \<and> st = StopIteration"
    and "delaying fi = 0 \<and> timer = None \<longrightarrow> fi' = fi \<and> st = Continue"
  using assms by (auto simp: fi_OnData_def tryInjectDelay_def getDelayDuration_def word_greater_zero_iff Let_def split: if_splits)

text \<open>A route with destination addresses is taken by the connections to other addresses.\<close>

lemma destination_route_inverted:
  assumes "tr_SourceAddrs r = []" and "tr_DestinationAddrs r \<noteq> []"
  shows "GetRouteFromEntries [r] remote lcl = (if lcl \<in> set (tr_DestinationAddrs r) then '''' else tr_Cluster r)"
  using assms by simp

section \<open>Witnesses\<close>

definition sample_down :: "(byte list, tcp_cb) connection" where
  "sample_down = AddConnectionEventListener DownstreamCb (new_connection 2 (Some []) True)"

definition sample_up :: "(byte list, tcp_cb) clientConnection" where
  "sample_up = \<lparr>cc_connection = AddConnectionEventListener UpstreamCb (new_connection 3 (Some []) True), connectOnce = True\<rparr>"

definition sample_tcp :: "byte list tcp_proxy" where
  "sample_tcp = (NewProxy [\<lparr>tr_Cluster = ''c'', tr_SourceAddrs = [], tr_DestinationAddrs = []\<rparr>] sample_manager (\<lambda>_. \<lparr>res_current = 0, res_max = 5\<rparr>)
     (\<lambda>_. 0) 1 3 (sample_down\<lparr>readEnabled := False\<rparr>))"

lemma sample_live: "live sample_down" "live (cc_connection sample_up)" "conn_wf sample_down" "conn_wf (cc_connection sample_up)"
  "connCallbacks sample_down = [DownstreamCb]" "connCallbacks (cc_connection sample_up) = [UpstreamCb]" "unsent (cc_connection sample_up) = []"
  "out_bytes (\<lambda>s. s) (cc_connection sample_up) = []" "unsent sample_down = []" "out_bytes (\<lambda>s. s) sample_down = []"
  by (simp_all add: sample_down_def sample_up_def live_def conn_wf_def new_connection_def AddConnectionEventListener_def unsent_def out_bytes_def)

theorem tcp_bytes_relayed_witness:
  "\<exists>p' u'. relay log_socket None [DownData (NewIoBufferBytes [1, 2]), UpSends, UpData (NewIoBufferBytes [7]), DownData (NewIoBufferBytes [3])]
       (sample_tcp\<lparr>tp_up := Some sample_up, tp_down := sample_down\<rparr>) = Inr p' \<and> tp_up p' = Some u' \<and>
     out_bytes (\<lambda>s. s) (cc_connection u') @ unsent (cc_connection u') = [1, 2, 3]"
proof -
  let ?p = "sample_tcp\<lparr>tp_up := Some sample_up, tp_down := sample_down\<rparr>"
  have "tp_up ?p = Some sample_up" "conn_wf (tp_down ?p)" "Net_Connection.pool_ok None" by (simp_all add: sample_live Net_Connection.pool_ok_def)
  from tcp_bytes_relayed [OF this(1) sample_live(4) this(2,3) sample_socket(1),
      of "[DownData (NewIoBufferBytes [1, 2]), UpSends, UpData (NewIoBufferBytes [7]), DownData (NewIoBufferBytes [3])]"]
  show ?thesis by (auto simp: sample_live)
qed

theorem tcp_close_propagates_witness:
  "\<exists>p'. close_downstream log_socket FlushWrite RemoteClose (sample_tcp\<lparr>tp_up := Some sample_up, tp_down := sample_down, upstreamHost_cb := Some (1, ''c'')\<rparr>) =
     Some (Inr p') \<and> conn_closed (tp_down p')"
proof -
  have "tcp_open sample_up 1 ''c'' (sample_tcp\<lparr>tp_up := Some sample_up, tp_down := sample_down, upstreamHost_cb := Some (1, ''c'')\<rparr>)"
    by (simp add: tcp_open_def up_open_def sample_live)
  from tcp_close_propagates [OF this sample_socket(2,1), of FlushWrite "\<lambda>p. Some (Inr p)"] show ?thesis by (auto simp: torn_down_def)
qed

lemma sample_tcp_ready: "reachable_upstream (0, 1) ''c'' 2 sample_tcp" "waiting_downstream sample_tcp"
proof -
  have "\<exists>cm. TCPConnForCluster (0, 1) ''c'' sample_manager = Inr (cm, Some 2)"
    by (simp add: sample_manager_def TCPConnForCluster_def choose_for_cluster_def getOrCreateClusterSnapshot_def healthy_sets_def
        sample_cluster_def Cluster.sample_config_def newSimpleInMemCluster_def NewLoadBalancer_def cluster_lbType_def
        random_ChooseHost_def Intn_def put_cluster_def createHostSet_def)
  then show "reachable_upstream (0, 1) ''c'' 2 sample_tcp"
    by (simp add: reachable_upstream_def sample_tcp_def NewProxy_def CanCreate_def)
  show "waiting_downstream sample_tcp"
    by (simp add: waiting_downstream_def sample_tcp_def NewProxy_def sample_down_def live_def conn_wf_def new_connection_def AddConnectionEventListener_def)
qed

theorem tcp_connect_outcomes_witness:
  "\<exists>p' u. initializeUpstreamConnection log_socket [([], None)] None (0, 1) sample_tcp = Some (Inr (p', Continue)) \<and> tcp_open u 2 ''c'' p'"
  using tcp_connect_outcomes [OF sample_tcp_ready, of log_socket "[]" "[]" None] by blast

end
