(* ===== verification/Xprotocol_Stream.thy ===== *)
theory Xprotocol_Stream
  imports Strconv
begin

text \<open>
  Streams on an xprotocol connection: \<open>pkg/stream/xprotocol/stream.go\<close>. The bytes that arrive
  are not decoded: what one read gives is one message. The map of a connection holds copies of
  the stream values, the callers hold pointers: \<open>xstreams\<close> lists the objects by address. What a
  connection does to the outside is in \<open>xcalls\<close>, in its order.
\<close>

section \<open>Streams and connections\<close>

datatype xdirection = XClientStream | XServerStream

record 'd xstream =
  xs_streamID :: string
  xs_direction :: xdirection
  xs_decoder :: 'd
  xs_streamCbs :: "nat list"
  xs_encodedData :: "byte list option"

datatype 'd xcall =
    XNewStream string
  | XReceiveHeaders 'd "string \<rightharpoonup> string" bool
  | XReceiveData 'd "byte list" bool
  | XResetStream nat string
  | XWrite "byte list option"

record 'd xconnection =
  x_remote :: string
  x_activeStream :: "string \<rightharpoonup> 'd xstream"
  x_serverCallbacks :: "(string \<Rightarrow> 'd) option"
  xstreams :: "'d xstream list"
  xcalls :: "'d xcall list"

definition x_newStreamConnection :: "string \<Rightarrow> (string \<Rightarrow> 'd) option \<Rightarrow> 'd xconnection" where
  "x_newStreamConnection remote serverCallbacks =
     \<lparr>x_remote = remote, x_activeStream = Map.empty, x_serverCallbacks = serverCallbacks, xstreams = [], xcalls = []\<rparr>"

definition x_call :: "'d xcall \<Rightarrow> 'd xconnection \<Rightarrow> 'd xconnection" where
  "x_call a c = c\<lparr>xcalls := xcalls c @ [a]\<rparr>"

definition x_Set :: "string \<Rightarrow> 'd xstream \<Rightarrow> 'd xconnection \<Rightarrow> 'd xconnection" where
  "x_Set i s c = c\<lparr>x_activeStream := (x_activeStream c)(i \<mapsto> s)\<rparr>"

definition x_Remove :: "string \<Rightarrow> 'd xconnection \<Rightarrow> 'd xconnection" where
  "x_Remove i c = c\<lparr>x_activeStream := (x_activeStream c)(i := None)\<rparr>"

section \<open>Receiving\<close>

definition new_xstream :: "string \<Rightarrow> xdirection \<Rightarrow> 'd \<Rightarrow> 'd xstream" where
  "new_xstream i dir d = \<lparr>xs_streamID = i, xs_direction = dir, xs_decoder = d, xs_streamCbs = [], xs_encodedData = None\<rparr>"

text \<open>A new stream of a client: its address is the position at which it is put.\<close>

definition x_NewStream :: "string \<Rightarrow> 'd \<Rightarrow> 'd xconnection \<Rightarrow> 'd xconnection \<times> nat" where
  "x_NewStream i d c =
     (let s = new_xstream i XClientStream d in (x_Set i s (c\<lparr>xstreams := xstreams c @ [s]\<rparr>), length (xstreams c)))"

definition x_onNewStreamDetected :: "string \<Rightarrow> (string \<Rightarrow> 'd) \<Rightarrow> 'd xconnection \<Rightarrow> 'd xconnection" where
  "x_onNewStreamDetected i newStream c =
     (if x_activeStream c i \<noteq> None then c
      else
        (let s = new_xstream i XServerStream (newStream i)
         in x_Set i s (x_call (XNewStream i) (c\<lparr>xstreams := xstreams c @ [s]\<rparr>))))"

definition x_OnReceiveHeaders :: "string \<Rightarrow> (string \<rightharpoonup> string) \<Rightarrow> 'd xconnection \<Rightarrow> 'd xconnection" where
  "x_OnReceiveHeaders i headers c =
     (let c = (case x_serverCallbacks c of Some f \<Rightarrow> x_onNewStreamDetected i f c | None \<Rightarrow> c)
      in case x_activeStream c i of Some s \<Rightarrow> x_call (XReceiveHeaders (xs_decoder s) headers False) c | None \<Rightarrow> c)"

definition x_OnReceiveData :: "string \<Rightarrow> byte list \<Rightarrow> 'd xconnection \<Rightarrow> 'd xconnection" where
  "x_OnReceiveData i data c =
     (case x_activeStream c i of
        Some s \<Rightarrow>
          (let c = x_call (XReceiveData (xs_decoder s) data True) c
           in if xs_direction s = XClientStream then x_Remove (xs_streamID s) c else c)
      | None \<Rightarrow> c)"

text \<open>\<open>count\<close> is the counter that all connections of the program share.\<close>

definition x_headers :: "'d xconnection \<Rightarrow> (string \<rightharpoonup> string)" where
  "x_headers c = [ToLower ''host'' \<mapsto> x_remote c, ToLower ''path'' \<mapsto> ''/'']"

definition x_Dispatch :: "byte list \<Rightarrow> 32 word \<times> 'd xconnection \<Rightarrow> 32 word \<times> 'd xconnection" where
  "x_Dispatch data st =
     (case st of (count, c) \<Rightarrow>
        let count = (if x_serverCallbacks c \<noteq> None then count + 1 else count);
            streamID = (if x_serverCallbacks c \<noteq> None then FormatUint (unat count) else '''')
        in (count, x_OnReceiveData streamID data (x_OnReceiveHeaders streamID (x_headers c) c)))"

section \<open>Sending\<close>

definition x_endStream :: "nat \<Rightarrow> 'd xconnection \<Rightarrow> 'd xconnection" where
  "x_endStream p c =
     (let s = xstreams c ! p;
          c = (case x_activeStream c (xs_streamID s) of Some _ \<Rightarrow> x_call (XWrite (xs_encodedData s)) c | None \<Rightarrow> c)
      in if xs_direction s = XServerStream then x_Remove (xs_streamID s) c else c)"

definition x_AppendHeaders :: "nat \<Rightarrow> bool \<Rightarrow> 'd xconnection \<Rightarrow> 'd xconnection" where
  "x_AppendHeaders p endStream c = (if endStream then x_endStream p c else c)"

definition upd_xstream :: "nat \<Rightarrow> ('d xstream \<Rightarrow> 'd xstream) \<Rightarrow> 'd xconnection \<Rightarrow> 'd xconnection" where
  "upd_xstream p f c = c\<lparr>xstreams := (xstreams c)[p := f (xstreams c ! p)]\<rparr>"

definition x_AppendData :: "nat \<Rightarrow> byte list \<Rightarrow> bool \<Rightarrow> 'd xconnection \<Rightarrow> 'd xconnection" where
  "x_AppendData p data endStream c =
     (let c = upd_xstream p (\<lambda>s. s\<lparr>xs_encodedData := Some data\<rparr>) c in if endStream then x_endStream p c else c)"

definition x_AppendTrailers :: "nat \<Rightarrow> 'd xconnection \<Rightarrow> 'd xconnection" where
  "x_AppendTrailers p c = x_endStream p c"

definition x_AddEventListener :: "nat \<Rightarrow> nat \<Rightarrow> 'd xconnection \<Rightarrow> 'd xconnection" where
  "x_AddEventListener p cb c = upd_xstream p (\<lambda>s. s\<lparr>xs_streamCbs := xs_streamCbs s @ [cb]\<rparr>) c"

definition x_RemoveEventListener :: "nat \<Rightarrow> nat \<Rightarrow> 'd xconnection \<Rightarrow> 'd xconnection" where
  "x_RemoveEventListener p cb c = upd_xstream p (\<lambda>s. s\<lparr>xs_streamCbs := remove1 cb (xs_streamCbs s)\<rparr>) c"

definition x_ResetStream :: "nat \<Rightarrow> string \<Rightarrow> 'd xconnection \<Rightarrow> 'd xconnection" where
  "x_ResetStream p reason c = fold (\<lambda>cb. x_call (XResetStream cb reason)) (xs_streamCbs (xstreams c ! p)) c"

section \<open>Requests and answers\<close>

text \<open>
  The proxy names the stream of an upstream request after a header of the request, which no
  xprotocol request has: the name is empty.
\<close>

definition x_request :: "'d \<Rightarrow> byte list \<Rightarrow> 'd xconnection \<Rightarrow> 'd xconnection" where
  "x_request d data c = (case x_NewStream '''' d c of (c, p) \<Rightarrow> x_AppendData p data True (x_AppendHeaders p False c))"

lemmas x_defs = x_call_def x_Set_def x_Remove_def new_xstream_def upd_xstream_def

lemma x_request_sends:
  "xcalls (x_request d data c) = xcalls c @ [XWrite (Some data)]"
  "x_activeStream (x_request d data c) = (x_activeStream c)('''' \<mapsto> new_xstream '''' XClientStream d)"
  "x_serverCallbacks (x_request d data c) = x_serverCallbacks c" "x_remote (x_request d data c) = x_remote c"
  by (simp_all add: x_request_def x_NewStream_def x_AppendHeaders_def x_AppendData_def x_endStream_def x_defs Let_def)

lemma x_Dispatch_server:
  assumes "x_serverCallbacks c = Some f" and "x_activeStream c (FormatUint (unat (count + 1))) = None"
  shows "x_Dispatch data (count, c) = (count + 1,
    let i = FormatUint (unat (count + 1)); s = new_xstream i XServerStream (f i) in
    c\<lparr>x_activeStream := (x_activeStream c)(i \<mapsto> s), xstreams := xstreams c @ [s],
      xcalls := xcalls c @ [XNewStream i, XReceiveHeaders (f i) (x_headers c) False, XReceiveData (f i) data True]\<rparr>)"
  using assms by (simp add: x_Dispatch_def x_OnReceiveHeaders_def x_OnReceiveData_def x_onNewStreamDetected_def x_defs Let_def)

text \<open>The answer to a request is written once and ends its stream; a later one is not written.\<close>

lemma x_answer_once:
  assumes "p < length (xstreams c)" and "xs_direction (xstreams c ! p) = XServerStream"
    and "x_activeStream c (xs_streamID (xstreams c ! p)) \<noteq> None"
  shows "xcalls (x_AppendData p data True c) = xcalls c @ [XWrite (Some data)]"
    and "xcalls (x_AppendData p data' True (x_AppendData p data True c)) = xcalls c @ [XWrite (Some data)]"
  using assms by (auto simp: x_AppendData_def x_endStream_def x_defs Let_def)

section \<open>A client connection\<close>

lemma x_Dispatch_client:
  assumes "x_serverCallbacks c = None" and "x_activeStream c '''' = Some (new_xstream '''' XClientStream d)"
  shows "x_Dispatch data (count, c) =
    (count, c\<lparr>x_activeStream := (x_activeStream c)('''' := None),
       xcalls := xcalls c @ [XReceiveHeaders d (x_headers c) False, XReceiveData d data True]\<rparr>)"
  using assms by (simp add: x_Dispatch_def x_OnReceiveHeaders_def x_OnReceiveData_def x_defs Let_def)

lemma x_Dispatch_unexpected:
  assumes "x_serverCallbacks c = None" and "x_activeStream c '''' = None"
  shows "x_Dispatch data (count, c) = (count, c)"
  using assms by (simp add: x_Dispatch_def x_OnReceiveHeaders_def x_OnReceiveData_def Let_def)



end
