(* ===== verification/Access_Log.thy ===== *)
theory Access_Log
  imports Strconv
begin

text \<open>
  The access log: \<open>pkg/log/accesslog.go\<close> with the keys of \<open>pkg/types/accesslog.go\<close>. A format is
  split into keys once, when a log is made, and a line is printed for each request. How a time
  and a duration are printed, and the time since the start of a request, are functions of the
  standard library; the logger that takes the lines is left out.
\<close>

section \<open>The information on a request\<close>

record 't log_info =
  li_protocol :: string
  li_startTime :: 't
  li_responseFlag :: "64 word"
  li_upstreamHost :: "string option"
  li_requestReceivedDuration :: int
  li_responseReceivedDuration :: int
  li_bytesSent :: "64 word"
  li_bytesReceived :: "64 word"
  li_responseCode :: "32 word"
  li_localAddress :: "string option"
  li_downstreamLocalAddress :: "string option"
  li_downstreamRemoteAddress :: "string option"

record 't time_lib =
  time_Format :: "'t \<Rightarrow> string"
  duration_String :: "int \<Rightarrow> string"
  time_Since :: "'t \<Rightarrow> int"

definition FormatBool :: "bool \<Rightarrow> string" where
  "FormatBool b = (if b then ''true'' else ''false'')"

definition or_nil :: "string option \<Rightarrow> string" where
  "or_nil a = (case a of Some s \<Rightarrow> s | None \<Rightarrow> ''nil'')"

definition info_GetResponseFlag :: "64 word \<Rightarrow> 't log_info \<Rightarrow> bool" where
  "info_GetResponseFlag flag i \<longleftrightarrow> and (li_responseFlag i) flag \<noteq> 0"

definition RequestInfoFuncMap :: "'t time_lib \<Rightarrow> string \<rightharpoonup> ('t log_info \<Rightarrow> string)" where
  "RequestInfoFuncMap T =
     [''StartTime'' \<mapsto> (\<lambda>i. time_Format T (li_startTime i)),
      ''RequestReceivedDuration'' \<mapsto> (\<lambda>i. duration_String T (li_requestReceivedDuration i)),
      ''ResponseReceivedDuration'' \<mapsto> (\<lambda>i. duration_String T (li_responseReceivedDuration i)),
      ''BytesSent'' \<mapsto> (\<lambda>i. FormatUint (unat (li_bytesSent i))),
      ''BytesReceived'' \<mapsto> (\<lambda>i. FormatUint (unat (li_bytesReceived i))),
      ''Protocol'' \<mapsto> li_protocol,
      ''ResponseCode'' \<mapsto> (\<lambda>i. FormatUint (unat (li_responseCode i))),
      ''Duration'' \<mapsto> (\<lambda>i. duration_String T (time_Since T (li_startTime i))),
      ''ResponseFlag'' \<mapsto> (\<lambda>i. FormatBool (info_GetResponseFlag 0 i)),
      ''UpstreamLocalAddress'' \<mapsto> (\<lambda>i. or_nil (li_localAddress i)),
      ''DownstreamLocalAddress'' \<mapsto> (\<lambda>i. or_nil (li_downstreamLocalAddress i)),
      ''DownstreamRemoteAddress'' \<mapsto> (\<lambda>i. or_nil (li_downstreamRemoteAddress i)),
      ''UpstreamHostSelected'' \<mapsto> (\<lambda>i. or_nil (li_upstreamHost i))]"

section \<open>Formats\<close>

definition ReqHeaderPrefix :: string where "ReqHeaderPrefix = ''REQ.''"
definition RespHeaderPrefix :: string where "RespHeaderPrefix = ''RESP.''"

definition DefaultAccessLogFormat :: string where
  "DefaultAccessLogFormat =
     ''%StartTime% %RequestReceivedDuration% %ResponseReceivedDuration% %BytesSent%'' @ '' '' @
     ''%BytesReceived% %Protocol% %ResponseCode% %Duration% %ResponseFlag% %ResponseCode% %UpstreamLocalAddress%'' @ '' '' @
     ''%DownstreamLocalAddress% %DownstreamRemoteAddress% %UpstreamHostSelected%''"

definition HasPrefix :: "string \<Rightarrow> string \<Rightarrow> bool" where
  "HasPrefix s p \<longleftrightarrow> take (length p) s = p"

record accesslogformatter =
  reqInfoFormat :: "string list"
  reqHeaderFormat :: "string list"
  respHeaderFormat :: "string list"

text \<open>The first and the last character of each piece are cut off.\<close>

fun delete_percent :: "string list \<Rightarrow> string list outcome" where
  "delete_percent [] = Inr []"
| "delete_percent (s # ss) =
     obind (go_slice s 1 (int (length s) - 1)) (\<lambda>k. obind (delete_percent ss) (\<lambda>ks. Inr (k # ks)))"

definition formatToFormatter :: "string \<Rightarrow> accesslogformatter outcome" where
  "formatToFormatter format =
     obind (delete_percent (Split (CHR '' '') format)) (\<lambda>strArray.
       let reqHeaderArray = filter (\<lambda>s. HasPrefix s ReqHeaderPrefix) strArray;
           respHeaderArray = filter (\<lambda>s. \<not> HasPrefix s ReqHeaderPrefix \<and> HasPrefix s RespHeaderPrefix) strArray;
           reqInfoArray = filter (\<lambda>s. \<not> HasPrefix s ReqHeaderPrefix \<and> \<not> HasPrefix s RespHeaderPrefix) strArray
       in Inr \<lparr>reqInfoFormat = reqInfoArray, reqHeaderFormat = map (drop (length ReqHeaderPrefix)) reqHeaderArray,
               respHeaderFormat = map (drop (length RespHeaderPrefix)) respHeaderArray\<rparr>)"

definition NewAccessLogFormatter :: "string \<Rightarrow> accesslogformatter outcome" where
  "NewAccessLogFormatter format = formatToFormatter (if format = '''' then DefaultAccessLogFormat else format)"

section \<open>Lines\<close>

fun format_info :: "'t time_lib \<Rightarrow> string list \<Rightarrow> 't log_info \<Rightarrow> string" where
  "format_info T [] i = ''''"
| "format_info T (k # ks) i =
     (case RequestInfoFuncMap T k of Some f \<Rightarrow> f i @ '' '' | None \<Rightarrow> '''') @ format_info T ks i"

fun format_headers :: "string \<Rightarrow> string list \<Rightarrow> (string \<rightharpoonup> string) \<Rightarrow> string" where
  "format_headers prefix [] m = ''''"
| "format_headers prefix (k # ks) m =
     (case m k of Some v \<Rightarrow> prefix @ v @ '' '' | None \<Rightarrow> '''') @ format_headers prefix ks m"

definition Format :: "'t time_lib \<Rightarrow> accesslogformatter \<Rightarrow> (string \<rightharpoonup> string) \<Rightarrow> (string \<rightharpoonup> string) \<Rightarrow> 't log_info \<Rightarrow> string" where
  "Format T f reqHeaders respHeaders i =
     (let log = format_info T (reqInfoFormat f) i @ format_headers ReqHeaderPrefix (reqHeaderFormat f) reqHeaders @
            format_headers RespHeaderPrefix (respHeaderFormat f) respHeaders
      in if log \<noteq> '''' then butlast log else log)"

text \<open>\<open>decide\<close> is the filter of a log, \<open>printed\<close> what its logger has printed.\<close>

definition Log ::
  "'t time_lib \<Rightarrow> ((string \<rightharpoonup> string) \<Rightarrow> 't log_info \<Rightarrow> bool) option \<Rightarrow> accesslogformatter \<Rightarrow> (string \<rightharpoonup> string) \<Rightarrow> (string \<rightharpoonup> string) \<Rightarrow>
     't log_info \<Rightarrow> string list \<Rightarrow> string list" where
  "Log T decide f reqHeaders respHeaders i printed =
     (if (case decide of Some d \<Rightarrow> \<not> d reqHeaders i | None \<Rightarrow> False) then printed
      else printed @ [Format T f reqHeaders respHeaders i])"

section \<open>What a line holds\<close>

text \<open>The words of a list with a blank after each, and between them.\<close>

definition unwords :: "string list \<Rightarrow> string" where
  "unwords ws = concat (map (\<lambda>w. w @ '' '') ws)"

fun join :: "string list \<Rightarrow> string" where
  "join [] = ''''"
| "join [w] = w"
| "join (w # ws) = w @ '' '' @ join ws"

lemma unwords_append: "unwords (vs @ ws) = unwords vs @ unwords ws"
  by (simp add: unwords_def)

lemma unwords_join: "ws \<noteq> [] \<Longrightarrow> unwords ws = join ws @ '' ''"
  by (induction ws rule: join.induct) (simp_all add: unwords_def)

lemma butlast_unwords: "(if unwords ws \<noteq> '''' then butlast (unwords ws) else unwords ws) = join ws"
proof (cases "ws = []")
  case False
  then show ?thesis using unwords_join [of ws] by simp
qed (simp add: unwords_def)

definition info_words :: "'t time_lib \<Rightarrow> string list \<Rightarrow> 't log_info \<Rightarrow> string list" where
  "info_words T ks i = List.map_filter (\<lambda>k. map_option (\<lambda>f. f i) (RequestInfoFuncMap T k)) ks"

definition header_words :: "string \<Rightarrow> string list \<Rightarrow> (string \<rightharpoonup> string) \<Rightarrow> string list" where
  "header_words prefix ks m = List.map_filter (\<lambda>k. map_option (\<lambda>v. prefix @ v) (m k)) ks"

lemma format_info_words: "format_info T ks i = unwords (info_words T ks i)"
  by (induction ks) (auto simp: info_words_def unwords_def map_filter_simps simp del: fun_upd_apply split: option.splits)

lemma format_headers_words: "format_headers prefix ks m = unwords (header_words prefix ks m)"
  by (induction ks) (auto simp: header_words_def unwords_def map_filter_simps split: option.splits)

lemma Format_join:
  "Format T f req resp i = join (info_words T (reqInfoFormat f) i @ header_words ReqHeaderPrefix (reqHeaderFormat f) req @
     header_words RespHeaderPrefix (respHeaderFormat f) resp)"
  unfolding Format_def format_info_words format_headers_words Let_def by (simp only: unwords_append [symmetric] butlast_unwords)

lemma delete_percent_quoted: "delete_percent (map (\<lambda>k. ''%'' @ k @ ''%'') ks) = Inr ks"
  by (induction ks) simp_all

lemma Split_not_Nil [simp]: "Split c s \<noteq> []"
  by (induction s) (auto split: list.splits)

lemma Split_word: "c \<notin> set w \<Longrightarrow> Split c w = [w]"
  by (induction w) auto

lemma Split_word_more: "c \<notin> set w \<Longrightarrow> Split c (w @ c # s) = w # Split c s"
  by (induction w) auto

lemma Split_join: "ws \<noteq> [] \<Longrightarrow> list_all (\<lambda>w. CHR '' '' \<notin> set w) ws \<Longrightarrow> Split (CHR '' '') (join ws) = ws"
  by (induction ws rule: join.induct) (auto simp: Split_word Split_word_more)

lemma delete_percent_panics: "(\<exists>p. delete_percent ss = Inl p) \<longleftrightarrow> (\<exists>s \<in> set ss. length s < 2)"
proof (induction ss)
  case (Cons s ss)
  show ?case
  proof (cases "length s < 2")
    case True
    then have "\<exists>p. go_slice s 1 (int (length s) - 1) = Inl p" by (auto simp: go_slice_def)
    with True show ?thesis by auto
  next
    case False
    then have "\<exists>k. go_slice s 1 (int (length s) - 1) = Inr k" by (simp add: go_slice_def)
    with False Cons.IH show ?thesis by (cases "delete_percent ss") auto
  qed
qed simp

text \<open>
  C32 (functional). A format of blank-separated keys between percent signs is accepted, and the line it gives for
  a request holds one word per key that has a value, single blanks between them and none at the
  end: first the known keys of the request information, then the request headers, then the
  response headers, each in the order of the format and the headers with their prefix. A format
  is refused, with a panic, exactly when one of its pieces is shorter than two characters, such
  as the one between two blanks.
\<close>

theorem access_log_line:
  assumes "ks \<noteq> []" and "list_all (\<lambda>k. CHR '' '' \<notin> set k) ks"
  shows "(\<exists>f. formatToFormatter (join (map (\<lambda>k. ''%'' @ k @ ''%'') ks)) = Inr f \<and>
      Format T f req resp i =
        join (info_words T (filter (\<lambda>k. \<not> HasPrefix k ReqHeaderPrefix \<and> \<not> HasPrefix k RespHeaderPrefix) ks) i @
          header_words ReqHeaderPrefix (map (drop 4) (filter (\<lambda>k. HasPrefix k ReqHeaderPrefix) ks)) req @
          header_words RespHeaderPrefix (map (drop 5) (filter (\<lambda>k. \<not> HasPrefix k ReqHeaderPrefix \<and> HasPrefix k RespHeaderPrefix) ks)) resp)) \<and>
    ((\<exists>p. formatToFormatter format = Inl p) \<longleftrightarrow> (\<exists>s \<in> set (Split (CHR '' '') format). length s < 2))"
proof -
  have "Split (CHR '' '') (join (map (\<lambda>k. ''%'' @ k @ ''%'') ks)) = map (\<lambda>k. ''%'' @ k @ ''%'') ks"
    using assms by (intro Split_join) (auto simp: list_all_iff)
  then have 1: "delete_percent (Split (CHR '' '') (join (map (\<lambda>k. ''%'' @ k @ ''%'') ks))) = Inr ks"
    using delete_percent_quoted [of ks] by simp
  have 2: "(\<exists>p. formatToFormatter format = Inl p) \<longleftrightarrow> (\<exists>p. delete_percent (Split (CHR '' '') format) = Inl p)"
    by (cases "delete_percent (Split (CHR '' '') format)") (simp_all add: formatToFormatter_def Let_def)
  have "length ReqHeaderPrefix = 4" "length RespHeaderPrefix = 5" by (simp_all add: ReqHeaderPrefix_def RespHeaderPrefix_def)
  then show ?thesis unfolding 2 delete_percent_panics Format_join unfolding formatToFormatter_def 1 by (simp add: Let_def)
qed

text \<open>The flags of a request are printed as \<open>false\<close>, whatever they are.\<close>

lemma flags_never_logged: "info_words T [''ResponseFlag''] i = [''false'']"
  by (simp add: info_words_def RequestInfoFuncMap_def map_filter_simps info_GetResponseFlag_def FormatBool_def)

definition sample_lib :: "unit time_lib" where
  "sample_lib = \<lparr>time_Format = (\<lambda>_. ''t''), duration_String = (\<lambda>_. ''0s''), time_Since = (\<lambda>_. 0)\<rparr>"

definition sample_info :: "unit log_info" where
  "sample_info = \<lparr>li_protocol = ''SofaRpc'', li_startTime = (), li_responseFlag = 2, li_upstreamHost = None, li_requestReceivedDuration = 0,
     li_responseReceivedDuration = 0, li_bytesSent = 0, li_bytesReceived = 0, li_responseCode = 0, li_localAddress = None,
     li_downstreamLocalAddress = None, li_downstreamRemoteAddress = None\<rparr>"

theorem access_log_line_witness:
  "\<exists>f. formatToFormatter ''%REQ.a% %Protocol% %x%'' = Inr f \<and> Format sample_lib f [''a'' \<mapsto> ''b''] Map.empty sample_info = ''SofaRpc REQ.b''"
  using access_log_line [of "[''REQ.a'', ''Protocol'', ''x'']" sample_lib "[''a'' \<mapsto> ''b'']" Map.empty sample_info "''%''"]
  by (simp add: HasPrefix_def ReqHeaderPrefix_def RespHeaderPrefix_def info_words_def header_words_def map_filter_simps RequestInfoFuncMap_def
      sample_info_def)

end
