(* ===== verification/Config_Manager.thy ===== *)
theory Config_Manager
  imports Config_Parser
begin

text \<open>
  Changes of the configuration at run time: \<open>pkg/config/configmanager.go\<close>, \<open>dumper.go\<close> and the
  updates of \<open>callback.go\<close>. Each operation changes the configuration and has it written to its
  file in a thread of its own; here the file, if it is written, gets the configuration that the
  operation leaves. Converting the messages of the management server is done by functions that
  are arguments.
\<close>

section \<open>From clusters to their configuration\<close>

fun ClusterType_string :: "ClusterType \<Rightarrow> string" where
  "ClusterType_string STATIC_CLUSTER = ''STATIC''"
| "ClusterType_string SIMPLE_CLUSTER = ''SIMPLE''"
| "ClusterType_string DYNAMIC_CLUSTER = ''DYNAMIC''"
| "ClusterType_string EDS_CLUSTER = ''EDS''"

fun LbType_string :: "LbType \<Rightarrow> string" where
  "LbType_string LB_RANDOM = ''LB_RANDOM''"
| "LbType_string LB_ROUNDROBIN = ''LB_ROUNDROBIN''"

definition convertClusterSpec :: "string list \<Rightarrow> string list" where
  "convertClusterSpec subs = map (\<lambda>sub. sub) subs"

definition convertClusterHealthCheck :: "v2_HealthCheck \<Rightarrow> ClusterHealthCheckConfig" where
  "convertClusterHealthCheck k =
     \<lparr>hc_Protocol = vk_Protocol k, hc_Timeout = vk_Timeout k, hc_Interval = vk_Interval k, hc_IntervalJitter = vk_IntervalJitter k,
      hc_HealthyThreshold = vk_HealthyThreshold k, hc_UnhealthyThreshold = vk_HealthyThreshold k, hc_CheckPath = vk_CheckPath k,
      hc_ServiceName = vk_ServiceName k\<rparr>"

text \<open>The fields that are not set have their zero values.\<close>

definition no_subsets :: LBSubsetConfig where
  "no_subsets = \<lparr>ls_FallBackPolicy = 0, ls_DefaultSubset = Map.empty, ls_SubsetSelectors = []\<rparr>"

definition convertClusterConfig :: "v2_Cluster \<Rightarrow> ClusterConfig" where
  "convertClusterConfig c =
     \<lparr>cl_Name = cv_Name c, cl_Type = ClusterType_string (cv_ClusterType c), cl_SubType = '''', cl_LbType = LbType_string (cv_LbType c),
      cl_MaxRequestPerConn = cv_MaxRequestPerConn c, cl_ConnBufferLimitBytes = cv_ConnBufferLimitBytes c, cl_CircuitBreakers = [],
      cl_HealthCheck = convertClusterHealthCheck (cv_HealthCheck c), cl_Subscribes = convertClusterSpec (cv_Spec c), cl_Hosts = [],
      cl_LBSubsetConfig = no_subsets, cl_TLS = no_tls\<rparr>"

section \<open>Changes\<close>

text \<open>The first element with a key is replaced, and one is appended when there is none.\<close>

fun put_first :: "('a \<Rightarrow> 'k) \<Rightarrow> 'a \<Rightarrow> 'a list \<Rightarrow> 'a list" where
  "put_first key x [] = [x]"
| "put_first key x (y # ys) = (if key y = key x then x # ys else y # put_first key x ys)"

text \<open>The first element with a key is removed.\<close>

fun del_first :: "('a \<Rightarrow> 'k) \<Rightarrow> 'k \<Rightarrow> 'a list \<Rightarrow> 'a list \<times> bool" where
  "del_first key k [] = ([], False)"
| "del_first key k (y # ys) = (if key y = k then (ys, True) else (case del_first key k ys of (zs, b) \<Rightarrow> (y # zs, b)))"

definition dump :: "bool \<Rightarrow> MOSNConfig \<Rightarrow> MOSNConfig \<times> MOSNConfig option" where
  "dump dirty c = (c, if dirty then Some c else None)"

definition set_clusters :: "ClusterConfig list \<Rightarrow> MOSNConfig \<Rightarrow> MOSNConfig" where
  "set_clusters cs c = c\<lparr>mc_ClusterManager := (mc_ClusterManager c)\<lparr>cm_Clusters := cs\<rparr>\<rparr>"

definition set_pubs :: "PublishContent list \<Rightarrow> MOSNConfig \<Rightarrow> MOSNConfig" where
  "set_pubs ps c = c\<lparr>mc_ServiceRegistry := (mc_ServiceRegistry c)\<lparr>sr_ServicePubInfo := ps\<rparr>\<rparr>"

definition AddClusterConfig :: "v2_Cluster list \<Rightarrow> MOSNConfig \<Rightarrow> MOSNConfig \<times> MOSNConfig option" where
  "AddClusterConfig clusters c =
     dump True (set_clusters (fold (\<lambda>cluster. put_first cl_Name (convertClusterConfig cluster)) clusters (cm_Clusters (mc_ClusterManager c))) c)"

definition remove_clusters :: "string list \<Rightarrow> ClusterConfig list \<Rightarrow> ClusterConfig list \<times> bool" where
  "remove_clusters names cs =
     fold (\<lambda>name (cs, dirty). case del_first cl_Name name cs of (cs, b) \<Rightarrow> (cs, dirty \<or> b)) names (cs, False)"

definition removeClusterConfig :: "string list \<Rightarrow> MOSNConfig \<Rightarrow> MOSNConfig \<times> MOSNConfig option" where
  "removeClusterConfig names c =
     (case remove_clusters names (cm_Clusters (mc_ClusterManager c)) of (cs, dirty) \<Rightarrow> dump dirty (set_clusters cs c))"

text \<open>\<open>pubs\<close> lists the published services in the order in which the map is visited.\<close>

definition AddPubInfo :: "(string \<times> string) list \<Rightarrow> MOSNConfig \<Rightarrow> MOSNConfig \<times> MOSNConfig option" where
  "AddPubInfo pubs c =
     dump True (set_pubs (fold (\<lambda>(name, data). put_first pc_ServiceName \<lparr>pc_ServiceName = name, pc_PubData = data\<rparr>) pubs
       (sr_ServicePubInfo (mc_ServiceRegistry c))) c)"

definition DelPubInfo :: "string \<Rightarrow> MOSNConfig \<Rightarrow> MOSNConfig \<times> MOSNConfig option" where
  "DelPubInfo name c =
     (case del_first pc_ServiceName name (sr_ServicePubInfo (mc_ServiceRegistry c)) of (ps, dirty) \<Rightarrow> dump dirty (set_pubs ps c))"

definition ResetServiceRegistryInfo :: "v2_ApplicationInfo \<Rightarrow> string list \<Rightarrow> MOSNConfig \<Rightarrow> MOSNConfig \<times> MOSNConfig option" where
  "ResetServiceRegistryInfo appInfo subServiceList c =
     removeClusterConfig subServiceList
       (c\<lparr>mc_ServiceRegistry := \<lparr>sr_ServiceAppInfo = \<lparr>ap_AntShareCloud = ap_AntShareCloud appInfo, ap_DataCenter = ap_DataCenter appInfo,
            ap_AppName = ap_AppName appInfo\<rparr>, sr_ServicePubInfo = []\<rparr>\<rparr>)"

section \<open>Updates from a management server\<close>

text \<open>
  \<open>addCluster\<close>, \<open>addWithHosts\<close> and \<open>updateHosts\<close> are the operations of the cluster manager that
  the adapter calls, with its state and an error.
\<close>

fun update_clusters ::
  "(v2_Cluster \<Rightarrow> 'm \<Rightarrow> 'm \<times> 'e option) \<Rightarrow> (v2_Cluster \<Rightarrow> HostConfig list \<Rightarrow> 'm \<Rightarrow> 'm \<times> 'e option) \<Rightarrow> v2_Cluster list \<Rightarrow> 'm \<Rightarrow> 'm \<times> 'e option" where
  "update_clusters addCluster addWithHosts [] m = (m, None)"
| "update_clusters addCluster addWithHosts (cluster # clusters) m =
     (case (if cv_ClusterType cluster = EDS_CLUSTER then addCluster cluster m else addWithHosts cluster (cv_Hosts cluster) m) of
        (m, Some err) \<Rightarrow> (m, Some err)
      | (m, None) \<Rightarrow> update_clusters addCluster addWithHosts clusters m)"

definition OnUpdateClusters ::
  "('p list \<Rightarrow> v2_Cluster list) \<Rightarrow> (v2_Cluster \<Rightarrow> 'm \<Rightarrow> 'm \<times> 'e option) \<Rightarrow> (v2_Cluster \<Rightarrow> HostConfig list \<Rightarrow> 'm \<Rightarrow> 'm \<times> 'e option) \<Rightarrow> 'p list \<Rightarrow> 'm \<Rightarrow> 'm \<times> 'e option" where
  "OnUpdateClusters convertClusters addCluster addWithHosts clusters m = update_clusters addCluster addWithHosts (convertClusters clusters) m"

fun update_hosts :: "(string \<Rightarrow> HostConfig list \<Rightarrow> 'm \<Rightarrow> 'm \<times> 'e option) \<Rightarrow> (string \<times> HostConfig list) list \<Rightarrow> 'm \<Rightarrow> 'm \<times> 'e option" where
  "update_hosts updateHosts [] m = (m, None)"
| "update_hosts updateHosts ((name, hosts) # as) m =
     (case updateHosts name hosts m of (m, Some err) \<Rightarrow> (m, Some err) | (m, None) \<Rightarrow> update_hosts updateHosts as m)"

definition OnUpdateEndpoints ::
  "('p \<Rightarrow> HostConfig list) \<Rightarrow> (string \<Rightarrow> HostConfig list \<Rightarrow> 'm \<Rightarrow> 'm \<times> 'e option) \<Rightarrow> (string \<times> 'p list) list \<Rightarrow> 'm \<Rightarrow> 'm \<times> 'e option" where
  "OnUpdateEndpoints convertEndpoints updateHosts loadAssignments m =
     update_hosts updateHosts (concat (map (\<lambda>(name, eps). map (\<lambda>ep. (name, convertEndpoints ep)) eps) loadAssignments)) m"

section \<open>Lists with keys\<close>

lemma put_first_lookup:
  "find (\<lambda>y. key y = k) (put_first key x ys) = (if key x = k then Some x else find (\<lambda>y. key y = k) ys)"
  by (induction ys) auto

lemma put_first_mem: "x \<in> set (put_first key x ys)"
  by (induction ys) auto

lemma put_first_keys: "key ` set (put_first key x ys) = insert (key x) (key ` set ys)"
  by (induction ys) auto

lemma put_first_distinct: "distinct (map key ys) \<Longrightarrow> distinct (map key (put_first key x ys))"
  using put_first_keys [of key x] by (induction ys) auto

lemma del_first_keys:
  "distinct (map key ys) \<Longrightarrow> fst (del_first key k ys) = filter (\<lambda>y. key y \<noteq> k) ys \<and> (snd (del_first key k ys) \<longleftrightarrow> k \<in> key ` set ys)"
proof (induction ys)
  case (Cons y ys)
  then have "key y = k \<Longrightarrow> filter (\<lambda>y. key y \<noteq> k) ys = ys" by (intro filter_True) (auto simp: image_iff)
  with Cons show ?case by (cases "del_first key k ys") auto
qed simp

lemma fold_put_lookup:
  "find (\<lambda>y. key y = k) (fold (\<lambda>x. put_first key (f x)) xs ys) =
     (case find (\<lambda>x. key (f x) = k) (rev xs) of Some x \<Rightarrow> Some (f x) | None \<Rightarrow> find (\<lambda>y. key y = k) ys)"
  by (induction xs rule: rev_induct) (auto simp: put_first_lookup)

lemma fold_put_distinct: "distinct (map key ys) \<Longrightarrow> distinct (map key (fold (\<lambda>x. put_first key (f x)) xs ys))"
  by (induction xs arbitrary: ys) (simp_all add: put_first_distinct)

section \<open>Reading back what was written\<close>

text \<open>What is left of a cluster after it was written to the file and read from it.\<close>

definition read_back :: "v2_Cluster \<Rightarrow> v2_Cluster" where
  "read_back v = v\<lparr>cv_CirBreThresholds := [], cv_LBSubSetConfig := no_subsets, cv_TLS := no_tls, cv_Hosts := [],
     cv_HealthCheck := (if vk_Protocol (cv_HealthCheck v) = '''' then no_check
       else (cv_HealthCheck v)\<lparr>vk_ProtocolCode := 0, vk_UnhealthyThreshold := vk_HealthyThreshold (cv_HealthCheck v)\<rparr>)\<rparr>"

lemma LbType_back: "lbTypeMap (LbType_string t) = Some t" "LbType_string t \<noteq> ''''"
  by (cases t; simp add: lbTypeMap_def)+

lemma ClusterType_back:
  "clusterTypeMap (ClusterType_string t) = (if t = SIMPLE_CLUSTER \<or> t = DYNAMIC_CLUSTER then Some t else None)" "ClusterType_string t \<noteq> ''''"
  by (cases t; simp add: clusterTypeMap_def)+

lemma no_tls_back: "parseTLSConfig no_tls = Inr no_tls"
  by (simp add: parseTLSConfig_def no_tls_def pbind_def require_def)

lemma health_back:
  assumes "vk_Protocol k = '''' \<or> protocolsSupported (vk_Protocol k)"
  shows "parseClusterHealthCheckConf (convertClusterHealthCheck k) =
    Inr (if vk_Protocol k = '''' then no_check else k\<lparr>vk_ProtocolCode := 0, vk_UnhealthyThreshold := vk_HealthyThreshold k\<rparr>)"
  using assms by (auto simp: parseClusterHealthCheckConf_def convertClusterHealthCheck_def)

lemma parseCluster_back:
  assumes "wf_cluster v"
  shows "parseCluster (convertClusterConfig v) = Inr (read_back v, [])"
proof -
  have v: "cv_Name v \<noteq> ''''" "cv_ClusterType v = SIMPLE_CLUSTER \<or> cv_ClusterType v = DYNAMIC_CLUSTER" "cv_MaxRequestPerConn v \<noteq> 0" "cv_ConnBufferLimitBytes v \<noteq> 0"
    "vk_Protocol (cv_HealthCheck v) = '''' \<or> protocolsSupported (vk_Protocol (cv_HealthCheck v))"
    using assms by (auto simp: wf_cluster_def no_check_def)
  show ?thesis using v(1-4)
    by (simp add: parseCluster_def convertClusterConfig_def pbind_def require_def lookup_type_def ClusterType_back LbType_back health_back [OF v(5)]
        no_tls_back parseCircuitBreakers_def parseHostConfig_def parseConfigSpecConfig_def convertClusterSpec_def no_subsets_def read_back_def Let_def)
qed

lemma parse_all_fails: "x \<in> set xs \<Longrightarrow> f x = Inl e \<Longrightarrow> \<exists>e. parse_all f xs = Inl e"
proof -
  assume x: "x \<in> set xs" "f x = Inl e"
  { fix ys assume "parse_all f xs = Inr ys"
    then have "\<exists>y. f x = Inr y" using x(1) by (auto simp: parse_all_Inr in_set_conv_nth list_all2_conv_all_nth)
    with x(2) have False by simp }
  then show ?thesis by (cases "parse_all f xs") auto
qed


definition empty_config :: MOSNConfig where
  "empty_config = \<lparr>mc_Servers = [], mc_ClusterManager = \<lparr>cm_AutoDiscovery = False, cm_RegistryUseHealthCheck = False, cm_Clusters = []\<rparr>,
     mc_ServiceRegistry = \<lparr>sr_ServiceAppInfo = \<lparr>ap_AntShareCloud = False, ap_DataCenter = '''', ap_AppName = ''''\<rparr>, sr_ServicePubInfo = []\<rparr>,
     mc_RawDynamicResources = [], mc_RawStaticResources = []\<rparr>"

definition added_cluster :: "ClusterType \<Rightarrow> v2_Cluster" where
  "added_cluster t = \<lparr>cv_Name = ''a'', cv_ClusterType = t, cv_LbType = LB_RANDOM, cv_MaxRequestPerConn = 1, cv_ConnBufferLimitBytes = 1,
     cv_CirBreThresholds = [], cv_HealthCheck = no_check, cv_Spec = [], cv_LBSubSetConfig = no_subsets, cv_TLS = no_tls, cv_Hosts = []\<rparr>"


end
