(* ===== verification/Spec2Isabelle.thy ===== *)
theory Spec2Isabelle
  imports Bolt_Protocols Cluster_Manager Subset_LB Health_Check Proxy_Filters Sofa_Relay Basic_Router Codec_Client Mosn_Start Conn_Transfer Tcp_Proxy Xprotocol_Stream Access_Log Config_Manager
begin

text \<open>
  The program is a proxy for remote procedure calls. A process has servers with listeners. A
  listener accepts sockets; each becomes a connection with a chain of network filters. One
  filter is the proxy for streams: it decodes the Bolt protocol, makes a stream of each request,
  chooses a route, a cluster, a host and a connection pool for it, relays request and response,
  and retries, delays or ends it. Another filter relays plain TCP. Clusters are kept by a
  manager, with load balancers, health checks and circuit breakers.

  \<^bold>\<open>Conventions.\<close> A Go function is a function on explicit state. A panic is a value: \<open>outcome\<close> of
  \<open>Mosn_Prelude\<close> is a \<open>go_panic\<close> or a result. A loop that need not end is a partial function
  into \<open>option\<close>, where \<open>None\<close> is not returning; \<open>run\<close> of \<open>Conn_Handler\<close> is both. A run that ends
  the process is a value of \<open>exit\<close> in \<open>Config_Parser\<close>. Go integers are words of their width where
  they can wrap. Sockets, clocks, random numbers, the iteration order of maps, pools of buffers
  and third-party packages are arguments. What a component does to others is a list of calls in
  its state. Operations that run concurrently are steps of an inductive relation at the grain of
  their locks and atomic operations.

  \<^bold>\<open>Buffers and codecs.\<close> \<open>IoBuffer\<close> models \<open>pkg/network/buffer/iobuffer.go\<close>: every run of its
  operations refines a queue of bytes, and reading once returns. \<open>Serialize\<close> models
  \<open>pkg/protocol/serialize\<close> with its round trip; \<open>Strconv\<close> the conversions of numbers. \<open>Bolt_Codec\<close>
  models the commands and codecs of \<open>pkg/protocol/sofarpc\<close>: round trips of both versions, and
  that a part of a frame is left alone. \<open>Sofa_Headers\<close> models commands as string maps
  (\<open>adapter.go\<close>): a forwarded request is intact. \<open>Bolt_Protocols\<close> models the handlers and the
  dispatch over protocols: frames are delivered in order, whatever follows them.

  \<^bold>\<open>Streams.\<close> \<open>Sofa_Stream\<close> models \<open>pkg/stream/sofarpc\<close>: no more responses than requests are
  written. \<open>Codec_Client\<close> models \<open>pkg/stream/codecclient.go\<close>: each stream is destroyed once.
  \<open>Downstream\<close> and \<open>Proxy_Filters\<close> model a proxied request of \<open>pkg/proxy\<close> and the stream filters,
  \<open>Retry\<close> the retries and timeouts. \<open>Downstream_Properties\<close> shows that a request and its response
  are forwarded, that nothing follows the end of a response, that a stream is cleaned once, and
  which requests leak. \<open>Sofa_Relay\<close> joins these: the bytes of a request that arrive on one
  connection leave on the other, and those of the response come back. \<open>Xprotocol_Stream\<close> models
  \<open>pkg/stream/xprotocol/stream.go\<close> and shows how responses reach the wrong request.

  \<^bold>\<open>Routing and upstream.\<close> \<open>Router\<close> and \<open>Basic_Router\<close> model \<open>pkg/router\<close>: the longest wildcard wins,
  and the order of criteria does not matter. \<open>Load_Balancer\<close>, \<open>Subset_LB\<close>, \<open>Cluster\<close>,
  \<open>Cluster_Manager\<close>, \<open>Resource_Manager\<close> and \<open>Health_Check\<close> model \<open>pkg/upstream\<close>: round robin visits
  all hosts, a subset has the hosts that match it, host updates have their specification, pools
  belong to healthy hosts, requests in flight are bounded by the limit and the number of callers,
  and the health of a host follows its results.

  \<^bold>\<open>Network and process.\<close> \<open>Filter_Manager\<close> and \<open>Net_Connection\<close> model \<open>filtermanager.go\<close> and
  \<open>connection.go\<close> of \<open>pkg/network\<close>: filters are started in order, bytes are written in order and,
  on a socket that takes them, all delivered, and a connection is closed once. \<open>Tcp_Proxy\<close> models
  \<open>pkg/filter/network\<close>: relaying, closing and connecting. \<open>Conn_Handler\<close> models
  \<open>pkg/server/handler.go\<close> and \<open>pkg/network/listener.go\<close>: connections are counted, except those
  closed too early. \<open>Conn_Transfer\<close> models \<open>pkg/network/transfer.go\<close>, by which a new process takes
  over connections. \<open>Mosn_Start\<close> models \<open>pkg/server/server.go\<close> and \<open>cmd/mosn/starter.go\<close>.
  \<open>Config_Parser\<close> and \<open>Config_Manager\<close> model \<open>pkg/config\<close>: which configurations are accepted, and
  what is left of a cluster that was written back. \<open>Access_Log\<close> models \<open>pkg/log/accesslog.go\<close>.

  \<^bold>\<open>Interfaces.\<close> \<open>io_reader\<close> and \<open>byte_sink\<close> (\<open>IoBuffer\<close>) are the contracts of readers and writers,
  \<open>transfer_socket\<close> extends the first; \<open>frame_decoder\<close> (\<open>Bolt_Codec\<close>) is what the dispatch relies on
  of a codec, \<open>host_chooser\<close> (\<open>Load_Balancer\<close>) of a balancer; \<open>response_invariant\<close>,
  \<open>stream_invariant\<close> and \<open>filter_invariant\<close> turn a law per operation into one of whole runs. Each is
  interpreted on the definitions of the model.

  \<^bold>\<open>Bounds.\<close> No definition has fuel. \<open>ReadOnceLoop\<close>, \<open>ReadFrom\<close>, \<open>protocols_Decode\<close>, \<open>doWriteIo\<close>,
  \<open>flush_write\<close> and \<open>recv_loop\<close> are partial, and the theorems on them state that they return. In
  \<open>Tcp_Proxy\<close> the list of dials bounds how often connecting is tried again.

  \<^bold>\<open>Not modelled.\<close> HTTP and HTTP2 streams and their pools are written on third-party packages, TLS on
  \<open>crypto/tls\<close>; the xDS client and the conversion of its messages on generated protocol buffers,
  whose code is generated too. The pool of xprotocol connections has the structure of the
  SofaRPC pool. Of the proxy filter, its construction and its counters are left out, as are the
  registry of statistics, log files and their rotation, signals, the command line, the wrappers
  of \<open>sync.Pool\<close>, and declarations of interfaces. Each of these is I/O, construction or glue
  around code that is not among the sources.
\<close>

end
